(* ===== verification/Prelude.thy ===== *)
theory Prelude
  imports Complex_Main "HOL-Library.Char_ord" "HOL-Library.List_Lexorder" "HOL-Library.Product_Lexorder"
    "HOL-Library.Sublist"
begin

text \<open>
  What every component of the development shares: JavaScript values, strings and their
  trimming, decimal and ISO rendering, results with thrown errors as values, SQLite tables
  as lists of rows with the lookup and update lemmas, and two interfaces stated as locales:
  a table with a primary key, and an entity whose status only moves forward.
\<close>

named_theorems row_simps \<open>lookup, insertion and update in keyed tables\<close>

section \<open>Results\<close>

text \<open>
  A thrown JavaScript error, or a constraint failure of SQLite, is a value. The failing
  operation runs inside \<open>BEGIN IMMEDIATE\<close>, so the caller keeps the state it had.
\<close>

datatype error =
    Thrown string            \<comment> \<open>\<open>throw new Error(message)\<close>\<close>
  | TypeErr string           \<comment> \<open>\<open>throw new TypeError(message)\<close>\<close>
  | Coded string string      \<comment> \<open>an error with a \<open>code\<close> property, and its message\<close>
  | UniqueViolation string   \<comment> \<open>a UNIQUE or PRIMARY KEY constraint of the named table\<close>
  | ForeignKeyViolation string
  | CheckViolation string

type_synonym 'a result = "error + 'a"

definition ok :: "'a result \<Rightarrow> bool" where
  "ok r \<longleftrightarrow> (case r of Inl _ \<Rightarrow> False | Inr _ \<Rightarrow> True)"

text \<open>The state an operation leaves behind: its own on success, the old one on a throw.\<close>

definition committed :: "'s \<Rightarrow> ('s \<times> 'a) result \<Rightarrow> 's" where
  "committed s r = (case r of Inl _ \<Rightarrow> s | Inr (s', _) \<Rightarrow> s')"

lemma ok_simps [simp]: "ok (Inr x)" "\<not> ok (Inl e)"
  by (simp_all add: ok_def)

lemma committed_simps [simp]: "committed s (Inl e) = s" "committed s (Inr (s', x)) = s'"
  by (simp_all add: committed_def)

section \<open>JavaScript values\<close>

text \<open>
  Numbers are rationals (every finite double is one) or one of the three non-finite values.
  Objects are association lists in insertion order. Strings are lists of code units; the
  model's alphabet is the first 256 of them.
\<close>

datatype jsnum = Fin rat | NaN | PosInf | NegInf

datatype js = Undef | Null | JBool bool | JNum jsnum | JStr string
  | JArr "js list" | JObj "(string \<times> js) list" | JFun

abbreviation jint :: "int \<Rightarrow> js" where
  "jint i \<equiv> JNum (Fin (of_int i))"

definition max_safe :: int where
  "max_safe = 9007199254740991"

text \<open>\<open>Number.isInteger\<close> and \<open>Number.isSafeInteger\<close>: the integer, when there is one.\<close>

definition js_int :: "js \<Rightarrow> int option" where
  "js_int v = (case v of
      JNum (Fin q) \<Rightarrow> (if of_int \<lfloor>q\<rfloor> = q then Some \<lfloor>q\<rfloor> else None)
    | _ \<Rightarrow> None)"

definition js_safe_int :: "js \<Rightarrow> int option" where
  "js_safe_int v = (case js_int v of
      Some i \<Rightarrow> (if \<bar>i\<bar> \<le> max_safe then Some i else None)
    | None \<Rightarrow> None)"

text \<open>Property access: a missing property, or a value that is not an object, gives \<open>undefined\<close>.\<close>

definition jget :: "string \<Rightarrow> js \<Rightarrow> js" where
  "jget k v = (case v of
      JObj ps \<Rightarrow> (case map_of ps k of Some x \<Rightarrow> x | None \<Rightarrow> Undef)
    | _ \<Rightarrow> Undef)"

definition jhas :: "string \<Rightarrow> js \<Rightarrow> bool" where
  "jhas k v = (case v of JObj ps \<Rightarrow> map_of ps k \<noteq> None | _ \<Rightarrow> False)"

text \<open>Property assignment keeps the position of an existing key and appends a new one.\<close>

fun assoc_set :: "string \<Rightarrow> js \<Rightarrow> (string \<times> js) list \<Rightarrow> (string \<times> js) list" where
  "assoc_set k v [] = [(k, v)]"
| "assoc_set k v ((k', v') # ps) = (if k' = k then (k, v) # ps else (k', v') # assoc_set k v ps)"

definition jset :: "string \<Rightarrow> js \<Rightarrow> js \<Rightarrow> js" where
  "jset k v j = (case j of JObj ps \<Rightarrow> JObj (assoc_set k v ps) | _ \<Rightarrow> j)"

definition jdelete :: "string \<Rightarrow> js \<Rightarrow> js" where
  "jdelete k j = (case j of JObj ps \<Rightarrow> JObj (filter (\<lambda>p. fst p \<noteq> k) ps) | _ \<Rightarrow> j)"

text \<open>\<open>a ?? b\<close> and the truth value of a value in a condition.\<close>

definition nullish :: "js \<Rightarrow> bool" where
  "nullish v \<longleftrightarrow> v = Undef \<or> v = Null"

definition coalesce :: "js \<Rightarrow> js \<Rightarrow> js" where
  "coalesce a b = (if nullish a then b else a)"

definition truthy :: "js \<Rightarrow> bool" where
  "truthy v = (case v of
      Undef \<Rightarrow> False | Null \<Rightarrow> False | JBool b \<Rightarrow> b
    | JNum n \<Rightarrow> \<not> (n = Fin 0 \<or> n = NaN) | JStr s \<Rightarrow> s \<noteq> [] | _ \<Rightarrow> True)"

definition is_plain_object :: "js \<Rightarrow> bool" where
  "is_plain_object v \<longleftrightarrow> (case v of JObj _ \<Rightarrow> True | _ \<Rightarrow> False)"

lemma map_of_assoc_set: "map_of (assoc_set k v ps) k' = (if k' = k then Some v else map_of ps k')"
  by (induction k v ps rule: assoc_set.induct) auto

lemma jget_jset: "is_plain_object j \<Longrightarrow> jget k' (jset k v j) = (if k' = k then v else jget k' j)"
  by (auto simp: jget_def jset_def is_plain_object_def map_of_assoc_set split: js.splits)

lemma is_plain_object_jset [simp]: "is_plain_object (jset k v j) = is_plain_object j"
  by (auto simp: jset_def is_plain_object_def split: js.splits)

lemma map_of_filter_neq: "map_of (filter (\<lambda>p. fst p \<noteq> k) ps) k' = (if k' = k then None else map_of ps k')"
  by (induction ps) auto

lemma jget_jdelete: "jget k' (jdelete k j) = (if k' = k then Undef else jget k' j)"
  by (auto simp: jget_def jdelete_def map_of_filter_neq split: js.splits)

lemma js_int_jint [simp]: "js_int (jint i) = Some i"
  by (simp add: js_int_def)

lemma js_safe_int_jint [simp]: "js_safe_int (jint i) = (if \<bar>i\<bar> \<le> max_safe then Some i else None)"
  by (simp add: js_safe_int_def)

lemma js_safe_int_bound: "js_safe_int v = Some i \<Longrightarrow> \<bar>i\<bar> \<le> max_safe"
  by (auto simp: js_safe_int_def split: option.splits if_splits)

section \<open>Strings\<close>

text \<open>\<open>String.prototype.trim\<close> on the model's alphabet (TAB, LF, VT, FF, CR, space, NBSP).\<close>

definition js_space :: "char \<Rightarrow> bool" where
  "js_space c \<longleftrightarrow> of_char c \<in> {9, 10, 11, 12, 13, 32, 160 :: nat}"

definition js_trim :: "string \<Rightarrow> string" where
  "js_trim s = rev (dropWhile js_space (rev (dropWhile js_space s)))"

lemma js_trim_idem: "js_trim (js_trim s) = js_trim s"
proof -
  let ?a = "dropWhile js_space s"
  let ?b = "rev (dropWhile js_space (rev ?a))"
  have "dropWhile js_space ?b = ?b"
  proof (cases ?b)
    case (Cons c cs)
    have "suffix (rev ?b) (rev ?a)" by (simp add: suffix_dropWhile)
    then obtain zs where zs: "?a = ?b @ zs" by (auto simp: suffix_to_prefix prefix_def)
    then have "?a \<noteq> []" "hd ?a = c" using Cons by auto
    then have "\<not> js_space c" using hd_dropWhile [of js_space s] by simp
    then show ?thesis unfolding Cons by simp
  next
    case Nil
    show ?thesis unfolding Nil by simp
  qed
  then show ?thesis unfolding js_trim_def by (simp add: dropWhile_idem)
qed

text \<open>\<open>Buffer.byteLength(s, "utf8")\<close>: one byte below 128, two up to 255.\<close>

definition utf8_len :: "string \<Rightarrow> nat" where
  "utf8_len s = sum_list (map (\<lambda>c. if (of_char c :: nat) < 128 then 1 else 2) s)"

fun join_with :: "string \<Rightarrow> string list \<Rightarrow> string" where
  "join_with sep [] = []"
| "join_with sep [x] = x"
| "join_with sep (x # y # ys) = x @ sep @ join_with sep (y # ys)"

lemma utf8_len_Nil [simp]: "utf8_len [] = 0"
  by (simp add: utf8_len_def)

lemma utf8_len_append [simp]: "utf8_len (s @ t) = utf8_len s + utf8_len t"
  by (simp add: utf8_len_def)

text \<open>\<open>String(n)\<close> for an integer.\<close>

definition digit_char :: "nat \<Rightarrow> char" where
  "digit_char d = char_of (48 + d mod 10)"

fun show_nat :: "nat \<Rightarrow> string" where
  "show_nat n = (if n < 10 then [digit_char n] else show_nat (n div 10) @ [digit_char n])"

declare show_nat.simps [simp del]

definition show_int :: "int \<Rightarrow> string" where
  "show_int i = (if i < 0 then CHR ''-'' # show_nat (nat (- i)) else show_nat (nat i))"

definition pad :: "nat \<Rightarrow> int \<Rightarrow> string" where
  "pad w i = (let s = show_nat (nat i) in replicate (w - length s) (CHR ''0'') @ s)"

text \<open>
  \<open>new Date(ms).toISOString()\<close>: the proleptic Gregorian date of a day number counted from
  1970-01-01, then the fields of the day. A time value beyond 8.64e15 ms is an invalid date.
\<close>

definition civil_from_days :: "int \<Rightarrow> int \<times> int \<times> int" where
  "civil_from_days z = (let
      z = z + 719468;
      era = z div 146097;
      doe = z mod 146097;
      yoe = (doe - doe div 1460 + doe div 36524 - doe div 146096) div 365;
      doy = doe - (365 * yoe + yoe div 4 - yoe div 100);
      mp = (5 * doy + 2) div 153;
      d = doy - (153 * mp + 2) div 5 + 1;
      m = (if mp < 10 then mp + 3 else mp - 9);
      y = yoe + era * 400
    in (if m \<le> 2 then y + 1 else y, m, d))"

definition iso_year :: "int \<Rightarrow> string" where
  "iso_year y = (if 0 \<le> y \<and> y \<le> 9999 then pad 4 y
    else if y < 0 then CHR ''-'' # pad 6 (- y) else CHR ''+'' # pad 6 y)"

definition iso_string :: "int \<Rightarrow> string result" where
  "iso_string ms = (if \<bar>ms\<bar> > 8640000000000000 then Inl (Thrown ''Invalid time value'')
    else let days = ms div 86400000; t = ms mod 86400000; (y, m, d) = civil_from_days days
      in Inr (iso_year y @ ''-'' @ pad 2 m @ ''-'' @ pad 2 d @ ''T'' @ pad 2 (t div 3600000) @ '':''
        @ pad 2 (t div 60000 mod 60) @ '':'' @ pad 2 (t div 1000 mod 60) @ ''.'' @ pad 3 (t mod 1000) @ ''Z''))"

end
