(* ===== verification/Tables.thy ===== *)
theory Tables
  imports Prelude
begin

text \<open>
  SQLite tables as lists of rows in rowid order. \<open>find_row\<close> is a SELECT by primary key,
  \<open>add_row\<close> an INSERT, \<open>update_where\<close> an UPDATE with a WHERE clause and \<open>changes\<close> its
  \<open>changes\<close> count. Two interfaces are stated as locales and used by every store:
  \<open>keyed_table\<close> (a table with a primary key) and \<open>forward_status\<close> (operations that move
  the status of every entity along a fixed order only).
\<close>

definition find_row :: "('r \<Rightarrow> 'k) \<Rightarrow> 'r list \<Rightarrow> 'k \<Rightarrow> 'r option" where
  "find_row key t k = find (\<lambda>r. key r = k) t"

definition add_row :: "'r \<Rightarrow> 'r list \<Rightarrow> 'r list" where
  "add_row r t = t @ [r]"

definition update_where :: "('r \<Rightarrow> bool) \<Rightarrow> ('r \<Rightarrow> 'r) \<Rightarrow> 'r list \<Rightarrow> 'r list" where
  "update_where p f t = map (\<lambda>r. if p r then f r else r) t"

definition modify_row :: "('r \<Rightarrow> 'k) \<Rightarrow> 'k \<Rightarrow> ('r \<Rightarrow> 'r) \<Rightarrow> 'r list \<Rightarrow> 'r list" where
  "modify_row key k f t = update_where (\<lambda>r. key r = k) f t"

definition changes :: "('r \<Rightarrow> bool) \<Rightarrow> 'r list \<Rightarrow> nat" where
  "changes p t = length (filter p t)"

definition unique_key :: "('r \<Rightarrow> 'k) \<Rightarrow> 'r list \<Rightarrow> bool" where
  "unique_key key t \<longleftrightarrow> distinct (map key t)"

text \<open>\<open>ORDER BY\<close> on a nullable integer column: NULL sorts first.\<close>

definition null_first :: "int option \<Rightarrow> bool \<times> int" where
  "null_first x = (case x of None \<Rightarrow> (False, 0) | Some i \<Rightarrow> (True, i))"

section \<open>Lookup, insertion and update\<close>

lemma find_row_Nil [simp]: "find_row key [] k = None"
  by (simp add: find_row_def)

lemma find_row_Cons: "find_row key (r # t) k = (if key r = k then Some r else find_row key t k)"
  by (simp add: find_row_def)

lemma find_row_SomeD: "find_row key t k = Some r \<Longrightarrow> key r = k \<and> r \<in> set t"
  by (auto simp: find_row_def find_Some_iff)

lemma find_row_None_iff: "find_row key t k = None \<longleftrightarrow> (\<forall>r \<in> set t. key r \<noteq> k)"
  by (auto simp: find_row_def find_None_iff)

lemma find_row_add_row [row_simps]:
  "find_row key (add_row r t) k =
     (case find_row key t k of Some x \<Rightarrow> Some x | None \<Rightarrow> if key r = k then Some r else None)"
  by (induction t) (auto simp: add_row_def find_row_Cons)

lemma find_row_update [row_simps]:
  assumes "\<And>r. key (f r) = key r"
  shows "find_row key (update_where p f t) k = map_option (\<lambda>r. if p r then f r else r) (find_row key t k)"
  using assms by (induction t) (auto simp: update_where_def find_row_Cons)

lemma find_row_modify [row_simps]:
  assumes "\<And>r. key (f r) = key r"
  shows "find_row key (modify_row key k f t) k' = (if k' = k then map_option f (find_row key t k) else find_row key t k')"
  using assms by (induction t) (auto simp: modify_row_def update_where_def find_row_Cons)

lemma map_key_update_where: "(\<And>r. key (f r) = key r) \<Longrightarrow> map key (update_where p f t) = map key t"
  by (induction t) (auto simp: update_where_def)

lemma unique_key_update_where: "(\<And>r. key (f r) = key r) \<Longrightarrow> unique_key key (update_where p f t) = unique_key key t"
  by (simp add: unique_key_def map_key_update_where)

lemma unique_key_modify_row: "(\<And>r. key (f r) = key r) \<Longrightarrow> unique_key key (modify_row key k f t) = unique_key key t"
  by (simp add: modify_row_def unique_key_update_where)

lemma unique_key_add_row:
  "unique_key key (add_row r t) \<longleftrightarrow> unique_key key t \<and> find_row key t (key r) = None"
  by (auto simp: unique_key_def add_row_def find_row_None_iff image_iff)

lemma unique_key_filter: "unique_key key t \<Longrightarrow> unique_key key (filter p t)"
  by (simp add: unique_key_def distinct_map_filter)

lemma find_row_unique: "unique_key key t \<Longrightarrow> r \<in> set t \<Longrightarrow> find_row key t (key r) = Some r"
  by (induction t) (auto simp: unique_key_def find_row_Cons image_iff)

lemma find_row_filter: "unique_key key t \<Longrightarrow>
    find_row key (filter p t) k = (case find_row key t k of Some r \<Rightarrow> if p r then Some r else None | None \<Rightarrow> None)"
  by (induction t) (auto simp: unique_key_def find_row_Cons find_row_None_iff image_iff split: option.split dest!: find_row_SomeD)

lemma set_update_where: "set (update_where p f t) = (\<lambda>r. if p r then f r else r) ` set t"
  by (simp add: update_where_def)

lemma update_where_from:
  assumes "r' \<in> set (update_where p f t)" and "\<And>r. p r \<Longrightarrow> R r (f r)" and "\<And>r. R r r"
  shows "\<exists>r \<in> set t. R r r'"
  using assms by (auto simp: set_update_where)

lemma set_add_row [simp]: "set (add_row r t) = insert r (set t)"
  by (auto simp: add_row_def)

lemma length_update_where [simp]: "length (update_where p f t) = length t"
  by (simp add: update_where_def)

lemma update_where_none: "(\<And>r. r \<in> set t \<Longrightarrow> \<not> p r) \<Longrightarrow> update_where p f t = t"
  by (induction t) (auto simp: update_where_def)

lemma changes_0_iff: "changes p t = 0 \<longleftrightarrow> (\<forall>r \<in> set t. \<not> p r)"
  by (auto simp: changes_def filter_empty_conv)

lemma changes_key: "unique_key key t \<Longrightarrow>
   changes (\<lambda>r. key r = k \<and> q r) t = (case find_row key t k of Some r \<Rightarrow> if q r then 1 else 0 | None \<Rightarrow> 0)"
proof (induction t)
  case (Cons r t)
  have fresh: "key r = k \<Longrightarrow> find_row key t k = None"
    using Cons.prems by (auto simp: unique_key_def find_row_None_iff image_iff)
  show ?case
    using Cons fresh by (cases "find_row key t k") (auto simp: changes_def unique_key_def find_row_Cons)
qed (simp add: changes_def)

lemma filter_update_where_same:
  "(\<And>r. r \<in> set t \<Longrightarrow> p r \<Longrightarrow> q (f r) = q r) \<Longrightarrow>
   length (filter q (update_where p f t)) = length (filter q t)"
  by (induction t) (auto simp: update_where_def)

text \<open>\<open>ORDER BY ... LIMIT 1\<close>.\<close>

lemma first_sorted_mem: "(case sort_key k t of [] \<Rightarrow> None | r # _ \<Rightarrow> Some r) = Some x \<Longrightarrow> x \<in> set t"
  by (cases "sort_key k t") (auto, metis list.set_intros(1) set_sort)

section \<open>A table with a primary key\<close>

locale keyed_table =
  fixes lookup :: "'t \<Rightarrow> 'k \<Rightarrow> 'r option"
    and insert_row :: "'r \<Rightarrow> 't \<Rightarrow> 't"
    and modify :: "'k \<Rightarrow> ('r \<Rightarrow> 'r) \<Rightarrow> 't \<Rightarrow> 't"
    and key :: "'r \<Rightarrow> 'k"
    and inv :: "'t \<Rightarrow> bool"
  assumes lookup_insert: "lookup t (key r) = None \<Longrightarrow> lookup (insert_row r t) k = (if k = key r then Some r else lookup t k)"
    and lookup_modify: "(\<And>r. key (f r) = key r) \<Longrightarrow>
      lookup (modify k f t) k' = (if k' = k then map_option f (lookup t k) else lookup t k')"
    and lookup_key: "lookup t k = Some r \<Longrightarrow> key r = k"
    and inv_insert: "inv t \<Longrightarrow> lookup t (key r) = None \<Longrightarrow> inv (insert_row r t)"
    and inv_modify: "inv t \<Longrightarrow> (\<And>r. key (f r) = key r) \<Longrightarrow> inv (modify k f t)"
begin

lemma lookup_insert_same: "lookup t (key r) = None \<Longrightarrow> lookup (insert_row r t) (key r) = Some r"
  by (simp add: lookup_insert)

lemma lookup_insert_keeps: "lookup t (key r) = None \<Longrightarrow> lookup t k = Some x \<Longrightarrow> lookup (insert_row r t) k = Some x"
  by (auto simp: lookup_insert)

lemma lookup_modify_same: "(\<And>r. key (f r) = key r) \<Longrightarrow> lookup t k = Some r \<Longrightarrow> lookup (modify k f t) k = Some (f r)"
  by (simp add: lookup_modify)

lemma lookup_modify_other: "(\<And>r. key (f r) = key r) \<Longrightarrow> k' \<noteq> k \<Longrightarrow> lookup (modify k f t) k' = lookup t k'"
  by (simp add: lookup_modify)

lemma modify_modify_lookup:
  assumes "\<And>r. key (f r) = key r" and "\<And>r. key (g r) = key r"
  shows "lookup (modify k g (modify k f t)) k' = lookup (modify k (g \<circ> f) t) k'"
proof -
  have "\<And>r. key ((g \<circ> f) r) = key r" by (simp add: assms)
  then show ?thesis by (simp add: lookup_modify assms option.map_comp)
qed

end

lemma keyed_list_table: "keyed_table (find_row key) add_row (modify_row key) key (unique_key key)"
  by unfold_locales
    (auto simp: find_row_add_row find_row_modify unique_key_add_row unique_key_modify_row
      split: option.split dest: find_row_SomeD)

section \<open>A status that only moves forward\<close>

text \<open>
  Operations on a store, the status a row has in it, and the moves a status may make. The
  laws are about one operation; the lemmas are about whole runs.
\<close>

locale forward_status =
  fixes step :: "'op \<Rightarrow> 's \<Rightarrow> 's"
    and status :: "'s \<Rightarrow> 'id \<Rightarrow> 'st option"
    and move :: "'st \<Rightarrow> 'st \<Rightarrow> bool"
    and inv :: "'s \<Rightarrow> bool"
  assumes inv_step: "inv s \<Longrightarrow> inv (step x s)"
    and status_step: "inv s \<Longrightarrow> status s i = Some a \<Longrightarrow> \<exists>b. status (step x s) i = Some b \<and> move\<^sup>*\<^sup>* a b"
begin

lemma inv_run: "inv s \<Longrightarrow> inv (fold step xs s)"
  by (induction xs arbitrary: s) (auto intro: inv_step)

lemma status_run: "inv s \<Longrightarrow> status s i = Some a \<Longrightarrow> \<exists>b. status (fold step xs s) i = Some b \<and> move\<^sup>*\<^sup>* a b"
proof (induction xs arbitrary: s a)
  case (Cons x xs)
  from status_step [OF Cons.prems] obtain b where b: "status (step x s) i = Some b" "move\<^sup>*\<^sup>* a b"
    by blast
  from Cons.IH [OF inv_step [OF Cons.prems(1)] b(1)] b(2) show ?case
    by (auto intro: rtranclp_trans)
qed auto

lemma final_run:
  assumes "inv s" "status s i = Some a" "\<And>b. \<not> move a b"
  shows "status (fold step xs s) i = Some a"
proof -
  obtain b where b: "status (fold step xs s) i = Some b" "move\<^sup>*\<^sup>* a b"
    using status_run [OF assms(1,2)] by blast
  from b(2) assms(3) have "b = a" by (auto elim: converse_rtranclpE)
  with b(1) show ?thesis by simp
qed

end

end
