(* ===== verification/Schema.thy ===== *)
theory Schema
  imports Tables
begin

text \<open>
  The tables of the harness database (\<open>CURRENT_SCHEMA\<close> of src/store.mjs) as records, and
  the state of a \<open>HarnessStore\<close>: the tables and the in-memory set of sessions being deleted.
  A JSON column holds the value that was stringified into it. CHECK constraints on
  enumerated columns are the datatypes; \<open>STRICT\<close> integer columns are \<open>int\<close>.
\<close>

datatype skind = Root | Child

datatype activity = Working | Delegating | Idle | Inactive

datatype lifecycle = Starting | Resident | Passivated | Stopped | LcError | Deleted

datatype relationship = RelSelf | RelParent | RelChild | RelSibling

text \<open>\<open>activityRank\<close> orders the roster; it is the order of the type.\<close>

fun activity_rank :: "activity \<Rightarrow> nat" where
  "activity_rank Working = 0"
| "activity_rank Delegating = 1"
| "activity_rank Idle = 2"
| "activity_rank Inactive = 3"

lemma activity_rank_inj: "activity_rank a = activity_rank b \<Longrightarrow> a = b"
  by (cases a; cases b) simp_all

instantiation activity :: linorder
begin

definition less_eq_activity :: "activity \<Rightarrow> activity \<Rightarrow> bool" where
  "less_eq_activity a b \<longleftrightarrow> activity_rank a \<le> activity_rank b"

definition less_activity :: "activity \<Rightarrow> activity \<Rightarrow> bool" where
  "less_activity a b \<longleftrightarrow> activity_rank a < activity_rank b"

instance
  by standard (auto simp: less_eq_activity_def less_activity_def dest: activity_rank_inj)

end

record session_row =
  s_id :: string
  s_short_id :: string
  s_session_file :: "string option"
  s_cwd :: string
  s_repository_root :: "string option"
  s_display_name :: string
  s_kind :: skind
  s_family_id :: string
  s_parent :: "string option"
  s_depth :: nat
  s_activity :: activity
  s_streaming :: bool
  s_lifecycle :: lifecycle
  s_actor_token :: string
  s_generation :: int
  s_pid :: "int option"
  s_identity :: "js option"
  s_launch :: "js option"
  s_scratch :: "js option"
  s_quiet_since :: "int option"
  s_last_error :: "string option"
  s_created_at :: int
  s_updated_at :: int
  s_last_activity_at :: "int option"
  s_started_at :: "int option"
  s_stopped_at :: "int option"
  s_deleted_at :: "int option"

datatype task_state = TQueued | TSubmitted | TCompleted | TFailed

record task_row =
  t_id :: string
  t_child_id :: string
  t_prompt :: "string option"
  t_state :: task_state
  t_created_at :: int
  t_submitted_at :: "int option"
  t_completed_at :: "int option"
  t_error :: "string option"
  t_peer_name :: string
  t_entry_id :: "string option"

datatype behavior = Auto | Steer | FollowUp

datatype input_state = IQueued | IAccepted

record input_row =
  i_id :: string
  i_session :: string
  i_body :: string
  i_images :: string            \<comment> \<open>the JSON text of the images\<close>
  i_location :: "string option" \<comment> \<open>the JSON text of the location\<close>
  i_digest :: string
  i_behavior :: behavior
  i_state :: input_state
  i_created_at :: int
  i_accepted_at :: "int option"
  i_accepted_generation :: "int option"
  i_wake_error :: "int option"

datatype input_source = SrcUser | SrcCron | SrcBackground

text \<open>The origin of an internal input and the retry intent, as their fixed-key JSON objects.\<close>

datatype origin = CronOrigin string string | BackgroundOrigin string

datatype retry_mode = Original | Explicit

type_synonym retry_intent = "string \<times> retry_mode"

record receipt_row =
  r_id :: string
  r_session :: string
  r_digest :: string
  r_created_at :: int
  r_sequence :: int
  r_source :: "input_source option"
  r_origin :: "origin option"
  r_client_id :: "string option"
  r_delivered_at :: "int option"
  r_delivered_entry :: "string option"
  r_handled_at :: "int option"
  r_retry :: "retry_intent option"

datatype message_state = MAccepted | MQueued | MDelivered | MAcknowledged | MRejected

record message_row =
  m_id :: string
  m_sender :: string
  m_target :: string
  m_relationship :: relationship
  m_body :: string
  m_state :: message_state
  m_attempts :: nat
  m_accepted_at :: int
  m_queued_at :: "int option"
  m_delivered_at :: "int option"
  m_acknowledged_at :: "int option"
  m_last_error :: "string option"
  m_entry :: "string option"
  m_exit_generation :: "int option"

record usage_row =
  u_session :: string
  u_entry :: string
  u_provider :: string
  u_model :: string
  u_input :: nat
  u_output :: nat
  u_cache_read :: nat
  u_cache_write :: nat
  u_reasoning :: "nat option"
  u_total :: nat
  u_cost :: rat
  u_recorded_at :: int

record context_row =
  c_session :: string
  c_tokens :: "nat option"
  c_window :: nat
  c_percent :: "rat option"
  c_updated_at :: int

text \<open>One skill of a grant: the fields that a child's grant is compared on.\<close>

record skill =
  k_id :: string
  k_version :: string
  k_hash :: string
  k_path :: string
  k_python :: bool

record grant_row =
  g_session :: string
  g_skills :: "skill list"
  g_updated_at :: int

record store =
  sessions :: "session_row list"
  children :: "string list"
  tasks :: "task_row list"
  inputs :: "input_row list"
  receipts :: "receipt_row list"
  messages :: "message_row list"
  grants :: "grant_row list"
  usage :: "usage_row list"
  contexts :: "context_row list"
  deleting :: "string list"

type_synonym 'a op_result = "(store \<times> 'a) result"

definition empty_store :: store where
  "empty_store = \<lparr>sessions = [], children = [], tasks = [], inputs = [], receipts = [],
     messages = [], grants = [], usage = [], contexts = [], deleting = []\<rparr>"

definition session :: "store \<Rightarrow> string \<Rightarrow> session_row option" where
  "session db sid = find_row s_id (sessions db) sid"

definition live :: "session_row \<Rightarrow> bool" where
  "live r \<longleftrightarrow> s_lifecycle r \<noteq> Deleted"

abbreviation upd_session :: "string \<Rightarrow> (session_row \<Rightarrow> session_row) \<Rightarrow> store \<Rightarrow> store" where
  "upd_session sid f db \<equiv> sessions_update (modify_row s_id sid f) db"

interpretation session_tbl: keyed_table "find_row s_id" add_row "modify_row s_id" s_id "unique_key s_id"
  by (rule keyed_list_table)

interpretation task_tbl: keyed_table "find_row t_id" add_row "modify_row t_id" t_id "unique_key t_id"
  by (rule keyed_list_table)

interpretation input_tbl: keyed_table "find_row i_id" add_row "modify_row i_id" i_id "unique_key i_id"
  by (rule keyed_list_table)

interpretation receipt_tbl: keyed_table "find_row r_id" add_row "modify_row r_id" r_id "unique_key r_id"
  by (rule keyed_list_table)

interpretation message_tbl: keyed_table "find_row m_id" add_row "modify_row m_id" m_id "unique_key m_id"
  by (rule keyed_list_table)

lemma session_upd_session:
  "(\<And>r. s_id (f r) = s_id r) \<Longrightarrow>
   session (upd_session sid f db) k = (if k = sid then map_option f (session db sid) else session db k)"
  by (simp add: session_def session_tbl.lookup_modify)

lemma session_id: "session db sid = Some r \<Longrightarrow> s_id r = sid"
  by (auto simp: session_def dest: session_tbl.lookup_key)

end
