(* ===== verification/Sessions.thy ===== *)
theory Sessions
  imports Schema
begin

text \<open>
  The session tree of src/store.mjs: descendants and subtrees (the recursive CTEs), lineage
  and root resolution (bounded walks along parent edges), the family Fast-mode preference,
  relationships, and admission of roots and children.
\<close>

section \<open>Closures over parent edges\<close>

text \<open>
  A recursive CTE with \<open>UNION\<close>: rows whose parent is already selected join the selection
  until nothing is added. \<open>p\<close> is the WHERE clause of both branches. The table's length is
  enough fuel (\<open>cte_closed\<close> below).
\<close>

definition cte_step :: "(session_row \<Rightarrow> bool) \<Rightarrow> session_row list \<Rightarrow> string list \<Rightarrow> string list" where
  "cte_step p t ids = remdups (ids @ map s_id (filter (\<lambda>r. p r \<and> (\<exists>i \<in> set ids. s_parent r = Some i)) t))"

definition cte :: "(session_row \<Rightarrow> bool) \<Rightarrow> session_row list \<Rightarrow> string list \<Rightarrow> string list" where
  "cte p t ids = (cte_step p t ^^ length t) ids"

text \<open>\<open>#workingDescendantCount\<close>.\<close>

definition descendant_ids :: "session_row list \<Rightarrow> string \<Rightarrow> string list" where
  "descendant_ids t sid = cte live t (map s_id (filter (\<lambda>r. s_parent r = Some sid \<and> live r) t))"

definition working_descendant_count :: "session_row list \<Rightarrow> string \<Rightarrow> nat" where
  "working_descendant_count t sid = length (filter (\<lambda>r. s_id r \<in> set (descendant_ids t sid)
     \<and> s_id r \<noteq> sid \<and> s_activity r = Working) t)"

text \<open>\<open>getSessionSubtree\<close>: tombstones included, deepest first.\<close>

definition subtree_ids :: "session_row list \<Rightarrow> string \<Rightarrow> string list" where
  "subtree_ids t sid = cte (\<lambda>_. True) t (map s_id (filter (\<lambda>r. s_id r = sid) t))"

definition get_session_subtree :: "store \<Rightarrow> string \<Rightarrow> session_row list result" where
  "get_session_subtree db sid = (case session db sid of
      None \<Rightarrow> Inl (Thrown ''session does not exist'')
    | Some _ \<Rightarrow> Inr (sort_key (\<lambda>r. (- int (s_depth r), s_id r))
        (filter (\<lambda>r. s_id r \<in> set (subtree_ids (sessions db) sid)) (sessions db))))"

section \<open>Walks towards the root\<close>

text \<open>An empty parent string is falsy in the walks.\<close>

definition parent_of :: "session_row \<Rightarrow> string option" where
  "parent_of r = (case s_parent r of Some p \<Rightarrow> if p = [] then None else Some p | None \<Rightarrow> None)"

fun chain :: "nat \<Rightarrow> session_row list \<Rightarrow> string list \<Rightarrow> string option \<Rightarrow> session_row list" where
  "chain 0 t seen c = []"
| "chain (Suc n) t seen None = []"
| "chain (Suc n) t seen (Some i) = (if i \<in> set seen then []
     else case find_row s_id t i of None \<Rightarrow> []
       | Some r \<Rightarrow> r # chain n t (i # seen) (parent_of r))"

text \<open>\<open>#sessionLineage\<close>.\<close>

definition session_lineage :: "session_row list \<Rightarrow> string \<Rightarrow> string" where
  "session_lineage t sid = join_with ''/'' (rev (map s_display_name (chain (length t) t [] (Some sid))))"

definition max_ancestor_depth :: nat where
  "max_ancestor_depth = 64"

text \<open>
  \<open>resolveFastModePreference\<close>: at most 65 rows, each of the depth its child expects, up to
  a root of depth 0. The result is the preference and the root that owns it.
\<close>

type_synonym fast_preference = "bool option \<times> string option"

definition root_fast_mode :: "session_row \<Rightarrow> bool option" where
  "root_fast_mode r = (case s_launch r of
      Some (JObj ps) \<Rightarrow> (case map_of ps ''fastMode'' of
          None \<Rightarrow> Some False
        | Some (JBool b) \<Rightarrow> Some b
        | Some _ \<Rightarrow> None)
    | _ \<Rightarrow> None)"

fun fast_walk :: "nat \<Rightarrow> (string \<Rightarrow> session_row option) \<Rightarrow> string list \<Rightarrow> string \<Rightarrow> nat option \<Rightarrow> fast_preference" where
  "fast_walk 0 read seen i expected = (None, None)"
| "fast_walk (Suc n) read seen i expected = (if i \<in> set seen then (None, None)
     else case read i of
       None \<Rightarrow> (None, None)
     | Some r \<Rightarrow>
         if s_id r \<noteq> i \<or> s_lifecycle r = Deleted \<or> s_depth r > max_ancestor_depth
           \<or> (expected \<noteq> None \<and> Some (s_depth r) \<noteq> expected) then (None, None)
         else if s_kind r = Root then
           (if s_depth r \<noteq> 0 \<or> s_parent r \<noteq> None then (None, None) else (root_fast_mode r, Some (s_id r)))
         else (case parent_of r of
             None \<Rightarrow> (None, None)
           | Some p \<Rightarrow> if s_depth r = 0 then (None, None)
               else fast_walk n read (i # seen) p (Some (s_depth r - 1))))"

definition resolve_fast_mode :: "string \<Rightarrow> (string \<Rightarrow> session_row option) \<Rightarrow> fast_preference" where
  "resolve_fast_mode sid read = fast_walk (Suc max_ancestor_depth) read [] sid None"

definition get_session_fast_mode :: "store \<Rightarrow> string \<Rightarrow> bool result" where
  "get_session_fast_mode db sid = (case fst (resolve_fast_mode sid (session db)) of
      Some b \<Rightarrow> Inr b
    | None \<Rightarrow> Inl (Thrown ''session Fast preference is unavailable: missing, deleted, or invalid ancestry''))"

definition launch_of :: "session_row \<Rightarrow> js" where
  "launch_of r = (case s_launch r of Some j \<Rightarrow> j | None \<Rightarrow> JObj [])"

text \<open>\<open>updateSessionFastMode\<close>: a compare-and-set on the family's root.\<close>

definition update_session_fast_mode :: "string \<Rightarrow> bool \<Rightarrow> bool \<Rightarrow> int \<Rightarrow> store \<Rightarrow> unit op_result" where
  "update_session_fast_mode sid enabled expected now db = (case session db sid of
      None \<Rightarrow> Inl (Thrown ''session does not exist'')
    | Some r \<Rightarrow> if s_lifecycle r = Deleted then Inl (Thrown ''session does not exist'')
        else (case resolve_fast_mode sid (session db) of (fast, owner) \<Rightarrow>
          if owner \<noteq> Some sid then Inl (Thrown ''only the root session can change family Fast mode'')
          else (case fast of
              None \<Rightarrow> Inl (Thrown ''session Fast preference is unavailable'')
            | Some b \<Rightarrow> if b \<noteq> expected then Inl (Thrown ''session Fast preference changed concurrently'')
                else Inr (upd_session sid (\<lambda>r. r\<lparr>s_launch := Some (jset ''fastMode'' (JBool enabled) (launch_of r)),
                       s_updated_at := now\<rparr>) db, ()))))"

text \<open>\<open>getSessionRoot\<close>.\<close>

fun root_walk :: "nat \<Rightarrow> (string \<Rightarrow> session_row option) \<Rightarrow> string list \<Rightarrow> string \<Rightarrow> nat option \<Rightarrow> session_row option" where
  "root_walk 0 read seen i expected = None"
| "root_walk (Suc n) read seen i expected = (case read i of
       None \<Rightarrow> None
     | Some r \<Rightarrow>
         if i \<in> set seen \<or> s_depth r > max_ancestor_depth
           \<or> (expected \<noteq> None \<and> Some (s_depth r) \<noteq> expected) then None
         else if s_kind r = Root \<and> s_depth r = 0 \<and> s_parent r = None then Some r
         else if s_kind r \<noteq> Child \<or> s_depth r = 0 then None
         else (case parent_of r of None \<Rightarrow> None
           | Some p \<Rightarrow> root_walk n read (i # seen) p (Some (s_depth r - 1))))"

definition get_session_root :: "store \<Rightarrow> string \<Rightarrow> session_row result" where
  "get_session_root db sid = (case root_walk (Suc max_ancestor_depth) (session db) [] sid None of
      Some r \<Rightarrow> Inr r
    | None \<Rightarrow> Inl (Thrown ''session root ancestry is invalid''))"

section \<open>Relationships\<close>

text \<open>\<open>relationshipBetween\<close>; \<open>None\<close> is \<open>undefined\<close>.\<close>

definition relationship_between :: "session_row \<Rightarrow> session_row \<Rightarrow> relationship option" where
  "relationship_between sender target =
     (if s_id sender = s_id target then Some RelSelf
      else if s_parent sender = Some (s_id target) then Some RelParent
      else if s_parent target = Some (s_id sender) then Some RelChild
      else if s_kind sender = Root \<and> s_kind target = Root \<and> s_family_id sender = s_family_id target then Some RelSibling
      else if s_parent sender \<noteq> None \<and> s_parent sender \<noteq> Some [] \<and> s_parent sender = s_parent target then Some RelSibling
      else None)"

section \<open>Availability\<close>

definition is_session_deleting :: "store \<Rightarrow> string \<Rightarrow> bool" where
  "is_session_deleting db sid \<longleftrightarrow> sid \<in> set (deleting db)"

text \<open>\<open>assertSessionAvailable\<close>: \<open>None\<close> when it returns normally.\<close>

definition assert_session_available :: "store \<Rightarrow> string \<Rightarrow> error option" where
  "assert_session_available db sid =
     (if is_session_deleting db sid then Some (Coded ''session_deleting'' ''session subtree is being deleted'')
      else case session db sid of
          None \<Rightarrow> Some (Thrown ''session does not exist'')
        | Some r \<Rightarrow> if s_lifecycle r = Deleted then Some (Thrown ''session does not exist'') else None)"

definition begin_session_deletion :: "store \<Rightarrow> string \<Rightarrow> session_row list op_result" where
  "begin_session_deletion db sid = (case get_session_subtree db sid of
      Inl e \<Rightarrow> Inl e
    | Inr rows \<Rightarrow> if \<exists>r \<in> set rows. is_session_deleting db (s_id r)
        then Inl (Coded ''session_deleting'' ''session subtree is already being deleted'')
        else Inr (db\<lparr>deleting := remdups (deleting db @ map s_id rows)\<rparr>, rows))"

definition end_session_deletion :: "store \<Rightarrow> session_row list \<Rightarrow> store" where
  "end_session_deletion db rows = db\<lparr>deleting := filter (\<lambda>i. i \<notin> s_id ` set rows) (deleting db)\<rparr>"

section \<open>The recursive CTE computes reachability\<close>

lemma iterate_absorbs:
  assumes infl: "\<And>X. X \<subseteq> F X" and bound: "\<And>X. F X \<subseteq> X \<union> U" and fin: "finite U"
  shows "F ((F ^^ card U) X) = (F ^^ card U) (X :: 'a set)"
proof (rule ccontr)
  assume ne: "F ((F ^^ card U) X) \<noteq> (F ^^ card U) X"
  have stuck: "F ((F ^^ k) X) = (F ^^ k) X \<Longrightarrow> k \<le> m \<Longrightarrow> F ((F ^^ m) X) = (F ^^ m) X" for k m
    by (induction m) (auto simp: le_Suc_eq)
  have grow: "k \<le> Suc (card U) \<Longrightarrow> k \<le> card ((F ^^ k) X \<inter> (U - X))" for k
  proof (induction k)
    case (Suc k)
    then have "F ((F ^^ k) X) \<noteq> (F ^^ k) X" using ne stuck [of k "card U"] by auto
    with infl obtain x where x: "x \<in> F ((F ^^ k) X)" "x \<notin> (F ^^ k) X" by blast
    have "X \<subseteq> (F ^^ k) X" using infl by (induction k) auto
    with x bound have xU: "x \<in> U - X" by blast
    have "insert x ((F ^^ k) X \<inter> (U - X)) \<subseteq> (F ^^ Suc k) X \<inter> (U - X)"
      using x xU infl by auto
    then have "card (insert x ((F ^^ k) X \<inter> (U - X))) \<le> card ((F ^^ Suc k) X \<inter> (U - X))"
      using fin by (intro card_mono) auto
    with Suc x fin show ?case by auto
  qed simp
  have "card ((F ^^ Suc (card U)) X \<inter> (U - X)) \<le> card U"
    using fin by (intro card_mono) auto
  with grow [of "Suc (card U)"] show False by simp
qed

lemma iterate_absorbs_le:
  assumes "\<And>X. X \<subseteq> F X" "\<And>X. F X \<subseteq> X \<union> U" "finite U" "card U \<le> n"
  shows "F ((F ^^ n) X) = (F ^^ n) (X :: 'a set)"
  using assms(4)
proof (induction n rule: dec_induct)
  case base
  show ?case using assms(1-3) by (rule iterate_absorbs)
qed simp

text \<open>The rows reachable from \<open>i\<close> along parent edges through rows that satisfy \<open>p\<close>.\<close>

inductive reaches :: "(session_row \<Rightarrow> bool) \<Rightarrow> session_row list \<Rightarrow> string \<Rightarrow> string \<Rightarrow> bool"
  for p :: "session_row \<Rightarrow> bool" and t :: "session_row list" where
  reaches_self: "reaches p t i i"
| reaches_step: "reaches p t i j \<Longrightarrow> r \<in> set t \<Longrightarrow> p r \<Longrightarrow> s_parent r = Some j \<Longrightarrow> reaches p t i (s_id r)"

definition kids :: "(session_row \<Rightarrow> bool) \<Rightarrow> session_row list \<Rightarrow> string set \<Rightarrow> string set" where
  "kids p t X = X \<union> {s_id r |r. r \<in> set t \<and> p r \<and> (\<exists>i \<in> X. s_parent r = Some i)}"

lemma set_cte_step: "set (cte_step p t ids) = kids p t (set ids)"
  by (auto simp: cte_step_def kids_def)

lemma set_cte_steps: "set ((cte_step p t ^^ n) ids) = (kids p t ^^ n) (set ids)"
  by (induction n) (simp_all add: set_cte_step)

lemma cte_closed: "kids p t (set (cte p t ids)) = set (cte p t ids)"
proof -
  have "card (s_id ` set t) \<le> length t"
    using card_image_le card_length le_trans by (metis List.finite_set)
  then show ?thesis
    unfolding cte_def set_cte_steps by (intro iterate_absorbs_le [where U = "s_id ` set t"]) (auto simp: kids_def)
qed

lemma kids_iterate_reaches: "j \<in> (kids p t ^^ n) X \<Longrightarrow> \<exists>i \<in> X. reaches p t i j"
proof (induction n arbitrary: j)
  case 0
  then show ?case by (auto intro: reaches_self)
next
  case (Suc n)
  have "j \<in> kids p t ((kids p t ^^ n) X)" using Suc.prems by simp
  then consider "j \<in> (kids p t ^^ n) X"
    | r k where "r \<in> set t" "p r" "k \<in> (kids p t ^^ n) X" "s_parent r = Some k" "j = s_id r"
    unfolding kids_def [of p t "(kids p t ^^ n) X"] by blast
  then show ?case
  proof cases
    case 1
    then show ?thesis by (rule Suc.IH)
  next
    case 2
    with Suc.IH [of k] show ?thesis by (auto intro: reaches_step)
  qed
qed

lemma subset_cte: "set ids \<subseteq> set (cte p t ids)"
proof -
  have "set ids \<subseteq> (kids p t ^^ n) (set ids)" for n
    by (induction n) (auto simp: kids_def)
  then show ?thesis by (simp add: cte_def set_cte_steps)
qed

lemma set_cte: "set (cte p t ids) = {j. \<exists>i \<in> set ids. reaches p t i j}"
proof (intro set_eqI iffI)
  fix j assume "j \<in> set (cte p t ids)"
  then show "j \<in> {j. \<exists>i \<in> set ids. reaches p t i j}"
    by (auto simp: cte_def set_cte_steps dest: kids_iterate_reaches)
next
  fix j assume "j \<in> {j. \<exists>i \<in> set ids. reaches p t i j}"
  then obtain i where i: "i \<in> set ids" "reaches p t i j" by blast
  from i(2,1) show "j \<in> set (cte p t ids)"
  proof induction
    case (reaches_self i)
    then show ?case using subset_cte by blast
  next
    case (reaches_step i j r)
    then have "s_id r \<in> kids p t (set (cte p t ids))" by (auto simp: kids_def)
    then show ?case by (simp only: cte_closed)
  qed
qed

lemma reaches_trans: "reaches p t j k \<Longrightarrow> reaches p t i j \<Longrightarrow> reaches p t i k"
  by (induction rule: reaches.induct) (auto intro: reaches_step)

lemma reaches_closed: "reaches p t i j \<Longrightarrow> (\<forall>r \<in> set t. p r \<longrightarrow> s_parent r = Some j \<longrightarrow> reaches p t i (s_id r))"
  by (auto intro: reaches_step)

text \<open>A live proper descendant: a live child, or a live child of one.\<close>

definition live_descendant :: "session_row list \<Rightarrow> string \<Rightarrow> string \<Rightarrow> bool" where
  "live_descendant t a d \<longleftrightarrow> (\<exists>r \<in> set t. live r \<and> s_parent r = Some a \<and> reaches live t (s_id r) d)"

lemma set_descendant_ids: "set (descendant_ids t sid) = {d. live_descendant t sid d}"
  by (auto simp: descendant_ids_def set_cte live_descendant_def)

lemma set_subtree_ids: "set (subtree_ids t sid) = {d. sid \<in> s_id ` set t \<and> reaches (\<lambda>_. True) t sid d}"
  by (auto simp: subtree_ids_def set_cte image_iff)

lemma working_count_card:
  assumes "unique_key s_id t"
  shows "working_descendant_count t sid =
    card {r \<in> set t. live_descendant t sid (s_id r) \<and> s_id r \<noteq> sid \<and> s_activity r = Working}"
proof -
  have "distinct t" using assms by (simp add: unique_key_def distinct_map)
  then show ?thesis
    by (simp add: working_descendant_count_def set_descendant_ids distinct_card [symmetric])
qed

lemma working_count_pos:
  "working_descendant_count t sid > 0 \<longleftrightarrow>
     (\<exists>r \<in> set t. live_descendant t sid (s_id r) \<and> s_id r \<noteq> sid \<and> s_activity r = Working)"
  by (auto simp: working_descendant_count_def set_descendant_ids filter_empty_conv)

section \<open>Root resolution\<close>

text \<open>The abstract contract: an acyclic path of live rows, each one level below its parent.\<close>

inductive root_path :: "(string \<Rightarrow> session_row option) \<Rightarrow> string \<Rightarrow> nat \<Rightarrow> session_row \<Rightarrow> bool"
  for read :: "string \<Rightarrow> session_row option" where
  at_root: "read i = Some r \<Longrightarrow> s_id r = i \<Longrightarrow> live r \<Longrightarrow> s_kind r = Root \<Longrightarrow> s_depth r = 0 \<Longrightarrow>
     s_parent r = None \<Longrightarrow> root_path read i 0 r"
| below: "read i = Some r \<Longrightarrow> s_id r = i \<Longrightarrow> live r \<Longrightarrow> s_kind r = Child \<Longrightarrow> s_depth r = Suc d \<Longrightarrow>
     Suc d \<le> max_ancestor_depth \<Longrightarrow> parent_of r = Some p \<Longrightarrow> root_path read p d q \<Longrightarrow> root_path read i (Suc d) q"

inductive_cases root_path_0E: "root_path read i 0 q"
inductive_cases root_path_SucE: "root_path read i (Suc d) q"

lemma root_path_row: "root_path read i d q \<Longrightarrow> \<exists>r. read i = Some r \<and> s_depth r = d \<and> d \<le> max_ancestor_depth"
  by (induction rule: root_path.induct) auto

lemma root_path_root: "root_path read i d q \<Longrightarrow> live q \<and> s_kind q = Root \<and> s_depth q = 0 \<and> s_parent q = None \<and> read (s_id q) = Some q"
  by (induction rule: root_path.induct) auto

lemma fast_walk_sound:
  "fast_walk n read seen i e = (f, Some own) \<Longrightarrow>
   \<exists>d q. root_path read i d q \<and> s_id q = own \<and> f = root_fast_mode q \<and> (e = None \<or> e = Some d)"
proof (induction n read seen i e rule: fast_walk.induct)
  case (2 n read seen i e)
  then obtain r where r: "read i = Some r" "i \<notin> set seen"
    by (auto split: if_splits option.splits)
  have row: "s_id r = i" "live r" "s_depth r \<le> max_ancestor_depth" "e = None \<or> e = Some (s_depth r)"
    using "2.prems" r by (auto simp: live_def split: if_splits)
  show ?case
  proof (cases "s_kind r = Root")
    case True
    with "2.prems" r row have "root_path read i 0 r" "f = root_fast_mode r" "own = s_id r" "s_depth r = 0"
      by (auto intro!: at_root split: if_splits)
    with row show ?thesis by auto
  next
    case False
    then have child: "s_kind r = Child" by (cases "s_kind r") auto
    from "2.prems" r row False obtain p d where p: "parent_of r = Some p" and d: "s_depth r = Suc d"
      and walk: "fast_walk n read (i # seen) p (Some d) = (f, Some own)"
      by (cases "s_depth r") (auto simp: live_def split: if_splits option.splits)
    have ge: "\<not> (s_id r \<noteq> i \<or> s_lifecycle r = Deleted \<or> max_ancestor_depth < s_depth r \<or>
        e \<noteq> None \<and> Some (s_depth r) \<noteq> e)"
      using row by (auto simp: live_def)
    have "\<exists>d' q. root_path read p d' q \<and> s_id q = own \<and> f = root_fast_mode q \<and>
        (Some (s_depth r - 1) = None \<or> Some (s_depth r - 1) = Some d')"
      using d walk by (intro "2.IH" [OF r(2,1) ge False p]) simp_all
    with d obtain q where "root_path read p d q" "s_id q = own" "f = root_fast_mode q" by auto
    with r row child p d show ?thesis by (metis below)
  qed
qed simp

lemma fast_walk_complete:
  "root_path read i d q \<Longrightarrow> d < n \<Longrightarrow> e = None \<or> e = Some d \<Longrightarrow>
   \<forall>j \<in> set seen. \<exists>r. read j = Some r \<and> d < s_depth r \<Longrightarrow>
   fast_walk n read seen i e = (root_fast_mode q, Some (s_id q))"
proof (induction arbitrary: n e seen rule: root_path.induct)
  case (at_root i r)
  then have "i \<notin> set seen" by auto
  with at_root show ?case by (cases n) (auto simp: live_def)
next
  case (below i r d p q)
  then obtain m where n: "n = Suc m" by (cases n) auto
  have fresh: "i \<notin> set seen" using below by auto
  have "fast_walk m read (i # seen) p (Some d) = (root_fast_mode q, Some (s_id q))"
    using below n by (intro below.IH) (auto dest: Suc_lessD)
  with below n fresh show ?case by (auto simp: live_def)
qed

lemma root_walk_complete:
  "root_path read i d q \<Longrightarrow> d < n \<Longrightarrow> e = None \<or> e = Some d \<Longrightarrow>
   \<forall>j \<in> set seen. \<exists>r. read j = Some r \<and> d < s_depth r \<Longrightarrow> root_walk n read seen i e = Some q"
proof (induction arbitrary: n e seen rule: root_path.induct)
  case (at_root i r)
  then have "i \<notin> set seen" by auto
  with at_root show ?case by (cases n) auto
next
  case (below i r d p q)
  then obtain m where n: "n = Suc m" by (cases n) auto
  have fresh: "i \<notin> set seen" using below by auto
  have "root_walk m read (i # seen) p (Some d) = Some q"
    using below n by (intro below.IH) (auto dest: Suc_lessD)
  with below n fresh show ?case by auto
qed

lemma get_session_root_path: "root_path (session db) sid d q \<Longrightarrow> get_session_root db sid = Inr q"
  using root_walk_complete [of "session db" sid d q "Suc max_ancestor_depth" None "[]"] root_path_row [of "session db" sid d q]
  by (auto simp: get_session_root_def)

lemma resolve_fast_mode_path: "root_path read sid d q \<Longrightarrow> resolve_fast_mode sid read = (root_fast_mode q, Some (s_id q))"
  using fast_walk_complete [of read sid d q "Suc max_ancestor_depth" None "[]"] root_path_row [of read sid d q]
  by (auto simp: resolve_fast_mode_def)

text \<open>
  \<open>resolveFastModePreference\<close> finds exactly the root that a session's chain of live rows,
  each one level below its parent, leads to within the 64-level bound, and returns that root's
  stored preference; on any missing, deleted, cyclic, too deep or inconsistent ancestry it
  names no root.
\<close>

theorem fast_mode_root_iff:
  "resolve_fast_mode sid read = (f, Some own) \<longleftrightarrow>
     (\<exists>d q. root_path read sid d q \<and> s_id q = own \<and> f = root_fast_mode q)"
proof
  assume "resolve_fast_mode sid read = (f, Some own)"
  then show "\<exists>d q. root_path read sid d q \<and> s_id q = own \<and> f = root_fast_mode q"
    unfolding resolve_fast_mode_def by (blast dest: fast_walk_sound)
next
  assume "\<exists>d q. root_path read sid d q \<and> s_id q = own \<and> f = root_fast_mode q"
  then show "resolve_fast_mode sid read = (f, Some own)" using resolve_fast_mode_path by blast
qed

end
