(* ===== verification/Messages.thy ===== *)
theory Messages
  imports Sessions
begin

text \<open>
  Durable family messages of src/store.mjs: target resolution inside the sender's family,
  admission, the sender's transcript entry that queues a message, delivery with a bounded
  attempt count, acknowledgement, rejection when a session is deleted, and the
  supervisor-authored lifecycle receipts. Every message only moves forward along
  accepted, queued, delivered, acknowledged or rejected.
\<close>

definition message :: "store \<Rightarrow> string \<Rightarrow> message_row option" where
  "message db i = find_row m_id (messages db) i"

abbreviation upd_message :: "string \<Rightarrow> (message_row \<Rightarrow> message_row) \<Rightarrow> store \<Rightarrow> store" where
  "upd_message i f db \<equiv> messages_update (modify_row m_id i f) db"

section \<open>Admission\<close>

text \<open>\<open>#resolveReachableTarget\<close>.\<close>

definition resolve_reachable_target :: "store \<Rightarrow> string \<Rightarrow> string \<Rightarrow> (session_row \<times> relationship) result" where
  "resolve_reachable_target db sender_id selector = (case session db sender_id of
      None \<Rightarrow> Inl (Thrown ''sender session does not exist'')
    | Some sender \<Rightarrow> if s_lifecycle sender = Deleted then Inl (Thrown ''sender session does not exist'') else
        (let rows = filter (\<lambda>r. s_family_id r = s_family_id sender \<and> s_lifecycle r \<noteq> Deleted) (sessions db) in
         case find (\<lambda>r. s_id r = selector \<or> s_short_id r = selector) rows of
           Some exact \<Rightarrow> (case relationship_between sender exact of
               Some RelSelf \<Rightarrow> Inl (Thrown ''cannot send a message to the same session'')
             | None \<Rightarrow> Inl (Thrown ''target is outside permitted family reach'')
             | Some rel \<Rightarrow> Inr (exact, rel))
         | None \<Rightarrow> (case filter (\<lambda>r. s_display_name r = selector \<and> relationship_between sender r \<noteq> None) rows of
               [] \<Rightarrow> Inl (Thrown (''no reachable target matches: '' @ selector))
             | [m] \<Rightarrow> (case relationship_between sender m of
                   Some RelSelf \<Rightarrow> Inl (Thrown ''cannot send a message to the same session'')
                 | Some rel \<Rightarrow> Inr (m, rel)
                 | None \<Rightarrow> Inl (Thrown ''target is outside permitted family reach''))
             | _ \<Rightarrow> Inl (Thrown (''target name is ambiguous; use a stable ID: '' @ selector)))))"

record message_params =
  mp_target :: string
  mp_body :: string
  mp_id :: "string option"
  mp_mode :: "string option"

definition pending_states :: "message_state list" where
  "pending_states = [MAccepted, MQueued, MDelivered]"

definition pending_count :: "store \<Rightarrow> string \<Rightarrow> nat" where
  "pending_count db target = changes (\<lambda>m. m_target m = target \<and> m_state m \<in> set pending_states) (messages db)"

definition new_message :: "string \<Rightarrow> string \<Rightarrow> string \<Rightarrow> relationship \<Rightarrow> string \<Rightarrow> int \<Rightarrow> message_row" where
  "new_message i sender target rel body now = \<lparr>m_id = i, m_sender = sender, m_target = target,
     m_relationship = rel, m_body = body, m_state = MAccepted, m_attempts = 0, m_accepted_at = now,
     m_queued_at = None, m_delivered_at = None, m_acknowledged_at = None, m_last_error = None,
     m_entry = None, m_exit_generation = None\<rparr>"

text \<open>\<open>createMessage\<close>; \<open>uuid\<close> is the value \<open>randomUUID()\<close> returns.\<close>

definition create_message :: "string \<Rightarrow> message_params \<Rightarrow> nat \<Rightarrow> string \<Rightarrow> int \<Rightarrow> store \<Rightarrow> message_row op_result" where
  "create_message sender p limit uuid now db =
     (if (case mp_mode p of None \<Rightarrow> ''auto'' | Some m \<Rightarrow> m) \<notin> {''auto'', ''follow_up''}
      then Inl (Thrown ''invalid family delivery mode'')
      else if (case mp_id p of Some i \<Rightarrow> prefix ''child-exit:'' i | None \<Rightarrow> False)
      then Inl (Thrown ''message ID is reserved for supervisor lifecycle receipts'')
      else case resolve_reachable_target db sender (mp_target p) of
        Inl e \<Rightarrow> Inl e
      | Inr (target, rel) \<Rightarrow> (case assert_session_available db sender of
          Some e \<Rightarrow> Inl e
        | None \<Rightarrow> (case assert_session_available db (s_id target) of
            Some e \<Rightarrow> Inl e
          | None \<Rightarrow> (let i = (case mp_id p of Some i \<Rightarrow> i | None \<Rightarrow> uuid) in
              case message db i of
                Some m \<Rightarrow>
                  if m_sender m \<noteq> sender \<or> m_target m \<noteq> s_id target \<or> m_body m \<noteq> mp_body p
                  then Inl (Thrown (''message ID already exists with different content: '' @ i))
                  else Inr (db, m)
              | None \<Rightarrow>
                  if pending_count db (s_id target) \<ge> limit
                  then Inl (Thrown (''target pending-message limit reached: '' @ show_nat limit))
                  else (let m = new_message i sender (s_id target) rel (mp_body p) now
                        in Inr (messages_update (add_row m) db, m))))))"

section \<open>Delivery\<close>

definition entry_recorded :: "message_row \<Rightarrow> bool" where
  "entry_recorded m \<longleftrightarrow> m_entry m \<noteq> None \<and> m_entry m \<noteq> Some []"

text \<open>\<open>recordMessageSenderEntry\<close>, with the unique index on (sender, sender entry).\<close>

definition state_name :: "message_state \<Rightarrow> string" where
  "state_name s = (case s of MAccepted \<Rightarrow> ''accepted'' | MQueued \<Rightarrow> ''queued'' | MDelivered \<Rightarrow> ''delivered''
     | MAcknowledged \<Rightarrow> ''acknowledged'' | MRejected \<Rightarrow> ''rejected'')"

definition record_message_sender_entry ::
  "string \<Rightarrow> string \<Rightarrow> string \<Rightarrow> string \<Rightarrow> relationship \<Rightarrow> string \<Rightarrow> int \<Rightarrow> store \<Rightarrow> (message_row \<times> bool) op_result" where
  "record_message_sender_entry sender mid entry peer rel body now db =
     (case assert_session_available db sender of Some e \<Rightarrow> Inl e | None \<Rightarrow>
      (case assert_session_available db peer of Some e \<Rightarrow> Inl e | None \<Rightarrow>
       (case message db mid of
          None \<Rightarrow> Inl (Thrown ''message does not exist for this sender'')
        | Some m \<Rightarrow>
            if m_sender m \<noteq> sender then Inl (Thrown ''message does not exist for this sender'')
            else if m_target m \<noteq> peer \<or> m_relationship m \<noteq> rel \<or> m_body m \<noteq> body
            then Inl (Thrown ''agent message transcript entry does not match its durable message'')
            else if entry_recorded m \<and> m_entry m \<noteq> Some entry
            then Inl (Thrown ''message already has a different transcript entry'')
            else if entry_recorded m then Inr (db, (m, False))
            else if m_state m \<noteq> MAccepted
            then Inl (Thrown (''message cannot record its sender entry from state '' @ state_name (m_state m)))
            else if \<exists>x \<in> set (messages db). m_id x \<noteq> mid \<and> m_sender x = sender \<and> m_entry x = Some entry
            then Inl (UniqueViolation ''messages'')
            else (let f = (\<lambda>m. m\<lparr>m_entry := Some entry, m_state := MQueued, m_queued_at := Some now\<rparr>)
                  in Inr (upd_message mid f db, (f m, True))))))"

text \<open>\<open>markMessageDelivered\<close>: the result row, and whether it failed permanently.\<close>

definition mark_message_delivered :: "string \<Rightarrow> string \<Rightarrow> int \<Rightarrow> nat \<Rightarrow> store \<Rightarrow> (message_row \<times> bool) option op_result" where
  "mark_message_delivered mid target now max_attempts db = (case message db mid of
      None \<Rightarrow> Inr (db, None)
    | Some m \<Rightarrow>
        if m_target m \<noteq> target \<or> m_state m \<notin> {MQueued, MDelivered} then Inr (db, None)
        else if m_state m = MDelivered then Inr (db, Some (m, False))
        else if m_attempts m \<ge> max_attempts then
          (let f = (\<lambda>m. m\<lparr>m_state := MRejected,
                m_last_error := Some (''delivery attempt limit reached: '' @ show_nat max_attempts),
                m_delivered_at := Some now\<rparr>)
           in Inr (upd_message mid f db, Some (f m, True)))
        else
          (let f = (\<lambda>m. m\<lparr>m_state := MDelivered, m_attempts := m_attempts m + 1,
                m_delivered_at := Some now, m_last_error := None\<rparr>)
           in Inr (upd_message mid f db, Some (f m, False))))"

definition acknowledge_message :: "string \<Rightarrow> string \<Rightarrow> int \<Rightarrow> store \<Rightarrow> message_row op_result" where
  "acknowledge_message mid target now db = (case message db mid of
      None \<Rightarrow> Inl (Thrown ''message does not exist for this target'')
    | Some m \<Rightarrow>
        if m_target m \<noteq> target then Inl (Thrown ''message does not exist for this target'')
        else if m_state m = MAcknowledged then Inr (db, m)
        else if m_state m \<noteq> MDelivered
        then Inl (Thrown (''message cannot be acknowledged from state '' @ state_name (m_state m)))
        else (let f = (\<lambda>m. m\<lparr>m_state := MAcknowledged, m_acknowledged_at := Some now\<rparr>)
              in Inr (upd_message mid f db, f m)))"

section \<open>Listings\<close>

definition by_acceptance :: "message_row list \<Rightarrow> message_row list" where
  "by_acceptance = sort_key (\<lambda>m. (m_accepted_at m, m_id m))"

definition list_messages_awaiting_sender_entry :: "store \<Rightarrow> string \<Rightarrow> nat \<Rightarrow> message_row list" where
  "list_messages_awaiting_sender_entry db sender limit =
     take limit (by_acceptance (filter (\<lambda>m. m_sender m = sender \<and> m_state m = MAccepted) (messages db)))"

definition list_waiting_incoming_messages :: "store \<Rightarrow> string \<Rightarrow> int \<Rightarrow> message_row list result" where
  "list_waiting_incoming_messages db target limit =
     (if limit < 1 \<or> limit > 1000 then Inl (Thrown ''invalid waiting message limit'')
      else Inr (take (nat limit) (by_acceptance
        (filter (\<lambda>m. m_target m = target \<and> m_state m \<in> set pending_states) (messages db)))))"

definition list_pending_messages :: "store \<Rightarrow> string \<Rightarrow> message_row list" where
  "list_pending_messages db target =
     by_acceptance (filter (\<lambda>m. m_target m = target \<and> m_state m \<in> {MQueued, MDelivered}) (messages db))"

section \<open>Termination with the session\<close>

definition reject_message :: "string \<Rightarrow> int \<Rightarrow> message_row \<Rightarrow> message_row" where
  "reject_message why now m = m\<lparr>m_state := MRejected, m_last_error := Some why,
     m_delivered_at := (case m_delivered_at m of None \<Rightarrow> Some now | Some d \<Rightarrow> Some d)\<rparr>"

definition fail_task :: "string \<Rightarrow> int \<Rightarrow> task_row \<Rightarrow> task_row" where
  "fail_task why now t = t\<lparr>t_state := TFailed,
     t_completed_at := (case t_completed_at t of None \<Rightarrow> Some now | Some d \<Rightarrow> Some d), t_error := Some why\<rparr>"

text \<open>
  \<open>#terminalizeSessionWork\<close> for one session and \<open>#terminalizeDeletedSessionWork\<close> for all
  deleted ones are the same three updates with different WHERE clauses.
\<close>

definition terminalize_work :: "(string \<Rightarrow> bool) \<Rightarrow> int \<Rightarrow> store \<Rightarrow> store" where
  "terminalize_work gone now db = db\<lparr>
     messages := update_where (\<lambda>m. gone (m_sender m) \<and> m_state m = MAccepted)
         (reject_message ''sender session was deleted before its transcript entry was recorded'' now)
       (update_where (\<lambda>m. gone (m_target m) \<and> m_state m \<in> set pending_states)
         (reject_message ''target session was deleted'' now) (messages db)),
     tasks := update_where (\<lambda>t. gone (t_child_id t) \<and> t_state t \<in> {TQueued, TSubmitted})
       (fail_task ''child session was deleted before its task completed'' now) (tasks db)\<rparr>"

definition terminalize_session_work :: "string \<Rightarrow> int \<Rightarrow> store \<Rightarrow> store" where
  "terminalize_session_work sid now db = terminalize_work (\<lambda>i. i = sid) now db"

definition terminalize_deleted_session_work :: "int \<Rightarrow> store \<Rightarrow> store" where
  "terminalize_deleted_session_work now db = terminalize_work
     (\<lambda>i. \<exists>r \<in> set (sessions db). s_id r = i \<and> s_lifecycle r = Deleted) now db"

section \<open>Lifecycle receipts\<close>

datatype failure_class = PromptPreparation | RequestPreparation | CompactionFailed | TurnFailed

datatype dispatch_boundary = BeforeProviderDispatch | ProviderDispatchUnknown | ToolEffectsPossible

record turn_failure =
  tf_turn :: string
  tf_class :: failure_class
  tf_boundary :: dispatch_boundary

definition failure_class_name :: "failure_class \<Rightarrow> string" where
  "failure_class_name c = (case c of PromptPreparation \<Rightarrow> ''prompt_preparation'' | RequestPreparation \<Rightarrow> ''request_preparation''
     | CompactionFailed \<Rightarrow> ''compaction_failed'' | TurnFailed \<Rightarrow> ''turn_failed'')"

definition turn_failure_boundary :: "turn_failure \<Rightarrow> string" where
  "turn_failure_boundary tf = (case tf_boundary tf of
      BeforeProviderDispatch \<Rightarrow> ''This turn stopped before provider dispatch. Local input or extension effects may already be committed.''
    | ToolEffectsPossible \<Rightarrow> ''Tool execution was admitted or started in this turn; external effects may already have occurred. Completion is unknown.''
    | ProviderDispatchUnknown \<Rightarrow> ''Provider dispatch was attempted in this turn; completion and external effects are unknown.'')"

definition plain_id :: "string \<Rightarrow> bool" where
  "plain_id s \<longleftrightarrow> 1 \<le> length s \<and> length s \<le> 128 \<and>
     (\<forall>c \<in> set s. (CHR ''a'' \<le> c \<and> c \<le> CHR ''z'') \<or> (CHR ''A'' \<le> c \<and> c \<le> CHR ''Z'')
       \<or> (CHR ''0'' \<le> c \<and> c \<le> CHR ''9'') \<or> c = CHR ''-'')"

text \<open>\<open>sha\<close> is the hexadecimal SHA-256 of a byte string; \<open>observer\<close> what \<open>rootFailureObserver()\<close> returns.\<close>

definition receipt_id :: "(string \<Rightarrow> string) \<Rightarrow> string \<Rightarrow> int \<Rightarrow> turn_failure option \<Rightarrow> string" where
  "receipt_id sha sid generation tf = (case tf of
      Some f \<Rightarrow> ''child-exit:turn:'' @ sha (sid @ [CHR 0x00] @ tf_turn f)
    | None \<Rightarrow> ''child-exit:'' @ sha sid @ '':'' @ show_int generation)"

definition receipt_body :: "session_row \<Rightarrow> int \<Rightarrow> string option \<Rightarrow> turn_failure option \<Rightarrow> string" where
  "receipt_body r generation err tf =
     (let noun = (if s_kind r = Child then ''child'' else ''session'');
          subject = (if s_kind r = Child then ''direct child'' else ''root session'');
          identity = (if plain_id (s_id r) then s_id r else ''[invalid child ID]'');
          cls = (if (case err of Some e \<Rightarrow> sublist ''JavaScript heap out of memory'' e | None \<Rightarrow> False)
                 then ''heap_exhausted'' else ''actor_exit'')
      in ''Harness lifecycle report (supervisor-generated, not '' @ noun @ ''-authored): '' @ subject @ '' '' @ identity @
         (case tf of
            None \<Rightarrow> '', generation '' @ show_int generation @ '', exited unexpectedly. Failure class: '' @ cls @ ''. Completion is unknown.''
          | Some f \<Rightarrow> '', turn '' @ tf_turn f @ '', stopped abnormally. Failure class: '' @ failure_class_name (tf_class f)
              @ ''. '' @ turn_failure_boundary f)
         @ '' Inspect retained '' @ noun @ '' state and saved artifacts before deciding recovery. No '' @ noun
         @ '' restart or work replay was requested.'')"

definition receipt_row_of :: "string \<Rightarrow> string \<Rightarrow> string \<Rightarrow> relationship \<Rightarrow> string \<Rightarrow> int \<Rightarrow> int \<Rightarrow> message_row" where
  "receipt_row_of i sender target rel body generation now =
     (new_message i sender target rel body now)\<lparr>m_state := MQueued, m_queued_at := Some now,
        m_exit_generation := Some generation\<rparr>"

text \<open>\<open>INSERT OR IGNORE\<close> by primary key.\<close>

definition insert_or_ignore_message :: "message_row \<Rightarrow> store \<Rightarrow> store" where
  "insert_or_ignore_message m db =
     (if message db (m_id m) = None then messages_update (add_row m) db else db)"

definition failure_target :: "store \<Rightarrow> session_row \<Rightarrow> string option \<Rightarrow> session_row option" where
  "failure_target db r observer = (case s_kind r of
      Child \<Rightarrow> (case s_parent r of Some p \<Rightarrow> session db p | None \<Rightarrow> None)
    | Root \<Rightarrow> (case observer of
          None \<Rightarrow> None
        | Some o' \<Rightarrow> if o' = s_id r then None else (case session db o' of
              Some x \<Rightarrow> if s_kind x = Root then Some x else None
            | None \<Rightarrow> None)))"

definition queue_child_failure ::
  "(string \<Rightarrow> string) \<Rightarrow> string option \<Rightarrow> string \<Rightarrow> int \<Rightarrow> string option \<Rightarrow> turn_failure option \<Rightarrow> int \<Rightarrow> store \<Rightarrow> store" where
  "queue_child_failure sha observer sid generation err tf now db = (case session db sid of
      None \<Rightarrow> db
    | Some r \<Rightarrow> (case failure_target db r observer of
        None \<Rightarrow> db
      | Some target \<Rightarrow>
          if s_lifecycle target = Deleted \<or> is_session_deleting db (s_id target) \<or> is_session_deleting db sid then db
          else insert_or_ignore_message
            (receipt_row_of (receipt_id sha sid generation tf) sid (s_id target)
               (if s_kind r = Child then RelParent else RelSibling) (receipt_body r generation err tf) generation now) db))"

definition queue_home_failure_nudge ::
  "(string \<Rightarrow> string) \<Rightarrow> string \<Rightarrow> int \<Rightarrow> turn_failure \<Rightarrow> int \<Rightarrow> int \<Rightarrow> store \<Rightarrow> bool op_result" where
  "queue_home_failure_nudge sha sid generation tf failed_at now db = (case session db sid of
      None \<Rightarrow> Inr (db, False)
    | Some r \<Rightarrow>
        if s_kind r \<noteq> Root \<or> s_lifecycle r = Deleted \<or> is_session_deleting db sid
          \<or> generation < 1 \<or> generation > max_safe then Inr (db, False)
        else (case iso_string failed_at of
            Inl e \<Rightarrow> Inl e
          | Inr stamp \<Rightarrow>
              (let i = ''home-nudge:'' @ sha (sid @ [CHR 0x00] @ tf_turn tf);
                   body = ''Harness lifecycle report (supervisor-generated, not session-authored): your own turn '' @ tf_turn tf
                     @ '' stopped abnormally at '' @ stamp @ '', and you have not run since. Failure class: '' @ failure_class_name (tf_class tf)
                     @ ''. '' @ turn_failure_boundary tf @ '' Nothing was retried. Other sessions may have stopped at the same time, and their reports may have reached you inside the failed turn. Check every root session and your own work, then resume as normal. Do not replay interrupted work. No restart was requested.''
               in Inr (insert_or_ignore_message (receipt_row_of i sid sid RelSibling body generation now) db,
                       message db i = None))))"

definition list_pending_child_exit_messages :: "store \<Rightarrow> string \<Rightarrow> message_row list" where
  "list_pending_child_exit_messages db after = take 100 (sort_key m_id
     (filter (\<lambda>m. m_exit_generation m \<noteq> None \<and> m_state m \<in> {MQueued, MDelivered} \<and> after < m_id m
        \<and> (case session db (m_target m) of
             Some p \<Rightarrow> s_lifecycle p \<in> {Resident, Starting, Passivated} | None \<Rightarrow> False)) (messages db)))"

section \<open>Every operation moves messages forward\<close>

inductive msg_move :: "message_state \<Rightarrow> message_state \<Rightarrow> bool" where
  mv_queue: "msg_move MAccepted MQueued"
| mv_reject_accepted: "msg_move MAccepted MRejected"
| mv_deliver: "msg_move MQueued MDelivered"
| mv_reject_queued: "msg_move MQueued MRejected"
| mv_acknowledge: "msg_move MDelivered MAcknowledged"
| mv_reject_delivered: "msg_move MDelivered MRejected"

inductive_simps msg_move_from [simp]: "msg_move MAccepted s" "msg_move MQueued s" "msg_move MDelivered s"
  "msg_move MAcknowledged s" "msg_move MRejected s"

lemma msg_moves [simp]: "msg_move a b \<Longrightarrow> msg_move\<^sup>*\<^sup>* a b"
  by (rule r_into_rtranclp)

text \<open>What a message must satisfy on its own, and what an operation may change of it.\<close>

definition message_ok :: "message_row \<Rightarrow> bool" where
  "message_ok m \<longleftrightarrow> m_attempts m \<le> 1 \<and> (m_state m \<in> {MAccepted, MQueued} \<longrightarrow> m_attempts m = 0)
     \<and> (m_state m \<in> {MQueued, MDelivered, MAcknowledged} \<longrightarrow> m_entry m \<noteq> None \<or> m_exit_generation m \<noteq> None)
     \<and> (m_state m \<in> {MDelivered, MAcknowledged} \<longrightarrow> m_delivered_at m \<noteq> None)
     \<and> m_relationship m \<noteq> RelSelf"

definition messages_inv :: "store \<Rightarrow> bool" where
  "messages_inv db \<longleftrightarrow> unique_key m_id (messages db) \<and> (\<forall>m \<in> set (messages db). message_ok m)"

definition row_advances :: "message_row \<Rightarrow> message_row \<Rightarrow> bool" where
  "row_advances m m' \<longleftrightarrow> msg_move\<^sup>*\<^sup>* (m_state m) (m_state m') \<and> m_id m' = m_id m \<and> m_sender m' = m_sender m
     \<and> m_target m' = m_target m \<and> m_body m' = m_body m \<and> m_relationship m' = m_relationship m"

definition messages_advance :: "store \<Rightarrow> store \<Rightarrow> bool" where
  "messages_advance db db' \<longleftrightarrow> (messages_inv db \<longrightarrow> messages_inv db')
     \<and> (\<forall>i m. message db i = Some m \<longrightarrow> (\<exists>m'. message db' i = Some m' \<and> row_advances m m'))"

lemma row_advances_refl [simp]: "row_advances m m"
  by (simp add: row_advances_def)

lemma row_advances_trans: "row_advances a b \<Longrightarrow> row_advances b c \<Longrightarrow> row_advances a c"
  by (auto simp: row_advances_def)

lemma messages_advance_refl: "messages db' = messages db \<Longrightarrow> messages_advance db db'"
  by (auto simp: messages_advance_def messages_inv_def message_def)

lemma messages_advance_trans: "messages_advance a b \<Longrightarrow> messages_advance b c \<Longrightarrow> messages_advance a c"
  unfolding messages_advance_def by (meson row_advances_trans)

text \<open>A set-based update, an insertion of a fresh row, and an update of one row.\<close>

lemma messages_advance_where:
  assumes "\<And>m. m_id (f m) = m_id m" and "\<And>m. p m \<Longrightarrow> row_advances m (f m) \<and> (message_ok m \<longrightarrow> message_ok (f m))"
  shows "messages_advance db (messages_update (update_where p f) db)"
  using assms by (auto simp: messages_advance_def messages_inv_def message_def unique_key_update_where
      find_row_update set_update_where)

lemma messages_advance_insert:
  assumes "message db (m_id m) = None" and "message_ok m"
  shows "messages_advance db (messages_update (add_row m) db)"
  using assms by (auto simp: messages_advance_def messages_inv_def message_def unique_key_add_row
      message_tbl.lookup_insert)

lemma messages_advance_modify:
  assumes "message db i = Some m" and "\<And>m. m_id (f m) = m_id m" and "row_advances m (f m)"
    and "message_ok m \<Longrightarrow> message_ok (f m)"
  shows "messages_advance db (upd_message i f db)"
proof -
  have "messages_inv (upd_message i f db)" if inv: "messages_inv db"
  proof -
    have "r = m" if "r \<in> set (messages db)" "m_id r = i" for r
      using that inv find_row_unique [of m_id "messages db" r] assms(1) by (simp add: messages_inv_def message_def)
    then show ?thesis
      using inv assms(2,4) by (auto simp: messages_inv_def unique_key_modify_row modify_row_def set_update_where unique_key_update_where)
  qed
  then show ?thesis
    using assms(1-3) by (auto simp: messages_advance_def message_def message_tbl.lookup_modify)
qed

lemmas message_defs = message_ok_def row_advances_def new_message_def receipt_row_of_def

lemma resolve_reachable_targetD:
  assumes "resolve_reachable_target db sender selector = Inr (t, rel)"
  shows "\<exists>s. session db sender = Some s \<and> live s \<and> t \<in> set (sessions db) \<and> live t \<and> s_family_id t = s_family_id s
    \<and> relationship_between s t = Some rel \<and> rel \<noteq> RelSelf"
proof -
  obtain s where s: "session db sender = Some s" "live s"
    using assms by (auto simp: resolve_reachable_target_def live_def split: option.splits if_splits)
  define rows where "rows = filter (\<lambda>r. s_family_id r = s_family_id s \<and> s_lifecycle r \<noteq> Deleted) (sessions db)"
  have "t \<in> set rows \<and> relationship_between s t = Some rel \<and> rel \<noteq> RelSelf"
  proof (cases "find (\<lambda>r. s_id r = selector \<or> s_short_id r = selector) rows")
    case (Some e)
    then have "e \<in> set rows" by (auto simp: find_Some_iff)
    with assms s Some show ?thesis
      by (auto simp: resolve_reachable_target_def live_def rows_def Let_def split: option.splits relationship.splits)
  next
    case None
    let ?ms = "filter (\<lambda>r. s_display_name r = selector \<and> relationship_between s r \<noteq> None) rows"
    from assms s None have *: "(case ?ms of [] \<Rightarrow> Inl (Thrown (''no reachable target matches: '' @ selector))
             | [m] \<Rightarrow> (case relationship_between s m of
                   Some RelSelf \<Rightarrow> Inl (Thrown ''cannot send a message to the same session'')
                 | Some rel \<Rightarrow> Inr (m, rel)
                 | None \<Rightarrow> Inl (Thrown ''target is outside permitted family reach''))
             | _ \<Rightarrow> Inl (Thrown (''target name is ambiguous; use a stable ID: '' @ selector))) = Inr (t, rel)"
      by (simp add: resolve_reachable_target_def live_def rows_def)
    then obtain m where m: "?ms = [m]" by (auto split: list.splits)
    then have "m \<in> set rows" by (metis filter_is_subset list.set_intros(1) subsetD)
    with * m show ?thesis by (auto split: option.splits relationship.splits)
  qed
  with s show ?thesis by (auto simp: rows_def live_def)
qed

lemma create_messageD:
  assumes "create_message sender p limit uuid now db = Inr (db', m)"
  shows "db' = db \<and> message db (m_id m) = Some m \<and> m_sender m = sender \<and> m_body m = mp_body p
    \<or> (\<exists>t rel i. resolve_reachable_target db sender (mp_target p) = Inr (t, rel) \<and> message db i = None
        \<and> assert_session_available db sender = None \<and> assert_session_available db (s_id t) = None
        \<and> pending_count db (s_id t) < limit \<and> m = new_message i sender (s_id t) rel (mp_body p) now
        \<and> db' = messages_update (add_row m) db)"
proof -
  obtain t rel where r: "resolve_reachable_target db sender (mp_target p) = Inr (t, rel)"
    using assms by (cases "resolve_reachable_target db sender (mp_target p)")
      (auto simp: create_message_def split: if_splits)
  show ?thesis
  proof (cases "message db (case mp_id p of Some i \<Rightarrow> i | None \<Rightarrow> uuid)")
    case None
    with assms r show ?thesis
      by (intro disjI2 exI [of _ t] exI [of _ rel] exI [of _ "case mp_id p of Some i \<Rightarrow> i | None \<Rightarrow> uuid"])
        (auto simp: create_message_def Let_def split: if_splits option.split_asm)
  next
    case (Some x)
    then have "m_id x = (case mp_id p of Some i \<Rightarrow> i | None \<Rightarrow> uuid)"
      by (simp add: message_def message_tbl.lookup_key)
    with Some assms r show ?thesis
      by (intro disjI1) (auto simp: create_message_def Let_def split: if_splits option.split_asm)
  qed
qed

lemma messages_advance_same [simp]: "messages_advance db db"
  by (simp add: messages_advance_refl)

lemma create_message_advance:
  assumes "create_message sender p limit uuid now db = Inr (db', m)"
  shows "messages_advance db db'"
  using create_messageD [OF assms]
  by (auto simp: message_defs intro!: messages_advance_insert dest: resolve_reachable_targetD)

lemma record_entry_advance:
  "record_message_sender_entry sender mid entry peer rel body now db = Inr (db', x) \<Longrightarrow> messages_advance db db'"
  by (auto simp: record_message_sender_entry_def Let_def message_defs split: if_splits option.splits
      intro!: messages_advance_modify)

lemma mark_delivered_advance: "mark_message_delivered mid target now mx db = Inr (db', x) \<Longrightarrow> messages_advance db db'"
  by (auto simp: mark_message_delivered_def Let_def message_defs split: if_splits option.splits
      intro!: messages_advance_modify)

lemma acknowledge_advance: "acknowledge_message mid target now db = Inr (db', x) \<Longrightarrow> messages_advance db db'"
  by (auto simp: acknowledge_message_def Let_def message_defs split: if_splits option.splits
      intro!: messages_advance_modify)

lemma insert_or_ignore_advance: "message_ok m \<Longrightarrow> messages_advance db (insert_or_ignore_message m db)"
  by (auto simp: insert_or_ignore_message_def intro: messages_advance_insert)

lemma queue_failure_advance: "messages_advance db (queue_child_failure sha ob sid g err tf now db)"
  by (auto simp: queue_child_failure_def message_defs intro!: insert_or_ignore_advance split: option.splits)

lemma home_nudge_advance: "queue_home_failure_nudge sha sid g tf failed now db = Inr (db', x) \<Longrightarrow> messages_advance db db'"
  by (auto simp: queue_home_failure_nudge_def Let_def message_defs intro!: insert_or_ignore_advance
      split: option.splits if_splits sum.splits)

lemma terminalize_advance: "messages_advance db (terminalize_work gone now db)"
proof -
  let ?a = "messages_update (update_where (\<lambda>m. gone (m_target m) \<and> m_state m \<in> set pending_states)
         (reject_message ''target session was deleted'' now)) db"
  let ?b = "messages_update (update_where (\<lambda>m. gone (m_sender m) \<and> m_state m = MAccepted)
         (reject_message ''sender session was deleted before its transcript entry was recorded'' now)) ?a"
  have "messages_advance db ?a"
    by (rule messages_advance_where) (auto simp: reject_message_def message_defs pending_states_def)
  moreover have "messages_advance ?a ?b"
    by (rule messages_advance_where) (auto simp: reject_message_def message_defs)
  moreover have "messages_advance ?b (terminalize_work gone now db)"
    by (rule messages_advance_refl) (simp add: terminalize_work_def)
  ultimately show ?thesis by (blast intro: messages_advance_trans)
qed

section \<open>Properties\<close>

lemma pending_count_insert: "pending_count (messages_update (add_row m) db) t
    = pending_count db t + (if m_target m = t \<and> m_state m \<in> set pending_states then 1 else 0)"
  by (simp add: pending_count_def changes_def add_row_def)

text \<open>
  C10: A message that is newly admitted is the sender's, is appended as accepted, goes to a live
  session of the sender's family that the recorded relationship really reaches, neither side is
  being deleted, and the target's count of pending messages stays within the limit.
\<close>

theorem create_message_admits:
  assumes "create_message sender p limit uuid now db = Inr (db', m)" and "messages db' \<noteq> messages db"
  shows "messages db' = messages db @ [m] \<and> m_state m = MAccepted \<and> m_sender m = sender \<and> m_body m = mp_body p
    \<and> message db (m_id m) = None \<and> pending_count db' (m_target m) \<le> limit
    \<and> assert_session_available db sender = None \<and> assert_session_available db (m_target m) = None
    \<and> (\<exists>s t. session db sender = Some s \<and> live s \<and> t \<in> set (sessions db) \<and> s_id t = m_target m \<and> live t
         \<and> s_family_id t = s_family_id s \<and> relationship_between s t = Some (m_relationship m) \<and> m_relationship m \<noteq> RelSelf)"
proof -
  from create_messageD [OF assms(1)] assms(2) obtain t rel i where
    c: "resolve_reachable_target db sender (mp_target p) = Inr (t, rel)" "message db i = None"
      "assert_session_available db sender = None" "assert_session_available db (s_id t) = None"
      "pending_count db (s_id t) < limit" "m = new_message i sender (s_id t) rel (mp_body p) now"
      "db' = messages_update (add_row m) db" by auto
  have "pending_count db' (m_target m) \<le> limit" using c(5-7) by (simp add: pending_count_insert new_message_def)
  moreover have "messages db' = messages db @ [m]" using c(7) by (simp add: add_row_def)
  ultimately show ?thesis
    using resolve_reachable_targetD [OF c(1)] c(2-6) by (auto simp: new_message_def)
qed

lemma resolve_reachable_target_frame: "resolve_reachable_target (messages_update f db) sender sel = resolve_reachable_target db sender sel"
proof -
  have a: "session (messages_update f db) k = session db k" for k by (simp add: session_def)
  have b: "sessions (messages_update f db) = sessions db" by simp
  show ?thesis unfolding resolve_reachable_target_def a b ..
qed

lemma availability_messages: "assert_session_available (messages_update f db) i = assert_session_available db i"
  by (simp add: assert_session_available_def is_session_deleting_def session_def)

text \<open>
  Sending again under the same message identity returns the stored message and changes
  nothing, whatever the clock, the fresh identifier and the limit are.
\<close>

theorem create_message_idempotent:
  assumes "create_message sender p limit uuid now db = Inr (db', m)" and "mp_id p = Some i"
  shows "create_message sender p limit' uuid' now' db' = Inr (db', m)"
proof -
  obtain t rel where r: "resolve_reachable_target db sender (mp_target p) = Inr (t, rel)"
    using assms(1) by (cases "resolve_reachable_target db sender (mp_target p)") (auto simp: create_message_def split: if_splits)
  show ?thesis
  proof (cases "message db i")
    case None
    with assms r show ?thesis
      by (auto simp: create_message_def Let_def resolve_reachable_target_frame availability_messages message_def
          message_tbl.lookup_insert find_row_add_row new_message_def split: if_splits option.splits)
  next
    case (Some x)
    with assms r show ?thesis
      by (auto simp: create_message_def Let_def split: if_splits option.splits)
  qed
qed

end
