(* ===== verification/Inputs.thy ===== *)
theory Inputs
  imports Messages
begin

text \<open>
  The durable user-input queue of src/store.mjs: a receipt per input identity, a pending
  payload until the input reaches model context or is handled, byte and count limits, and
  the idempotent replay of an identical submission.
\<close>

definition receipt :: "store \<Rightarrow> string \<Rightarrow> receipt_row option" where
  "receipt db i = find_row r_id (receipts db) i"

definition pending_input :: "store \<Rightarrow> string \<Rightarrow> input_row option" where
  "pending_input db i = find_row i_id (inputs db) i"

abbreviation upd_receipt :: "string \<Rightarrow> (receipt_row \<Rightarrow> receipt_row) \<Rightarrow> store \<Rightarrow> store" where
  "upd_receipt i f db \<equiv> receipts_update (modify_row r_id i f) db"

section \<open>Validation\<close>

definition bounded_id :: "string \<Rightarrow> bool" where
  "bounded_id s \<longleftrightarrow> s \<noteq> [] \<and> length s \<le> 128"

text \<open>\<open>normalizeInputProvenance\<close>: does the source carry the origin it needs?\<close>

definition provenance_error :: "input_source \<Rightarrow> origin option \<Rightarrow> error option" where
  "provenance_error src org = (case src of
      SrcUser \<Rightarrow> (if org = None then None else Some (Thrown ''user input must not carry an internal origin''))
    | SrcCron \<Rightarrow> (case org of
          Some (CronOrigin j r) \<Rightarrow> if bounded_id j \<and> bounded_id r then None
            else Some (Thrown ''internal input requires an authenticated job origin'')
        | _ \<Rightarrow> Some (Thrown ''internal input requires an authenticated job origin''))
    | SrcBackground \<Rightarrow> (case org of
          Some (BackgroundOrigin j) \<Rightarrow> if bounded_id j then None
            else Some (Thrown ''internal input requires an authenticated job origin'')
        | _ \<Rightarrow> Some (Thrown ''internal input requires an authenticated job origin'')))"

definition control_char :: "char \<Rightarrow> bool" where
  "control_char c \<longleftrightarrow> (of_char c :: nat) \<le> 31 \<or> of_char c = (127 :: nat)"

definition retry_intent_error :: "retry_intent option \<Rightarrow> error option" where
  "retry_intent_error ri = (case ri of
      None \<Rightarrow> None
    | Some (target, _) \<Rightarrow> if bounded_id target \<and> \<not> list_ex control_char target then None
        else Some (Thrown ''retryIntent must contain a bounded targetId and original or explicit mode''))"

text \<open>\<open>normalizeInputLocation\<close> (src/input-location.mjs): exactly four keys, numbers in range, -0 as 0.\<close>

definition finite_in :: "rat \<Rightarrow> rat \<Rightarrow> js \<Rightarrow> rat option" where
  "finite_in lo hi v = (case v of JNum (Fin q) \<Rightarrow> if lo \<le> q \<and> q \<le> hi then Some q else None | _ \<Rightarrow> None)"

definition finite_from :: "rat \<Rightarrow> js \<Rightarrow> rat option" where
  "finite_from lo v = (case v of JNum (Fin q) \<Rightarrow> if lo \<le> q then Some q else None | _ \<Rightarrow> None)"

definition normalize_input_location :: "js \<Rightarrow> js option result" where
  "normalize_input_location v = (case v of
      Undef \<Rightarrow> Inr None
    | JObj ps \<Rightarrow>
        if length ps \<noteq> 4 \<or> \<not> (\<forall>k \<in> {''latitude'', ''longitude'', ''accuracy'', ''timestamp''}. jhas k v)
        then Inl (TypeErr ''location must contain latitude, longitude, accuracy, and timestamp'')
        else (case (finite_in (-90) 90 (jget ''latitude'' v), finite_in (-180) 180 (jget ''longitude'' v),
                    finite_from 0 (jget ''accuracy'' v), js_safe_int (jget ''timestamp'' v)) of
            (Some la, Some lo, Some ac, Some ts) \<Rightarrow>
              if 0 \<le> ts \<and> ts \<le> 8640000000000000
              then Inr (Some (JObj [(''latitude'', JNum (Fin la)), (''longitude'', JNum (Fin lo)),
                       (''accuracy'', JNum (Fin ac)), (''timestamp'', jint ts)]))
              else Inl (TypeErr ''location coordinates, accuracy, or timestamp are invalid'')
          | _ \<Rightarrow> Inl (TypeErr ''location coordinates, accuracy, or timestamp are invalid''))
    | _ \<Rightarrow> Inl (TypeErr ''location must contain latitude, longitude, accuracy, and timestamp''))"

definition behavior_name :: "behavior \<Rightarrow> string" where
  "behavior_name b = (case b of Auto \<Rightarrow> ''auto'' | Steer \<Rightarrow> ''steer'' | FollowUp \<Rightarrow> ''follow_up'')"

text \<open>\<open>actorInputDigest\<close> (src/protocol.mjs) over the hash \<open>sha\<close>; the location is its JSON text.\<close>

definition actor_input_digest :: "(string \<Rightarrow> string) \<Rightarrow> string \<Rightarrow> string \<Rightarrow> behavior \<Rightarrow> string option \<Rightarrow> string" where
  "actor_input_digest sha body images b loc =
     sha (body @ [CHR 0x00] @ images @ [CHR 0x00] @ behavior_name b @
       (case loc of None \<Rightarrow> [] | Some l \<Rightarrow> [CHR 0x00] @ ''location'' @ [CHR 0x00] @ l))"

section \<open>Activity\<close>

definition record_session_activity :: "string \<Rightarrow> int \<Rightarrow> store \<Rightarrow> bool op_result" where
  "record_session_activity sid now db =
     (if now < 0 \<or> now > max_safe then Inl (Thrown ''activity timestamp must be nonnegative integer milliseconds'')
      else let older = (\<lambda>r. case s_last_activity_at r of None \<Rightarrow> True | Some a \<Rightarrow> a < now)
        in Inr (sessions_update (update_where (\<lambda>r. s_id r = sid \<and> older r) (\<lambda>r. r\<lparr>s_last_activity_at := Some now\<rparr>)) db,
                (case session db sid of Some r \<Rightarrow> older r | None \<Rightarrow> False)))"

section \<open>Submission\<close>

record input_params =
  ip_id :: "string option"
  ip_message :: string
  ip_images :: string
  ip_location :: js
  ip_behavior :: behavior
  ip_source :: input_source
  ip_origin :: "origin option"
  ip_client :: "string option"
  ip_retry :: "retry_intent option"
  ip_limit :: nat
  ip_bytes_limit :: nat
  ip_global_limit :: nat

definition payload_bytes :: "input_row \<Rightarrow> nat" where
  "payload_bytes i = utf8_len (i_body i) + utf8_len (i_images i)
     + (case i_location i of None \<Rightarrow> 0 | Some l \<Rightarrow> utf8_len l)"

definition session_bytes :: "store \<Rightarrow> string \<Rightarrow> nat" where
  "session_bytes db sid = sum_list (map payload_bytes (filter (\<lambda>i. i_session i = sid) (inputs db)))"

definition global_bytes :: "store \<Rightarrow> nat" where
  "global_bytes db = sum_list (map payload_bytes (inputs db))"

definition session_pending :: "store \<Rightarrow> string \<Rightarrow> nat" where
  "session_pending db sid = changes (\<lambda>i. i_session i = sid) (inputs db)"

definition next_sequence :: "receipt_row list \<Rightarrow> int" where
  "next_sequence t = foldr max (map r_sequence t) 0 + 1"

text \<open>The receipt, with the pending payload while there is one (\<open>getActorInput\<close>).\<close>

definition get_actor_input :: "store \<Rightarrow> string \<Rightarrow> string \<Rightarrow> (receipt_row \<times> input_row option) option" where
  "get_actor_input db i sid = (case receipt db i of
      Some r \<Rightarrow> if r_session r = sid then Some (r, case pending_input db i of
          Some p \<Rightarrow> if i_session p = sid then Some p else None
        | None \<Rightarrow> None) else None
    | None \<Rightarrow> None)"

definition receipt_matches :: "receipt_row \<Rightarrow> string \<Rightarrow> string \<Rightarrow> input_params \<Rightarrow> bool" where
  "receipt_matches r sid digest p \<longleftrightarrow> r_session r = sid \<and> r_digest r = digest \<and> r_retry r = ip_retry p
     \<and> (r_source r \<noteq> None \<longrightarrow> r_source r = Some (ip_source p) \<and> r_origin r = ip_origin p)
     \<and> (r_client_id r \<noteq> None \<and> ip_client p \<noteq> None \<longrightarrow> r_client_id r = ip_client p)"

text \<open>The replay of a known identity restores missing legacy metadata only.\<close>

definition restore_metadata :: "input_params \<Rightarrow> receipt_row \<Rightarrow> receipt_row" where
  "restore_metadata p r =
     (let r1 = (if r_source r = None \<and> ip_source p \<noteq> SrcUser
                then r\<lparr>r_source := Some (ip_source p), r_origin := ip_origin p\<rparr> else r)
      in if r_client_id r = None \<and> ip_client p \<noteq> None then r1\<lparr>r_client_id := ip_client p\<rparr> else r1)"

definition input_request_error :: "input_params \<Rightarrow> error option" where
  "input_request_error p = (case provenance_error (ip_source p) (ip_origin p) of
      Some e \<Rightarrow> Some e
    | None \<Rightarrow> (case retry_intent_error (ip_retry p) of
        Some e \<Rightarrow> Some e
      | None \<Rightarrow>
          if ip_retry p \<noteq> None \<and> ip_behavior p \<noteq> Auto then Some (Thrown ''retry input behavior must be auto'')
          else if (case ip_client p of Some c \<Rightarrow> \<not> bounded_id c | None \<Rightarrow> False)
          then Some (Thrown ''clientMessageId must be a non-empty string of at most 128 characters'')
          else None))"

definition new_receipt :: "string \<Rightarrow> string \<Rightarrow> string \<Rightarrow> input_params \<Rightarrow> int \<Rightarrow> store \<Rightarrow> receipt_row" where
  "new_receipt i sid digest p now db = \<lparr>r_id = i, r_session = sid, r_digest = digest, r_created_at = now,
     r_sequence = next_sequence (receipts db), r_source = Some (ip_source p), r_origin = ip_origin p,
     r_client_id = ip_client p, r_delivered_at = None, r_delivered_entry = None, r_handled_at = None, r_retry = ip_retry p\<rparr>"

definition new_input :: "string \<Rightarrow> string \<Rightarrow> string \<Rightarrow> input_params \<Rightarrow> string option \<Rightarrow> int \<Rightarrow> input_row" where
  "new_input i sid digest p loc now = \<lparr>i_id = i, i_session = sid, i_body = ip_message p, i_images = ip_images p,
     i_location = loc, i_digest = digest, i_behavior = ip_behavior p, i_state = IQueued, i_created_at = now,
     i_accepted_at = None, i_accepted_generation = None, i_wake_error = None\<rparr>"

text \<open>
  \<open>createActorInput\<close>. \<open>stringify\<close> is \<open>JSON.stringify\<close> on a location, \<open>sha\<close> the hash and
  \<open>uuid\<close> a fresh identifier.
\<close>

definition admit_input :: "string \<Rightarrow> string \<Rightarrow> string \<Rightarrow> input_params \<Rightarrow> string option \<Rightarrow> int \<Rightarrow> store \<Rightarrow> (receipt_row \<times> input_row option) op_result" where
  "admit_input i sid digest p loc now db =
     (let row = new_input i sid digest p loc now in
      if session_pending db sid \<ge> ip_limit p then Inl (Thrown ''target pending user-input limit exceeded'')
      else if session_bytes db sid + payload_bytes row > ip_bytes_limit p
      then Inl (Thrown ''target pending user-input byte limit exceeded'')
      else if global_bytes db + payload_bytes row > ip_global_limit p
      then Inl (Thrown ''global pending user-input byte limit exceeded'')
      else if pending_input db i \<noteq> None then Inl (UniqueViolation ''actor_inputs'')
      else (let r = new_receipt i sid digest p now db;
                db1 = db\<lparr>receipts := add_row r (receipts db), inputs := add_row row (inputs db)\<rparr>
            in case record_session_activity sid now db1 of
                 Inl e \<Rightarrow> Inl e
               | Inr (db2, _) \<Rightarrow> Inr (db2, (r, Some row))))"

definition create_actor_input ::
  "(string \<Rightarrow> string) \<Rightarrow> (js \<Rightarrow> string) \<Rightarrow> string \<Rightarrow> string \<Rightarrow> input_params \<Rightarrow> int \<Rightarrow> store \<Rightarrow> (receipt_row \<times> input_row option) op_result" where
  "create_actor_input sha stringify sid uuid p now db =
     (case assert_session_available db sid of Some e \<Rightarrow> Inl e | None \<Rightarrow>
      (case input_request_error p of Some e \<Rightarrow> Inl e | None \<Rightarrow>
       (case normalize_input_location (ip_location p) of Inl e \<Rightarrow> Inl e | Inr location \<Rightarrow>
         if location \<noteq> None \<and> ip_source p \<noteq> SrcUser then Inl (Thrown ''location requires a genuine user input'')
         else (let loc = map_option stringify location;
                   i = (case ip_id p of Some i \<Rightarrow> i | None \<Rightarrow> uuid);
                   digest = actor_input_digest sha (ip_message p) (ip_images p) (ip_behavior p) loc
               in case receipt db i of
                    Some r \<Rightarrow>
                      if \<not> receipt_matches r sid digest p
                      then Inl (Thrown ''actor input id was reused with different input'')
                      else (let db' = upd_receipt i (restore_metadata p) db
                            in Inr (db', (restore_metadata p r, case get_actor_input db' i sid of
                                 Some (_, pend) \<Rightarrow> pend | None \<Rightarrow> None)))
                  | None \<Rightarrow> admit_input i sid digest p loc now db))))"

section \<open>Delivery\<close>

definition list_pending_actor_inputs :: "store \<Rightarrow> string \<Rightarrow> (receipt_row \<times> input_row) list" where
  "list_pending_actor_inputs db sid = sort_key (\<lambda>(r, _). r_sequence r)
     (concat (map (\<lambda>i. case receipt db (i_id i) of
         Some r \<Rightarrow> if r_session r = i_session i then [(r, i)] else []
       | None \<Rightarrow> []) (filter (\<lambda>i. i_session i = sid) (inputs db))))"

definition has_pending_actor_inputs :: "store \<Rightarrow> string \<Rightarrow> bool" where
  "has_pending_actor_inputs db sid \<longleftrightarrow> (\<exists>i \<in> set (inputs db). i_session i = sid \<and>
     (case receipt db (i_id i) of Some r \<Rightarrow> r_session r = sid | None \<Rightarrow> False))"

definition set_actor_input_wake_error :: "string \<Rightarrow> int option \<Rightarrow> store \<Rightarrow> (receipt_row \<times> input_row) list op_result" where
  "set_actor_input_wake_error sid gen db =
     (if (case gen of Some g \<Rightarrow> g < 1 \<or> g > max_safe | None \<Rightarrow> False) then Inl (Thrown ''invalid actor generation'')
      else (let changed = map i_id (filter (\<lambda>i. i_session i = sid \<and> i_wake_error i \<noteq> gen) (inputs db));
                db' = inputs_update (update_where (\<lambda>i. i_session i = sid \<and> i_wake_error i \<noteq> gen)
                        (\<lambda>i. i\<lparr>i_wake_error := gen\<rparr>)) db
            in Inr (db', case gen of
                 Some _ \<Rightarrow> list_pending_actor_inputs db' sid
               | None \<Rightarrow> filter (\<lambda>(r, i). i_id i \<in> set changed \<and> r_delivered_at r = None)
                   (list_pending_actor_inputs db' sid))))"

definition mark_actor_input_accepted :: "string \<Rightarrow> string \<Rightarrow> int \<Rightarrow> int \<Rightarrow> store \<Rightarrow> store \<times> (receipt_row \<times> input_row option) result" where
  "mark_actor_input_accepted i sid gen now db =
     (let db' = inputs_update (update_where (\<lambda>r. i_id r = i \<and> i_session r = sid)
          (\<lambda>r. r\<lparr>i_state := IAccepted,
             i_accepted_at := (case i_accepted_at r of None \<Rightarrow> Some now | Some a \<Rightarrow> Some a),
             i_accepted_generation := Some gen\<rparr>)) db
      in (db', case get_actor_input db' i sid of
            None \<Rightarrow> Inl (Thrown ''actor input does not exist'')
          | Some x \<Rightarrow> Inr x))"

definition drop_input :: "string \<Rightarrow> string \<Rightarrow> store \<Rightarrow> store" where
  "drop_input i sid db = inputs_update (filter (\<lambda>r. \<not> (i_id r = i \<and> i_session r = sid))) db"

text \<open>\<open>completeActorInput\<close>: the result is whether this call delivered it.\<close>

definition complete_actor_input :: "string \<Rightarrow> string \<Rightarrow> int \<Rightarrow> string option \<Rightarrow> store \<Rightarrow> bool op_result" where
  "complete_actor_input i sid now entry db = (case receipt db i of
      None \<Rightarrow> Inr (db, False)
    | Some r \<Rightarrow>
        if r_session r \<noteq> sid then Inr (db, False)
        else if r_handled_at r \<noteq> None then Inl (Thrown ''input was handled without a model message'')
        else if r_delivered_entry r \<notin> {None, Some []} \<and> entry \<notin> {None, Some []} \<and> r_delivered_entry r \<noteq> entry
        then Inl (Thrown ''input has a different delivered entry'')
        else (let changed = (r_delivered_at r = None);
                  db1 = drop_input i sid (upd_receipt i (\<lambda>r. r\<lparr>
                     r_delivered_at := (case r_delivered_at r of None \<Rightarrow> Some (max now (r_created_at r)) | Some d \<Rightarrow> Some d),
                     r_delivered_entry := (case r_delivered_entry r of None \<Rightarrow> entry | Some e \<Rightarrow> Some e)\<rparr>) db)
              in if changed
                 then (case record_session_activity sid now db1 of Inl e \<Rightarrow> Inl e | Inr (db2, _) \<Rightarrow> Inr (db2, True))
                 else Inr (db1, False)))"

definition mark_actor_input_handled :: "string \<Rightarrow> string \<Rightarrow> int \<Rightarrow> store \<Rightarrow> receipt_row op_result" where
  "mark_actor_input_handled i sid now db = (case receipt db i of
      None \<Rightarrow> Inl (Thrown ''actor input does not exist'')
    | Some r \<Rightarrow>
        if r_session r \<noteq> sid then Inl (Thrown ''actor input does not exist'')
        else if r_source r \<notin> {None, Some SrcUser}
        then Inl (Thrown ''only a user control input can be handled without a model message'')
        else if r_delivered_at r \<noteq> None then Inl (Thrown ''input was already delivered to model context'')
        else (let changed = (r_handled_at r = None);
                  f = (\<lambda>r. r\<lparr>r_handled_at := (case r_handled_at r of None \<Rightarrow> Some (max now (r_created_at r)) | Some h \<Rightarrow> Some h)\<rparr>);
                  db1 = drop_input i sid (upd_receipt i f db)
              in if changed
                 then (case record_session_activity sid now db1 of Inl e \<Rightarrow> Inl e | Inr (db2, _) \<Rightarrow> Inr (db2, f r))
                 else Inr (db1, f r)))"

section \<open>Lookup of a submitted request\<close>

text \<open>\<open>matchActorInputRequest\<close>; an omitted field of the request is \<open>None\<close>.\<close>

record match_params =
  mq_id :: "string option"
  mq_message :: "string option"
  mq_images :: "string option"
  mq_location :: "string option"
  mq_behavior :: behavior
  mq_retry :: "retry_intent option"
  mq_client :: "string option"

definition match_actor_input_request ::
  "(string \<Rightarrow> string) \<Rightarrow> string \<Rightarrow> match_params \<Rightarrow> store \<Rightarrow> (receipt_row \<times> input_row option) option result" where
  "match_actor_input_request sha sid q db = (case retry_intent_error (mq_retry q) of
      Some e \<Rightarrow> Inl e
    | None \<Rightarrow> (let original = (case mq_retry q of Some (_, Original) \<Rightarrow> True | _ \<Rightarrow> False) in
        if mq_retry q \<noteq> None \<and> mq_behavior q \<noteq> Auto then Inl (Thrown ''retry input behavior must be auto'')
        else if original \<and> (mq_message q \<noteq> None \<or> mq_images q \<noteq> None \<or> mq_location q \<noteq> None)
        then Inl (Thrown ''original retry request must omit message, images, and location'')
        else (case mq_id q of
            None \<Rightarrow> Inr None
          | Some i \<Rightarrow> (case receipt db i of
              None \<Rightarrow> Inr None
            | Some r \<Rightarrow>
                if r_session r \<noteq> sid \<or> r_retry r \<noteq> mq_retry q
                  \<or> (r_client_id r \<noteq> None \<and> mq_client q \<noteq> None \<and> r_client_id r \<noteq> mq_client q)
                then Inl (Thrown ''actor input id was reused with different input'')
                else if \<not> original \<and> mq_message q = None
                then Inl (TypeErr ''The data argument must be of type string. Received undefined'')
                else if \<not> original \<and>
                     (r_digest r \<noteq> actor_input_digest sha (the (mq_message q))
                         (case mq_images q of None \<Rightarrow> ''[]'' | Some im \<Rightarrow> im) (mq_behavior q) (mq_location q)
                      \<or> r_source r \<notin> {None, Some SrcUser})
                then Inl (Thrown ''actor input id was reused with different input'')
                else Inr (get_actor_input db i sid)))))"

definition list_actor_input_receipts :: "store \<Rightarrow> string \<Rightarrow> string list option \<Rightarrow> int \<Rightarrow> receipt_row list result" where
  "list_actor_input_receipts db sid ids limit =
     (if limit < 1 \<or> limit > 10000 then Inl (Thrown ''receipt limit must be from 1 through 10000'')
      else (let own = sort_key r_sequence (filter (\<lambda>r. r_session r = sid) (receipts db)) in
        case ids of
          None \<Rightarrow> Inr (rev (take (nat limit) (rev own)))
        | Some is \<Rightarrow> if length is > 10000 then Inl (Thrown ''inputIds must be an array of at most 10000 strings'')
            else Inr (take (nat limit) (filter (\<lambda>r. r_id r \<in> set is) own))))"

section \<open>Every operation keeps the queue consistent\<close>

datatype receipt_status = RPending | RDelivered | RHandled

definition receipt_status :: "receipt_row \<Rightarrow> receipt_status" where
  "receipt_status r = (if r_handled_at r \<noteq> None then RHandled else if r_delivered_at r \<noteq> None then RDelivered else RPending)"

inductive receipt_move :: "receipt_status \<Rightarrow> receipt_status \<Rightarrow> bool" where
  rm_deliver: "receipt_move RPending RDelivered"
| rm_handle: "receipt_move RPending RHandled"

inductive_simps receipt_move_from [simp]: "receipt_move RPending s" "receipt_move RDelivered s" "receipt_move RHandled s"

lemma receipt_moves [simp]: "receipt_move a b \<Longrightarrow> receipt_move\<^sup>*\<^sup>* a b"
  by (rule r_into_rtranclp)

definition open_receipt :: "receipt_row \<Rightarrow> bool" where
  "open_receipt r \<longleftrightarrow> r_delivered_at r = None \<and> r_handled_at r = None"

definition receipts_inv :: "receipt_row list \<Rightarrow> bool" where
  "receipts_inv t \<longleftrightarrow> unique_key r_id t \<and> unique_key r_sequence t
     \<and> (\<forall>r \<in> set t. r_handled_at r = None \<or> r_delivered_at r = None)"

definition backed :: "store \<Rightarrow> input_row \<Rightarrow> bool" where
  "backed db i \<longleftrightarrow> (\<exists>r. receipt db (i_id i) = Some r \<and> r_session r = i_session i \<and> r_digest r = i_digest i \<and> open_receipt r)"

definition inputs_inv :: "store \<Rightarrow> bool" where
  "inputs_inv db \<longleftrightarrow> receipts_inv (receipts db) \<and> unique_key i_id (inputs db) \<and> (\<forall>i \<in> set (inputs db). backed db i)"

definition receipt_advances :: "receipt_row \<Rightarrow> receipt_row \<Rightarrow> bool" where
  "receipt_advances r r' \<longleftrightarrow> receipt_move\<^sup>*\<^sup>* (receipt_status r) (receipt_status r') \<and> r_id r' = r_id r
     \<and> r_session r' = r_session r \<and> r_digest r' = r_digest r \<and> r_sequence r' = r_sequence r
     \<and> (r_delivered_at r \<noteq> None \<longrightarrow> r_delivered_at r' = r_delivered_at r)
     \<and> (r_handled_at r \<noteq> None \<longrightarrow> r_handled_at r' = r_handled_at r)"

definition inputs_advance :: "store \<Rightarrow> store \<Rightarrow> bool" where
  "inputs_advance db db' \<longleftrightarrow> (inputs_inv db \<longrightarrow> inputs_inv db')
     \<and> (\<forall>i r. receipt db i = Some r \<longrightarrow> (\<exists>r'. receipt db' i = Some r' \<and> receipt_advances r r'))"

lemma receipt_advances_refl [simp]: "receipt_advances r r"
  by (simp add: receipt_advances_def)

lemma receipt_advances_trans: "receipt_advances a b \<Longrightarrow> receipt_advances b c \<Longrightarrow> receipt_advances a c"
  unfolding receipt_advances_def by (metis rtranclp_trans)

lemma inputs_advance_frame: "receipts db' = receipts db \<Longrightarrow> inputs db' = inputs db \<Longrightarrow> inputs_advance db db'"
  by (simp add: inputs_advance_def inputs_inv_def backed_def receipt_def)

lemma inputs_advance_same [simp]: "inputs_advance db db"
  by (simp add: inputs_advance_frame)

lemma inputs_advance_trans: "inputs_advance a b \<Longrightarrow> inputs_advance b c \<Longrightarrow> inputs_advance a c"
  unfolding inputs_advance_def by (meson receipt_advances_trans)

lemma inputs_advance_drop: "inputs_advance db (inputs_update (filter p) db)"
  by (auto simp: inputs_advance_def inputs_inv_def backed_def receipt_def unique_key_filter)

lemma inputs_advance_rows:
  assumes "\<And>i. i_id (f i) = i_id i \<and> i_session (f i) = i_session i \<and> i_digest (f i) = i_digest i"
  shows "inputs_advance db (inputs_update (update_where p f) db)"
  using assms by (auto simp: inputs_advance_def inputs_inv_def backed_def receipt_def unique_key_update_where set_update_where)

lemma next_sequence_greater: "r \<in> set t \<Longrightarrow> r_sequence r < next_sequence t"
  by (induction t) (auto simp: next_sequence_def)

lemma session_activity_tables: "record_session_activity sid now db = Inr (db', x) \<Longrightarrow>
   receipts db' = receipts db \<and> inputs db' = inputs db \<and> messages db' = messages db \<and> tasks db' = tasks db"
  by (auto simp: record_session_activity_def Let_def split: if_splits)

lemma inputs_advance_admit:
  assumes "receipt db (r_id r) = None" and "pending_input db (i_id row) = None"
    and "i_id row = r_id r" "i_session row = r_session r" "i_digest row = r_digest r" "open_receipt r"
    and "r_sequence r = next_sequence (receipts db)"
  shows "inputs_advance db (db\<lparr>receipts := add_row r (receipts db), inputs := add_row row (inputs db)\<rparr>)"
    (is "inputs_advance db ?db")
proof -
  have old: "receipt ?db i = (if i = r_id r then Some r else receipt db i)" for i
    using assms(1) by (simp add: receipt_def receipt_tbl.lookup_insert)
  have "inputs_inv ?db" if inv: "inputs_inv db"
  proof -
    have "find_row r_sequence (receipts db) (r_sequence r) = None"
      using assms(7) by (auto simp: find_row_None_iff dest: next_sequence_greater)
    with inv assms have "receipts_inv (receipts ?db)" "unique_key i_id (inputs ?db)"
      by (auto simp: inputs_inv_def receipts_inv_def unique_key_add_row receipt_def pending_input_def open_receipt_def)
    moreover have "backed ?db i" if "i \<in> set (inputs ?db)" for i
      using that inv assms by (cases "i_id i = r_id r") (auto simp: backed_def old inputs_inv_def)
    ultimately show ?thesis by (simp add: inputs_inv_def)
  qed
  then show ?thesis using assms(1) by (auto simp: inputs_advance_def old)
qed

text \<open>One receipt changes; when it closes, its pending payload goes with it.\<close>

lemma inputs_advance_modify:
  assumes "receipt db i = Some r" and "\<And>r. r_id (f r) = r_id r \<and> r_sequence (f r) = r_sequence r"
    and "receipt_advances r (f r)" and "inputs_inv db \<Longrightarrow> r_handled_at (f r) = None \<or> r_delivered_at (f r) = None"
    and "open_receipt r \<Longrightarrow> open_receipt (f r)"
  shows "inputs_advance db (upd_receipt i f db)"
proof -
  have look: "receipt (upd_receipt i f db) k = (if k = i then Some (f r) else receipt db k)" for k
    using assms(1,2) by (simp add: receipt_def receipt_tbl.lookup_modify)
  have uniq: "x = r" if "inputs_inv db" "x \<in> set (receipts db)" "r_id x = i" for x
    using that find_row_unique [of r_id "receipts db" x] assms(1) by (simp add: inputs_inv_def receipts_inv_def receipt_def)
  have "receipts_inv (receipts (upd_receipt i f db))" if "inputs_inv db"
    using that uniq [OF that] assms(2) assms(4) [OF that]
    by (auto simp: receipts_inv_def inputs_inv_def modify_row_def unique_key_update_where set_update_where)
  moreover have "backed (upd_receipt i f db) x" if "backed db x" for x
    using that assms(1,3,5) by (cases "i_id x = i") (auto simp: backed_def look receipt_advances_def)
  ultimately have "inputs_inv (upd_receipt i f db)" if "inputs_inv db"
    using that by (auto simp: inputs_inv_def)
  then show ?thesis using assms(1,3) by (auto simp: inputs_advance_def look)
qed

lemma inputs_advance_close:
  assumes "receipt db i = Some r" and "r_session r = sid" and "\<And>r. r_id (f r) = r_id r \<and> r_sequence (f r) = r_sequence r"
    and "receipt_advances r (f r)" and "r_handled_at (f r) = None \<or> r_delivered_at (f r) = None"
  shows "inputs_advance db (drop_input i sid (upd_receipt i f db))"
proof -
  let ?db = "drop_input i sid (upd_receipt i f db)"
  have look: "receipt ?db k = (if k = i then Some (f r) else receipt db k)" for k
    using assms(1,3) by (simp add: receipt_def drop_input_def receipt_tbl.lookup_modify)
  have uniq: "x = r" if "inputs_inv db" "x \<in> set (receipts db)" "r_id x = i" for x
    using that find_row_unique [of r_id "receipts db" x] assms(1) by (simp add: inputs_inv_def receipts_inv_def receipt_def)
  have "inputs_inv ?db" if inv: "inputs_inv db"
  proof -
    have "receipts_inv (receipts ?db)"
      using inv uniq [OF inv] assms(3,5)
      by (auto simp: receipts_inv_def inputs_inv_def drop_input_def modify_row_def unique_key_update_where set_update_where)
    moreover have "backed ?db x" if "x \<in> set (inputs ?db)" for x
    proof -
      from that have x: "x \<in> set (inputs db)" "\<not> (i_id x = i \<and> i_session x = sid)" by (auto simp: drop_input_def)
      with inv have "backed db x" by (simp add: inputs_inv_def)
      with x assms(1,2) have "i_id x \<noteq> i" by (auto simp: backed_def)
      with \<open>backed db x\<close> show ?thesis by (auto simp: backed_def look)
    qed
    moreover have "unique_key i_id (inputs ?db)" using inv by (simp add: inputs_inv_def drop_input_def unique_key_filter)
    ultimately show ?thesis by (simp add: inputs_inv_def)
  qed
  then show ?thesis using assms(1,4) by (auto simp: inputs_advance_def look)
qed

lemma restore_metadata_fields [simp]:
  "r_id (restore_metadata p r) = r_id r" "r_session (restore_metadata p r) = r_session r"
  "r_digest (restore_metadata p r) = r_digest r" "r_sequence (restore_metadata p r) = r_sequence r"
  "r_delivered_at (restore_metadata p r) = r_delivered_at r" "r_handled_at (restore_metadata p r) = r_handled_at r"
  "r_retry (restore_metadata p r) = r_retry r"
  by (auto simp: restore_metadata_def Let_def)

lemma admit_inputD:
  assumes "admit_input i sid digest p loc now db = Inr (db', x)"
  shows "\<exists>db1. pending_input db i = None \<and> session_pending db sid < ip_limit p
    \<and> session_bytes db sid + payload_bytes (new_input i sid digest p loc now) \<le> ip_bytes_limit p
    \<and> global_bytes db + payload_bytes (new_input i sid digest p loc now) \<le> ip_global_limit p
    \<and> db1 = db\<lparr>receipts := add_row (new_receipt i sid digest p now db) (receipts db),
               inputs := add_row (new_input i sid digest p loc now) (inputs db)\<rparr>
    \<and> (\<exists>b. record_session_activity sid now db1 = Inr (db', b))
    \<and> x = (new_receipt i sid digest p now db, Some (new_input i sid digest p loc now))"
  using assms by (auto simp: admit_input_def Let_def split: if_splits sum.splits)

text \<open>The two ways in which \<open>createActorInput\<close> succeeds.\<close>

lemma create_actor_inputD:
  assumes "create_actor_input sha stringify sid uuid p now db = Inr (db', x)"
  shows "\<exists>location i loc digest. assert_session_available db sid = None \<and> input_request_error p = None
     \<and> normalize_input_location (ip_location p) = Inr location \<and> (location \<noteq> None \<longrightarrow> ip_source p = SrcUser)
     \<and> loc = map_option stringify location \<and> i = (case ip_id p of Some i \<Rightarrow> i | None \<Rightarrow> uuid)
     \<and> digest = actor_input_digest sha (ip_message p) (ip_images p) (ip_behavior p) loc
     \<and> (receipt db i = None \<and> admit_input i sid digest p loc now db = Inr (db', x)
        \<or> (\<exists>r. receipt db i = Some r \<and> receipt_matches r sid digest p \<and> db' = upd_receipt i (restore_metadata p) db
             \<and> fst x = restore_metadata p r
             \<and> snd x = (case get_actor_input db' i sid of Some (_, pend) \<Rightarrow> pend | None \<Rightarrow> None)))"
proof -
  obtain location where l: "assert_session_available db sid = None" "input_request_error p = None"
      "normalize_input_location (ip_location p) = Inr location" "location \<noteq> None \<longrightarrow> ip_source p = SrcUser"
    using assms by (auto simp: create_actor_input_def split: option.splits sum.splits if_splits)
  let ?i = "case ip_id p of Some i \<Rightarrow> i | None \<Rightarrow> uuid"
  show ?thesis
  proof (cases "receipt db ?i")
    case None
    with assms l show ?thesis by (auto simp: create_actor_input_def Let_def)
  next
    case (Some r)
    with assms l show ?thesis by (auto simp: create_actor_input_def Let_def split: if_splits)
  qed
qed

lemma create_input_advance:
  assumes "create_actor_input sha stringify sid uuid p now db = Inr (db', x)"
  shows "inputs_advance db db'"
proof -
  from create_actor_inputD [OF assms] obtain i loc digest where
    "receipt db i = None \<and> admit_input i sid digest p loc now db = Inr (db', x)
     \<or> (\<exists>r. receipt db i = Some r \<and> db' = upd_receipt i (restore_metadata p) db)" by blast
  then show ?thesis
  proof (elim disjE conjE exE)
    assume new: "receipt db i = None" and "admit_input i sid digest p loc now db = Inr (db', x)"
    from admit_inputD [OF this(2)] obtain db1 b where a: "pending_input db i = None"
      "db1 = db\<lparr>receipts := add_row (new_receipt i sid digest p now db) (receipts db),
               inputs := add_row (new_input i sid digest p loc now) (inputs db)\<rparr>"
      "record_session_activity sid now db1 = Inr (db', b)" by blast
    have "inputs_advance db db1"
      unfolding a(2) by (rule inputs_advance_admit)
        (simp_all add: new a(1) new_receipt_def new_input_def open_receipt_def)
    moreover have "inputs_advance db1 db'"
      using session_activity_tables [OF a(3)] by (simp add: inputs_advance_frame)
    ultimately show ?thesis by (rule inputs_advance_trans)
  next
    fix r assume "receipt db i = Some r" "db' = upd_receipt i (restore_metadata p) db"
    moreover have "receipt_advances r (restore_metadata p r)"
      by (simp add: receipt_advances_def receipt_status_def)
    moreover have "r_handled_at r = None \<or> r_delivered_at r = None" if "inputs_inv db"
      using that \<open>receipt db i = Some r\<close> by (auto simp: inputs_inv_def receipts_inv_def receipt_def dest: find_row_SomeD)
    ultimately show ?thesis
      using inputs_advance_modify [of db i r "restore_metadata p"] by (simp add: open_receipt_def)
  qed
qed

lemma mark_accepted_advance: "mark_actor_input_accepted i sid g now db = (db', x) \<Longrightarrow> inputs_advance db db'"
  by (auto simp: mark_actor_input_accepted_def Let_def intro!: inputs_advance_rows)

lemma wake_error_advance: "set_actor_input_wake_error sid g db = Inr (db', x) \<Longrightarrow> inputs_advance db db'"
  by (auto simp: set_actor_input_wake_error_def Let_def split: if_splits intro!: inputs_advance_rows)

lemma close_input_advance:
  assumes "receipt db i = Some r" and "r_session r = sid" and "\<And>r. r_id (f r) = r_id r \<and> r_sequence (f r) = r_sequence r"
    and "receipt_advances r (f r)" and "r_handled_at (f r) = None \<or> r_delivered_at (f r) = None"
    and "(if changed
          then (case record_session_activity sid now (drop_input i sid (upd_receipt i f db)) of
              Inl e \<Rightarrow> Inl e | Inr (db2, _) \<Rightarrow> Inr (db2, a))
          else Inr (drop_input i sid (upd_receipt i f db), b)) = Inr (db', x)"
  shows "inputs_advance db db'"
proof -
  let ?db = "drop_input i sid (upd_receipt i f db)"
  have "inputs_advance db ?db" using assms(1-5) by (rule inputs_advance_close)
  moreover have "inputs_advance ?db db'"
    using assms(6) by (auto split: if_splits sum.splits dest!: session_activity_tables intro: inputs_advance_frame)
  ultimately show ?thesis by (rule inputs_advance_trans)
qed

lemma complete_input_advance:
  assumes "complete_actor_input i sid now entry db = Inr (db', x)"
  shows "inputs_advance db db'"
proof (cases "receipt db i")
  case None
  with assms show ?thesis by (simp add: complete_actor_input_def)
next
  case (Some r)
  show ?thesis
  proof (cases "r_session r = sid \<and> r_handled_at r = None")
    case True
    with assms Some show ?thesis
      unfolding complete_actor_input_def Let_def
      by (intro close_input_advance [OF Some, where changed = "r_delivered_at r = None" and a = True and b = False and now = now
          and f = "\<lambda>r. r\<lparr>r_delivered_at := (case r_delivered_at r of None \<Rightarrow> Some (max now (r_created_at r)) | Some d \<Rightarrow> Some d),
                     r_delivered_entry := (case r_delivered_entry r of None \<Rightarrow> entry | Some e \<Rightarrow> Some e)\<rparr>"])
        (auto simp: receipt_advances_def receipt_status_def split: option.splits if_splits)
  next
    case False
    with assms Some show ?thesis by (auto simp: complete_actor_input_def split: if_splits)
  qed
qed

lemma mark_handled_advance:
  assumes "mark_actor_input_handled i sid now db = Inr (db', x)"
  shows "inputs_advance db db'"
proof (cases "receipt db i")
  case None
  with assms show ?thesis by (simp add: mark_actor_input_handled_def)
next
  case (Some r)
  let ?f = "\<lambda>r. r\<lparr>r_handled_at := (case r_handled_at r of None \<Rightarrow> Some (max now (r_created_at r)) | Some h \<Rightarrow> Some h)\<rparr>"
  from assms Some have "r_session r = sid" "r_delivered_at r = None"
    by (auto simp: mark_actor_input_handled_def split: if_splits)
  with assms Some show ?thesis
    unfolding mark_actor_input_handled_def Let_def
    by (intro close_input_advance [OF Some, where changed = "r_handled_at r = None" and a = "?f r" and b = "?f r" and now = now and f = ?f])
      (auto simp: receipt_advances_def receipt_status_def split: option.splits if_splits)
qed

section \<open>Properties\<close>

lemma receipt_matches_restored: "receipt_matches r sid d p \<Longrightarrow> receipt_matches (restore_metadata p r) sid d p"
  by (auto simp: receipt_matches_def restore_metadata_def Let_def)

lemma restore_metadata_idem [simp]: "restore_metadata p (restore_metadata p r) = restore_metadata p r"
  by (auto simp: restore_metadata_def Let_def)

lemma new_receipt_restored [simp]: "restore_metadata p (new_receipt i sid d p now db) = new_receipt i sid d p now db"
  by (auto simp: restore_metadata_def new_receipt_def Let_def)

lemma new_row_fields [simp]:
  "receipt_matches (new_receipt i sid d p now db) sid d p"
  "r_session (new_receipt i sid d p now db) = sid" "r_id (new_receipt i sid d p now db) = i"
  "i_session (new_input i sid d p loc now) = sid" "i_id (new_input i sid d p loc now) = i"
  by (simp_all add: receipt_matches_def new_receipt_def new_input_def)

lemma availability_frame: "sessions db' = sessions db \<Longrightarrow> deleting db' = deleting db \<Longrightarrow>
   assert_session_available db' k = assert_session_available db k"
  by (simp add: assert_session_available_def is_session_deleting_def session_def)

lemma session_activity_available:
  assumes "record_session_activity sid now db = Inr (db', x)"
  shows "assert_session_available db' k = assert_session_available db k"
proof -
  have "db' = sessions_update (update_where (\<lambda>r. s_id r = sid \<and> (case s_last_activity_at r of None \<Rightarrow> True | Some a \<Rightarrow> a < now))
      (\<lambda>r. r\<lparr>s_last_activity_at := Some now\<rparr>)) db"
    using assms by (auto simp: record_session_activity_def Let_def split: if_splits)
  then show ?thesis
    by (auto simp: assert_session_available_def is_session_deleting_def session_def find_row_update split: option.splits)
qed

lemma modify_row_fixed:
  assumes "unique_key key t" and "find_row key t k = Some r" and "f r = r"
  shows "modify_row key k f t = t"
proof -
  have "x = r" if "x \<in> set t" "key x = k" for x
    using that assms(1,2) find_row_unique [of key t x] by simp
  then show ?thesis using assms(3)
    by (auto simp: modify_row_def update_where_def intro!: map_idI)
qed

text \<open>
  Submitting the same input again under the same identity, at any later time, returns the
  stored receipt and payload and changes nothing: the queue holds every submission once.
\<close>

theorem submit_replay_idempotent:
  assumes "create_actor_input sha stringify sid uuid p now db = Inr (db', x)"
    and "ip_id p = Some i" and "inputs_inv db"
  shows "create_actor_input sha stringify sid uuid' p now' db' = Inr (db', x)"
proof -
  from create_actor_inputD [OF assms(1)] assms(2) obtain location loc digest where
    av: "assert_session_available db sid = None" and er: "input_request_error p = None"
    and lo: "normalize_input_location (ip_location p) = Inr location" "location \<noteq> None \<longrightarrow> ip_source p = SrcUser"
    and de: "loc = map_option stringify location" "digest = actor_input_digest sha (ip_message p) (ip_images p) (ip_behavior p) loc"
    and ca: "receipt db i = None \<and> admit_input i sid digest p loc now db = Inr (db', x)
        \<or> (\<exists>r. receipt db i = Some r \<and> receipt_matches r sid digest p \<and> db' = upd_receipt i (restore_metadata p) db
             \<and> fst x = restore_metadata p r
             \<and> snd x = (case get_actor_input db' i sid of Some (_, pend) \<Rightarrow> pend | None \<Rightarrow> None))" by auto
  have inv': "inputs_inv db'" using create_input_advance [OF assms(1)] assms(3) by (simp add: inputs_advance_def)
  from ca have "\<exists>r. receipt db' i = Some r \<and> receipt_matches r sid digest p \<and> restore_metadata p r = r \<and> fst x = r
      \<and> snd x = (case get_actor_input db' i sid of Some (_, pend) \<Rightarrow> pend | None \<Rightarrow> None)
      \<and> assert_session_available db' sid = None"
  proof (elim disjE conjE exE)
    assume new: "receipt db i = None" and "admit_input i sid digest p loc now db = Inr (db', x)"
    from admit_inputD [OF this(2)] obtain db1 b where a: "pending_input db i = None"
      "db1 = db\<lparr>receipts := add_row (new_receipt i sid digest p now db) (receipts db),
               inputs := add_row (new_input i sid digest p loc now) (inputs db)\<rparr>"
      "record_session_activity sid now db1 = Inr (db', b)"
      "x = (new_receipt i sid digest p now db, Some (new_input i sid digest p loc now))" by blast
    have r: "receipt db' i = Some (new_receipt i sid digest p now db)"
      using session_activity_tables [OF a(3)] a(2) new
      by (simp add: receipt_def find_row_add_row new_receipt_def)
    have q: "pending_input db' i = Some (new_input i sid digest p loc now)"
      using session_activity_tables [OF a(3)] a(1,2)
      by (simp add: pending_input_def find_row_add_row new_input_def)
    have "assert_session_available db' sid = None"
      using session_activity_available [OF a(3)] av availability_frame [of db1 db] a(2) by simp
    with r q a(4) show ?thesis
      by (simp add: get_actor_input_def)
  next
    fix r assume "receipt db i = Some r" "receipt_matches r sid digest p" "db' = upd_receipt i (restore_metadata p) db"
       "fst x = restore_metadata p r" "snd x = (case get_actor_input db' i sid of Some (_, pend) \<Rightarrow> pend | None \<Rightarrow> None)"
    with av show ?thesis
      using availability_frame [of db' db sid]
      by (simp add: receipt_def receipt_tbl.lookup_modify receipt_matches_restored)
  qed
  then obtain r where r: "receipt db' i = Some r" "receipt_matches r sid digest p" "restore_metadata p r = r" "fst x = r"
      "snd x = (case get_actor_input db' i sid of Some (_, pend) \<Rightarrow> pend | None \<Rightarrow> None)"
      "assert_session_available db' sid = None" by blast
  have "modify_row r_id i (restore_metadata p) (receipts db') = receipts db'"
    using inv' r(1,3) by (intro modify_row_fixed) (auto simp: inputs_inv_def receipts_inv_def receipt_def)
  then have "upd_receipt i (restore_metadata p) db' = db'" by simp
  with r er lo de assms(2) show ?thesis
    by (auto simp: create_actor_input_def Let_def intro!: prod_eqI)
qed

text \<open>
  A submission that adds to the queue respects the three limits it was given: the count of
  the session's pending inputs, the session's pending bytes and the pending bytes of all sessions.
\<close>

theorem submit_within_limits:
  assumes "create_actor_input sha stringify sid uuid p now db = Inr (db', x)" and "inputs db' \<noteq> inputs db"
  shows "session_pending db' sid \<le> ip_limit p \<and> session_bytes db' sid \<le> ip_bytes_limit p
    \<and> global_bytes db' \<le> ip_global_limit p"
proof -
  from create_actor_inputD [OF assms(1)] assms(2) obtain i loc digest where
    "admit_input i sid digest p loc now db = Inr (db', x)" by auto
  from admit_inputD [OF this] obtain db1 b where a:
    "session_pending db sid < ip_limit p"
    "session_bytes db sid + payload_bytes (new_input i sid digest p loc now) \<le> ip_bytes_limit p"
    "global_bytes db + payload_bytes (new_input i sid digest p loc now) \<le> ip_global_limit p"
    "db1 = db\<lparr>receipts := add_row (new_receipt i sid digest p now db) (receipts db),
               inputs := add_row (new_input i sid digest p loc now) (inputs db)\<rparr>"
    "record_session_activity sid now db1 = Inr (db', b)" by blast
  have "inputs db' = inputs db @ [new_input i sid digest p loc now]"
    using session_activity_tables [OF a(5)] a(4) by (simp add: add_row_def)
  moreover have "i_session (new_input i sid digest p loc now) = sid" by (simp add: new_input_def)
  ultimately show ?thesis
    using a(1-3) by (simp add: session_pending_def session_bytes_def global_bytes_def changes_def)
qed

end
