(* ===== verification/Lifecycle.thy ===== *)
theory Lifecycle
  imports Inputs
begin

text \<open>
  The actor lifecycle of src/store.mjs: admission of roots and children, generation-fenced
  start, stop, activity and revival, the refresh of the ancestors' displayed activity,
  and recovery after a daemon restart. The second half is the invariant of the session table
  (unique names, a well-founded tree without live orphans, displayed activity that agrees with
  the actor's state) and the proof that every operation keeps it and only moves a session's
  generation forward.
\<close>

section \<open>Names\<close>

text \<open>\<open>path.basename\<close> of a POSIX path.\<close>

definition basename :: "string \<Rightarrow> string" where
  "basename p = (let q = rev (dropWhile (\<lambda>c. c = CHR ''/'') (rev p))
     in rev (takeWhile (\<lambda>c. c \<noteq> CHR ''/'') (rev q)))"

text \<open>\<open>shortSessionId\<close> and \<open>defaultRootName\<close> of src/root-title.mjs over the hash.\<close>

definition short_session_id :: "(string \<Rightarrow> string) \<Rightarrow> string \<Rightarrow> string" where
  "short_session_id sha sid = take 8 (sha sid)"

definition default_root_name :: "(string \<Rightarrow> string) \<Rightarrow> string \<Rightarrow> string \<Rightarrow> string" where
  "default_root_name sha cwd sid =
     (if basename cwd = [] then ''root'' else basename cwd) @ ''-'' @ short_session_id sha sid"

definition falsy :: "string option \<Rightarrow> bool" where
  "falsy x \<longleftrightarrow> x = None \<or> x = Some []"

text \<open>\<open>name?.trim() || fallback\<close>.\<close>

definition trimmed_or :: "string option \<Rightarrow> string \<Rightarrow> string" where
  "trimmed_or name fallback = (case name of
      Some n \<Rightarrow> if js_trim n = [] then fallback else js_trim n
    | None \<Rightarrow> fallback)"

definition or_else :: "'a option \<Rightarrow> 'a option \<Rightarrow> 'a option" where
  "or_else a b = (case a of None \<Rightarrow> b | Some _ \<Rightarrow> a)"

section \<open>Admission\<close>

definition new_session :: "session_row" where
  "new_session = \<lparr>s_id = [], s_short_id = [], s_session_file = None, s_cwd = [], s_repository_root = None,
     s_display_name = [], s_kind = Root, s_family_id = ''local-roots'', s_parent = None, s_depth = 0,
     s_activity = Inactive, s_streaming = False, s_lifecycle = Starting, s_actor_token = [], s_generation = 1,
     s_pid = None, s_identity = None, s_launch = None, s_scratch = None, s_quiet_since = None, s_last_error = None,
     s_created_at = 0, s_updated_at = 0, s_last_activity_at = None, s_started_at = None, s_stopped_at = None, s_deleted_at = None\<rparr>"

text \<open>The primary key, the unique short id and the two partial unique name indexes.\<close>

definition name_clash :: "session_row \<Rightarrow> session_row \<Rightarrow> bool" where
  "name_clash a b \<longleftrightarrow> live a \<and> live b \<and> s_kind a = s_kind b \<and> s_display_name a = s_display_name b
     \<and> (s_kind a = Child \<longrightarrow> s_parent a = s_parent b \<and> s_parent a \<noteq> None)"

definition insert_session :: "session_row \<Rightarrow> store \<Rightarrow> store result" where
  "insert_session r db =
     (if \<exists>x \<in> set (sessions db). s_id x = s_id r \<or> s_short_id x = s_short_id r \<or> name_clash x r
      then Inl (UniqueViolation ''sessions'')
      else Inr (sessions_update (add_row r) db))"

record root_params =
  rp_id :: string
  rp_name :: "string option"
  rp_cwd :: "string option"
  rp_repository :: "string option"
  rp_file :: "string option"
  rp_token :: "string option"
  rp_launch :: "(string \<times> js) list option"

definition with_fast_mode :: "(string \<times> js) list option \<Rightarrow> bool \<Rightarrow> js" where
  "with_fast_mode launch b = jset ''fastMode'' (JBool b) (JObj (case launch of Some ps \<Rightarrow> ps | None \<Rightarrow> []))"

definition insert_root :: "(string \<Rightarrow> string) \<Rightarrow> root_params \<Rightarrow> int \<Rightarrow> store \<Rightarrow> store result" where
  "insert_root sha p now db =
     (if rp_id p = [] then Inl (Thrown ''root sessionId is required'')
      else if falsy (rp_cwd p) then Inl (Thrown ''root cwd is required'')
      else if falsy (rp_token p) then Inl (Thrown ''root actorToken is required'')
      else insert_session (new_session\<lparr>s_id := rp_id p, s_short_id := short_session_id sha (rp_id p),
             s_session_file := rp_file p, s_cwd := the (rp_cwd p), s_repository_root := rp_repository p,
             s_display_name := trimmed_or (rp_name p) (default_root_name sha (the (rp_cwd p)) (rp_id p)),
             s_kind := Root, s_actor_token := the (rp_token p), s_launch := Some (with_fast_mode (rp_launch p) False),
             s_created_at := now, s_updated_at := now, s_last_activity_at := Some now\<rparr>) db)"

definition create_root :: "(string \<Rightarrow> string) \<Rightarrow> root_params \<Rightarrow> int \<Rightarrow> store \<Rightarrow> session_row option op_result" where
  "create_root sha p now db =
     (if session db (rp_id p) \<noteq> None then Inl (Thrown ''session already exists'')
      else case insert_root sha p now db of
        Inl e \<Rightarrow> Inl e
      | Inr db' \<Rightarrow> Inr (db', session db' (rp_id p)))"

definition admit_root :: "(string \<Rightarrow> string) \<Rightarrow> root_params \<Rightarrow> int \<Rightarrow> store \<Rightarrow> (session_row option \<times> bool) op_result" where
  "admit_root sha p now db = (case session db (rp_id p) of
      None \<Rightarrow> (case insert_root sha p now db of
          Inl e \<Rightarrow> Inl e
        | Inr db' \<Rightarrow> Inr (db', (session db' (rp_id p), True)))
    | Some r \<Rightarrow>
        if s_kind r \<noteq> Root then Inl (Thrown ''child Pi session cannot be admitted as a root'')
        else if s_lifecycle r = Deleted then Inl (Thrown ''root was deleted'')
        else (let f = (\<lambda>r. r\<lparr>s_session_file := or_else (rp_file p) (s_session_file r),
                     s_cwd := (case rp_cwd p of Some c \<Rightarrow> c | None \<Rightarrow> s_cwd r),
                     s_repository_root := or_else (rp_repository p) (s_repository_root r),
                     s_display_name := trimmed_or (rp_name p) (s_display_name r),
                     s_launch := (case rp_launch p of None \<Rightarrow> s_launch r
                        | Some l \<Rightarrow> Some (with_fast_mode (Some l) (jget ''fastMode'' (launch_of r) = JBool True))),
                     s_updated_at := now\<rparr>)
              in if \<exists>x \<in> set (sessions db). s_id x \<noteq> s_id r \<and> name_clash x (f r)
                 then Inl (UniqueViolation ''sessions'')
                 else let db' = upd_session (s_id r) f db in Inr (db', (session db' (s_id r), False))))"

text \<open>The child policy is the normalised launch object; its named fields are strings, numbers or absent.\<close>

definition js_text :: "js \<Rightarrow> string option" where
  "js_text v = (case v of JStr s \<Rightarrow> Some s | _ \<Rightarrow> None)"

definition child_name :: "(string \<Rightarrow> string) \<Rightarrow> string \<Rightarrow> js \<Rightarrow> string" where
  "child_name sha sid pol = trimmed_or (js_text (jget ''name'' pol)) (''subagent-'' @ short_session_id sha sid)"

definition child_row :: "(string \<Rightarrow> string) \<Rightarrow> session_row \<Rightarrow> string \<Rightarrow> string \<Rightarrow> string option \<Rightarrow> js \<Rightarrow> string \<Rightarrow> int \<Rightarrow> session_row" where
  "child_row sha par parent sid file pol token now = new_session\<lparr>s_id := sid, s_short_id := short_session_id sha sid,
     s_session_file := file,
     s_cwd := (case js_text (jget ''cwd'' pol) of Some c \<Rightarrow> c | None \<Rightarrow> s_cwd par),
     s_repository_root := or_else (js_text (jget ''repositoryRoot'' pol)) (s_repository_root par),
     s_display_name := child_name sha sid pol, s_kind := Child, s_family_id := s_family_id par, s_parent := Some parent,
     s_depth := s_depth par + 1, s_actor_token := token,
     s_launch := Some (jset ''fastMode'' (JBool False) (jset ''depth'' (jint (int (s_depth par + 1))) pol)),
     s_created_at := now, s_updated_at := now, s_last_activity_at := Some now\<rparr>"

definition child_task :: "(string \<Rightarrow> string) \<Rightarrow> string \<Rightarrow> js \<Rightarrow> string \<Rightarrow> int \<Rightarrow> task_row" where
  "child_task sha sid pol task_id now = \<lparr>t_id = task_id, t_child_id = sid, t_prompt = js_text (jget ''prompt'' pol),
     t_state = TQueued, t_created_at = now, t_submitted_at = None, t_completed_at = None,
     t_error = None, t_peer_name = child_name sha sid pol, t_entry_id = None\<rparr>"

definition create_child ::
  "(string \<Rightarrow> string) \<Rightarrow> string \<Rightarrow> string \<Rightarrow> string option \<Rightarrow> (string \<times> js) list \<Rightarrow> string option \<Rightarrow> string \<Rightarrow> int \<Rightarrow> store
    \<Rightarrow> (session_row option \<times> task_row) op_result" where
  "create_child sha parent sid file policy token task_id now db =
     (case assert_session_available db parent of Some e \<Rightarrow> Inl e | None \<Rightarrow>
      (case session db parent of
         None \<Rightarrow> Inl (Thrown ''parent session does not exist'')
       | Some par \<Rightarrow>
          if s_lifecycle par = Deleted then Inl (Thrown ''parent session does not exist'')
          else if session db sid \<noteq> None then Inl (Thrown ''session already exists'')
          else (let depth = s_depth par + 1; pol = JObj policy in
            if \<not> nullish (jget ''depth'' pol) \<and> jget ''depth'' pol \<noteq> jint (int depth)
            then Inl (Thrown ''child depth does not match its parent edge'')
            else if falsy token then Inl (Thrown ''child actorToken is required'')
            else (case insert_session (child_row sha par parent sid file pol (the token) now) db of
                Inl e \<Rightarrow> Inl e
              | Inr db1 \<Rightarrow>
                  if find_row t_id (tasks db) task_id \<noteq> None then Inl (UniqueViolation ''child_tasks'')
                  else (let t = child_task sha sid pol task_id now;
                            db2 = db1\<lparr>children := children db1 @ [sid], tasks := add_row t (tasks db1)\<rparr>
                        in Inr (db2, (session db2 sid, t)))))))"

section \<open>Actor generations\<close>

record actor_params =
  ap_id :: string
  ap_generation :: int
  ap_token :: string
  ap_file :: "string option"
  ap_cwd :: "string option"
  ap_repository :: "string option"

definition register_actor :: "actor_params \<Rightarrow> int \<Rightarrow> store \<Rightarrow> session_row option op_result" where
  "register_actor p now db = (case assert_session_available db (ap_id p) of Some e \<Rightarrow> Inl e | None \<Rightarrow>
     (case session db (ap_id p) of
        None \<Rightarrow> Inl (Thrown ''actor admission does not exist'')
      | Some r \<Rightarrow>
          if s_lifecycle r = Deleted then Inl (Thrown ''actor was deleted'')
          else if s_actor_token r \<noteq> ap_token p \<or> s_generation r \<noteq> ap_generation p
          then Inl (Thrown ''actor generation or token is stale'')
          else (let db' = upd_session (ap_id p) (\<lambda>r. r\<lparr>s_session_file := or_else (ap_file p) (s_session_file r),
                      s_cwd := (case ap_cwd p of Some c \<Rightarrow> c | None \<Rightarrow> s_cwd r),
                      s_repository_root := or_else (ap_repository p) (s_repository_root r), s_updated_at := now\<rparr>) db
                in Inr (db', session db' (ap_id p)))))"

text \<open>\<open>#refreshAncestors\<close>: the displayed activity and the idle interval of every ancestor.\<close>

definition shown_activity :: "session_row \<Rightarrow> nat \<Rightarrow> activity" where
  "shown_activity r count =
     (if s_lifecycle r = Resident
      then (if s_streaming r then Working else if count > 0 then Delegating else Idle)
      else if count > 0 then Delegating else Inactive)"

definition refresh_row :: "int \<Rightarrow> nat \<Rightarrow> session_row \<Rightarrow> session_row" where
  "refresh_row now count r = r\<lparr>s_activity := shown_activity r count,
     s_quiet_since := (if s_lifecycle r = Resident \<and> \<not> s_streaming r
       then (case s_quiet_since r of None \<Rightarrow> Some now | Some q \<Rightarrow> Some q) else None)\<rparr>"

fun refresh_walk :: "nat \<Rightarrow> int \<Rightarrow> string list \<Rightarrow> string option \<Rightarrow> session_row list \<Rightarrow> session_row list" where
  "refresh_walk 0 now seen c t = t"
| "refresh_walk (Suc n) now seen None t = t"
| "refresh_walk (Suc n) now seen (Some i) t = (if i \<in> set seen then t
     else case find_row s_id t i of
       None \<Rightarrow> t
     | Some r \<Rightarrow> refresh_walk n now (i # seen) (parent_of r)
         (modify_row s_id i (refresh_row now (working_descendant_count t i)) t))"

definition refresh_ancestors :: "string \<Rightarrow> int \<Rightarrow> store \<Rightarrow> store" where
  "refresh_ancestors sid now db = (case session db sid of
      None \<Rightarrow> db
    | Some r \<Rightarrow> sessions_update (refresh_walk (length (sessions db)) now [] (parent_of r)) db)"

definition revive_row :: "string \<Rightarrow> session_row \<Rightarrow> session_row" where
  "revive_row token r = r\<lparr>s_lifecycle := Starting, s_actor_token := token, s_generation := s_generation r + 1,
     s_pid := None, s_identity := None, s_streaming := False, s_activity := Inactive, s_quiet_since := None\<rparr>"

definition prepare_actor_revival ::
  "string \<Rightarrow> string option \<Rightarrow> bool \<Rightarrow> string option \<Rightarrow> int \<Rightarrow> store \<Rightarrow> session_row option op_result" where
  "prepare_actor_revival sid token force err now db =
     (case assert_session_available db sid of Some e \<Rightarrow> Inl e | None \<Rightarrow>
      (case session db sid of
         None \<Rightarrow> Inl (Thrown ''actor does not exist'')
       | Some r \<Rightarrow>
          if s_lifecycle r = Deleted then Inl (Thrown ''actor was deleted'')
          else if falsy token then Inl (Thrown ''actorToken is required for revival'')
          else if \<not> force \<and> s_lifecycle r \<in> {Resident, Starting} then Inr (db, Some r)
          else (let db1 = upd_session sid (\<lambda>r. (revive_row (the token) r)\<lparr>s_last_error := err, s_stopped_at := None,
                      s_updated_at := now\<rparr>) db;
                    db2 = refresh_ancestors sid now db1
                in Inr (db2, session db2 sid))))"

definition restart_owner :: "store \<Rightarrow> session_row \<Rightarrow> bool" where
  "restart_owner db r \<longleftrightarrow> s_lifecycle r \<in> {Starting, Resident}
     \<or> (s_lifecycle r = Passivated \<and> (\<exists>i \<in> set (inputs db). i_session i = s_id r))"

definition restart_error :: "session_row \<Rightarrow> string" where
  "restart_error r = (if s_lifecycle r = Starting then ''daemon restarted during actor startup''
     else if s_activity r \<in> {Working, Delegating} then ''daemon restarted during active work; completion is unknown''
     else ''daemon restarted; actor is queued for recovery'')"

text \<open>\<open>reconcileAfterDaemonStart\<close>; \<open>uuid\<close> gives the fresh token of each previous owner.\<close>

definition reconcile_after_daemon_start :: "(string \<Rightarrow> string) \<Rightarrow> int \<Rightarrow> store \<Rightarrow> store \<times> session_row list" where
  "reconcile_after_daemon_start uuid now db =
     (let owners = filter (restart_owner db) (sessions db);
          db1 = sessions_update (update_where (restart_owner db) (\<lambda>r. (revive_row (uuid (s_id r)) r)\<lparr>
                  s_stopped_at := Some now, s_last_error := Some (restart_error r), s_updated_at := now\<rparr>)) db;
          db2 = tasks_update (update_where (\<lambda>t. t_state t = TSubmitted) (\<lambda>t. t\<lparr>t_state := TFailed,
                  t_completed_at := Some now,
                  t_error := Some ''daemon restarted during submitted work; completion is unknown''\<rparr>)) db1
      in (terminalize_deleted_session_work now db2, owners))"

definition list_queued_actor_ids :: "store \<Rightarrow> string list" where
  "list_queued_actor_ids db = map s_id (sort_key (\<lambda>r. (s_created_at r, s_id r))
     (filter (\<lambda>r. s_lifecycle r = Starting) (sessions db)))"

definition mark_actor_started ::
  "string \<Rightarrow> int \<Rightarrow> int option \<Rightarrow> string option \<Rightarrow> js option \<Rightarrow> int \<Rightarrow> store \<Rightarrow> session_row option op_result" where
  "mark_actor_started sid generation pid file identity now db =
     (case assert_session_available db sid of Some e \<Rightarrow> Inl e | None \<Rightarrow>
      (case session db sid of
         None \<Rightarrow> Inl (Thrown ''actor generation is stale or not starting'')
       | Some r \<Rightarrow>
          if s_generation r \<noteq> generation \<or> s_lifecycle r \<noteq> Starting
          then Inl (Thrown ''actor generation is stale or not starting'')
          else (let count = working_descendant_count (sessions db) sid;
                    db1 = upd_session sid (\<lambda>r. r\<lparr>s_lifecycle := Resident, s_pid := pid, s_identity := identity,
                      s_session_file := or_else file (s_session_file r), s_started_at := Some now, s_stopped_at := None,
                      s_streaming := False, s_activity := (if count > 0 then Delegating else Idle),
                      s_quiet_since := Some now, s_last_error := None, s_updated_at := now\<rparr>) db;
                    db2 = refresh_ancestors sid now db1
                in Inr (db2, session db2 sid))))"

definition mark_actor_lifecycle ::
  "(string \<Rightarrow> string) \<Rightarrow> string option \<Rightarrow> string \<Rightarrow> int \<Rightarrow> lifecycle \<Rightarrow> string option \<Rightarrow> bool \<Rightarrow> int \<Rightarrow> store \<Rightarrow> bool op_result" where
  "mark_actor_lifecycle sha observer sid generation lc err report now db =
     (if lc \<notin> {Passivated, Stopped, LcError} then Inl (Thrown ''unsupported actor lifecycle'')
      else if report \<and> (case session db sid of None \<Rightarrow> True | Some r \<Rightarrow> s_lifecycle r \<notin> {Resident, Starting, LcError})
      then Inr (db, False)
      else (case session db sid of
          None \<Rightarrow> Inr (db, False)
        | Some r \<Rightarrow>
            if s_generation r \<noteq> generation \<or> s_lifecycle r = Deleted then Inr (db, False)
            else (let count = working_descendant_count (sessions db) sid;
                      db1 = upd_session sid (\<lambda>r. r\<lparr>s_lifecycle := lc, s_pid := None, s_identity := None,
                        s_streaming := False, s_activity := (if count > 0 then Delegating else Inactive),
                        s_stopped_at := Some now, s_quiet_since := None, s_last_error := err, s_updated_at := now\<rparr>) db;
                      db2 = (if report \<and> lc = LcError then queue_child_failure sha observer sid generation err None now db1 else db1)
                  in Inr (refresh_ancestors sid now db2, True))))"

definition record_actor_turn_failure ::
  "(string \<Rightarrow> string) \<Rightarrow> string option \<Rightarrow> string \<Rightarrow> int \<Rightarrow> turn_failure \<Rightarrow> int \<Rightarrow> store \<Rightarrow> unit op_result" where
  "record_actor_turn_failure sha observer sid generation tf now db = (case session db sid of
      None \<Rightarrow> Inl (Thrown ''actor generation is stale or unavailable'')
    | Some r \<Rightarrow>
        if s_generation r \<noteq> generation \<or> s_lifecycle r \<notin> {Starting, Resident} \<or> is_session_deleting db sid
        then Inl (Thrown ''actor generation is stale or unavailable'')
        else Inr (queue_child_failure sha observer sid generation None (Some tf) now db, ()))"

definition set_actor_activity :: "string \<Rightarrow> int \<Rightarrow> bool \<Rightarrow> int \<Rightarrow> store \<Rightarrow> session_row option op_result" where
  "set_actor_activity sid generation streaming now db = (case session db sid of
      None \<Rightarrow> Inl (Thrown ''actor generation is stale or not resident'')
    | Some r \<Rightarrow>
        if s_generation r \<noteq> generation \<or> s_lifecycle r \<noteq> Resident
        then Inl (Thrown ''actor generation is stale or not resident'')
        else (let count = working_descendant_count (sessions db) sid;
                  act = (if streaming then Working else if count > 0 then Delegating else Idle);
                  changed = (s_streaming r \<noteq> streaming \<or> s_activity r \<noteq> act);
                  db1 = upd_session sid (\<lambda>r. r\<lparr>s_streaming := streaming, s_activity := act,
                     s_quiet_since := (if streaming then None
                       else case s_quiet_since r of None \<Rightarrow> Some now | Some q \<Rightarrow> Some q),
                     s_updated_at := (if changed then now else s_updated_at r)\<rparr>) db;
                  db2 = refresh_ancestors sid now db1
              in Inr (db2, session db2 sid)))"

definition record_session_last_error :: "string \<Rightarrow> int \<Rightarrow> string \<Rightarrow> int \<Rightarrow> store \<Rightarrow> store \<times> bool" where
  "record_session_last_error sid generation err now db =
     (if err = [] then (db, False)
      else let p = (\<lambda>r. s_id r = sid \<and> s_generation r = generation \<and> s_lifecycle r \<noteq> Deleted)
        in (sessions_update (update_where p (\<lambda>r. r\<lparr>s_last_error := Some err, s_updated_at := now\<rparr>)) db,
            changes p (sessions db) = 1))"

section \<open>The invariant of the session table\<close>

text \<open>
  What a row promises on its own: only a resident actor streams, has a process and an idle
  interval, it is shown as working exactly while it streams, and the launch policy of a root
  holds a boolean Fast preference.
\<close>

definition launch_ok :: "js option \<Rightarrow> bool" where
  "launch_ok l \<longleftrightarrow> (\<exists>ps b. l = Some (JObj ps) \<and> map_of ps ''fastMode'' = Some (JBool b))"

definition row_ok :: "session_row \<Rightarrow> bool" where
  "row_ok r \<longleftrightarrow> (s_streaming r \<longrightarrow> s_lifecycle r = Resident) \<and> (s_activity r = Working \<longleftrightarrow> s_streaming r)
     \<and> (s_quiet_since r \<noteq> None \<longleftrightarrow> s_lifecycle r = Resident \<and> \<not> s_streaming r)
     \<and> (s_pid r \<noteq> None \<longrightarrow> s_lifecycle r = Resident) \<and> 1 \<le> s_generation r
     \<and> (s_kind r = Root \<longrightarrow> launch_ok (s_launch r))"

lemma launch_ok_set: "launch_ok (Some (with_fast_mode l b))" "launch_ok (s_launch r) \<Longrightarrow> launch_ok (Some (jset ''fastMode'' (JBool b) (launch_of r)))"
  by (auto simp: launch_ok_def with_fast_mode_def jset_def launch_of_def map_of_assoc_set)

lemma launch_ok_admit: "launch_ok (s_launch r) \<Longrightarrow> launch_ok (case l of None \<Rightarrow> s_launch r | Some x \<Rightarrow> Some (with_fast_mode (Some x) b))"
  by (auto simp: launch_ok_set split: option.split)

lemma launch_ok_root: "launch_ok (s_launch r) \<Longrightarrow> root_fast_mode r \<noteq> None"
  by (auto simp: launch_ok_def root_fast_mode_def)

definition placed :: "session_row list \<Rightarrow> session_row \<Rightarrow> bool" where
  "placed t r \<longleftrightarrow> (case s_kind r of
      Root \<Rightarrow> s_depth r = 0 \<and> s_parent r = None
    | Child \<Rightarrow> \<exists>p \<in> set t. s_parent r = Some (s_id p) \<and> s_depth r = Suc (s_depth p)
        \<and> s_family_id r = s_family_id p \<and> (live r \<longrightarrow> live p))"

definition names_ok :: "session_row list \<Rightarrow> bool" where
  "names_ok t \<longleftrightarrow> (\<forall>a \<in> set t. \<forall>b \<in> set t. s_id a \<noteq> s_id b \<longrightarrow> \<not> name_clash a b)"

definition table_inv :: "session_row list \<Rightarrow> bool" where
  "table_inv t \<longleftrightarrow> unique_key s_id t \<and> names_ok t \<and> (\<forall>r \<in> set t. row_ok r \<and> placed t r)"

definition sessions_inv :: "store \<Rightarrow> bool" where
  "sessions_inv db \<longleftrightarrow> table_inv (sessions db)"

text \<open>What no operation changes of a session, and the direction in which the rest moves.\<close>

definition same_place :: "session_row \<Rightarrow> session_row \<Rightarrow> bool" where
  "same_place r r' \<longleftrightarrow> s_id r' = s_id r \<and> s_kind r' = s_kind r \<and> s_parent r' = s_parent r \<and> s_depth r' = s_depth r
     \<and> s_family_id r' = s_family_id r \<and> s_short_id r' = s_short_id r"

type_synonym phase = "lifecycle \<times> int"

definition phase :: "session_row \<Rightarrow> phase" where
  "phase r = (s_lifecycle r, s_generation r)"

inductive phase_move :: "phase \<Rightarrow> phase \<Rightarrow> bool" where
  pm: "lc \<noteq> Deleted \<Longrightarrow> g \<le> g' \<Longrightarrow> phase_move (lc, g) (lc', g')"

inductive_simps phase_move_iff [simp]: "phase_move (lc, g) (lc', g')"

definition session_advances :: "session_row \<Rightarrow> session_row \<Rightarrow> bool" where
  "session_advances r r' \<longleftrightarrow> same_place r r' \<and> phase_move\<^sup>*\<^sup>* (phase r) (phase r')"

definition sessions_advance :: "store \<Rightarrow> store \<Rightarrow> bool" where
  "sessions_advance db db' \<longleftrightarrow> (sessions_inv db \<longrightarrow> sessions_inv db')
     \<and> (\<forall>i r. session db i = Some r \<longrightarrow> (\<exists>r'. session db' i = Some r' \<and> session_advances r r' \<and> live r' = live r))"

lemma phase_moves: "lc \<noteq> Deleted \<Longrightarrow> g \<le> g' \<Longrightarrow> phase_move\<^sup>*\<^sup>* (lc, g) (lc', g')"
  by (intro r_into_rtranclp) simp

lemma same_place_refl [simp]: "same_place r r"
  by (simp add: same_place_def)

lemma session_advances_refl [simp]: "session_advances r r"
  by (simp add: session_advances_def)

lemma session_advances_trans: "session_advances a b \<Longrightarrow> session_advances b c \<Longrightarrow> session_advances a c"
  unfolding session_advances_def same_place_def by (metis rtranclp_trans)

lemma sessions_advance_frame [intro]: "sessions db' = sessions db \<Longrightarrow> sessions_advance db db'"
  by (simp add: sessions_advance_def sessions_inv_def session_def)

lemma sessions_advance_trans:
  assumes "sessions_advance a b" "sessions_advance b c"
  shows "sessions_advance a c"
proof -
  have "\<exists>r'. session c i = Some r' \<and> session_advances r r' \<and> live r' = live r" if r: "session a i = Some r" for i r
  proof -
    obtain s where s: "session b i = Some s" "session_advances r s" "live s = live r"
      using assms(1) r unfolding sessions_advance_def by blast
    obtain u where "session c i = Some u" "session_advances s u" "live u = live s"
      using assms(2) s(1) unfolding sessions_advance_def by blast
    with s show ?thesis by (metis session_advances_trans)
  qed
  with assms show ?thesis by (simp add: sessions_advance_def)
qed

text \<open>A table rewritten row by row.\<close>

definition rowwise :: "(session_row \<Rightarrow> session_row \<Rightarrow> bool) \<Rightarrow> store \<Rightarrow> store \<Rightarrow> bool" where
  "rowwise R db db' \<longleftrightarrow> list_all2 R (sessions db) (sessions db')"

definition steady :: "session_row \<Rightarrow> session_row \<Rightarrow> bool" where
  "steady r r' \<longleftrightarrow> session_advances r r' \<and> live r' = live r \<and> s_display_name r' = s_display_name r \<and> (row_ok r \<longrightarrow> row_ok r')"

lemma steady_refl [simp]: "steady r r"
  by (simp add: steady_def)

lemma steady_trans: "steady a b \<Longrightarrow> steady b c \<Longrightarrow> steady a c"
  unfolding steady_def by (metis session_advances_trans)

lemma list_all2_find_row:
  assumes "list_all2 R t t'" and "\<And>r r'. R r r' \<Longrightarrow> key r' = key r"
  shows "rel_option R (find_row key t k) (find_row key t' k)"
  using assms(1) by (induction rule: list_all2_induct) (auto simp: find_row_Cons dest: assms(2))

lemma list_all2_keys: "list_all2 R t t' \<Longrightarrow> (\<And>r r'. R r r' \<Longrightarrow> key r' = key r) \<Longrightarrow> map key t' = map key t"
  by (induction rule: list_all2_induct) auto

lemma list_all2_old: "list_all2 R t t' \<Longrightarrow> r' \<in> set t' \<Longrightarrow> \<exists>r \<in> set t. R r r'"
  by (induction rule: list_all2_induct) auto

lemma list_all2_new: "list_all2 R t t' \<Longrightarrow> r \<in> set t \<Longrightarrow> \<exists>r' \<in> set t'. R r r'"
  by (induction rule: list_all2_induct) auto

lemma session_rowwise:
  assumes "rowwise R db db'" and "\<And>r r'. R r r' \<Longrightarrow> s_id r' = s_id r" and "session db i = Some r"
  shows "\<exists>r'. session db' i = Some r' \<and> R r r'"
  using list_all2_find_row [of R "sessions db" "sessions db'" s_id i] assms
  by (auto simp: rowwise_def session_def option_rel_Some1)

text \<open>
  The general step: names still distinct, every row at its place, and a row that stays live
  under a parent keeps a live parent.
\<close>

lemma rowwise_advance:
  assumes "list_all2 R t t'" and adv: "\<And>r r'. R r r' \<Longrightarrow> session_advances r r' \<and> (row_ok r \<longrightarrow> row_ok r')"
    and names: "names_ok t \<Longrightarrow> names_ok t'"
    and orphan: "\<And>r r' p p'. table_inv t \<Longrightarrow> R r r' \<Longrightarrow> R p p' \<Longrightarrow> r \<in> set t \<Longrightarrow> p \<in> set t \<Longrightarrow> s_parent r = Some (s_id p) \<Longrightarrow>
      live r' \<Longrightarrow> live r \<and> (live p \<longrightarrow> live p')"
    and "table_inv t"
  shows "table_inv t'"
proof -
  have place: "same_place r r'" if "R r r'" for r r' using adv [OF that] by (simp add: session_advances_def)
  have "unique_key s_id t'"
    using list_all2_keys [OF assms(1), of s_id] place assms(5) by (simp add: table_inv_def unique_key_def same_place_def)
  moreover have "row_ok r' \<and> placed t' r'" if r': "r' \<in> set t'" for r'
  proof -
    obtain r where r: "r \<in> set t" "R r r'" using list_all2_old [OF assms(1) r'] by blast
    have rok: "row_ok r" "placed t r" using r(1) assms(5) by (simp_all add: table_inv_def)
    have "placed t' r'"
    proof (cases "s_kind r")
      case Root
      with rok place [OF r(2)] show ?thesis by (simp add: placed_def same_place_def)
    next
      case Child
      with rok obtain p where p: "p \<in> set t" "s_parent r = Some (s_id p)" "s_depth r = Suc (s_depth p)"
        "s_family_id r = s_family_id p" "live r \<longrightarrow> live p" by (auto simp: placed_def)
      obtain p' where p': "p' \<in> set t'" "R p p'" using list_all2_new [OF assms(1) p(1)] by blast
      have "live p'" if "live r'" using orphan [OF assms(5) r(2) p'(2) r(1) p(1) p(2) that] p(5) by blast
      with Child p(1-4) p'(1) place [OF r(2)] place [OF p'(2)] show ?thesis
        by (auto simp: placed_def same_place_def intro!: bexI [of _ p'])
    qed
    with adv [OF r(2)] rok show ?thesis by blast
  qed
  ultimately show ?thesis using names assms(5) by (simp add: table_inv_def)
qed

lemma steady_names:
  assumes "list_all2 steady t t'" "names_ok t"
  shows "names_ok t'"
  unfolding names_ok_def
proof (intro ballI impI)
  fix a' b' assume ab: "a' \<in> set t'" "b' \<in> set t'" "s_id a' \<noteq> s_id b'"
  from ab(1,2) assms(1) obtain a b where "a \<in> set t" "steady a a'" "b \<in> set t" "steady b b'"
    by (meson list_all2_old)
  with ab(3) assms(2) show "\<not> name_clash a' b'"
    by (auto simp: names_ok_def name_clash_def steady_def session_advances_def same_place_def)
qed

lemma rowwise_steady:
  assumes "rowwise steady db db'"
  shows "sessions_advance db db'"
proof -
  have "sessions_inv db'" if "sessions_inv db"
    unfolding sessions_inv_def
  proof (rule rowwise_advance [OF assms [unfolded rowwise_def]])
    show "names_ok (sessions db) \<Longrightarrow> names_ok (sessions db')"
      using assms unfolding rowwise_def by (rule steady_names)
    show "table_inv (sessions db)" using that by (simp add: sessions_inv_def)
  qed (auto simp: steady_def)
  moreover have "\<exists>r'. session db' i = Some r' \<and> session_advances r r' \<and> live r' = live r" if "session db i = Some r" for i r
    using session_rowwise [OF assms _ that] by (auto simp: steady_def session_advances_def same_place_def)
  ultimately show ?thesis by (simp add: sessions_advance_def)
qed

text \<open>An update of one row, of the rows a predicate selects, and of the ancestors.\<close>

lemma list_all2_update_where:
  "(\<And>x. x \<in> set t \<Longrightarrow> p x \<Longrightarrow> R x (f x)) \<Longrightarrow> (\<And>x. R x x) \<Longrightarrow> list_all2 R t (update_where p f t)"
  by (induction t) (auto simp: update_where_def)

lemma inv_row_unique: "sessions_inv db \<Longrightarrow> session db sid = Some r \<Longrightarrow> x \<in> set (sessions db) \<Longrightarrow> s_id x = sid \<Longrightarrow> x = r"
  using find_row_unique [of s_id "sessions db" x] by (simp add: sessions_inv_def table_inv_def session_def)

lemma upd_session_steady:
  assumes "session db sid = Some r" and "\<And>x. s_id (f x) = s_id x" and "steady r (f r)"
  shows "sessions_advance db (upd_session sid f db)"
proof -
  have "sessions_inv (upd_session sid f db)" if inv: "sessions_inv db"
  proof -
    have "rowwise steady db (upd_session sid f db)"
      using inv_row_unique [OF inv assms(1)] assms(3)
      by (auto simp: rowwise_def modify_row_def intro!: list_all2_update_where)
    with inv show ?thesis using rowwise_steady by (auto simp: sessions_advance_def)
  qed
  then show ?thesis
    using assms by (auto simp: sessions_advance_def session_upd_session steady_def)
qed

lemma update_where_steady:
  "(\<And>x. x \<in> set (sessions db) \<Longrightarrow> p x \<Longrightarrow> steady x (f x)) \<Longrightarrow> sessions_advance db (sessions_update (update_where p f) db)"
  by (intro rowwise_steady) (auto simp: rowwise_def intro!: list_all2_update_where)

lemma refresh_row_steady: "steady r (refresh_row now c r)"
  by (auto simp: steady_def session_advances_def same_place_def phase_def live_def refresh_row_def shown_activity_def row_ok_def
      split: option.splits)

lemma refresh_walk_rows:
  assumes row: "\<And>r k. R r (refresh_row now k r)" and refl: "\<And>r. R r r" and trans: "\<And>a b c. R a b \<Longrightarrow> R b c \<Longrightarrow> R a c"
  shows "list_all2 R t (refresh_walk n now seen c t)"
  using row
proof (induction n now seen c t rule: refresh_walk.induct)
  case (3 n now seen i t)
  have step: "list_all2 R t (modify_row s_id i (refresh_row now k) t)" for k
    unfolding modify_row_def by (rule list_all2_update_where) (simp_all add: "3.prems" refl)
  show ?case
  proof (cases "i \<in> set seen \<or> find_row s_id t i = None")
    case True
    then show ?thesis using refl by (auto simp: list.rel_refl)
  next
    case False
    then obtain r where "i \<notin> set seen" "find_row s_id t i = Some r" by auto
    with "3.IH" [OF this "3.prems"] show ?thesis
      using list_all2_trans [OF trans step] by simp
  qed
qed (simp_all add: refl list.rel_refl)

text \<open>Only the displayed columns of the ancestors change.\<close>

definition shown_only :: "session_row \<Rightarrow> session_row \<Rightarrow> bool" where
  "shown_only r r' \<longleftrightarrow> (\<exists>a q. r' = r\<lparr>s_activity := a, s_quiet_since := q\<rparr>)"

lemma shown_only_refl: "shown_only r r"
  unfolding shown_only_def by (intro exI [of _ "s_activity r"] exI [of _ "s_quiet_since r"]) simp

lemma shown_only_trans: "shown_only a b \<Longrightarrow> shown_only b c \<Longrightarrow> shown_only a c"
  unfolding shown_only_def by (elim exE) (auto intro: exI)

lemma shown_only_row: "shown_only r (refresh_row now k r)"
  unfolding shown_only_def refresh_row_def by blast

lemma refresh_ancestors_shown: "rowwise shown_only db (refresh_ancestors sid now db)"
  using refresh_walk_rows [of shown_only, OF shown_only_row shown_only_refl shown_only_trans]
  by (auto simp: refresh_ancestors_def rowwise_def list.rel_refl shown_only_refl split: option.split)

lemma refresh_ancestors_rowwise: "rowwise steady db (refresh_ancestors sid now db)"
  using refresh_walk_rows [of steady, OF refresh_row_steady steady_refl steady_trans]
  by (auto simp: refresh_ancestors_def rowwise_def list.rel_refl split: option.split)

lemma refresh_ancestors_advance: "sessions_advance db (refresh_ancestors sid now db)"
  by (rule rowwise_steady [OF refresh_ancestors_rowwise])

lemma refresh_after: "sessions_advance db db1 \<Longrightarrow> sessions_advance db (refresh_ancestors sid now db1)"
  using refresh_ancestors_advance sessions_advance_trans by blast

lemma refresh_ancestors_frame [simp]:
  "messages (refresh_ancestors sid now db) = messages db" "tasks (refresh_ancestors sid now db) = tasks db"
  "inputs (refresh_ancestors sid now db) = inputs db" "receipts (refresh_ancestors sid now db) = receipts db"
  "deleting (refresh_ancestors sid now db) = deleting db" "grants (refresh_ancestors sid now db) = grants db"
  by (simp_all add: refresh_ancestors_def split: option.split)

lemma name_clash_sym: "name_clash a b = name_clash b a"
  unfolding name_clash_def by metis

lemma placed_more: "placed t r \<Longrightarrow> set t \<subseteq> set t' \<Longrightarrow> placed t' r"
  by (auto simp: placed_def split: skind.splits)

lemma insert_session_advance:
  assumes "insert_session r db = Inr db'" and "row_ok r" and "sessions_inv db \<Longrightarrow> placed (sessions db) r"
  shows "sessions_advance db db' \<and> session db' (s_id r) = Some r \<and> sessions db' = add_row r (sessions db)"
proof -
  from assms(1) have fresh: "\<forall>x \<in> set (sessions db). s_id x \<noteq> s_id r \<and> \<not> name_clash x r"
    and db': "db' = sessions_update (add_row r) db"
    by (auto simp: insert_session_def split: if_splits)
  from fresh have none: "find_row s_id (sessions db) (s_id r) = None" by (simp add: find_row_None_iff)
  from fresh have clash: "\<forall>x \<in> set (sessions db). \<not> name_clash x r \<and> \<not> name_clash r x"
    by (metis name_clash_sym)
  have "sessions_inv db'" if "sessions_inv db"
    using that clash none assms(3) [OF that] assms(2) placed_more [of "sessions db" _ "add_row r (sessions db)"]
    by (simp add: sessions_inv_def table_inv_def db' unique_key_add_row names_ok_def subset_insertI)
  with none show ?thesis
    by (auto simp: sessions_advance_def session_def db' session_tbl.lookup_insert)
qed

text \<open>A rename that passed the unique name index.\<close>

lemma rename_advance:
  assumes r: "session db sid = Some r" and id: "\<And>x. s_id (f x) = s_id x"
    and adv: "session_advances r (f r)" "live (f r) = live r" "row_ok r \<longrightarrow> row_ok (f r)"
    and clash: "\<not> (\<exists>x \<in> set (sessions db). s_id x \<noteq> sid \<and> name_clash x (f r))"
  shows "sessions_advance db (upd_session sid f db)"
proof -
  have "sessions_inv (upd_session sid f db)" if inv: "sessions_inv db"
  proof -
    have both: "\<forall>x \<in> set (sessions db). s_id x \<noteq> sid \<longrightarrow> \<not> name_clash x (f r) \<and> \<not> name_clash (f r) x"
      using clash name_clash_sym by blast
    define R where "R x x' \<longleftrightarrow> x' = (if s_id x = sid then f r else x) \<and> (s_id x = sid \<longrightarrow> x = r)" for x x'
    have all: "list_all2 R (sessions db) (sessions (upd_session sid f db))"
      using inv_row_unique [OF inv r]
      by (auto simp: R_def modify_row_def update_where_def list_all2_map2 intro!: list.rel_refl_strong)
    have nm: "\<not> name_clash a' b'" if ab': "a' \<in> set (sessions (upd_session sid f db))"
        "b' \<in> set (sessions (upd_session sid f db))" "s_id a' \<noteq> s_id b'" for a' b'
    proof -
      obtain a b where ab: "a \<in> set (sessions db)" "R a a'" "b \<in> set (sessions db)" "R b b'"
        using ab'(1,2) all by (meson list_all2_old)
      have old: "s_id a \<noteq> s_id b \<longrightarrow> \<not> name_clash a b"
        using inv ab by (simp add: sessions_inv_def table_inv_def names_ok_def)
      show ?thesis
        using ab old ab'(3) id both by (auto simp: R_def split: if_splits)
    qed
    show ?thesis
      unfolding sessions_inv_def
      by (rule rowwise_advance [OF all]) (use adv nm inv in \<open>auto simp: R_def names_ok_def sessions_inv_def split: if_splits\<close>)
  qed
  then show ?thesis
    using r id adv(1,2) by (auto simp: sessions_advance_def session_upd_session)
qed

lemmas steady_defs = steady_def session_advances_def same_place_def phase_def live_def row_ok_def launch_ok_set launch_ok_admit

lemma insert_root_advance: "insert_root sha p now db = Inr db' \<Longrightarrow> sessions_advance db db'"
  by (auto simp: insert_root_def new_session_def row_ok_def placed_def launch_ok_set split: if_splits dest!: insert_session_advance)

lemma create_root_advance: "create_root sha p now db = Inr (db', x) \<Longrightarrow> sessions_advance db db'"
  by (auto simp: create_root_def split: if_splits sum.splits dest: insert_root_advance)

lemma admit_root_advance:
  assumes "admit_root sha p now db = Inr (db', x)"
  shows "sessions_advance db db'"
proof (cases "session db (rp_id p)")
  case None
  with assms show ?thesis by (auto simp: admit_root_def split: sum.splits dest: insert_root_advance)
next
  case (Some r)
  then have [simp]: "s_id r = rp_id p" by (rule session_id)
  from assms Some show ?thesis
    by (auto simp: admit_root_def Let_def steady_defs split: if_splits intro!: rename_advance [OF Some])
qed

text \<open>The one way in which \<open>createChild\<close> succeeds.\<close>

lemma create_childD:
  assumes "create_child sha parent sid file policy token tid now db = Inr (db', x)"
  shows "\<exists>par r t db1. session db parent = Some par \<and> live par \<and> r = child_row sha par parent sid file (JObj policy) (the token) now
    \<and> insert_session r db = Inr db1 \<and> find_row t_id (tasks db) tid = None \<and> t = child_task sha sid (JObj policy) tid now
    \<and> db' = db1\<lparr>children := children db1 @ [sid], tasks := add_row t (tasks db1)\<rparr>"
proof -
  obtain par where par: "session db parent = Some par" "live par" "assert_session_available db parent = None"
    using assms by (auto simp: create_child_def live_def split: option.splits if_splits)
  with assms show ?thesis
    by (simp add: create_child_def live_def Let_def split: if_splits sum.splits)
qed

lemma child_row_fields [simp]:
  "s_id (child_row sha par parent sid file pol token now) = sid" "live (child_row sha par parent sid file pol token now)"
  "t_id (child_task sha sid pol tid now) = tid" "t_child_id (child_task sha sid pol tid now) = sid"
  "t_state (child_task sha sid pol tid now) = TQueued"
  by (simp_all add: child_row_def child_task_def new_session_def live_def)

lemma create_child_advance:
  assumes "create_child sha parent sid file policy token tid now db = Inr (db', x)"
  shows "sessions_advance db db'"
proof -
  obtain par r db1 where c: "session db parent = Some par" "live par"
    "r = child_row sha par parent sid file (JObj policy) (the token) now"
    "insert_session r db = Inr db1" "sessions db' = sessions db1"
    using create_childD [OF assms] by fastforce
  have "par \<in> set (sessions db)" "s_id par = parent"
    using c(1) by (auto simp: session_def dest: find_row_SomeD)
  with c(2) have "row_ok r" "placed (sessions db) r"
    by (auto simp: c(3) child_row_def new_session_def row_ok_def placed_def intro!: bexI [of _ par])
  then have "sessions_advance db db1" using insert_session_advance [OF c(4)] by blast
  then show ?thesis using c(5) sessions_advance_trans by blast
qed

lemma register_actor_advance: "register_actor p now db = Inr (db', x) \<Longrightarrow> sessions_advance db db'"
  by (auto simp: register_actor_def Let_def steady_defs split: option.splits if_splits intro!: upd_session_steady)

lemma prepare_revival_advance: "prepare_actor_revival sid token force err now db = Inr (db', x) \<Longrightarrow> sessions_advance db db'"
  by (auto simp: prepare_actor_revival_def Let_def revive_row_def steady_defs phase_moves
      split: option.splits if_splits intro!: refresh_after upd_session_steady)

lemma mark_started_advance: "mark_actor_started sid g pid file ident now db = Inr (db', x) \<Longrightarrow> sessions_advance db db'"
  by (auto simp: mark_actor_started_def Let_def steady_defs phase_moves
      split: option.splits if_splits intro!: refresh_after upd_session_steady)

lemma set_activity_advance: "set_actor_activity sid g st now db = Inr (db', x) \<Longrightarrow> sessions_advance db db'"
  by (auto simp: set_actor_activity_def Let_def steady_defs
      split: option.splits if_splits intro!: refresh_after upd_session_steady)

lemma queue_child_failure_frame [simp]:
  "sessions (queue_child_failure sha ob sid g err tf now db) = sessions db"
  "inputs (queue_child_failure sha ob sid g err tf now db) = inputs db"
  "receipts (queue_child_failure sha ob sid g err tf now db) = receipts db"
  "tasks (queue_child_failure sha ob sid g err tf now db) = tasks db"
  "deleting (queue_child_failure sha ob sid g err tf now db) = deleting db"
  by (simp_all add: queue_child_failure_def insert_or_ignore_message_def split: option.split)

definition stopped_row :: "lifecycle \<Rightarrow> string option \<Rightarrow> int \<Rightarrow> activity \<Rightarrow> session_row \<Rightarrow> session_row" where
  "stopped_row lc err now act r = r\<lparr>s_lifecycle := lc, s_pid := None, s_identity := None,
     s_streaming := False, s_activity := act, s_stopped_at := Some now, s_quiet_since := None, s_last_error := err, s_updated_at := now\<rparr>"

lemma mark_lifecycleD:
  assumes "mark_actor_lifecycle sha ob sid g lc err report now db = Inr (db', x)"
  shows "db' = db \<or> (\<exists>r act db1 db2. session db sid = Some r \<and> live r \<and> s_generation r = g \<and> lc \<in> {Passivated, Stopped, LcError}
    \<and> act \<in> {Delegating, Inactive} \<and> db1 = upd_session sid (stopped_row lc err now act) db
    \<and> (db2 = db1 \<or> db2 = queue_child_failure sha ob sid g err None now db1) \<and> db' = refresh_ancestors sid now db2)"
proof -
  define act where "act = (if working_descendant_count (sessions db) sid > 0 then Delegating else Inactive)"
  define db1 where "db1 = upd_session sid (stopped_row lc err now act) db"
  define db2 where "db2 = (if report \<and> lc = LcError then queue_child_failure sha ob sid g err None now db1 else db1)"
  have "db' = db \<or> (\<exists>r. session db sid = Some r \<and> live r \<and> s_generation r = g \<and> lc \<in> {Passivated, Stopped, LcError}
      \<and> db' = refresh_ancestors sid now db2)"
    using assms unfolding mark_actor_lifecycle_def Let_def live_def act_def [symmetric] stopped_row_def db1_def db2_def
    by (simp split: if_split_asm option.split_asm) auto
  moreover have "act \<in> {Delegating, Inactive}" "db2 = db1 \<or> db2 = queue_child_failure sha ob sid g err None now db1"
    by (simp_all add: act_def db2_def)
  ultimately show ?thesis using db1_def by blast
qed

lemma mark_lifecycle_advance:
  assumes "mark_actor_lifecycle sha ob sid g lc err report now db = Inr (db', x)"
  shows "sessions_advance db db'"
proof (cases "db' = db")
  case False
  with mark_lifecycleD [OF assms] obtain r act db1 db2 where
    a: "session db sid = Some r" "live r" "lc \<in> {Passivated, Stopped, LcError}" "act \<in> {Delegating, Inactive}"
    "db1 = upd_session sid (stopped_row lc err now act) db" "db' = refresh_ancestors sid now db2"
    and "db2 = db1 \<or> db2 = queue_child_failure sha ob sid g err None now db1" by metis
  then have q: "sessions db2 = sessions db1" by auto
  have "sessions_advance db db1"
    unfolding a(5) by (rule upd_session_steady [OF a(1)]) (use a(2-4) in \<open>auto simp: stopped_row_def steady_defs phase_moves\<close>)
  moreover have "sessions_advance db1 db2" using q by (rule sessions_advance_frame)
  ultimately show ?thesis using a(6) refresh_ancestors_advance sessions_advance_trans by blast
qed auto

lemma turn_failure_sessions: "record_actor_turn_failure sha ob sid g tf now db = Inr (db', x) \<Longrightarrow> sessions db' = sessions db"
  by (auto simp: record_actor_turn_failure_def split: option.splits if_splits)

lemma last_error_advance: "sessions_advance db (fst (record_session_last_error sid g err now db))"
  by (auto simp: record_session_last_error_def Let_def steady_defs intro!: update_where_steady)

lemma terminalize_frame [simp]:
  "sessions (terminalize_work gone now db) = sessions db" "inputs (terminalize_work gone now db) = inputs db"
  "receipts (terminalize_work gone now db) = receipts db" "deleting (terminalize_work gone now db) = deleting db"
  by (simp_all add: terminalize_work_def)

lemma reconcile_advance: "sessions_advance db (fst (reconcile_after_daemon_start uuid now db))"
proof -
  let ?f = "\<lambda>r. (revive_row (uuid (s_id r)) r)\<lparr>s_stopped_at := Some now, s_last_error := Some (restart_error r), s_updated_at := now\<rparr>"
  have "sessions_advance db (sessions_update (update_where (restart_owner db) ?f) db)"
    by (rule update_where_steady) (auto simp: restart_owner_def revive_row_def steady_defs phase_moves)
  moreover have "sessions (fst (reconcile_after_daemon_start uuid now db)) = sessions (sessions_update (update_where (restart_owner db) ?f) db)"
    by (simp add: reconcile_after_daemon_start_def Let_def terminalize_deleted_session_work_def)
  ultimately show ?thesis using sessions_advance_frame sessions_advance_trans by blast
qed

lemma session_activity_steady: "record_session_activity sid now db = Inr (db', x) \<Longrightarrow> sessions_advance db db'"
  by (auto simp: record_session_activity_def Let_def steady_defs split: if_splits intro!: update_where_steady)

lemma activity_after: "record_session_activity sid now db1 = Inr (db', x) \<Longrightarrow> sessions db1 = sessions db \<Longrightarrow> sessions_advance db db'"
  using session_activity_steady sessions_advance_frame sessions_advance_trans by blast

lemma create_input_sessions:
  assumes "create_actor_input sha stringify sid uuid p now db = Inr (db', x)"
  shows "sessions_advance db db'"
  using create_actor_inputD [OF assms]
  by (auto dest!: admit_inputD elim: activity_after)

lemma complete_input_sessions: "complete_actor_input i sid now entry db = Inr (db', x) \<Longrightarrow> sessions_advance db db'"
  by (auto simp: complete_actor_input_def Let_def drop_input_def split: option.splits if_splits sum.splits
      elim: activity_after)

lemma mark_handled_sessions: "mark_actor_input_handled i sid now db = Inr (db', x) \<Longrightarrow> sessions_advance db db'"
  by (auto simp: mark_actor_input_handled_def Let_def drop_input_def split: option.splits if_splits sum.splits
      elim: activity_after)

section \<open>A small family\<close>

text \<open>A root and its child, both resident, the child working: the concrete store of the examples.\<close>

definition demo_root :: "(session_row option) op_result" where
  "demo_root = create_root id \<lparr>rp_id = ''r'', rp_name = Some ''root'', rp_cwd = Some ''/w'', rp_repository = None,
     rp_file = Some ''f'', rp_token = Some ''tr'', rp_launch = None\<rparr> 1 empty_store"

definition demo_family :: store where
  "demo_family = (let db = committed empty_store demo_root;
      db = committed db (mark_actor_started ''r'' 1 (Some 10) None None 2 db);
      db = committed db (create_child id ''r'' ''c'' (Some ''g'') [(''name'', JStr ''kid''), (''prompt'', JStr ''do'')] (Some ''tc'') ''t1'' 3 db);
      db = committed db (mark_actor_started ''c'' 1 (Some 11) None None 4 db)
    in committed db (set_actor_activity ''c'' 1 True 5 db))"

end
