(* ===== verification/Deletion.thy ===== *)
theory Deletion
  imports Lifecycle
begin

text \<open>
  Deletion of a session subtree (\<open>deleteSession\<close> of src/store.mjs): every row of the subtree
  becomes a tombstone, its pending inputs are dropped, its open messages are rejected and its
  open tasks failed, and the root's scratch directory is handed to the cleanup.
\<close>

section \<open>Deletion\<close>

definition tombstone :: "int \<Rightarrow> session_row \<Rightarrow> session_row" where
  "tombstone now r = r\<lparr>s_display_name := s_display_name r @ ''-deleted-'' @ s_short_id r, s_lifecycle := Deleted,
     s_actor_token := [], s_pid := None, s_identity := None, s_streaming := False, s_activity := Inactive,
     s_quiet_since := None, s_last_error := None, s_deleted_at := Some now, s_stopped_at := Some now, s_updated_at := now\<rparr>"

definition scratch_state :: "js \<Rightarrow> string option" where
  "scratch_state j = (if jget ''version'' j = jint 1 then (case jget ''state'' j of
       JStr s \<Rightarrow> if s \<in> {''ready'', ''deleting'', ''removed''} then Some s else None | _ \<Rightarrow> None) else None)"

text \<open>\<open>getRootScratch\<close>: \<open>Inr None\<close> when the root owns no scratch.\<close>

definition get_root_scratch :: "store \<Rightarrow> string \<Rightarrow> js option result" where
  "get_root_scratch db sid = (case get_session_root db sid of
      Inl e \<Rightarrow> Inl e
    | Inr rt \<Rightarrow> (case s_scratch rt of
        None \<Rightarrow> Inr None
      | Some j \<Rightarrow> if scratch_state j = None then Inl (Thrown ''root scratch ownership is invalid'') else Inr (Some j)))"

definition root_scratch_cleanup_state :: "store \<Rightarrow> string \<Rightarrow> string" where
  "root_scratch_cleanup_state db sid = (case get_root_scratch db sid of
      Inl _ \<Rightarrow> ''unknown''
    | Inr None \<Rightarrow> ''unowned''
    | Inr (Some j) \<Rightarrow> (case scratch_state j of Some s \<Rightarrow> s | None \<Rightarrow> ''unowned''))"

definition list_pending_scratch_roots :: "store \<Rightarrow> string list" where
  "list_pending_scratch_roots db = map s_id (filter (\<lambda>r. s_kind r = Root \<and> s_lifecycle r = Deleted
     \<and> (case s_scratch r of Some j \<Rightarrow> jget ''state'' j = JStr ''deleting'' | None \<Rightarrow> False)) (sessions db))"

definition set_root_scratch :: "string \<Rightarrow> js \<Rightarrow> store \<Rightarrow> unit op_result" where
  "set_root_scratch sid j db = (case get_session_root db sid of
      Inl e \<Rightarrow> Inl e
    | Inr rt \<Rightarrow> if s_id rt \<noteq> sid then Inl (Thrown ''scratch owner must be a root'')
        else Inr (upd_session sid (\<lambda>r. r\<lparr>s_scratch := Some j\<rparr>) db, ()))"

definition delete_one :: "int \<Rightarrow> string \<Rightarrow> store \<Rightarrow> store" where
  "delete_one now sid db =
     sessions_update (update_where (\<lambda>r. s_id r = sid \<and> s_lifecycle r \<noteq> Deleted) (tombstone now))
       (terminalize_session_work sid now (inputs_update (filter (\<lambda>i. i_session i \<noteq> sid)) db))"

definition mark_scratch_deleting :: "session_row \<Rightarrow> store \<Rightarrow> store result" where
  "mark_scratch_deleting r db =
     (if s_kind r = Root then (case get_root_scratch db (s_id r) of
          Inr (Some j) \<Rightarrow> if jget ''state'' j = JStr ''ready''
            then (case set_root_scratch (s_id r) (jset ''state'' (JStr ''deleting'') j) db of
                Inl e \<Rightarrow> Inl e | Inr (db', _) \<Rightarrow> Inr db')
            else Inr db
        | _ \<Rightarrow> Inr db)
      else Inr db)"

definition delete_session :: "string \<Rightarrow> int \<Rightarrow> store \<Rightarrow> session_row option op_result" where
  "delete_session sid now db = (case get_session_subtree db sid of
      Inl e \<Rightarrow> Inl e
    | Inr rows \<Rightarrow> (case session db sid of
        None \<Rightarrow> Inl (Thrown ''session does not exist'')
      | Some r \<Rightarrow> (case mark_scratch_deleting r db of
          Inl e \<Rightarrow> Inl e
        | Inr db1 \<Rightarrow> (let db2 = fold (\<lambda>x. delete_one now (s_id x)) rows db1;
                        db3 = refresh_ancestors sid now db2
                    in Inr (db3, session db3 sid)))))"

section \<open>What deletion leaves behind\<close>

definition bury :: "int \<Rightarrow> string set \<Rightarrow> session_row \<Rightarrow> session_row" where
  "bury now ids r = (if s_id r \<in> ids \<and> live r then tombstone now r else r)"

definition message_dies :: "string set \<Rightarrow> message_row \<Rightarrow> bool" where
  "message_dies ids m \<longleftrightarrow> m_target m \<in> ids \<and> m_state m \<in> set pending_states \<or> m_sender m \<in> ids \<and> m_state m = MAccepted"

definition message_after :: "string set \<Rightarrow> message_row \<Rightarrow> message_row \<Rightarrow> bool" where
  "message_after ids m m' \<longleftrightarrow> (if message_dies ids m
     then m_state m' = MRejected \<and> m_id m' = m_id m \<and> m_sender m' = m_sender m \<and> m_target m' = m_target m \<and> m_body m' = m_body m
     else m' = m)"

definition task_dies :: "string set \<Rightarrow> task_row \<Rightarrow> bool" where
  "task_dies ids t \<longleftrightarrow> t_child_id t \<in> ids \<and> t_state t \<in> {TQueued, TSubmitted}"

definition task_after :: "string set \<Rightarrow> task_row \<Rightarrow> task_row \<Rightarrow> bool" where
  "task_after ids t t' \<longleftrightarrow> (if task_dies ids t
     then t_state t' = TFailed \<and> t_id t' = t_id t \<and> t_child_id t' = t_child_id t else t' = t)"

lemma bury_fields [simp]: "s_id (bury now ids r) = s_id r" "s_parent (bury now ids r) = s_parent r"
  by (simp_all add: bury_def tombstone_def)

lemma live_bury: "live (bury now ids r) \<longleftrightarrow> live r \<and> s_id r \<notin> ids"
  by (auto simp: bury_def tombstone_def live_def)

lemma bury_lifecycle: "s_lifecycle (bury now ids r) = (if s_id r \<in> ids then Deleted else s_lifecycle r)"
  by (auto simp: bury_def tombstone_def live_def)

lemma bury_bury: "bury now A (bury now B r) = bury now (A \<union> B) r"
  by (auto simp: bury_def tombstone_def live_def)

lemma delete_one_tables:
  "sessions (delete_one now sid db) = map (bury now {sid}) (sessions db)"
  "inputs (delete_one now sid db) = filter (\<lambda>i. i_session i \<notin> {sid}) (inputs db)"
  "list_all2 (message_after {sid}) (messages db) (messages (delete_one now sid db))"
  "list_all2 (task_after {sid}) (tasks db) (tasks (delete_one now sid db))"
  "receipts (delete_one now sid db) = receipts db" "deleting (delete_one now sid db) = deleting db"
  by (auto simp: delete_one_def terminalize_session_work_def terminalize_work_def update_where_def bury_def live_def
      message_after_def message_dies_def reject_message_def pending_states_def task_after_def task_dies_def fail_task_def
      list_all2_map2 intro!: list.rel_refl_strong)

lemma message_after_trans: "message_after A m m1 \<Longrightarrow> message_after B m1 m2 \<Longrightarrow> message_after (A \<union> B) m m2"
  by (cases "m_state m") (auto simp: message_after_def message_dies_def pending_states_def split: if_splits)

lemma task_after_trans: "task_after A m m1 \<Longrightarrow> task_after B m1 m2 \<Longrightarrow> task_after (A \<union> B) m m2"
  by (auto simp: task_after_def task_dies_def split: if_splits)

lemma message_after_empty: "message_after {} m m"
  by (simp add: message_after_def message_dies_def)

lemma task_after_empty: "task_after {} t t"
  by (simp add: task_after_def task_dies_def)

lemma fold_rowwise:
  assumes "\<And>x db. list_all2 (R {k x}) (tab db) (tab (step x db))" and "\<And>r. R {} r r"
    and "\<And>A B a b c. R A a b \<Longrightarrow> R B b c \<Longrightarrow> R (A \<union> B) a c"
  shows "list_all2 (R (k ` set xs)) (tab db) (tab (fold step xs db))"
proof (induction xs arbitrary: db)
  case Nil
  then show ?case using assms(2) by (simp add: list.rel_refl)
next
  case (Cons x xs)
  have "list_all2 (R ({k x} \<union> k ` set xs)) (tab db) (tab (fold step xs (step x db)))"
    by (rule list_all2_trans [OF assms(3) assms(1) Cons.IH])
  then show ?case by simp
qed

abbreviation delete_rows :: "session_row list \<Rightarrow> int \<Rightarrow> store \<Rightarrow> store" where
  "delete_rows rows now db \<equiv> fold (\<lambda>x. delete_one now (s_id x)) rows db"

lemma delete_rows_messages: "list_all2 (message_after (s_id ` set rows)) (messages db) (messages (delete_rows rows now db))"
  by (rule fold_rowwise [where R = message_after, OF _ message_after_empty message_after_trans]) (rule delete_one_tables)

lemma delete_rows_tasks: "list_all2 (task_after (s_id ` set rows)) (tasks db) (tasks (delete_rows rows now db))"
  by (rule fold_rowwise [where R = task_after, OF _ task_after_empty task_after_trans]) (rule delete_one_tables)

lemma delete_rows_sessions: "sessions (delete_rows rows now db) = map (bury now (s_id ` set rows)) (sessions db)"
proof -
  have "list_all2 (\<lambda>r r'. r' = bury now (s_id ` set rows) r) (sessions db) (sessions (delete_rows rows now db))"
    by (rule fold_rowwise [where R = "\<lambda>ids r r'. r' = bury now ids r"])
      (auto simp: delete_one_tables list_all2_map2 bury_bury Un_commute intro!: list.rel_refl, simp add: bury_def)
  then have "list_all2 (=) (map (bury now (s_id ` set rows)) (sessions db)) (sessions (delete_rows rows now db))"
    by (simp add: list_all2_map1 eq_commute)
  then show ?thesis by (simp add: list.rel_eq)
qed

lemma delete_rows_inputs: "inputs (delete_rows rows now db) = filter (\<lambda>i. i_session i \<notin> s_id ` set rows) (inputs db)"
  by (induction rows arbitrary: db) (auto simp: delete_one_tables intro: filter_cong)

lemma delete_rows_frame [simp]:
  "receipts (delete_rows rows now db) = receipts db" "deleting (delete_rows rows now db) = deleting db"
  by (induction rows arbitrary: db) (simp_all add: delete_one_tables)

lemma subtree_rows_ids:
  assumes "get_session_subtree db sid = Inr rows"
  shows "s_id ` set rows = {i. reaches (\<lambda>_. True) (sessions db) sid i}"
proof -
  obtain r where r: "r \<in> set (sessions db)" "s_id r = sid"
    using assms by (auto simp: get_session_subtree_def session_def split: option.splits dest!: find_row_SomeD)
  have "i \<in> s_id ` set (sessions db)" if "reaches (\<lambda>_. True) (sessions db) sid i" for i
    using that r by (cases rule: reaches.cases) auto
  moreover have "set rows = {r \<in> set (sessions db). s_id r \<in> set (subtree_ids (sessions db) sid)}"
    using assms by (auto simp: get_session_subtree_def split: option.splits)
  ultimately show ?thesis using r by (auto simp: set_subtree_ids)
qed

lemma mark_scratchD: "mark_scratch_deleting r db = Inr db1 \<Longrightarrow> db1 = db \<or> (\<exists>j. db1 = upd_session (s_id r) (\<lambda>r. r\<lparr>s_scratch := Some j\<rparr>) db)"
  by (auto simp: mark_scratch_deleting_def set_root_scratch_def split: if_splits option.splits sum.splits)

lemma delete_sessionD:
  assumes "delete_session sid now db = Inr (db', x)"
  shows "\<exists>rows db1 r. get_session_subtree db sid = Inr rows \<and> session db sid = Some r \<and> mark_scratch_deleting r db = Inr db1
    \<and> db' = refresh_ancestors sid now (delete_rows rows now db1)"
  using assms by (auto simp: delete_session_def Let_def split: sum.splits option.splits)

text \<open>Burying a set of rows that is closed under children leaves no live orphan.\<close>

lemma bury_inv:
  assumes "table_inv t" and closed: "\<And>r j. r \<in> set t \<Longrightarrow> j \<in> ids \<Longrightarrow> s_parent r = Some j \<Longrightarrow> s_id r \<in> ids"
  shows "table_inv (map (bury now ids) t)"
proof (rule rowwise_advance [where R = "\<lambda>r r'. r' = bury now ids r"])
  show "list_all2 (\<lambda>r r'. r' = bury now ids r) t (map (bury now ids) t)"
    by (simp add: list_all2_map2 list.rel_refl)
  show "session_advances r r' \<and> (row_ok r \<longrightarrow> row_ok r')" if "r' = bury now ids r" for r r'
    using that by (auto simp: bury_def tombstone_def steady_defs phase_moves)
  show "names_ok (map (bury now ids) t)" if "names_ok t"
    using that by (auto simp: names_ok_def name_clash_def live_bury) (auto simp: bury_def)
  show "table_inv t" by fact
qed (use closed in \<open>auto simp: live_bury\<close>)

lemma bury_advances: "session_advances r (bury now ids r) \<and> (row_ok r \<longrightarrow> row_ok (bury now ids r))"
  by (auto simp: bury_def tombstone_def steady_defs phase_moves)

lemma session_delete_rows: "session (delete_rows rows now db) i = map_option (bury now (s_id ` set rows)) (session db i)"
proof -
  have "find_row s_id (map (bury now ids) t) i = map_option (bury now ids) (find_row s_id t i)" for ids t
    by (induction t) (simp_all add: find_row_Cons)
  then show ?thesis by (simp add: session_def delete_rows_sessions)
qed

lemma mark_scratch_steady: "mark_scratch_deleting r db = Inr db1 \<Longrightarrow> rowwise (\<lambda>r r'. \<exists>j. r' = r\<lparr>s_scratch := j\<rparr>) db db1"
proof -
  assume "mark_scratch_deleting r db = Inr db1"
  then consider "db1 = db" | j where "db1 = upd_session (s_id r) (\<lambda>r. r\<lparr>s_scratch := Some j\<rparr>) db"
    by (blast dest: mark_scratchD)
  moreover have same: "\<exists>j. r = r\<lparr>s_scratch := j\<rparr>" for r :: session_row by (intro exI [of _ "s_scratch r"]) simp
  ultimately show ?thesis unfolding rowwise_def
    by cases (auto simp: modify_row_def intro!: list_all2_update_where list.rel_refl same)
qed

lemma mark_scratch_frame: "mark_scratch_deleting r db = Inr db1 \<Longrightarrow> messages db1 = messages db \<and> tasks db1 = tasks db
    \<and> inputs db1 = inputs db \<and> receipts db1 = receipts db"
  by (auto dest!: mark_scratchD)

text \<open>The weaker step of deletion: rows keep their place, and their phase moves forward.\<close>

definition sessions_forward :: "store \<Rightarrow> store \<Rightarrow> bool" where
  "sessions_forward db db' \<longleftrightarrow> (sessions_inv db \<longrightarrow> sessions_inv db')
     \<and> (\<forall>i r. session db i = Some r \<longrightarrow> (\<exists>r'. session db' i = Some r' \<and> session_advances r r'))"

lemma advance_forward: "sessions_advance db db' \<Longrightarrow> sessions_forward db db'"
  unfolding sessions_advance_def sessions_forward_def by blast

lemma sessions_forward_trans: "sessions_forward a b \<Longrightarrow> sessions_forward b c \<Longrightarrow> sessions_forward a c"
  unfolding sessions_forward_def by (meson session_advances_trans)

lemma delete_session_forward:
  assumes "delete_session sid now db = Inr (db', x)"
  shows "sessions_forward db db'"
proof -
  from delete_sessionD [OF assms] obtain rows db1 r where d: "get_session_subtree db sid = Inr rows" "session db sid = Some r"
    "mark_scratch_deleting r db = Inr db1" "db' = refresh_ancestors sid now (delete_rows rows now db1)" by blast
  let ?ids = "s_id ` set rows"
  have scr: "rowwise (\<lambda>r r'. \<exists>j. r' = r\<lparr>s_scratch := j\<rparr>) db db1" using d(3) by (rule mark_scratch_steady)
  have one: "sessions_advance db db1"
    by (rule rowwise_steady) (rule list.rel_mono_strong [of _ "sessions db" "sessions db1", folded rowwise_def], rule scr,
      auto simp: steady_defs)
  have "sessions_inv (delete_rows rows now db1)" if "sessions_inv db1"
    unfolding sessions_inv_def delete_rows_sessions
  proof (rule bury_inv)
    fix r1 j assume r1: "r1 \<in> set (sessions db1)" "j \<in> ?ids" "s_parent r1 = Some j"
    obtain r0 where "r0 \<in> set (sessions db)" "s_parent r0 = Some j" "s_id r0 = s_id r1"
      using list_all2_old [OF scr [unfolded rowwise_def] r1(1)] r1(3) by auto
    then show "s_id r1 \<in> ?ids"
      using r1(2) reaches_step [of "\<lambda>_. True" "sessions db" sid j r0] unfolding subtree_rows_ids [OF d(1)] by simp
  qed (use that in \<open>simp add: sessions_inv_def\<close>)
  moreover have "\<exists>r'. session (delete_rows rows now db1) i = Some r' \<and> session_advances r r'" if "session db1 i = Some r" for i r
    using that by (simp add: session_delete_rows bury_advances)
  ultimately have "sessions_forward db1 (delete_rows rows now db1)" by (auto simp: sessions_forward_def)
  with one show ?thesis
    unfolding d(4) using refresh_ancestors_advance advance_forward sessions_forward_trans by blast
qed

section \<open>Properties\<close>

lemma session_shown: "rowwise shown_only db db' \<Longrightarrow> map_option s_lifecycle (session db' i) = map_option s_lifecycle (session db i)"
proof -
  assume "rowwise shown_only db db'"
  then have "rel_option shown_only (session db i) (session db' i)"
    unfolding rowwise_def session_def by (rule list_all2_find_row) (auto simp: shown_only_def)
  then show ?thesis by (cases rule: option.rel_cases) (auto simp: shown_only_def)
qed

lemma delete_session_tables:
  assumes "delete_session sid now db = Inr (db', x)"
  shows "(\<forall>i. map_option s_lifecycle (session db' i) =
        map_option (\<lambda>r. if reaches (\<lambda>_. True) (sessions db) sid i then Deleted else s_lifecycle r) (session db i))
    \<and> inputs db' = filter (\<lambda>i. \<not> reaches (\<lambda>_. True) (sessions db) sid (i_session i)) (inputs db)
    \<and> list_all2 (message_after {i. reaches (\<lambda>_. True) (sessions db) sid i}) (messages db) (messages db')
    \<and> list_all2 (task_after {i. reaches (\<lambda>_. True) (sessions db) sid i}) (tasks db) (tasks db')"
proof -
  from delete_sessionD [OF assms] obtain rows db1 r where d: "get_session_subtree db sid = Inr rows" "session db sid = Some r"
    "mark_scratch_deleting r db = Inr db1" "db' = refresh_ancestors sid now (delete_rows rows now db1)" by blast
  note ids = subtree_rows_ids [OF d(1)] and fr = mark_scratch_frame [OF d(3)]
  have "map_option s_lifecycle (session db' i) =
        map_option (\<lambda>r. if i \<in> s_id ` set rows then Deleted else s_lifecycle r) (session db i)" for i
  proof -
    have "session db1 i = session db i \<or> (\<exists>j. session db1 i = map_option (\<lambda>r. r\<lparr>s_scratch := j\<rparr>) (session db i))"
      using mark_scratchD [OF d(3)] by (elim disjE exE) (simp, cases "i = s_id r", simp_all add: session_upd_session, blast)
    moreover have "s_id x = i" if "session db i = Some x" for x using that by (rule session_id)
    ultimately show ?thesis
      unfolding d(4) session_shown [OF refresh_ancestors_shown] session_delete_rows
      by (cases "session db i") (auto simp: bury_lifecycle)
  qed
  then show ?thesis
    unfolding d(4) using fr ids delete_rows_messages [of rows db1 now] delete_rows_tasks [of rows db1 now]
    by (simp add: delete_rows_inputs d(4))
qed

text \<open>
  C5: Deleting a session tombstones exactly the sessions of its subtree, drops exactly their
  pending inputs, rejects exactly the open messages sent to them and the unqueued ones sent by
  them, fails exactly their open tasks, and leaves every other session's lifecycle, input,
  message and task as it was.
\<close>

theorem delete_session_effect:
  assumes "delete_session sid now db = Inr (db', x)"
  shows "(\<forall>i. map_option s_lifecycle (session db' i) =
        map_option (\<lambda>r. if reaches (\<lambda>_. True) (sessions db) sid i then Deleted else s_lifecycle r) (session db i))
    \<and> inputs db' = filter (\<lambda>i. \<not> reaches (\<lambda>_. True) (sessions db) sid (i_session i)) (inputs db)
    \<and> list_all2 (message_after {i. reaches (\<lambda>_. True) (sessions db) sid i}) (messages db) (messages db')
    \<and> list_all2 (task_after {i. reaches (\<lambda>_. True) (sessions db) sid i}) (tasks db) (tasks db')"
  using assms by (rule delete_session_tables)

lemma delete_session_effect_witness:
  "\<exists>db' x. delete_session ''r'' 9 demo_family = Inr (db', x) \<and> map_option s_lifecycle (session db' ''r'') = Some Deleted
     \<and> map_option s_lifecycle (session db' ''c'') = Some Deleted \<and> list_all2 (task_after {i. reaches (\<lambda>_. True) (sessions demo_family) ''r'' i}) (tasks demo_family) (tasks db')"
proof -
  have "ok (delete_session ''r'' 9 demo_family)" by code_simp
  then obtain db' x where d: "delete_session ''r'' 9 demo_family = Inr (db', x)"
    by (cases "delete_session ''r'' 9 demo_family") auto
  have "''c'' \<in> set (subtree_ids (sessions demo_family) ''r'')" by code_simp
  then have c: "reaches (\<lambda>_. True) (sessions demo_family) ''r'' ''c''" by (simp add: set_subtree_ids)
  have "session demo_family ''r'' \<noteq> None" "session demo_family ''c'' \<noteq> None" by code_simp+
  moreover have "map_option s_lifecycle (session db' i) = Some Deleted"
    if "reaches (\<lambda>_. True) (sessions demo_family) ''r'' i" "session demo_family i \<noteq> None" for i
    using conjunct1 [OF delete_session_effect [OF d], THEN spec, of i] that by (cases "session demo_family i") simp_all
  ultimately show ?thesis using delete_session_effect [OF d] d c reaches_self by blast
qed

end
