(* ===== verification/Ledger.thy ===== *)
theory Ledger
  imports Deletion
begin

text \<open>
  Smaller tables of src/store.mjs: child tasks and their creation-history entries, skill
  grants that a child may only narrow, usage entries recorded once per session and entry,
  context usage, session names, selection of sessions, and the consistency diagnosis.
\<close>

section \<open>Child tasks\<close>

definition task :: "store \<Rightarrow> string \<Rightarrow> task_row option" where
  "task db i = find_row t_id (tasks db) i"

definition next_queued_child_task :: "store \<Rightarrow> string \<Rightarrow> task_row option" where
  "next_queued_child_task db child = (case sort_key (\<lambda>t. (t_created_at t, t_id t))
      (filter (\<lambda>t. t_child_id t = child \<and> t_state t = TQueued) (tasks db)) of [] \<Rightarrow> None | t # _ \<Rightarrow> Some t)"

text \<open>SQLite orders NULL before every integer.\<close>

definition submitted_child_task :: "store \<Rightarrow> string \<Rightarrow> task_row option" where
  "submitted_child_task db child = (case sort_key (\<lambda>t. (null_first (t_submitted_at t), t_id t))
      (filter (\<lambda>t. t_child_id t = child \<and> t_state t = TSubmitted) (tasks db)) of [] \<Rightarrow> None | t # _ \<Rightarrow> Some t)"

definition mark_child_task_submitted :: "string \<Rightarrow> int \<Rightarrow> store \<Rightarrow> task_row option op_result" where
  "mark_child_task_submitted i now db = (case task db i of
      None \<Rightarrow> Inl (Thrown ''child task is not queued'')
    | Some t \<Rightarrow> if t_state t \<noteq> TQueued then Inl (Thrown ''child task is not queued'')
        else (let db' = tasks_update (modify_row t_id i (\<lambda>t. t\<lparr>t_state := TSubmitted, t_submitted_at := Some now\<rparr>)) db
              in Inr (db', task db' i)))"

definition complete_submitted_child_task :: "string \<Rightarrow> string option \<Rightarrow> int \<Rightarrow> store \<Rightarrow> store \<times> task_row option" where
  "complete_submitted_child_task child err now db = (case submitted_child_task db child of
      None \<Rightarrow> (db, None)
    | Some t \<Rightarrow> (let db' = tasks_update (modify_row t_id (t_id t) (\<lambda>t. t\<lparr>
          t_state := (if falsy err then TCompleted else TFailed), t_completed_at := Some now, t_error := err\<rparr>)) db
        in (db', task db' (t_id t))))"

definition list_pending_child_creation_history :: "store \<Rightarrow> string \<Rightarrow> nat \<Rightarrow> task_row list" where
  "list_pending_child_creation_history db parent limit = take limit (sort_key (\<lambda>t. (t_created_at t, t_id t))
     (filter (\<lambda>t. (case session db (t_child_id t) of Some c \<Rightarrow> s_parent c = Some parent | None \<Rightarrow> False)
        \<and> t_entry_id t = None) (tasks db)))"

text \<open>\<open>recordChildCreationEntry\<close>, with the unique index on the history entry.\<close>

definition record_child_creation_entry ::
  "string \<Rightarrow> string \<Rightarrow> string \<Rightarrow> string \<Rightarrow> relationship \<Rightarrow> string \<Rightarrow> string option \<Rightarrow> store \<Rightarrow> (task_row option \<times> bool) op_result" where
  "record_child_creation_entry parent tid child name rel entry body db = (case task db tid of
      None \<Rightarrow> Inl (Thrown ''child creation task does not belong to this parent'')
    | Some t \<Rightarrow> (case session db (t_child_id t) of
        None \<Rightarrow> Inl (Thrown ''child creation task does not belong to this parent'')
      | Some c \<Rightarrow>
          if t_child_id t \<noteq> child \<or> s_parent c \<noteq> Some parent \<or> s_kind c \<noteq> Child
          then Inl (Thrown ''child creation task does not belong to this parent'')
          else if t_prompt t \<noteq> body \<or> t_peer_name t \<noteq> name \<or> rel \<noteq> RelChild
          then Inl (Thrown ''child creation history entry does not match its durable task'')
          else if \<not> falsy (t_entry_id t) \<and> t_entry_id t \<noteq> Some entry
          then Inl (Thrown ''child creation already has a different transcript entry'')
          else if \<not> falsy (t_entry_id t) then Inr (db, (Some t, False))
          else if t_entry_id t \<noteq> None then Inr (db, (Some t, True))
          else if \<exists>x \<in> set (tasks db). t_entry_id x = Some entry then Inl (UniqueViolation ''child_tasks'')
          else (let db' = tasks_update (modify_row t_id tid (\<lambda>t. t\<lparr>t_entry_id := Some entry\<rparr>)) db
                in Inr (db', (task db' tid, True)))))"

section \<open>Skill grants\<close>

definition grant :: "store \<Rightarrow> string \<Rightarrow> skill list option" where
  "grant db sid = map_option g_skills (find_row g_session (grants db) sid)"

definition skill_allowed :: "skill list \<Rightarrow> skill \<Rightarrow> bool" where
  "skill_allowed allowed k = (case map_of (rev (map (\<lambda>x. (k_id x, x)) allowed)) (k_id k) of
      Some e \<Rightarrow> k_version e = k_version k \<and> k_hash e = k_hash k \<and> k_path e = k_path k \<and> k_python e = k_python k
    | None \<Rightarrow> False)"

definition put_grant :: "string \<Rightarrow> skill list \<Rightarrow> int \<Rightarrow> store \<Rightarrow> store" where
  "put_grant sid skills now db =
     (if find_row g_session (grants db) sid = None
      then grants_update (add_row \<lparr>g_session = sid, g_skills = skills, g_updated_at = now\<rparr>) db
      else grants_update (modify_row g_session sid (\<lambda>g. g\<lparr>g_skills := skills, g_updated_at := now\<rparr>)) db)"

definition set_session_skill_grant :: "string \<Rightarrow> skill list \<Rightarrow> int \<Rightarrow> store \<Rightarrow> skill list op_result" where
  "set_session_skill_grant sid skills now db = (case session db sid of
      None \<Rightarrow> Inl (Thrown ''session does not exist'')
    | Some r \<Rightarrow>
        if s_lifecycle r = Deleted then Inl (Thrown ''session does not exist'')
        else if length skills > 128 then Inl (Thrown ''skill grant must contain at most 128 skills'')
        else if s_kind r = Root then Inr (put_grant sid skills now db, skills)
        else (case (case s_parent r of Some p \<Rightarrow> grant db p | None \<Rightarrow> None) of
            None \<Rightarrow> Inl (Thrown ''immediate parent skill grant is unavailable'')
          | Some allowed \<Rightarrow> (case find (\<lambda>k. \<not> skill_allowed allowed k) skills of
              Some k \<Rightarrow> Inl (Thrown (''child skill grant exceeds or differs from immediate parent: '' @ k_id k))
            | None \<Rightarrow> Inr (put_grant sid skills now db, skills))))"

section \<open>Usage\<close>

text \<open>\<open>recordUsage\<close> is \<open>INSERT OR IGNORE\<close> on (session, entry).\<close>

definition record_usage :: "usage_row \<Rightarrow> store \<Rightarrow> bool op_result" where
  "record_usage u db =
     (if session db (u_session u) = None then Inl (Thrown ''session does not exist'')
      else if (\<exists>x \<in> set (usage db). u_session x = u_session u \<and> u_entry x = u_entry u) \<or> u_cost u < 0
      then Inr (db, False)
      else Inr (usage_update (add_row u) db, True))"

record usage_totals =
  ut_entries :: nat
  ut_input :: nat
  ut_output :: nat
  ut_cache_read :: nat
  ut_cache_write :: nat
  ut_reasoning :: nat
  ut_total :: nat
  ut_cost :: rat

definition zero_totals :: usage_totals where
  "zero_totals = \<lparr>ut_entries = 0, ut_input = 0, ut_output = 0, ut_cache_read = 0, ut_cache_write = 0,
     ut_reasoning = 0, ut_total = 0, ut_cost = 0\<rparr>"

definition count_of :: "nat option \<Rightarrow> nat" where
  "count_of x = (case x of None \<Rightarrow> 0 | Some n \<Rightarrow> n)"

text \<open>\<open>#addUsage\<close> updates the cached totals; \<open>#loadUsageSummary\<close> recomputes them from the table.\<close>

definition add_usage :: "usage_row \<Rightarrow> usage_totals \<Rightarrow> usage_totals" where
  "add_usage u s = \<lparr>ut_entries = ut_entries s + 1, ut_input = ut_input s + u_input u,
     ut_output = ut_output s + u_output u, ut_cache_read = ut_cache_read s + u_cache_read u,
     ut_cache_write = ut_cache_write s + u_cache_write u, ut_reasoning = ut_reasoning s + count_of (u_reasoning u),
     ut_total = ut_total s + u_total u, ut_cost = ut_cost s + u_cost u\<rparr>"

definition load_usage_summary :: "usage_row list \<Rightarrow> usage_totals" where
  "load_usage_summary t = \<lparr>ut_entries = length t, ut_input = sum_list (map u_input t),
     ut_output = sum_list (map u_output t), ut_cache_read = sum_list (map u_cache_read t),
     ut_cache_write = sum_list (map u_cache_write t), ut_reasoning = sum_list (map (count_of \<circ> u_reasoning) t),
     ut_total = sum_list (map u_total t), ut_cost = sum_list (map u_cost t)\<rparr>"

definition cached_usage_after :: "usage_row \<Rightarrow> store \<Rightarrow> usage_totals \<Rightarrow> usage_totals" where
  "cached_usage_after u db cache = (case record_usage u db of
      Inr (_, True) \<Rightarrow> add_usage u cache
    | _ \<Rightarrow> cache)"

definition record_context_usage :: "context_row \<Rightarrow> store \<Rightarrow> unit op_result" where
  "record_context_usage c db =
     (if session db (c_session c) = None then Inl (Thrown ''session does not exist'')
      else if c_window c = 0 \<or> (case c_percent c of Some p \<Rightarrow> p < 0 \<or> p > 10000 | None \<Rightarrow> False)
      then Inl (CheckViolation ''session_context_usage'')
      else Inr (if find_row c_session (contexts db) (c_session c) = None
        then contexts_update (add_row c) db
        else contexts_update (modify_row c_session (c_session c) (\<lambda>_. c)) db, ()))"

section \<open>Names and selection\<close>

definition set_session_name :: "(string \<Rightarrow> string) \<Rightarrow> string \<Rightarrow> string option \<Rightarrow> int \<Rightarrow> store \<Rightarrow> session_row option op_result" where
  "set_session_name sha sid name now db = (case session db sid of
      None \<Rightarrow> Inl (Thrown ''session does not exist'')
    | Some r \<Rightarrow>
        if s_lifecycle r = Deleted then Inl (Thrown ''session does not exist'')
        else (let n = trimmed_or name (if s_kind r = Root then default_root_name sha (s_cwd r) (s_id r) else s_display_name r);
                  f = (\<lambda>r. r\<lparr>s_display_name := n, s_updated_at := now\<rparr>)
              in if s_kind r = Child \<and> n \<noteq> s_display_name r then Inl (Thrown ''child names are immutable after admission'')
                 else if \<exists>x \<in> set (sessions db). s_id x \<noteq> sid \<and> name_clash x (f r) then Inl (UniqueViolation ''sessions'')
                 else let db' = upd_session sid f db in Inr (db', session db' sid)))"

definition resolve_session :: "store \<Rightarrow> string \<Rightarrow> session_row result" where
  "resolve_session db selector = (case sort_key (\<lambda>r. (s_created_at r, s_id r)) (filter (\<lambda>r. live r
        \<and> (s_id r = selector \<or> s_short_id r = selector \<or> s_display_name r = selector)) (sessions db)) of
      [] \<Rightarrow> Inl (Thrown (''session not found: '' @ selector))
    | [r] \<Rightarrow> Inr r
    | _ \<Rightarrow> Inl (Thrown (''session selector is ambiguous: '' @ selector)))"

definition list_sessions :: "store \<Rightarrow> session_row list" where
  "list_sessions db = sort_key (\<lambda>r. (s_created_at r, s_id r)) (filter live (sessions db))"

definition child_rows :: "store \<Rightarrow> string \<Rightarrow> session_row list" where
  "child_rows db parent = filter (\<lambda>r. s_parent r = Some parent \<and> live r \<and> s_id r \<in> set (children db)) (sessions db)"

definition list_children :: "store \<Rightarrow> string \<Rightarrow> session_row list" where
  "list_children db parent = sort_key (\<lambda>r. (s_created_at r, s_id r)) (child_rows db parent)"

definition resolve_direct_child :: "store \<Rightarrow> string \<Rightarrow> string \<Rightarrow> session_row result" where
  "resolve_direct_child db parent selector = (case find (\<lambda>r. s_id r = selector \<or> s_short_id r = selector) (child_rows db parent) of
      Some r \<Rightarrow> Inr r
    | None \<Rightarrow> (case filter (\<lambda>r. s_display_name r = selector) (child_rows db parent) of
        [] \<Rightarrow> Inl (Thrown (''no direct child matches: '' @ selector))
      | [r] \<Rightarrow> Inr r
      | _ \<Rightarrow> Inl (Thrown (''child selector is ambiguous: '' @ selector))))"

definition delete_child :: "string \<Rightarrow> string \<Rightarrow> int \<Rightarrow> store \<Rightarrow> session_row option op_result" where
  "delete_child parent selector now db = (case resolve_direct_child db parent selector of
      Inl e \<Rightarrow> Inl e
    | Inr r \<Rightarrow> delete_session (s_id r) now db)"

definition has_pending_session_work :: "store \<Rightarrow> string \<Rightarrow> bool" where
  "has_pending_session_work db sid \<longleftrightarrow> (\<exists>i \<in> set (inputs db). i_session i = sid)
     \<or> (\<exists>t \<in> set (tasks db). t_child_id t = sid \<and> t_state t \<in> {TQueued, TSubmitted})
     \<or> (\<exists>m \<in> set (messages db). m_target m = sid \<and> m_state m \<in> {MQueued, MDelivered})"

text \<open>\<open>findIdleResidentActor\<close>: the resident that has been idle longest and has no work.\<close>

definition find_idle_resident_actor :: "store \<Rightarrow> string option \<Rightarrow> skind option \<Rightarrow> string list \<Rightarrow> session_row option" where
  "find_idle_resident_actor db exclude kind excludes =
     (case sort_key (\<lambda>r. (null_first (s_quiet_since r), s_created_at r, s_id r)) (filter (\<lambda>r. s_lifecycle r = Resident
         \<and> \<not> s_streaming r \<and> s_quiet_since r \<noteq> None \<and> s_id r \<noteq> (case exclude of Some e \<Rightarrow> e | None \<Rightarrow> [])
         \<and> (kind = None \<or> kind = Some (s_kind r)) \<and> s_id r \<notin> set excludes
         \<and> \<not> has_pending_session_work db (s_id r)) (sessions db)) of
       [] \<Rightarrow> None | r # _ \<Rightarrow> Some r)"

section \<open>The roster\<close>

text \<open>The live sessions of the caller's family that are related to it; the roster itself is in theory \<open>Listing\<close>.\<close>

definition roster_members :: "store \<Rightarrow> session_row \<Rightarrow> session_row list" where
  "roster_members db caller = filter (\<lambda>r. live r \<and> s_family_id r = s_family_id caller
     \<and> relationship_between caller r \<noteq> None) (sessions db)"

section \<open>Diagnosis\<close>

datatype issue =
    MissingSessionFile string | ResidentWithoutPid string | MissingActorToken string
  | MessageTargetsDeleted string string | MessageAwaitsDeleted string string | TaskTargetsDeleted string string

definition is_deleted :: "store \<Rightarrow> string \<Rightarrow> bool" where
  "is_deleted db sid \<longleftrightarrow> (case session db sid of Some r \<Rightarrow> s_lifecycle r = Deleted | None \<Rightarrow> False)"

text \<open>The foreign keys hold by construction of the tables, so \<open>foreign_key_check\<close> reports nothing.\<close>

definition diagnose :: "store \<Rightarrow> issue list" where
  "diagnose db = take 256 (
     concat (map (\<lambda>r. (if falsy (s_session_file r) then [MissingSessionFile (s_id r)] else [])
        @ (if s_lifecycle r = Resident \<and> s_pid r = None then [ResidentWithoutPid (s_id r)] else [])
        @ (if s_actor_token r = [] then [MissingActorToken (s_id r)] else [])) (filter live (sessions db)))
     @ take 256 (map (\<lambda>m. MessageTargetsDeleted (m_id m) (m_target m))
          (filter (\<lambda>m. is_deleted db (m_target m) \<and> m_state m \<in> set pending_states) (messages db)))
     @ take 256 (map (\<lambda>m. MessageAwaitsDeleted (m_id m) (m_sender m))
          (filter (\<lambda>m. is_deleted db (m_sender m) \<and> m_state m = MAccepted) (messages db)))
     @ take 256 (map (\<lambda>t. TaskTargetsDeleted (t_id t) (t_child_id t))
          (filter (\<lambda>t. is_deleted db (t_child_id t) \<and> t_state t \<in> {TQueued, TSubmitted}) (tasks db))))"

section \<open>Tasks only move forward\<close>

inductive task_move :: "task_state \<Rightarrow> task_state \<Rightarrow> bool" where
  tm_submit: "task_move TQueued TSubmitted"
| tm_complete: "task_move TSubmitted TCompleted"
| tm_fail: "task_move TSubmitted TFailed"
| tm_drop: "task_move TQueued TFailed"

inductive_simps task_move_from [simp]: "task_move TQueued s" "task_move TSubmitted s" "task_move TCompleted s" "task_move TFailed s"

lemma task_moves [simp]: "task_move a b \<Longrightarrow> task_move\<^sup>*\<^sup>* a b"
  by (rule r_into_rtranclp)

definition task_advances :: "task_row \<Rightarrow> task_row \<Rightarrow> bool" where
  "task_advances t t' \<longleftrightarrow> task_move\<^sup>*\<^sup>* (t_state t) (t_state t') \<and> t_id t' = t_id t \<and> t_child_id t' = t_child_id t
     \<and> t_prompt t' = t_prompt t \<and> (t_entry_id t \<noteq> None \<longrightarrow> t_entry_id t' = t_entry_id t)"

definition tasks_inv :: "store \<Rightarrow> bool" where
  "tasks_inv db \<longleftrightarrow> unique_key t_id (tasks db)"

definition tasks_advance :: "store \<Rightarrow> store \<Rightarrow> bool" where
  "tasks_advance db db' \<longleftrightarrow> (tasks_inv db \<longrightarrow> tasks_inv db')
     \<and> (\<forall>i t. task db i = Some t \<longrightarrow> (\<exists>t'. task db' i = Some t' \<and> task_advances t t'))"

lemma task_advances_refl [simp]: "task_advances t t"
  by (simp add: task_advances_def)

lemma task_advances_trans: "task_advances a b \<Longrightarrow> task_advances b c \<Longrightarrow> task_advances a c"
  unfolding task_advances_def by (metis rtranclp_trans)

lemma tasks_advance_frame: "tasks db' = tasks db \<Longrightarrow> tasks_advance db db'"
  by (simp add: tasks_advance_def tasks_inv_def task_def)

lemma tasks_advance_same [simp]: "tasks_advance db db"
  by (simp add: tasks_advance_frame)

lemma tasks_advance_trans: "tasks_advance a b \<Longrightarrow> tasks_advance b c \<Longrightarrow> tasks_advance a c"
  unfolding tasks_advance_def by (meson task_advances_trans)

lemma tasks_advance_modify:
  assumes "task db i = Some t" and "\<And>t. t_id (f t) = t_id t" and "task_advances t (f t)"
  shows "tasks_advance db (tasks_update (modify_row t_id i f) db)"
  using assms by (auto simp: tasks_advance_def tasks_inv_def task_def unique_key_modify_row task_tbl.lookup_modify)

lemma tasks_advance_where:
  assumes "\<And>t. t_id (f t) = t_id t" and "\<And>t. p t \<Longrightarrow> task_advances t (f t)"
  shows "tasks_advance db (tasks_update (update_where p f) db)"
  using assms by (auto simp: tasks_advance_def tasks_inv_def task_def unique_key_update_where find_row_update)

lemma tasks_advance_insert:
  assumes "task db (t_id t) = None"
  shows "tasks_advance db (tasks_update (add_row t) db)"
  using assms by (auto simp: tasks_advance_def tasks_inv_def task_def unique_key_add_row task_tbl.lookup_insert)

lemma submit_task_advance: "mark_child_task_submitted i now db = Inr (db', x) \<Longrightarrow> tasks_advance db db'"
  by (auto simp: mark_child_task_submitted_def Let_def task_advances_def split: option.splits if_splits intro!: tasks_advance_modify)

lemma submitted_child_taskD: "submitted_child_task db child = Some t \<Longrightarrow> t \<in> set (tasks db) \<and> t_child_id t = child \<and> t_state t = TSubmitted"
  unfolding submitted_child_task_def by (drule first_sorted_mem) simp

lemma complete_task_advance:
  assumes "tasks_inv db"
  shows "tasks_advance db (fst (complete_submitted_child_task child err now db))"
proof (cases "submitted_child_task db child")
  case None
  then show ?thesis by (simp add: complete_submitted_child_task_def tasks_advance_frame)
next
  case (Some t)
  then have t: "t \<in> set (tasks db)" "t_state t = TSubmitted" by (auto dest: submitted_child_taskD)
  with assms have "task db (t_id t) = Some t" by (simp add: task_def tasks_inv_def find_row_unique)
  from tasks_advance_modify [OF this] Some t show ?thesis
    by (simp add: complete_submitted_child_task_def Let_def task_advances_def)
qed

lemma creation_entry_advance: "record_child_creation_entry parent tid child name rel entry body db = Inr (db', x) \<Longrightarrow> tasks_advance db db'"
  by (auto simp: record_child_creation_entry_def Let_def task_advances_def split: option.splits if_splits
      intro!: tasks_advance_modify)

lemma insert_session_frame: "insert_session r db = Inr db1 \<Longrightarrow> tasks db1 = tasks db \<and> messages db1 = messages db
    \<and> inputs db1 = inputs db \<and> receipts db1 = receipts db"
  by (auto simp: insert_session_def split: if_splits)

lemma create_child_tasks:
  assumes "create_child sha parent sid file policy token tid now db = Inr (db', x)"
  shows "tasks_advance db db'"
proof -
  obtain r db1 t where c: "insert_session r db = Inr db1" "find_row t_id (tasks db) tid = None" "t_id t = tid"
    "db' = db1\<lparr>children := children db1 @ [sid], tasks := add_row t (tasks db1)\<rparr>"
    using create_childD [OF assms] child_row_fields(3) by blast
  then have "tasks_advance (tasks_update (add_row t) db) db'" by (simp add: tasks_advance_frame insert_session_frame)
  moreover have "task db (t_id t) = None" using c by (simp add: task_def)
  ultimately show ?thesis using tasks_advance_insert tasks_advance_trans by blast
qed

lemma terminalize_tasks: "tasks_advance db (terminalize_work gone now db)"
proof -
  have "tasks_advance db (tasks_update (update_where (\<lambda>t. gone (t_child_id t) \<and> t_state t \<in> {TQueued, TSubmitted})
       (fail_task ''child session was deleted before its task completed'' now)) db)"
    by (rule tasks_advance_where) (auto simp: fail_task_def task_advances_def)
  then show ?thesis by (rule tasks_advance_trans) (simp add: tasks_advance_frame terminalize_work_def)
qed

lemma reconcile_tasks: "tasks_advance db (fst (reconcile_after_daemon_start uuid now db))"
proof -
  let ?f = "\<lambda>t. t\<lparr>t_state := TFailed, t_completed_at := Some now,
                  t_error := Some ''daemon restarted during submitted work; completion is unknown''\<rparr>"
  obtain ss gone where r: "fst (reconcile_after_daemon_start uuid now db)
      = terminalize_work gone now (tasks_update (update_where (\<lambda>t. t_state t = TSubmitted) ?f) (sessions_update ss db))"
    unfolding reconcile_after_daemon_start_def Let_def terminalize_deleted_session_work_def fst_conv by blast
  have "tasks_advance db (sessions_update ss db)" by (rule tasks_advance_frame) simp
  also have "tasks_advance (sessions_update ss db) (tasks_update (update_where (\<lambda>t. t_state t = TSubmitted) ?f) (sessions_update ss db))"
    by (rule tasks_advance_where) (auto simp: task_advances_def)
  finally (tasks_advance_trans) show ?thesis unfolding r by (rule tasks_advance_trans) (rule terminalize_tasks)
qed

lemma delete_session_tasks:
  assumes "delete_session sid now db = Inr (db', x)"
  shows "tasks_advance db db'"
proof -
  from delete_sessionD [OF assms] obtain rows db1 r where d: "mark_scratch_deleting r db = Inr db1"
    "db' = refresh_ancestors sid now (delete_rows rows now db1)" by blast
  have "tasks_advance db (delete_one now sid db)" for sid db
    using terminalize_tasks [of "inputs_update (filter (\<lambda>i. i_session i \<noteq> sid)) db" "\<lambda>i. i = sid" now]
    by (simp add: tasks_advance_def tasks_inv_def task_def delete_one_def terminalize_session_work_def)
  then have "tasks_advance db1 (delete_rows rows now db1)" for db1
    by (induction rows arbitrary: db1) (auto intro: tasks_advance_trans tasks_advance_frame)
  moreover have "tasks_advance db db1" using mark_scratch_frame [OF d(1)] by (simp add: tasks_advance_frame)
  moreover have "tasks_advance (delete_rows rows now db1) db'" unfolding d(2) by (rule tasks_advance_frame) simp
  ultimately show ?thesis using tasks_advance_trans by blast
qed

section \<open>The remaining operations on session rows\<close>

lemma set_name_advance: "set_session_name sha sid name now db = Inr (db', x) \<Longrightarrow> sessions_advance db db'"
  by (auto simp: set_session_name_def Let_def steady_defs split: option.splits if_splits intro!: rename_advance)

lemma update_fast_mode_advance: "update_session_fast_mode sid enabled expected now db = Inr (db', x) \<Longrightarrow> sessions_advance db db'"
  by (auto simp: update_session_fast_mode_def steady_defs split: option.splits if_splits prod.splits intro!: upd_session_steady)

lemma set_scratch_advance: "set_root_scratch sid j db = Inr (db', x) \<Longrightarrow> sessions_advance db db'"
proof -
  assume "set_root_scratch sid j db = Inr (db', x)"
  then have db': "db' = upd_session sid (\<lambda>r. r\<lparr>s_scratch := Some j\<rparr>) db"
    by (auto simp: set_root_scratch_def split: sum.splits if_splits)
  show ?thesis unfolding db' modify_row_def by (rule update_where_steady) (auto simp: steady_defs)
qed

end
