(* ===== verification/Work.thy ===== *)
theory Work
  imports Ledger
begin

text \<open>
  No open work belongs to a deleted session: the invariant that \<open>diagnose\<close> of src/store.mjs
  checks in a running daemon, and the proof that every operation keeps it.
\<close>

definition live_id :: "store \<Rightarrow> string \<Rightarrow> bool" where
  "live_id db i \<longleftrightarrow> (case session db i of Some r \<Rightarrow> live r | None \<Rightarrow> False)"

definition message_homed :: "store \<Rightarrow> message_row \<Rightarrow> bool" where
  "message_homed db m \<longleftrightarrow> (m_state m \<in> set pending_states \<longrightarrow> live_id db (m_target m))
     \<and> (m_state m = MAccepted \<longrightarrow> live_id db (m_sender m))"

definition task_homed :: "store \<Rightarrow> task_row \<Rightarrow> bool" where
  "task_homed db t \<longleftrightarrow> (t_state t \<in> {TQueued, TSubmitted} \<longrightarrow> live_id db (t_child_id t))"

definition work_inv :: "store \<Rightarrow> bool" where
  "work_inv db \<longleftrightarrow> (\<forall>m \<in> set (messages db). message_homed db m) \<and> (\<forall>t \<in> set (tasks db). task_homed db t)
     \<and> (\<forall>i \<in> set (inputs db). live_id db (i_session i))"

text \<open>Rows that come from an old row and are no more open than it was.\<close>

definition message_from :: "message_row \<Rightarrow> message_row \<Rightarrow> bool" where
  "message_from m m' \<longleftrightarrow> m_target m' = m_target m \<and> m_sender m' = m_sender m
     \<and> (m_state m' \<in> set pending_states \<longrightarrow> m_state m \<in> set pending_states) \<and> (m_state m' = MAccepted \<longrightarrow> m_state m = MAccepted)"

definition task_from :: "task_row \<Rightarrow> task_row \<Rightarrow> bool" where
  "task_from t t' \<longleftrightarrow> t_child_id t' = t_child_id t \<and> (t_state t' \<in> {TQueued, TSubmitted} \<longrightarrow> t_state t \<in> {TQueued, TSubmitted})"

definition keeps_live :: "store \<Rightarrow> store \<Rightarrow> bool" where
  "keeps_live db db' \<longleftrightarrow> (\<forall>i. live_id db i \<longrightarrow> live_id db' i)"

definition keeps_work :: "store \<Rightarrow> store \<Rightarrow> bool" where
  "keeps_work db db' \<longleftrightarrow> keeps_live db db'
     \<and> (\<forall>m' \<in> set (messages db'). (\<exists>m \<in> set (messages db). message_from m m') \<or> message_homed db' m')
     \<and> (\<forall>t' \<in> set (tasks db'). (\<exists>t \<in> set (tasks db). task_from t t') \<or> task_homed db' t')
     \<and> (\<forall>i' \<in> set (inputs db'). (\<exists>i \<in> set (inputs db). i_session i = i_session i') \<or> live_id db' (i_session i'))"

lemma message_from_homed: "message_from m m' \<Longrightarrow> message_homed db m \<Longrightarrow> keeps_live db db' \<Longrightarrow> message_homed db' m'"
  by (auto simp: message_from_def message_homed_def keeps_live_def)

lemma task_from_homed: "task_from t t' \<Longrightarrow> task_homed db t \<Longrightarrow> keeps_live db db' \<Longrightarrow> task_homed db' t'"
  by (auto simp: task_from_def task_homed_def keeps_live_def)

lemma keeps_work_inv:
  assumes k: "keeps_work db db'" and w: "work_inv db"
  shows "work_inv db'"
proof -
  from k have live: "keeps_live db db'" by (simp add: keeps_work_def)
  have "message_homed db' m'" if "m' \<in> set (messages db')" for m'
    using that k w message_from_homed [OF _ _ live] unfolding keeps_work_def work_inv_def by blast
  moreover have "task_homed db' t'" if "t' \<in> set (tasks db')" for t'
    using that k w task_from_homed [OF _ _ live] unfolding keeps_work_def work_inv_def by blast
  moreover have "live_id db' (i_session i')" if i': "i' \<in> set (inputs db')" for i'
  proof -
    consider i where "i \<in> set (inputs db)" "i_session i = i_session i'" | "live_id db' (i_session i')"
      using i' k unfolding keeps_work_def by blast
    then show ?thesis using w live unfolding work_inv_def keeps_live_def by cases (metis, assumption)
  qed
  ultimately show ?thesis by (simp add: work_inv_def)
qed

lemma message_from_refl [simp]: "message_from m m"
  by (simp add: message_from_def)

lemma task_from_refl [simp]: "task_from t t"
  by (simp add: task_from_def)

lemma advance_keeps_live: "sessions_advance db db' \<Longrightarrow> keeps_live db db'"
  unfolding keeps_live_def live_id_def
proof (intro allI impI)
  fix i assume "sessions_advance db db'" "case session db i of Some r \<Rightarrow> live r | None \<Rightarrow> False"
  moreover from this(2) obtain r where "session db i = Some r" "live r" by (auto split: option.splits)
  ultimately obtain r' where "session db' i = Some r'" "live r' = live r" unfolding sessions_advance_def by blast
  with \<open>live r\<close> show "case session db' i of Some r \<Rightarrow> live r | None \<Rightarrow> False" by simp
qed

lemma available_live: "assert_session_available db i = None \<Longrightarrow> live_id db i"
  by (auto simp: assert_session_available_def live_id_def live_def split: if_splits option.splits)

text \<open>Which tables an operation leaves alone decides what is left to prove.\<close>

lemma keeps_work_sessions:
  "sessions_advance db db' \<Longrightarrow> messages db' = messages db \<Longrightarrow> tasks db' = tasks db \<Longrightarrow> inputs db' = inputs db \<Longrightarrow> keeps_work db db'"
  by (auto simp: keeps_work_def intro: advance_keeps_live message_from_refl task_from_refl)

lemma keeps_work_messages:
  assumes "sessions db' = sessions db" "tasks db' = tasks db" "inputs db' = inputs db"
    and "\<And>m'. m' \<in> set (messages db') \<Longrightarrow> (\<exists>m \<in> set (messages db). message_from m m') \<or> message_homed db m'"
  shows "keeps_work db db'"
proof -
  have "live_id db' = live_id db" using assms(1) by (simp add: live_id_def session_def fun_eq_iff)
  then have "message_homed db' = message_homed db" by (simp add: message_homed_def fun_eq_iff)
  with assms \<open>live_id db' = live_id db\<close> show ?thesis by (auto simp: keeps_work_def keeps_live_def intro: task_from_refl)
qed

lemma keeps_work_tasks:
  assumes "sessions db' = sessions db" "messages db' = messages db" "inputs db' = inputs db"
    and "\<And>t'. t' \<in> set (tasks db') \<Longrightarrow> \<exists>t \<in> set (tasks db). task_from t t'"
  shows "keeps_work db db'"
proof -
  have "live_id db' = live_id db" using assms(1) by (simp add: live_id_def session_def fun_eq_iff)
  with assms show ?thesis by (auto simp: keeps_work_def keeps_live_def intro: message_from_refl)
qed

lemma keeps_work_inputs:
  assumes "sessions_advance db db'" "messages db' = messages db" "tasks db' = tasks db"
    and "\<And>i'. i' \<in> set (inputs db') \<Longrightarrow> (\<exists>i \<in> set (inputs db). i_session i = i_session i') \<or> live_id db (i_session i')"
  shows "keeps_work db db'"
  unfolding keeps_work_def
  using assms(2-4) advance_keeps_live [OF assms(1)] unfolding keeps_live_def
  by (intro conjI) (blast intro: message_from_refl task_from_refl | simp)+

section \<open>Messages\<close>

lemma upd_message_rows:
  assumes "messages_inv db" "message db i = Some m" "m' \<in> set (messages (upd_message i f db))"
  shows "m' = f m \<or> m' \<in> set (messages db)"
proof -
  have "x = m" if "x \<in> set (messages db)" "m_id x = i" for x
    using that assms(1,2) find_row_unique [of m_id "messages db" x] by (simp add: messages_inv_def message_def)
  then show ?thesis using assms(3) by (auto simp: modify_row_def set_update_where)
qed

lemma upd_message_work:
  assumes "messages_inv db" "message db i = Some m" "message_from m (f m)"
  shows "keeps_work db (upd_message i f db)"
proof (rule keeps_work_messages)
  have "m \<in> set (messages db)" using assms(2) by (auto simp: message_def dest: find_row_SomeD)
  then show "(\<exists>x \<in> set (messages db). message_from x m') \<or> message_homed db m'" if "m' \<in> set (messages (upd_message i f db))" for m'
    using upd_message_rows [OF assms(1,2) that] assms(3) message_from_refl by blast
qed simp_all

lemma keeps_work_same [simp]: "keeps_work db db"
  by (rule keeps_work_sessions) auto

lemmas message_step = message_from_def pending_states_def

lemma new_message_work: "message_homed db m \<Longrightarrow> keeps_work db (messages_update (add_row m) db)"
  by (rule keeps_work_messages) (simp_all, metis message_from_refl)

lemma create_message_work: "create_message sender p limit uuid now db = Inr (db', m) \<Longrightarrow> keeps_work db db'"
  by (drule create_messageD) (auto simp: message_homed_def new_message_def available_live intro!: new_message_work)

lemma record_entry_work:
  "messages_inv db \<Longrightarrow> record_message_sender_entry sender mid entry peer rel body now db = Inr (db', x) \<Longrightarrow> keeps_work db db'"
  by (auto simp: record_message_sender_entry_def Let_def message_step split: if_splits option.splits intro!: upd_message_work)

lemma mark_delivered_work:
  "messages_inv db \<Longrightarrow> mark_message_delivered mid target now mx db = Inr (db', x) \<Longrightarrow> keeps_work db db'"
  by (auto simp: mark_message_delivered_def Let_def message_step split: if_splits option.splits intro!: upd_message_work)

lemma acknowledge_work: "messages_inv db \<Longrightarrow> acknowledge_message mid target now db = Inr (db', x) \<Longrightarrow> keeps_work db db'"
  by (auto simp: acknowledge_message_def Let_def message_step split: if_splits option.splits intro!: upd_message_work)

lemma insert_or_ignore_work: "message_homed db m \<Longrightarrow> keeps_work db (insert_or_ignore_message m db)"
  by (simp add: insert_or_ignore_message_def new_message_work)

lemma live_idI: "session db i = Some r \<Longrightarrow> s_lifecycle r \<noteq> Deleted \<Longrightarrow> live_id db i"
  by (simp add: live_id_def live_def)

lemma failure_target_session: "failure_target db r ob = Some t \<Longrightarrow> session db (s_id t) = Some t"
  by (auto simp: failure_target_def split: skind.splits option.splits if_splits dest: session_id)

lemma queue_failure_work: "keeps_work db (queue_child_failure sha ob sid g err tf now db)"
proof -
  have "keeps_work db (insert_or_ignore_message (receipt_row_of i sid (s_id t) rel body g now) db)"
    if "failure_target db r ob = Some t" "s_lifecycle t \<noteq> Deleted" for r t i rel body
    using failure_target_session [OF that(1)] that(2)
    by (intro insert_or_ignore_work) (simp add: message_homed_def receipt_row_of_def new_message_def live_idI)
  then show ?thesis by (simp add: queue_child_failure_def split: option.split)
qed

lemma home_nudge_work: "queue_home_failure_nudge sha sid g tf failed now db = Inr (db', x) \<Longrightarrow> keeps_work db db'"
  by (auto simp: queue_home_failure_nudge_def Let_def message_homed_def receipt_row_of_def new_message_def
      intro!: insert_or_ignore_work live_idI split: option.splits if_splits sum.splits)

lemma terminalize_work_work: "keeps_work db (terminalize_work gone now db)"
  unfolding keeps_work_def
proof (intro conjI ballI)
  show "keeps_live db (terminalize_work gone now db)" by (simp add: keeps_live_def live_id_def session_def)
  show "(\<exists>m \<in> set (messages db). message_from m m') \<or> message_homed (terminalize_work gone now db) m'"
    if m': "m' \<in> set (messages (terminalize_work gone now db))" for m'
  proof -
    have reject: "message_from m (reject_message why now m)" for why m by (simp add: reject_message_def message_step)
    obtain m1 where m1: "m1 \<in> set (update_where (\<lambda>m. gone (m_target m) \<and> m_state m \<in> set pending_states)
        (reject_message ''target session was deleted'' now) (messages db))" "message_from m1 m'"
      using update_where_from [OF m' [unfolded terminalize_work_def, simplified], of message_from] reject by auto
    obtain m where "m \<in> set (messages db)" "message_from m m1"
      using update_where_from [OF m1(1), of message_from] reject by auto
    with m1(2) show ?thesis by (auto simp: message_from_def)
  qed
  show "(\<exists>t \<in> set (tasks db). task_from t t') \<or> task_homed (terminalize_work gone now db) t'"
    if t': "t' \<in> set (tasks (terminalize_work gone now db))" for t'
  proof -
    have "task_from t (fail_task why now t)" for why t by (simp add: fail_task_def task_from_def)
    then show ?thesis
      using update_where_from [OF t' [unfolded terminalize_work_def, simplified], of task_from] by auto
  qed
qed auto

section \<open>Sessions, tasks and inputs\<close>

definition same_work :: "store \<Rightarrow> store \<Rightarrow> bool" where
  "same_work db db' \<longleftrightarrow> messages db' = messages db \<and> tasks db' = tasks db \<and> inputs db' = inputs db \<and> receipts db' = receipts db"

lemma same_work_keeps: "sessions_advance db db' \<Longrightarrow> same_work db db' \<Longrightarrow> keeps_work db db'"
  by (simp add: keeps_work_sessions same_work_def)

lemma same_work_advances: "same_work db db' \<Longrightarrow> messages_advance db db' \<and> inputs_advance db db' \<and> tasks_advance db db'"
  by (simp add: same_work_def messages_advance_refl inputs_advance_frame tasks_advance_frame)

lemma insert_session_same: "insert_session r db = Inr db' \<Longrightarrow> same_work db db'"
  by (simp add: same_work_def insert_session_frame)

lemma insert_root_same: "insert_root sha p now db = Inr db' \<Longrightarrow> same_work db db'"
  by (auto simp: insert_root_def split: if_splits dest: insert_session_same)

lemma create_root_same: "create_root sha p now db = Inr (db', x) \<Longrightarrow> same_work db db'"
  by (auto simp: create_root_def split: if_splits sum.splits dest: insert_root_same)

lemma admit_root_same: "admit_root sha p now db = Inr (db', x) \<Longrightarrow> same_work db db'"
  by (auto simp: admit_root_def Let_def same_work_def split: option.splits if_splits sum.splits dest!: insert_root_same)

lemma register_actor_same: "register_actor p now db = Inr (db', x) \<Longrightarrow> same_work db db'"
  by (auto simp: register_actor_def Let_def same_work_def split: option.splits if_splits)

lemma prepare_revival_same: "prepare_actor_revival sid token force err now db = Inr (db', x) \<Longrightarrow> same_work db db'"
  by (auto simp: prepare_actor_revival_def Let_def same_work_def split: option.splits if_splits)

lemma mark_started_same: "mark_actor_started sid g pid file ident now db = Inr (db', x) \<Longrightarrow> same_work db db'"
  by (auto simp: mark_actor_started_def Let_def same_work_def split: option.splits if_splits)

lemma set_activity_same: "set_actor_activity sid g st now db = Inr (db', x) \<Longrightarrow> same_work db db'"
  by (auto simp: set_actor_activity_def Let_def same_work_def split: option.splits if_splits)

lemma last_error_same: "same_work db (fst (record_session_last_error sid g err now db))"
  by (simp add: record_session_last_error_def Let_def same_work_def)

lemma set_name_same: "set_session_name sha sid name now db = Inr (db', x) \<Longrightarrow> same_work db db'"
  by (auto simp: set_session_name_def Let_def same_work_def split: option.splits if_splits)

lemma update_fast_mode_same: "update_session_fast_mode sid enabled expected now db = Inr (db', x) \<Longrightarrow> same_work db db'"
  by (auto simp: update_session_fast_mode_def same_work_def split: option.splits if_splits prod.splits)

lemma set_scratch_same: "set_root_scratch sid j db = Inr (db', x) \<Longrightarrow> same_work db db'"
  by (auto simp: set_root_scratch_def same_work_def split: sum.splits if_splits)

lemma session_activity_same: "record_session_activity sid now db = Inr (db', x) \<Longrightarrow> same_work db db'"
  by (auto simp: record_session_activity_def same_work_def Let_def split: if_splits)

lemma put_grant_same: "same_work db (put_grant sid skills now db) \<and> sessions (put_grant sid skills now db) = sessions db"
  by (simp add: put_grant_def same_work_def)

lemma set_grant_same: "set_session_skill_grant sid skills now db = Inr (db', x) \<Longrightarrow> same_work db db' \<and> sessions db' = sessions db"
  by (auto simp: set_session_skill_grant_def put_grant_same split: option.splits if_splits)

lemma record_usage_same: "record_usage u db = Inr (db', x) \<Longrightarrow> same_work db db' \<and> sessions db' = sessions db"
  by (auto simp: record_usage_def same_work_def split: if_splits)

lemma record_context_same: "record_context_usage c db = Inr (db', x) \<Longrightarrow> same_work db db' \<and> sessions db' = sessions db"
  by (auto simp: record_context_usage_def same_work_def split: if_splits)

lemma begin_deletion_same: "begin_session_deletion db sid = Inr (db', x) \<Longrightarrow> same_work db db' \<and> sessions db' = sessions db"
  by (auto simp: begin_session_deletion_def same_work_def split: sum.splits if_splits)

lemma end_deletion_same: "same_work db (end_session_deletion db rows) \<and> sessions (end_session_deletion db rows) = sessions db"
  by (simp add: end_session_deletion_def same_work_def)

lemma upd_task_work:
  assumes "tasks_inv db" "task db i = Some t" "task_from t (f t)"
  shows "keeps_work db (tasks_update (modify_row t_id i f) db)"
proof (rule keeps_work_tasks)
  fix t' assume t': "t' \<in> set (tasks (tasks_update (modify_row t_id i f) db))"
  have "x = t" if "x \<in> set (tasks db)" "t_id x = i" for x
    using that assms(1,2) find_row_unique [of t_id "tasks db" x] by (simp add: tasks_inv_def task_def)
  with t' have "t' = f t \<or> t' \<in> set (tasks db)" by (auto simp: modify_row_def set_update_where)
  moreover have "t \<in> set (tasks db)" using assms(2) by (auto simp: task_def dest: find_row_SomeD)
  ultimately show "\<exists>x \<in> set (tasks db). task_from x t'" using assms(3) task_from_refl by blast
qed simp_all

lemma submit_task_work: "tasks_inv db \<Longrightarrow> mark_child_task_submitted i now db = Inr (db', x) \<Longrightarrow> keeps_work db db'"
  by (auto simp: mark_child_task_submitted_def Let_def task_from_def split: option.splits if_splits intro!: upd_task_work)

lemma creation_entry_work: "tasks_inv db \<Longrightarrow> record_child_creation_entry parent tid child name rel entry body db = Inr (db', x) \<Longrightarrow> keeps_work db db'"
  by (auto simp: record_child_creation_entry_def Let_def task_from_def split: option.splits if_splits intro!: upd_task_work)

lemma complete_task_work:
  assumes "tasks_inv db"
  shows "keeps_work db (fst (complete_submitted_child_task child err now db))"
proof (cases "submitted_child_task db child")
  case None
  then show ?thesis by (simp add: complete_submitted_child_task_def)
next
  case (Some t)
  then have "task db (t_id t) = Some t" using assms by (auto simp: task_def tasks_inv_def intro!: find_row_unique dest: submitted_child_taskD)
  from upd_task_work [OF assms this] Some show ?thesis
    by (simp add: complete_submitted_child_task_def Let_def task_from_def)
qed

lemma create_child_work:
  assumes "create_child sha parent sid file policy token tid now db = Inr (db', x)"
  shows "keeps_work db db'"
proof -
  obtain par r t db1 where c: "session db parent = Some par" "live par" "r = child_row sha par parent sid file (JObj policy) (the token) now"
    "insert_session r db = Inr db1" "t = child_task sha sid (JObj policy) tid now"
    "db' = db1\<lparr>children := children db1 @ [sid], tasks := add_row t (tasks db1)\<rparr>"
    using create_childD [OF assms] by blast
  have "find_row s_id (sessions db) sid = None" "sessions db1 = add_row r (sessions db)"
    using c(3,4) by (auto simp: insert_session_def find_row_None_iff split: if_splits)
  then have "session db' sid = Some r" using c(3,6) by (simp add: session_def find_row_add_row)
  then have "task_homed db' t" using c(3,5) by (simp add: task_homed_def live_idI [of db' sid r] child_row_fields(2) [unfolded live_def])
  then show ?thesis
    using advance_keeps_live [OF create_child_advance [OF assms]] insert_session_frame [OF c(4)] c(6)
    by (auto simp: keeps_work_def intro: message_from_refl task_from_refl)
qed

lemma inputs_where_work:
  assumes "\<And>i. i_session (f i) = i_session i"
  shows "keeps_work db (inputs_update (update_where p f) db)"
proof (rule keeps_work_inputs)
  fix i' assume "i' \<in> set (inputs (inputs_update (update_where p f) db))"
  then show "(\<exists>i \<in> set (inputs db). i_session i = i_session i') \<or> live_id db (i_session i')"
    using update_where_from [of i' p f "inputs db" "\<lambda>i i'. i_session i = i_session i'"] assms by simp
qed auto

lemma mark_accepted_work: "mark_actor_input_accepted i sid g now db = (db', x) \<Longrightarrow> keeps_work db db'"
  by (auto simp: mark_actor_input_accepted_def Let_def intro!: inputs_where_work)

lemma wake_error_work: "set_actor_input_wake_error sid g db = Inr (db', x) \<Longrightarrow> keeps_work db db'"
  by (auto simp: set_actor_input_wake_error_def Let_def split: if_splits intro!: inputs_where_work)

lemma create_input_work:
  assumes "create_actor_input sha stringify sid uuid p now db = Inr (db', x)"
  shows "keeps_work db db'"
proof (rule keeps_work_inputs [OF create_input_sessions [OF assms]])
  have "messages db' = messages db \<and> tasks db' = tasks db \<and> (\<forall>i' \<in> set (inputs db'). i' \<in> set (inputs db) \<or> i_session i' = sid)"
    using create_actor_inputD [OF assms] by (auto dest!: admit_inputD session_activity_tables)
  moreover have "live_id db sid" using create_actor_inputD [OF assms] by (auto intro: available_live)
  ultimately show "messages db' = messages db" "tasks db' = tasks db"
    "\<And>i'. i' \<in> set (inputs db') \<Longrightarrow> (\<exists>i \<in> set (inputs db). i_session i = i_session i') \<or> live_id db (i_session i')"
    by auto
qed

lemma complete_input_work:
  assumes "complete_actor_input i sid now entry db = Inr (db', x)"
  shows "keeps_work db db'"
  by (rule keeps_work_inputs [OF complete_input_sessions [OF assms]])
    (use assms in \<open>auto simp: complete_actor_input_def Let_def drop_input_def split: option.splits if_splits sum.splits
      dest!: session_activity_tables\<close>)

lemma mark_handled_work:
  assumes "mark_actor_input_handled i sid now db = Inr (db', x)"
  shows "keeps_work db db'"
  by (rule keeps_work_inputs [OF mark_handled_sessions [OF assms]])
    (use assms in \<open>auto simp: mark_actor_input_handled_def Let_def drop_input_def split: option.splits if_splits sum.splits
      dest!: session_activity_tables\<close>)

lemma turn_failure_work: "record_actor_turn_failure sha ob sid g tf now db = Inr (db', x) \<Longrightarrow> keeps_work db db'"
  by (auto simp: record_actor_turn_failure_def queue_failure_work split: option.splits if_splits)

section \<open>Lifecycle, recovery and deletion\<close>

lemma mark_lifecycle_work:
  assumes "mark_actor_lifecycle sha ob sid g lc err report now db = Inr (db', x)" and inv: "work_inv db"
  shows "work_inv db'"
proof (cases "db' = db")
  case False
  with mark_lifecycleD [OF assms(1)] obtain r act db1 db2 where
    a: "session db sid = Some r" "live r" "lc \<in> {Passivated, Stopped, LcError}" "act \<in> {Delegating, Inactive}"
    "db1 = upd_session sid (stopped_row lc err now act) db" "db' = refresh_ancestors sid now db2"
    and q: "db2 = db1 \<or> db2 = queue_child_failure sha ob sid g err None now db1" by metis
  have "sessions_advance db db1"
    unfolding a(5) by (rule upd_session_steady [OF a(1)]) (use a(2-4) in \<open>auto simp: stopped_row_def steady_defs phase_moves\<close>)
  then have "keeps_work db db1" by (rule keeps_work_sessions) (simp_all add: a(5))
  then have "work_inv db1" using inv by (rule keeps_work_inv)
  then have "work_inv db2" using q queue_failure_work keeps_work_inv by blast
  moreover have "keeps_work db2 db'"
    unfolding a(6) by (rule keeps_work_sessions [OF refresh_ancestors_advance]) simp_all
  ultimately show ?thesis using keeps_work_inv by blast
qed (use inv in simp)

lemma mark_lifecycle_advances:
  assumes "mark_actor_lifecycle sha ob sid g lc err report now db = Inr (db', x)"
  shows "messages_advance db db' \<and> inputs_advance db db' \<and> tasks_advance db db'"
proof (cases "db' = db")
  case False
  with mark_lifecycleD [OF assms] obtain r act db1 db2 where
    a: "db1 = upd_session sid (stopped_row lc err now act) db" "db' = refresh_ancestors sid now db2"
    and q: "db2 = db1 \<or> db2 = queue_child_failure sha ob sid g err None now db1" by metis
  have "messages_advance db db1" by (rule messages_advance_refl) (simp add: a(1))
  moreover have "messages_advance db1 db2" using q queue_failure_advance by auto
  moreover have "messages_advance db2 db'" by (rule messages_advance_refl) (simp add: a(2))
  ultimately show ?thesis
    using q a by (auto intro: messages_advance_trans inputs_advance_frame tasks_advance_frame)
qed (simp add: messages_advance_refl)

lemma turn_failure_advances: "record_actor_turn_failure sha ob sid g tf now db = Inr (db', x) \<Longrightarrow>
    messages_advance db db' \<and> inputs_advance db db' \<and> tasks_advance db db'"
  by (auto simp: record_actor_turn_failure_def queue_failure_advance inputs_advance_frame tasks_advance_frame
      split: option.splits if_splits)

text \<open>The intermediate stores of the recovery after a daemon restart.\<close>

lemma reconcile_steps:
  "\<exists>db1 db2 gone. sessions_advance db db1 \<and> same_work db db1 \<and> sessions db2 = sessions db1 \<and> messages db2 = messages db1
     \<and> inputs db2 = inputs db1 \<and> receipts db2 = receipts db1
     \<and> (\<forall>t' \<in> set (tasks db2). \<exists>t \<in> set (tasks db1). task_from t t')
     \<and> fst (reconcile_after_daemon_start uuid now db) = terminalize_work gone now db2"
proof -
  let ?f = "\<lambda>r. (revive_row (uuid (s_id r)) r)\<lparr>s_stopped_at := Some now, s_last_error := Some (restart_error r), s_updated_at := now\<rparr>"
  let ?g = "\<lambda>t. t\<lparr>t_state := TFailed, t_completed_at := Some now,
                  t_error := Some ''daemon restarted during submitted work; completion is unknown''\<rparr>"
  let ?db1 = "sessions_update (update_where (restart_owner db) ?f) db"
  let ?db2 = "tasks_update (update_where (\<lambda>t. t_state t = TSubmitted) ?g) ?db1"
  have "sessions_advance db ?db1"
    by (rule update_where_steady) (auto simp: restart_owner_def revive_row_def steady_defs phase_moves)
  moreover have "\<exists>t \<in> set (tasks ?db1). task_from t t'" if "t' \<in> set (tasks ?db2)" for t'
    using update_where_from [of t' "\<lambda>t. t_state t = TSubmitted" ?g "tasks db" task_from] that by (simp add: task_from_def)
  moreover have "fst (reconcile_after_daemon_start uuid now db) =
      terminalize_work (\<lambda>i. \<exists>r \<in> set (sessions ?db2). s_id r = i \<and> s_lifecycle r = Deleted) now ?db2"
    by (simp only: reconcile_after_daemon_start_def Let_def terminalize_deleted_session_work_def fst_conv)
  ultimately show ?thesis by (intro exI [of _ ?db1] exI [of _ ?db2] exI) (auto simp: same_work_def)
qed

lemma reconcile_work:
  assumes "work_inv db"
  shows "work_inv (fst (reconcile_after_daemon_start uuid now db))"
proof -
  obtain db1 db2 gone where r: "sessions_advance db db1" "same_work db db1" "sessions db2 = sessions db1" "messages db2 = messages db1"
    "inputs db2 = inputs db1" "\<forall>t' \<in> set (tasks db2). \<exists>t \<in> set (tasks db1). task_from t t'"
    "fst (reconcile_after_daemon_start uuid now db) = terminalize_work gone now db2"
    using reconcile_steps [of db uuid now] by blast
  have "work_inv db1" using same_work_keeps [OF r(1,2)] assms by (rule keeps_work_inv)
  moreover have "keeps_work db1 db2" by (rule keeps_work_tasks) (use r in auto)
  ultimately have "work_inv db2" using keeps_work_inv by blast
  then show ?thesis unfolding r(7) using terminalize_work_work keeps_work_inv by blast
qed

lemma reconcile_advances:
  "messages_advance db (fst (reconcile_after_daemon_start uuid now db)) \<and> inputs_advance db (fst (reconcile_after_daemon_start uuid now db))"
proof -
  obtain db1 db2 gone where r: "same_work db db1" "messages db2 = messages db1" "inputs db2 = inputs db1" "receipts db2 = receipts db1"
    "fst (reconcile_after_daemon_start uuid now db) = terminalize_work gone now db2"
    using reconcile_steps [of db uuid now] by blast
  have "messages_advance db db2" by (rule messages_advance_refl) (use r in \<open>simp add: same_work_def\<close>)
  then show ?thesis
    unfolding r(5) using r(1-4) terminalize_advance
    by (auto simp: same_work_def intro: messages_advance_trans inputs_advance_frame)
qed

lemma delete_one_advances: "messages_advance db (delete_one now sid db) \<and> inputs_advance db (delete_one now sid db)"
proof -
  let ?db = "inputs_update (filter (\<lambda>i. i_session i \<noteq> sid)) db"
  have "messages_advance ?db (delete_one now sid db)"
    using terminalize_advance [of ?db "\<lambda>i. i = sid" now]
    by (simp add: messages_advance_def messages_inv_def message_def delete_one_def terminalize_session_work_def)
  moreover have "messages_advance db ?db" by (rule messages_advance_refl) simp
  moreover have "inputs_advance ?db (delete_one now sid db)"
    by (rule inputs_advance_frame) (simp_all add: delete_one_def terminalize_session_work_def)
  ultimately show ?thesis using inputs_advance_drop by (blast intro: messages_advance_trans inputs_advance_trans)
qed

lemma delete_session_advances:
  assumes "delete_session sid now db = Inr (db', x)"
  shows "messages_advance db db' \<and> inputs_advance db db'"
proof -
  from delete_sessionD [OF assms] obtain rows db1 r where d: "mark_scratch_deleting r db = Inr db1"
    "db' = refresh_ancestors sid now (delete_rows rows now db1)" by blast
  have "messages_advance db1 (delete_rows rows now db1) \<and> inputs_advance db1 (delete_rows rows now db1)" for db1
  proof (induction rows arbitrary: db1)
    case (Cons r rows)
    then show ?case
      using delete_one_advances [of db1 now "s_id r"] by (auto intro: messages_advance_trans inputs_advance_trans)
  qed simp
  moreover have "messages_advance db db1 \<and> inputs_advance db db1"
    using mark_scratch_frame [OF d(1)] by (simp add: messages_advance_refl inputs_advance_frame)
  moreover have "messages_advance (delete_rows rows now db1) db' \<and> inputs_advance (delete_rows rows now db1) db'"
    unfolding d(2) by (simp add: messages_advance_refl inputs_advance_frame)
  ultimately show ?thesis by (blast intro: messages_advance_trans inputs_advance_trans)
qed

lemma delete_session_work:
  assumes "delete_session sid now db = Inr (db', x)" and inv: "work_inv db"
  shows "work_inv db'"
proof -
  let ?D = "{i. reaches (\<lambda>_. True) (sessions db) sid i}"
  note e = delete_session_tables [OF assms(1)]
  have keep: "live_id db' i" if "live_id db i" "i \<notin> ?D" for i
    using that conjunct1 [OF e, THEN spec, of i] by (auto simp: live_id_def live_def split: option.splits)
  have "message_homed db' m'" if mt: "m' \<in> set (messages db')" for m'
  proof -
    obtain m where m: "m \<in> set (messages db)" "message_after ?D m m'" 
      using list_all2_old [OF conjunct1 [OF conjunct2 [OF conjunct2 [OF e]]] mt] by blast
    with inv have "message_homed db m" by (simp add: work_inv_def)
    with m(2) show ?thesis
      by (cases "message_dies ?D m") (auto simp: message_after_def message_homed_def message_dies_def pending_states_def keep)
  qed
  moreover have "task_homed db' t'" if mt: "t' \<in> set (tasks db')" for t'
  proof -
    obtain t where t: "t \<in> set (tasks db)" "task_after ?D t t'"
      using list_all2_old [OF conjunct2 [OF conjunct2 [OF conjunct2 [OF e]]] mt] by blast
    with inv have "task_homed db t" by (simp add: work_inv_def)
    with t(2) show ?thesis
      by (cases "task_dies ?D t") (auto simp: task_after_def task_homed_def task_dies_def keep)
  qed
  moreover have "live_id db' (i_session i)" if "i \<in> set (inputs db')" for i
    using that e inv keep by (auto simp: work_inv_def)
  ultimately show ?thesis by (simp add: work_inv_def)
qed

end
