(* ===== verification/Inference.thy ===== *)
theory Inference
  imports Sessions
begin

text \<open>
  The inference policy of sessions (src/store.mjs): the model and thinking level a launch resolves to,
  queued selections, the result an actor reports, and the move of all sessions that follow the default
  to a new model. A launch is the JSON value of the session row; request ids are fresh arguments.
\<close>

record selection =
  sl_provider :: string
  sl_model :: string
  sl_thinking :: js
  sl_fast :: bool              \<comment> \<open>\<open>fastModeSupported === true\<close>\<close>
  sl_window :: "nat option"    \<comment> \<open>a positive safe context window\<close>

text \<open>\<open>{ ...value, key: x }\<close>: spreading \<open>undefined\<close> or \<open>null\<close> gives no properties.\<close>

definition with_field :: "string \<Rightarrow> js \<Rightarrow> js \<Rightarrow> js" where
  "with_field k x v = jset k x (if is_plain_object v then v else JObj [])"

definition model_ref :: "string \<Rightarrow> string \<Rightarrow> js" where
  "model_ref provider i = JObj [(''provider'', JStr provider), (''id'', JStr i)]"

definition resolved_model :: "js \<Rightarrow> js" where
  "resolved_model launch = jget ''resolved'' (jget ''model'' launch)"

definition resolved_thinking :: "js \<Rightarrow> js" where
  "resolved_thinking launch = jget ''resolved'' (jget ''thinking'' launch)"

definition is_model :: "js \<Rightarrow> string \<Rightarrow> string \<Rightarrow> bool" where
  "is_model v provider i \<longleftrightarrow> jget ''provider'' v = JStr provider \<and> jget ''id'' v = JStr i"

definition pending_inference :: "js \<Rightarrow> js" where
  "pending_inference launch = jget ''pendingInference'' launch"

definition put_launch :: "string \<Rightarrow> js \<Rightarrow> int \<Rightarrow> store \<Rightarrow> store" where
  "put_launch sid launch now db = upd_session sid (\<lambda>r. r\<lparr>s_launch := Some launch, s_updated_at := now\<rparr>) db"

text \<open>\<open>getActorLaunch\<close>: the row with its lineage and launch.\<close>

definition get_actor_launch :: "store \<Rightarrow> string \<Rightarrow> (session_row \<times> string \<times> js) option" where
  "get_actor_launch db sid = (case session db sid of
      None \<Rightarrow> None
    | Some r \<Rightarrow> if s_lifecycle r = Deleted then None else Some (r, session_lineage (sessions db) sid, launch_of r))"

definition live_session :: "store \<Rightarrow> string \<Rightarrow> session_row result" where
  "live_session db sid = (case session db sid of
      None \<Rightarrow> Inl (Thrown ''session does not exist'')
    | Some r \<Rightarrow> if s_lifecycle r = Deleted then Inl (Thrown ''session does not exist'') else Inr r)"

section \<open>Resolved inference\<close>

definition keep_or :: "js \<Rightarrow> string \<Rightarrow> js \<Rightarrow> js" where
  "keep_or v k d = coalesce (jget k v) d"

definition resolve_launch :: "selection \<Rightarrow> js \<Rightarrow> js" where
  "resolve_launch sl launch = (let
      l1 = (if truthy (resolved_model launch) then launch
            else jset ''model'' (JObj [(''requested'', keep_or (jget ''model'' launch) ''requested'' Null),
              (''resolved'', model_ref (sl_provider sl) (sl_model sl)), (''source'', keep_or (jget ''model'' launch) ''source'' (JStr ''settings''))]) launch)
    in if truthy (resolved_thinking launch) then l1
       else jset ''thinking'' (JObj [(''requested'', keep_or (jget ''thinking'' launch) ''requested'' Null),
         (''resolved'', sl_thinking sl), (''source'', keep_or (jget ''thinking'' launch) ''source'' (JStr ''settings''))]) l1)"

definition record_resolved_inference :: "string \<Rightarrow> int \<Rightarrow> selection \<Rightarrow> int \<Rightarrow> store \<Rightarrow> (session_row \<times> string \<times> js) option op_result" where
  "record_resolved_inference sid generation sl now db = (case live_session db sid of
      Inl e \<Rightarrow> Inl e
    | Inr r \<Rightarrow> (let launch = launch_of r; model = resolved_model launch; thinking = resolved_thinking launch in
        if s_generation r \<noteq> generation then Inl (Thrown ''actor generation does not own the session'')
        else if truthy model \<and> \<not> is_model model (sl_provider sl) (sl_model sl) then Inl (Thrown ''resolved actor model differs from its launch policy'')
        else if truthy thinking \<and> thinking \<noteq> sl_thinking sl then Inl (Thrown ''resolved actor thinking level differs from its launch policy'')
        else (let l = resolve_launch sl launch;
                  db' = (if \<not> truthy model \<or> \<not> truthy thinking \<or> jget ''fastModeSupported'' launch \<noteq> JBool (sl_fast sl)
                           \<or> (case jget ''fastMode'' launch of JBool _ \<Rightarrow> False | _ \<Rightarrow> True)
                         then put_launch sid (jset ''fastModeSupported'' (JBool (sl_fast sl))
                                (jset ''fastMode'' (JBool (jget ''fastMode'' l = JBool True)) l)) now db
                         else db)
              in Inr (db', get_actor_launch db' sid))))"

section \<open>Selections\<close>

definition set_resolved :: "js \<Rightarrow> js \<Rightarrow> js \<Rightarrow> js" where
  "set_resolved model thinking launch =
     jset ''thinking'' (with_field ''resolved'' thinking (jget ''thinking'' launch)) (jset ''model'' (with_field ''resolved'' model (jget ''model'' launch)) launch)"

definition queue_session_inference :: "string \<Rightarrow> selection \<Rightarrow> selection \<Rightarrow> string \<Rightarrow> int \<Rightarrow> store \<Rightarrow> js op_result" where
  "queue_session_inference sid sl active uuid now db = (case live_session db sid of
      Inl e \<Rightarrow> Inl e
    | Inr r \<Rightarrow> (let launch = launch_of r;
          base = (if truthy (pending_inference launch) then launch
            else jset ''fastModeSupported'' (JBool (sl_fast active))
              (set_resolved (model_ref (sl_provider active) (sl_model active)) (sl_thinking active) launch));
          pending = JObj [(''requestId'', JStr uuid), (''provider'', JStr (sl_provider sl)), (''model'', JStr (sl_model sl)), (''thinkingLevel'', sl_thinking sl)]
        in Inr (put_launch sid (jset ''pendingInference'' pending base) now db, pending)))"

definition requested_pending :: "string option \<Rightarrow> js \<Rightarrow> bool" where
  "requested_pending request launch \<longleftrightarrow> (case request of
      Some q \<Rightarrow> q \<noteq> [] \<and> jget ''requestId'' (pending_inference launch) = JStr q
    | None \<Rightarrow> False)"

definition selected_launch :: "selection \<Rightarrow> string option \<Rightarrow> js \<Rightarrow> js" where
  "selected_launch sl request launch = (let
      ref = model_ref (sl_provider sl) (sl_model sl); mine = requested_pending request launch;
      l1 = (if mine \<and> truthy (jget ''followDefault'' (pending_inference launch)) then set_resolved ref (sl_thinking sl) launch
            else jset ''thinking'' (JObj [(''requested'', sl_thinking sl), (''resolved'', sl_thinking sl), (''source'', JStr ''explicit'')])
              (jset ''model'' (JObj [(''requested'', JStr (sl_provider sl @ ''/'' @ sl_model sl)), (''resolved'', ref), (''source'', JStr ''explicit'')]) launch));
      l2 = jset ''fastModeSupported'' (JBool (sl_fast sl)) l1
    in if mine then jdelete ''pendingInference'' l2 else l2)"

definition reset_context :: "string \<Rightarrow> nat option \<Rightarrow> int \<Rightarrow> store \<Rightarrow> store" where
  "reset_context sid window now db = (case window of
      Some w \<Rightarrow> (if find_row c_session (contexts db) sid = None
        then contexts_update (add_row \<lparr>c_session = sid, c_tokens = None, c_window = w, c_percent = None, c_updated_at = now\<rparr>) db
        else contexts_update (modify_row c_session sid (\<lambda>c. c\<lparr>c_tokens := None, c_window := w, c_percent := None, c_updated_at := now\<rparr>)) db)
    | None \<Rightarrow> contexts_update (filter (\<lambda>c. c_session c \<noteq> sid)) db)"

text \<open>A compare-and-set on the launch: \<open>expected\<close> is the launch the caller saw.\<close>

definition update_session_inference :: "string \<Rightarrow> selection \<Rightarrow> js option \<Rightarrow> int \<Rightarrow> string option \<Rightarrow> store \<Rightarrow> (session_row \<times> string \<times> js) option op_result" where
  "update_session_inference sid sl expected now request db = (case live_session db sid of
      Inl e \<Rightarrow> Inl e
    | Inr r \<Rightarrow> (let launch = launch_of r in
        if expected \<noteq> None \<and> expected \<noteq> Some launch then Inl (Thrown ''session inference policy changed concurrently'')
        else (let db' = reset_context sid (sl_window sl) now (put_launch sid (selected_launch sl request launch) now db)
              in Inr (db', get_actor_launch db' sid))))"

text \<open>The result an actor reports for a queued request: an error, a selection, or both.\<close>

record inference_result =
  ir_request :: string
  ir_error :: bool
  ir_selection :: "selection option"

definition record_failed_inference :: "string \<Rightarrow> string \<Rightarrow> int \<Rightarrow> js \<Rightarrow> store \<Rightarrow> bool op_result" where
  "record_failed_inference sid request now launch db =
     (if jget ''requestId'' (pending_inference launch) \<noteq> JStr request then Inr (db, False)
      else Inr (put_launch sid (jset ''pendingInference'' (jset ''error'' (JStr ''Selection could not be applied. Choose again or retry after reconnecting.'')
        (pending_inference launch)) launch) now db, True))"

definition record_session_inference_result :: "string \<Rightarrow> int \<Rightarrow> inference_result \<Rightarrow> int \<Rightarrow> store \<Rightarrow> bool op_result" where
  "record_session_inference_result sid generation result now db = (case session db sid of
      None \<Rightarrow> Inr (db, False)
    | Some r \<Rightarrow> (let launch = launch_of r in
        if s_lifecycle r = Deleted \<or> s_generation r \<noteq> generation then Inr (db, False)
        else if ir_error result then
          (case ir_selection result of
             Some sl \<Rightarrow> if truthy (jget ''followDefault'' (pending_inference launch)) then record_failed_inference sid (ir_request result) now launch db
               else (case update_session_inference sid sl (Some launch) now None db of
                   Inl e \<Rightarrow> Inl e
                 | Inr (db', x) \<Rightarrow> record_failed_inference sid (ir_request result) now (case x of Some (_, _, l) \<Rightarrow> l | None \<Rightarrow> launch) db')
           | None \<Rightarrow> record_failed_inference sid (ir_request result) now launch db)
        else (case ir_selection result of
            None \<Rightarrow> Inl (TypeErr ''selection is undefined'')
          | Some sl \<Rightarrow> (case update_session_inference sid sl (Some launch) now (Some (ir_request result)) db of
                Inl e \<Rightarrow> Inl e
              | Inr (db', _) \<Rightarrow> Inr (db', True)))))"

section \<open>Moving the default\<close>

text \<open>A session follows the default when its model comes from the settings, or from a parent that follows it.\<close>

fun follows :: "nat \<Rightarrow> session_row list \<Rightarrow> session_row option \<Rightarrow> bool" where
  "follows n t None = False"
| "follows n t (Some r) = (let source = jget ''source'' (jget ''model'' (launch_of r)) in
     if source = JStr ''settings'' then True
     else if source = JStr ''parent'' then
       (case n of 0 \<Rightarrow> False | Suc m \<Rightarrow> (case s_parent r of Some p \<Rightarrow> follows m t (find_row s_id t p) | None \<Rightarrow> False))
     else False)"

definition max_follow_depth :: nat where
  "max_follow_depth = 64"

datatype retarget_class = Pinned | OtherModel | NoModel | PendingMove | Moved

record retarget =
  rg_provider :: string       \<comment> \<open>\<open>from\<close>\<close>
  rg_model :: string
  rg_to_provider :: string    \<comment> \<open>\<open>to\<close>\<close>
  rg_to_model :: string
  rg_to_fast :: bool
  rg_live :: "string list"
  rg_thinking :: "js \<Rightarrow> js"
  rg_apply :: bool

definition retarget_rows :: "store \<Rightarrow> session_row list" where
  "retarget_rows db = filter (\<lambda>r. s_deleted_at r = None \<and> live r) (sessions db)"

text \<open>\<open>None\<close> is a row that appears in no list: it does not follow and is not on the old model.\<close>

definition retarget_class_of :: "retarget \<Rightarrow> session_row list \<Rightarrow> session_row \<Rightarrow> retarget_class option" where
  "retarget_class_of g t r = (let launch = launch_of r; resolved = resolved_model launch; current = is_model resolved (rg_provider g) (rg_model g) in
     if \<not> follows max_follow_depth t (Some r) then (if current then Some Pinned else None)
     else if \<not> current then Some (if truthy resolved then OtherModel else NoModel)
     else if truthy (pending_inference launch) then Some PendingMove
     else Some Moved)"

definition moved_launch :: "retarget \<Rightarrow> string \<Rightarrow> session_row \<Rightarrow> js" where
  "moved_launch g uuid r = (let launch = launch_of r; thinking = rg_thinking g (resolved_thinking launch) in
     if s_id r \<in> set (rg_live g) then
       jset ''pendingInference'' (JObj ([(''requestId'', JStr uuid), (''provider'', JStr (rg_to_provider g)), (''model'', JStr (rg_to_model g))]
         @ (if thinking = Undef then [] else [(''thinkingLevel'', thinking)]) @ [(''followDefault'', JBool True)])) launch
     else (let l1 = jset ''model'' (with_field ''resolved'' (model_ref (rg_to_provider g) (rg_to_model g)) (jget ''model'' launch)) launch;
               l2 = (if truthy thinking then jset ''thinking'' (with_field ''resolved'' thinking (jget ''thinking'' l1)) l1 else l1)
           in jset ''fastModeSupported'' (JBool (rg_to_fast g)) l2))"

record retarget_report =
  rr_moved :: "(string \<times> string \<times> bool) list"
  rr_pinned :: "(string \<times> string) list"
  rr_pending :: "(string \<times> string) list"
  rr_other :: "(string \<times> string \<times> js) list"

definition report_entry :: "session_row \<Rightarrow> string \<times> string" where
  "report_entry r = (s_id r, s_display_name r)"

definition report_row :: "retarget \<Rightarrow> retarget_class option \<Rightarrow> session_row \<Rightarrow> retarget_report \<Rightarrow> retarget_report" where
  "report_row g c r rep = (case c of
      Some Pinned \<Rightarrow> rep\<lparr>rr_pinned := rr_pinned rep @ [report_entry r]\<rparr>
    | Some PendingMove \<Rightarrow> rep\<lparr>rr_pending := rr_pending rep @ [report_entry r]\<rparr>
    | Some Moved \<Rightarrow> rep\<lparr>rr_moved := rr_moved rep @ [(s_id r, s_display_name r, s_id r \<in> set (rg_live g))]\<rparr>
    | Some OtherModel \<Rightarrow> rep\<lparr>rr_other := rr_other rep @ [(s_id r, s_display_name r, jget ''id'' (resolved_model (launch_of r)))]\<rparr>
    | Some NoModel \<Rightarrow> rep
    | None \<Rightarrow> rep)"

text \<open>The loop reads the rows and their ancestors as they were selected and writes one row at a time.\<close>

fun retarget_loop :: "retarget \<Rightarrow> (string \<Rightarrow> string) \<Rightarrow> int \<Rightarrow> session_row list \<Rightarrow> session_row list \<Rightarrow> retarget_report \<Rightarrow> store \<Rightarrow> store \<times> retarget_report" where
  "retarget_loop g fresh now t [] rep db = (db, rep)"
| "retarget_loop g fresh now t (r # rs) rep db = (let c = retarget_class_of g t r in
     retarget_loop g fresh now t rs (report_row g c r rep)
       (if c = Some Moved \<and> rg_apply g then put_launch (s_id r) (moved_launch g (fresh (s_id r)) r) now db else db))"

definition retarget_default_inference :: "retarget \<Rightarrow> (string \<Rightarrow> string) \<Rightarrow> int \<Rightarrow> store \<Rightarrow> store \<times> retarget_report" where
  "retarget_default_inference g fresh now db =
     retarget_loop g fresh now (retarget_rows db) (retarget_rows db) \<lparr>rr_moved = [], rr_pinned = [], rr_pending = [], rr_other = []\<rparr> db"

end
