(* ===== verification/RootNames.thy ===== *)
theory RootNames
  imports Ledger
begin

text \<open>
  Automatic names of roots: the search for a free name in src/root-title.mjs and the rename of a
  root that still has its default name (\<open>autoNameDefaultRoot\<close> in src/store.mjs). The en and em dash of
  the trailing punctuation have no character in the model's strings.
\<close>

definition title_punct :: "char list" where
  "title_punct = [CHR ''-'', CHR '','', CHR '';'', CHR '':'']"

definition last_space :: "string \<Rightarrow> nat option" where
  "last_space s = (let tail = takeWhile (\<lambda>c. c \<noteq> CHR '' '') (rev s) in
     if length tail = length s then None else Some (length s - length tail - 1))"

definition clip_title :: "string \<Rightarrow> nat \<Rightarrow> string" where
  "clip_title text mx =
     (if length text \<le> mx then text
      else (let sliced = take mx text;
                clipped = (case last_space sliced of Some k \<Rightarrow> if min 24 mx \<le> k then take k sliced else sliced | None \<Rightarrow> sliced);
                t = js_trim (rev (dropWhile (\<lambda>c. c \<in> set title_punct) (rev clipped)))
            in if t \<noteq> [] then t else js_trim sliced))"

definition unique_root_name_candidates :: "string \<Rightarrow> string \<Rightarrow> string list" where
  "unique_root_name_candidates base short_id = (let clipped = clip_title base (max 8 (256 - length short_id - 1)) in
     (clipped @ '' '' @ short_id) # map (\<lambda>k. clipped @ '' '' @ short_id @ ''-'' @ show_nat k) [2..<33])"

definition allocate_unique_root_name :: "string option \<Rightarrow> string option \<Rightarrow> (string \<Rightarrow> bool) \<Rightarrow> string result" where
  "allocate_unique_root_name base short taken = (let
      name = js_trim (case base of Some s \<Rightarrow> s | None \<Rightarrow> []); short_id = js_trim (case short of Some s \<Rightarrow> s | None \<Rightarrow> [])
    in if name = [] then Inl (Thrown ''root title must be a non-empty string'')
       else if \<not> taken name then Inr (clip_title name 256)
       else if short_id = [] then Inl (Thrown ''shortId is required when the title is taken'')
       else (case find (\<lambda>c. \<not> taken c) (unique_root_name_candidates name short_id) of
           Some c \<Rightarrow> Inr c
         | None \<Rightarrow> Inl (Thrown ''could not allocate a unique root title'')))"

definition root_name_taken :: "store \<Rightarrow> string \<Rightarrow> string \<Rightarrow> bool" where
  "root_name_taken db name except = list_ex (\<lambda>r. s_kind r = Root \<and> live r \<and> s_display_name r = name \<and> s_id r \<noteq> except) (sessions db)"

text \<open>A violated unique index of the UPDATE is caught; the root keeps its name.\<close>

definition auto_name_default_root :: "(string \<Rightarrow> string) \<Rightarrow> string \<Rightarrow> string option \<Rightarrow> int \<Rightarrow> store \<Rightarrow> store \<times> bool \<times> session_row option" where
  "auto_name_default_root sha sid title now db = (case session db sid of
      None \<Rightarrow> (db, False, None)
    | Some r \<Rightarrow>
        if s_lifecycle r = Deleted \<or> s_kind r \<noteq> Root \<or> s_display_name r \<noteq> default_root_name sha (s_cwd r) (s_id r)
          \<or> (case title of Some t \<Rightarrow> js_trim t = [] \<or> t = s_display_name r | None \<Rightarrow> True)
        then (db, False, Some r)
        else (case allocate_unique_root_name title (Some (s_short_id r)) (\<lambda>c. root_name_taken db c (s_id r)) of
            Inl _ \<Rightarrow> (db, False, Some r)
          | Inr name \<Rightarrow> (let f = (\<lambda>r. r\<lparr>s_display_name := name, s_updated_at := now\<rparr>) in
              if list_ex (\<lambda>x. s_id x \<noteq> sid \<and> name_clash x (f r)) (sessions db) then (db, False, Some r)
              else let db' = upd_session sid f db in (db', True, session db' sid))))"

lemma auto_nameD:
  assumes "auto_name_default_root sha sid title now db = (db', renamed, x)" "renamed"
  shows "\<exists>r name. session db sid = Some r \<and> live r \<and> s_kind r = Root \<and> s_display_name r = default_root_name sha (s_cwd r) sid
    \<and> db' = upd_session sid (\<lambda>r. r\<lparr>s_display_name := name, s_updated_at := now\<rparr>) db
    \<and> \<not> (\<exists>x \<in> set (sessions db). s_id x \<noteq> sid \<and> name_clash x (r\<lparr>s_display_name := name, s_updated_at := now\<rparr>))"
  using assms by (fastforce simp: auto_name_default_root_def Let_def live_def list_ex_iff dest: session_id split: option.splits if_splits sum.splits)

lemma auto_name_idle: "auto_name_default_root sha sid title now db = (db', False, x) \<Longrightarrow> db' = db"
  by (auto simp: auto_name_default_root_def Let_def split: option.splits if_splits sum.splits)

lemma auto_name_advance: "sessions_advance db (fst (auto_name_default_root sha sid title now db))"
proof -
  obtain db' renamed x where a: "auto_name_default_root sha sid title now db = (db', renamed, x)" by (metis prod_cases3)
  show ?thesis
  proof (cases renamed)
    case True
    then show ?thesis using auto_nameD [OF a] a by (auto simp: steady_defs intro!: rename_advance)
  next
    case False
    then show ?thesis using auto_name_idle [of sha sid title now db db' x] a by (simp add: sessions_advance_frame)
  qed
qed

end
