(* ===== verification/Policy.thy ===== *)
theory Policy
  imports Work Inference RootNames
begin

text \<open>
  The operations on inference policies keep the session table in order: they touch only the launch
  and the time of an update, keep the Fast preference of a root, and never move a session. The loop
  that moves the default is shown to be one simultaneous update of the rows it selects.
\<close>

section \<open>Launches stay well formed\<close>

definition keeps_launch :: "js \<Rightarrow> js \<Rightarrow> bool" where
  "keeps_launch l l' \<longleftrightarrow> (launch_ok (Some l) \<longrightarrow> launch_ok (Some l'))"

named_theorems launch_intros \<open>changes of a launch that keep the Fast preference of a root\<close>

lemma keeps_refl [launch_intros]: "keeps_launch l l"
  by (simp add: keeps_launch_def)

lemma keeps_jset [launch_intros]: "keeps_launch l l' \<Longrightarrow> k \<noteq> ''fastMode'' \<Longrightarrow> keeps_launch l (jset k v l')"
  by (auto simp: keeps_launch_def launch_ok_def jset_def map_of_assoc_set)

lemma keeps_fast [launch_intros]: "keeps_launch l l' \<Longrightarrow> keeps_launch l (jset ''fastMode'' (JBool b) l')"
  by (auto simp: keeps_launch_def launch_ok_def jset_def map_of_assoc_set)

lemma keeps_delete [launch_intros]: "keeps_launch l l' \<Longrightarrow> k \<noteq> ''fastMode'' \<Longrightarrow> keeps_launch l (jdelete k l')"
  by (auto simp: keeps_launch_def launch_ok_def jdelete_def map_of_filter_neq)

lemma keeps_if [launch_intros]: "keeps_launch l a \<Longrightarrow> keeps_launch l b \<Longrightarrow> keeps_launch l (if c then a else b)"
  by simp

lemma keeps_resolved [launch_intros]: "keeps_launch l l' \<Longrightarrow> keeps_launch l (set_resolved m t l')"
  by (simp add: set_resolved_def launch_intros)

lemma keeps_resolve_launch: "keeps_launch l (resolve_launch sl l)"
  by (simp add: resolve_launch_def Let_def launch_intros)

lemma keeps_selected: "keeps_launch l (selected_launch sl request l)"
  by (simp add: selected_launch_def Let_def launch_intros)

lemma keeps_moved: "keeps_launch (launch_of r) (moved_launch g uuid r)"
  by (simp add: moved_launch_def Let_def launch_intros)

lemma launch_ok_of: "launch_ok (s_launch r) \<Longrightarrow> launch_ok (Some (launch_of r))"
  by (auto simp: launch_ok_def launch_of_def)

lemma launch_steady: "keeps_launch (launch_of r) l \<Longrightarrow> steady r (r\<lparr>s_launch := Some l, s_updated_at := now\<rparr>)"
  using launch_ok_of [of r] by (auto simp: steady_defs keeps_launch_def)

lemma put_launch_advance:
  assumes "session db sid = Some r" "keeps_launch (launch_of r) l"
  shows "sessions_advance db (put_launch sid l now db)"
  unfolding put_launch_def by (rule upd_session_steady [OF assms(1)]) (simp_all add: launch_steady assms(2))

lemma put_launch_same: "same_work db (put_launch sid l now db)"
  by (simp add: put_launch_def same_work_def)

lemma put_launch_session: "session (put_launch sid l now db) sid = map_option (\<lambda>r. r\<lparr>s_launch := Some l, s_updated_at := now\<rparr>) (session db sid)"
  by (simp add: put_launch_def session_def find_row_modify)

lemma reset_context_frame: "sessions (reset_context sid w now db) = sessions db" "same_work db (reset_context sid w now db)"
  by (simp_all add: reset_context_def same_work_def split: option.split)

lemma live_sessionD: "live_session db sid = Inr r \<Longrightarrow> session db sid = Some r \<and> live r"
  by (auto simp: live_session_def live_def split: option.splits if_splits)

section \<open>The single operations\<close>

definition policy_step :: "store \<Rightarrow> store \<Rightarrow> bool" where
  "policy_step db db' \<longleftrightarrow> sessions_advance db db' \<and> same_work db db'"

lemma policy_refl [simp]: "policy_step db db"
  by (simp add: policy_step_def sessions_advance_frame same_work_def)

lemma policy_put: "session db sid = Some r \<Longrightarrow> keeps_launch (launch_of r) l \<Longrightarrow> policy_step db (put_launch sid l now db)"
  by (simp add: policy_step_def put_launch_advance put_launch_same)

lemma policy_trans: "policy_step a b \<Longrightarrow> policy_step b c \<Longrightarrow> policy_step a c"
  unfolding policy_step_def by (auto intro: sessions_advance_trans simp: same_work_def)

lemma policy_context: "policy_step db (reset_context sid w now db)"
  by (simp add: policy_step_def sessions_advance_frame reset_context_frame)

lemma record_resolved_policy: "record_resolved_inference sid g sl now db = Inr (db', x) \<Longrightarrow> policy_step db db'"
  by (auto simp: record_resolved_inference_def Let_def split: sum.splits if_splits
    dest!: live_sessionD intro!: policy_put launch_intros keeps_resolve_launch)

lemma queue_inference_policy: "queue_session_inference sid sl active uuid now db = Inr (db', x) \<Longrightarrow> policy_step db db'"
  by (auto simp: queue_session_inference_def Let_def split: sum.splits if_splits
    dest!: live_sessionD intro!: policy_put launch_intros)

lemma update_inference_policy: "update_session_inference sid sl expected now request db = Inr (db', x) \<Longrightarrow> policy_step db db'"
  by (auto simp: update_session_inference_def Let_def split: sum.splits if_splits
    dest!: live_sessionD intro!: policy_trans [OF policy_put policy_context] keeps_selected)

lemma update_inference_launch:
  assumes "update_session_inference sid sl expected now request db = Inr (db', Some (r', s, l))"
  shows "session db' sid = Some r' \<and> l = launch_of r'"
  using assms by (auto simp: update_session_inference_def Let_def get_actor_launch_def split: sum.splits if_splits option.splits)

lemma failed_inference_policy:
  assumes "record_failed_inference sid q now l db = Inr (db', x)" "session db sid = Some r" "l = launch_of r"
  shows "policy_step db db'"
  using assms by (auto simp: record_failed_inference_def split: if_splits intro!: policy_put launch_intros)

lemma update_inference_found:
  assumes "update_session_inference sid sl expected now request db = Inr (db', x)"
  shows "x = get_actor_launch db' sid \<and> (\<exists>r. session db' sid = Some r \<and> s_lifecycle r \<noteq> Deleted)"
proof -
  obtain r where r: "live_session db sid = Inr r" using assms by (auto simp: update_session_inference_def split: sum.splits)
  have "session db' sid = map_option (\<lambda>r. r\<lparr>s_launch := Some (selected_launch sl request (launch_of r)), s_updated_at := now\<rparr>) (session db sid)"
    using assms r live_sessionD [OF r]
    by (auto simp: update_session_inference_def Let_def session_def reset_context_frame put_launch_def find_row_modify split: if_splits)
  then show ?thesis
    using assms r live_sessionD [OF r] by (auto simp: update_session_inference_def Let_def live_def split: if_splits)
qed

lemma inference_result_policy: "record_session_inference_result sid g res now db = Inr (db', x) \<Longrightarrow> policy_step db db'"
proof -
  assume a: "record_session_inference_result sid g res now db = Inr (db', x)"
  show ?thesis
  proof (cases "session db sid")
    case None
    then show ?thesis using a by (simp add: record_session_inference_result_def)
  next
    case (Some r)
    show ?thesis
    proof (cases "s_lifecycle r = Deleted \<or> s_generation r \<noteq> g")
      case True
      then show ?thesis using a Some by (simp add: record_session_inference_result_def Let_def)
    next
      case False
      show ?thesis
      proof (cases "ir_error res \<and> (\<exists>sl. ir_selection res = Some sl \<and> \<not> truthy (jget ''followDefault'' (pending_inference (launch_of r))))")
        case True
        then obtain sl db1 y where u: "update_session_inference sid sl (Some (launch_of r)) now None db = Inr (db1, y)"
          and f: "record_failed_inference sid (ir_request res) now (case y of Some (_, _, l) \<Rightarrow> l | None \<Rightarrow> launch_of r) db1 = Inr (db', x)"
          using a Some False by (auto simp: record_session_inference_result_def Let_def split: sum.splits)
        obtain r1 where r1: "session db1 sid = Some r1" "y = Some (r1, session_lineage (sessions db1) sid, launch_of r1)"
          using update_inference_found [OF u] by (auto simp: get_actor_launch_def)
        show ?thesis
          using policy_trans [OF update_inference_policy [OF u] failed_inference_policy [OF f r1(1)]] r1(2) by simp
      next
        case plain: False
        then show ?thesis
          using a Some False
          by (auto simp: record_session_inference_result_def Let_def split: sum.splits option.splits if_splits
            intro: failed_inference_policy update_inference_policy)
      qed
    qed
  qed
qed

lemma auto_name_policy: "policy_step db (fst (auto_name_default_root sha sid title now db))"
proof -
  have "same_work db (fst (auto_name_default_root sha sid title now db))"
    by (auto simp: auto_name_default_root_def Let_def same_work_def split: option.split sum.split)
  then show ?thesis by (simp add: policy_step_def auto_name_advance)
qed

section \<open>Moving the default is one update\<close>

definition moves :: "retarget \<Rightarrow> session_row list \<Rightarrow> session_row \<Rightarrow> bool" where
  "moves g t r \<longleftrightarrow> rg_apply g \<and> retarget_class_of g t r = Some Moved"

definition moved_row :: "retarget \<Rightarrow> (string \<Rightarrow> string) \<Rightarrow> int \<Rightarrow> session_row \<Rightarrow> session_row" where
  "moved_row g fresh now r = r\<lparr>s_launch := Some (moved_launch g (fresh (s_id r)) r), s_updated_at := now\<rparr>"

lemma put_moved:
  assumes "unique_key s_id t0" "r \<in> set t0" "\<not> q r"
  shows "modify_row s_id (s_id r) (\<lambda>x. x\<lparr>s_launch := Some (moved_launch g (fresh (s_id r)) r), s_updated_at := now\<rparr>)
      (update_where q (moved_row g fresh now) t0) = update_where (\<lambda>x. q x \<or> x = r) (moved_row g fresh now) t0"
proof -
  have same: "x = r" if "x \<in> set t0" "s_id x = s_id r" for x
    using assms(1,2) that by (auto simp: unique_key_def distinct_map dest: inj_onD)
  have "(let y = (if q x then moved_row g fresh now x else x) in if s_id y = s_id r
        then y\<lparr>s_launch := Some (moved_launch g (fresh (s_id r)) r), s_updated_at := now\<rparr> else y)
      = (if q x \<or> x = r then moved_row g fresh now x else x)" if x: "x \<in> set t0" for x
    using same [OF x] assms(3) by (auto simp: moved_row_def Let_def)
  then show ?thesis by (simp add: modify_row_def update_where_def Let_def)
qed

lemma retarget_loop_rows:
  assumes "unique_key s_id (sessions db0)" "distinct (map s_id (done @ rs))" "set (done @ rs) \<subseteq> set (sessions db0)"
  shows "fst (retarget_loop g fresh now t rs rep (sessions_update (update_where (\<lambda>x. x \<in> set done \<and> moves g t x) (moved_row g fresh now)) db0))
    = sessions_update (update_where (\<lambda>x. x \<in> set (done @ rs) \<and> moves g t x) (moved_row g fresh now)) db0"
  using assms
proof (induction rs arbitrary: "done" rep)
  case (Cons r rs)
  let ?u = "\<lambda>ds. sessions_update (update_where (\<lambda>x. x \<in> set ds \<and> moves g t x) (moved_row g fresh now)) db0"
  have r: "r \<in> set (sessions db0)" "r \<notin> set done" using Cons.prems by auto
  have step: "(if retarget_class_of g t r = Some Moved \<and> rg_apply g then put_launch (s_id r) (moved_launch g (fresh (s_id r)) r) now (?u done) else ?u done) = ?u (done @ [r])"
  proof (cases "moves g t r")
    case True
    have "update_where (\<lambda>x. x \<in> set done \<and> moves g t x \<or> x = r) (moved_row g fresh now) (sessions db0)
        = update_where (\<lambda>x. x \<in> set (done @ [r]) \<and> moves g t x) (moved_row g fresh now) (sessions db0)"
      using True by (auto simp: update_where_def)
    then show ?thesis
      using True put_moved [OF Cons.prems(1) r(1), where q = "\<lambda>x. x \<in> set done \<and> moves g t x" and g = g and fresh = fresh and now = now] r(2)
      by (simp add: put_launch_def moves_def)
  next
    case False
    have "update_where (\<lambda>x. x \<in> set done \<and> moves g t x) (moved_row g fresh now) (sessions db0)
        = update_where (\<lambda>x. x \<in> set (done @ [r]) \<and> moves g t x) (moved_row g fresh now) (sessions db0)"
      using False by (auto simp: update_where_def)
    then show ?thesis using False by (auto simp: moves_def)
  qed
  show ?case using Cons.IH [of "done @ [r]"] Cons.prems step by (simp add: Let_def)
qed simp

lemma retarget_rows_update:
  assumes "unique_key s_id (sessions db)"
  shows "fst (retarget_default_inference g fresh now db)
    = sessions_update (update_where (\<lambda>r. r \<in> set (retarget_rows db) \<and> moves g (retarget_rows db) r) (moved_row g fresh now)) db"
proof -
  have d: "distinct (map s_id (retarget_rows db))"
    using unique_key_filter [OF assms, of "\<lambda>r. s_deleted_at r = None \<and> live r"] by (simp add: retarget_rows_def unique_key_def)
  have e: "sessions_update (update_where (\<lambda>x. x \<in> set [] \<and> moves g (retarget_rows db) x) (moved_row g fresh now)) db = db"
    by (simp add: update_where_def)
  have sub: "set ([] @ retarget_rows db) \<subseteq> set (sessions db)" "distinct (map s_id ([] @ retarget_rows db))"
    using d by (auto simp: retarget_rows_def)
  show ?thesis
    using retarget_loop_rows [OF assms sub(2,1), of g fresh now "retarget_rows db"]
    unfolding e retarget_default_inference_def append_Nil by simp
qed

lemma apply_irrelevant: "retarget_class_of (g\<lparr>rg_apply := b\<rparr>) t r = retarget_class_of g t r" "report_row (g\<lparr>rg_apply := b\<rparr>) c r rep = report_row g c r rep"
  by (simp_all add: retarget_class_of_def report_row_def split: option.split retarget_class.split)

lemma retarget_report_dry: "snd (retarget_loop (g\<lparr>rg_apply := b\<rparr>) fresh' now' t rs rep db') = snd (retarget_loop g fresh now t rs rep db)"
proof (induction rs arbitrary: rep db db')
  case (Cons r rs)
  show ?case unfolding retarget_loop.simps Let_def apply_irrelevant by (rule Cons.IH)
qed simp

lemma retarget_policy:
  assumes "unique_key s_id (sessions db)"
  shows "policy_step db (fst (retarget_default_inference g fresh now db))"
  unfolding retarget_rows_update [OF assms] policy_step_def
  by (auto simp: same_work_def moved_row_def intro!: update_where_steady launch_steady keeps_moved)

end
