(* ===== verification/Harness.thy ===== *)
theory Harness
  imports Policy
begin

text \<open>
  The whole \<open>HarnessStore\<close> as a machine: one constructor per public operation that writes,
  \<open>exec\<close> as the transaction that runs it, and what holds over every sequence of operations:
  messages, receipts, tasks and session phases only move forward, and the invariants of all
  tables hold in every store that operations build from the empty one.
\<close>

record env =
  e_sha :: "string \<Rightarrow> string"
  e_stringify :: "js \<Rightarrow> string"
  e_observer :: "string option"

datatype session_op =
    CreateRoot root_params int
  | AdmitRoot root_params int
  | CreateChild string string "string option" "(string \<times> js) list" "string option" string int
  | RegisterActor actor_params int
  | PrepareRevival string "string option" bool "string option" int
  | Reconcile "string \<Rightarrow> string" int
  | MarkStarted string int "int option" "string option" "js option" int
  | MarkLifecycle string int lifecycle "string option" bool int
  | TurnFailure string int turn_failure int
  | SetActivity string int bool int
  | LastError string int string int

definition exec_session :: "env \<Rightarrow> session_op \<Rightarrow> store \<Rightarrow> store" where
  "exec_session e x db = (case x of
      CreateRoot p now \<Rightarrow> committed db (create_root (e_sha e) p now db)
    | AdmitRoot p now \<Rightarrow> committed db (admit_root (e_sha e) p now db)
    | CreateChild parent sid file policy token tid now \<Rightarrow> committed db (create_child (e_sha e) parent sid file policy token tid now db)
    | RegisterActor p now \<Rightarrow> committed db (register_actor p now db)
    | PrepareRevival sid token force err now \<Rightarrow> committed db (prepare_actor_revival sid token force err now db)
    | Reconcile uuid now \<Rightarrow> fst (reconcile_after_daemon_start uuid now db)
    | MarkStarted sid g pid file ident now \<Rightarrow> committed db (mark_actor_started sid g pid file ident now db)
    | MarkLifecycle sid g lc err report now \<Rightarrow> committed db (mark_actor_lifecycle (e_sha e) (e_observer e) sid g lc err report now db)
    | TurnFailure sid g tf now \<Rightarrow> committed db (record_actor_turn_failure (e_sha e) (e_observer e) sid g tf now db)
    | SetActivity sid g st now \<Rightarrow> committed db (set_actor_activity sid g st now db)
    | LastError sid g err now \<Rightarrow> fst (record_session_last_error sid g err now db))"

datatype manage_op =
    SetName string "string option" int
  | AutoName string "string option" int
  | SetFastMode string bool bool int
  | SetScratch string js
  | BeginDeletion string
  | EndDeletion "session_row list"
  | DeleteSession string int
  | DeleteChild string string int
  | SetGrant string "skill list" int
  | RecordUsage usage_row
  | RecordContext context_row

definition exec_manage :: "env \<Rightarrow> manage_op \<Rightarrow> store \<Rightarrow> store" where
  "exec_manage e x db = (case x of
      SetName sid name now \<Rightarrow> committed db (set_session_name (e_sha e) sid name now db)
    | AutoName sid title now \<Rightarrow> fst (auto_name_default_root (e_sha e) sid title now db)
    | SetFastMode sid enabled expected now \<Rightarrow> committed db (update_session_fast_mode sid enabled expected now db)
    | SetScratch sid j \<Rightarrow> committed db (set_root_scratch sid j db)
    | BeginDeletion sid \<Rightarrow> committed db (begin_session_deletion db sid)
    | EndDeletion rows \<Rightarrow> end_session_deletion db rows
    | DeleteSession sid now \<Rightarrow> committed db (delete_session sid now db)
    | DeleteChild parent selector now \<Rightarrow> committed db (delete_child parent selector now db)
    | SetGrant sid skills now \<Rightarrow> committed db (set_session_skill_grant sid skills now db)
    | RecordUsage u \<Rightarrow> committed db (record_usage u db)
    | RecordContext c \<Rightarrow> committed db (record_context_usage c db))"

datatype input_op =
    CreateInput string string input_params int
  | AcceptInput string string int int
  | WakeError string "int option"
  | CompleteInput string string int "string option"
  | HandleInput string string int
  | SessionActivity string int

definition exec_input :: "env \<Rightarrow> input_op \<Rightarrow> store \<Rightarrow> store" where
  "exec_input e x db = (case x of
      CreateInput sid uuid p now \<Rightarrow> committed db (create_actor_input (e_sha e) (e_stringify e) sid uuid p now db)
    | AcceptInput i sid g now \<Rightarrow> fst (mark_actor_input_accepted i sid g now db)
    | WakeError sid g \<Rightarrow> committed db (set_actor_input_wake_error sid g db)
    | CompleteInput i sid now entry \<Rightarrow> committed db (complete_actor_input i sid now entry db)
    | HandleInput i sid now \<Rightarrow> committed db (mark_actor_input_handled i sid now db)
    | SessionActivity sid now \<Rightarrow> committed db (record_session_activity sid now db))"

datatype message_op =
    CreateMessage string message_params nat string int
  | RecordEntry string string string string relationship string int
  | DeliverMessage string string int nat
  | AcknowledgeMessage string string int
  | HomeNudge string int turn_failure int int

definition exec_message :: "env \<Rightarrow> message_op \<Rightarrow> store \<Rightarrow> store" where
  "exec_message e x db = (case x of
      CreateMessage sender p limit uuid now \<Rightarrow> committed db (create_message sender p limit uuid now db)
    | RecordEntry sender mid entry peer rel body now \<Rightarrow> committed db (record_message_sender_entry sender mid entry peer rel body now db)
    | DeliverMessage mid target now mx \<Rightarrow> committed db (mark_message_delivered mid target now mx db)
    | AcknowledgeMessage mid target now \<Rightarrow> committed db (acknowledge_message mid target now db)
    | HomeNudge sid g tf failed now \<Rightarrow> committed db (queue_home_failure_nudge (e_sha e) sid g tf failed now db))"

datatype task_op =
    SubmitTask string int
  | CompleteTask string "string option" int
  | RecordCreation string string string string relationship string "string option"

definition exec_task :: "env \<Rightarrow> task_op \<Rightarrow> store \<Rightarrow> store" where
  "exec_task e x db = (case x of
      SubmitTask i now \<Rightarrow> committed db (mark_child_task_submitted i now db)
    | CompleteTask child err now \<Rightarrow> fst (complete_submitted_child_task child err now db)
    | RecordCreation parent tid child name rel entry body \<Rightarrow> committed db (record_child_creation_entry parent tid child name rel entry body db))"

datatype inference_op =
    RecordResolved string int selection int
  | QueueInference string selection selection string int
  | UpdateInference string selection "js option" int "string option"
  | InferenceResult string int inference_result int
  | RetargetDefault retarget "string \<Rightarrow> string" int

definition exec_inference :: "env \<Rightarrow> inference_op \<Rightarrow> store \<Rightarrow> store" where
  "exec_inference e x db = (case x of
      RecordResolved sid g sl now \<Rightarrow> committed db (record_resolved_inference sid g sl now db)
    | QueueInference sid sl active uuid now \<Rightarrow> committed db (queue_session_inference sid sl active uuid now db)
    | UpdateInference sid sl expected now request \<Rightarrow> committed db (update_session_inference sid sl expected now request db)
    | InferenceResult sid g res now \<Rightarrow> committed db (record_session_inference_result sid g res now db)
    | RetargetDefault g fresh now \<Rightarrow> fst (retarget_default_inference g fresh now db))"

datatype store_op = OnSession session_op | OnManage manage_op | OnInput input_op | OnMessage message_op | OnTask task_op
  | OnInference inference_op

definition exec :: "env \<Rightarrow> store_op \<Rightarrow> store \<Rightarrow> store" where
  "exec e x db = (case x of
      OnSession y \<Rightarrow> exec_session e y db
    | OnManage y \<Rightarrow> exec_manage e y db
    | OnInput y \<Rightarrow> exec_input e y db
    | OnMessage y \<Rightarrow> exec_message e y db
    | OnTask y \<Rightarrow> exec_task e y db
    | OnInference y \<Rightarrow> exec_inference e y db)"

definition run :: "env \<Rightarrow> store_op list \<Rightarrow> store \<Rightarrow> store" where
  "run e xs db = fold (exec e) xs db"

definition store_inv :: "store \<Rightarrow> bool" where
  "store_inv db \<longleftrightarrow> sessions_inv db \<and> messages_inv db \<and> inputs_inv db \<and> tasks_inv db \<and> work_inv db"

section \<open>Every operation moves every table forward\<close>

definition advances :: "store \<Rightarrow> store \<Rightarrow> bool" where
  "advances db db' \<longleftrightarrow> sessions_forward db db' \<and> messages_advance db db' \<and> inputs_advance db db' \<and> tasks_advance db db'
     \<and> (work_inv db \<longrightarrow> work_inv db')"

lemma advances_same: "sessions_advance db db' \<Longrightarrow> same_work db db' \<Longrightarrow> advances db db'"
  by (simp add: advances_def advance_forward same_work_advances keeps_work_inv [OF same_work_keeps])

lemma advances_same_sessions: "same_work db db' \<and> sessions db' = sessions db \<Longrightarrow> advances db db'"
  by (intro advances_same sessions_advance_frame) simp_all

lemma advances_refl [simp]: "advances db db"
  by (rule advances_same) (auto simp: same_work_def)

lemma advances_messages: "sessions db' = sessions db \<Longrightarrow> inputs db' = inputs db \<Longrightarrow> receipts db' = receipts db \<Longrightarrow> tasks db' = tasks db \<Longrightarrow>
   messages_advance db db' \<Longrightarrow> keeps_work db db' \<Longrightarrow> advances db db'"
  by (simp add: advances_def advance_forward sessions_advance_frame inputs_advance_frame tasks_advance_frame keeps_work_inv)

lemma advances_inputs: "sessions_advance db db' \<Longrightarrow> messages db' = messages db \<Longrightarrow> tasks db' = tasks db \<Longrightarrow>
   inputs_advance db db' \<Longrightarrow> keeps_work db db' \<Longrightarrow> advances db db'"
  by (simp add: advances_def advance_forward messages_advance_refl tasks_advance_frame keeps_work_inv)

lemma advances_tasks: "sessions db' = sessions db \<Longrightarrow> inputs db' = inputs db \<Longrightarrow> receipts db' = receipts db \<Longrightarrow> messages db' = messages db \<Longrightarrow>
   tasks_advance db db' \<Longrightarrow> keeps_work db db' \<Longrightarrow> advances db db'"
  by (simp add: advances_def advance_forward sessions_advance_frame inputs_advance_frame messages_advance_refl keeps_work_inv)

lemma committed_advances: "(\<And>db' x. r = Inr (db', x) \<Longrightarrow> advances db db') \<Longrightarrow> advances db (committed db r)"
  by (cases r) auto

lemma turn_failure_forward: "record_actor_turn_failure sha ob sid g tf now db = Inr (db', x) \<Longrightarrow> advances db db'"
  using turn_failure_work [THEN keeps_work_inv] turn_failure_advances
  by (simp add: advances_def advance_forward sessions_advance_frame turn_failure_sessions)

lemma mark_lifecycle_forward: "mark_actor_lifecycle sha ob sid g lc err report now db = Inr (db', x) \<Longrightarrow> advances db db'"
  using mark_lifecycle_work [of sha ob sid g lc err report now db db' x]
  by (simp add: advances_def advance_forward mark_lifecycle_advance mark_lifecycle_advances)

lemma exec_session_advances: "advances db (exec_session e y db)"
proof (cases y)
  case (CreateChild p sid f pol tok tid now)
  have "advances db db'" if "create_child (e_sha e) p sid f pol tok tid now db = Inr (db', x)" for db' x
    using that
  proof -
    assume c: "create_child (e_sha e) p sid f pol tok tid now db = Inr (db', x)"
    obtain r db1 t where "insert_session r db = Inr db1" "db' = db1\<lparr>children := children db1 @ [sid], tasks := add_row t (tasks db1)\<rparr>"
      using create_childD [OF c] by blast
    then have "messages_advance db db'" "inputs_advance db db'"
      using insert_session_frame [of r db db1] by (simp_all add: messages_advance_refl inputs_advance_frame)
    then show ?thesis
      using create_child_advance [OF c] create_child_tasks [OF c] create_child_work [OF c]
      by (simp add: advances_def advance_forward keeps_work_inv)
  qed
  with CreateChild show ?thesis by (simp add: exec_session_def committed_advances)
next
  case (MarkLifecycle sid g lc err report now)
  then show ?thesis
    by (auto simp: exec_session_def intro!: committed_advances elim: mark_lifecycle_forward)
next
  case (TurnFailure sid g tf now)
  then show ?thesis
    by (auto simp: exec_session_def intro!: committed_advances elim: turn_failure_forward)
next
  case (Reconcile uuid now)
  then show ?thesis
    by (simp add: exec_session_def advances_def advance_forward reconcile_advance reconcile_advances reconcile_tasks reconcile_work)
qed (auto simp: exec_session_def last_error_advance last_error_same intro!: committed_advances advances_same
    dest: create_root_advance create_root_same admit_root_advance admit_root_same register_actor_advance register_actor_same
      prepare_revival_advance prepare_revival_same mark_started_advance mark_started_same set_activity_advance set_activity_same)

lemma delete_session_forward_all: "delete_session sid now db = Inr (db', x) \<Longrightarrow> advances db db'"
  by (simp add: advances_def delete_session_forward delete_session_advances delete_session_tasks delete_session_work)

lemma policy_advances: "policy_step db db' \<Longrightarrow> advances db db'"
  by (simp add: policy_step_def advances_same)

lemma exec_manage_advances: "advances db (exec_manage e y db)"
proof (cases y)
  case (DeleteChild parent selector now)
  then show ?thesis
    by (auto simp: exec_manage_def delete_child_def intro!: committed_advances elim: delete_session_forward_all split: sum.splits)
qed (auto simp: exec_manage_def end_deletion_same [THEN advances_same_sessions] policy_advances auto_name_policy intro!: committed_advances
    intro: advances_same set_name_advance set_name_same update_fast_mode_advance update_fast_mode_same
      set_scratch_advance set_scratch_same begin_deletion_same [THEN advances_same_sessions] set_grant_same [THEN advances_same_sessions]
      record_usage_same [THEN advances_same_sessions] record_context_same [THEN advances_same_sessions]
    elim: delete_session_forward_all)

lemma exec_input_advances: "advances db (exec_input e y db)"
proof (cases y)
  case (AcceptInput i sid g now)
  obtain db' x where m: "mark_actor_input_accepted i sid g now db = (db', x)" by fastforce
  have "sessions db' = sessions db \<and> messages db' = messages db \<and> tasks db' = tasks db"
    using m by (auto simp: mark_actor_input_accepted_def Let_def)
  with AcceptInput m mark_accepted_advance [OF m] mark_accepted_work [OF m] show ?thesis
    by (simp add: exec_input_def advances_inputs sessions_advance_frame)
next
  case (WakeError sid g)
  have "advances db db'" if "set_actor_input_wake_error sid g db = Inr (db', x)" for db' x
  proof (rule advances_inputs)
    show "inputs_advance db db'" "keeps_work db db'"
      using that by (rule wake_error_advance, rule wake_error_work)
  qed (use that in \<open>auto simp: set_actor_input_wake_error_def Let_def split: if_splits\<close>)
  with WakeError show ?thesis by (simp add: exec_input_def committed_advances)
next
  case (CreateInput sid uuid p now)
  have "advances db db'" if "create_actor_input (e_sha e) (e_stringify e) sid uuid p now db = Inr (db', x)" for db' x
  proof (rule advances_inputs)
    show "messages db' = messages db" "tasks db' = tasks db"
      using create_actor_inputD [OF that] by (auto dest!: admit_inputD session_activity_tables)
  qed (use that in \<open>auto intro: create_input_sessions create_input_advance create_input_work\<close>)
  with CreateInput show ?thesis by (simp add: exec_input_def committed_advances)
next
  case (CompleteInput i sid now entry)
  have "advances db db'" if "complete_actor_input i sid now entry db = Inr (db', x)" for db' x
  proof (rule advances_inputs)
    show "messages db' = messages db" "tasks db' = tasks db"
      using that by (auto simp: complete_actor_input_def Let_def drop_input_def split: option.splits if_splits sum.splits
        dest!: session_activity_tables)
  qed (use that in \<open>auto intro: complete_input_sessions complete_input_advance complete_input_work\<close>)
  with CompleteInput show ?thesis by (simp add: exec_input_def committed_advances)
next
  case (HandleInput i sid now)
  have "advances db db'" if "mark_actor_input_handled i sid now db = Inr (db', x)" for db' x
  proof (rule advances_inputs)
    show "messages db' = messages db" "tasks db' = tasks db"
      using that by (auto simp: mark_actor_input_handled_def Let_def drop_input_def split: option.splits if_splits sum.splits
        dest!: session_activity_tables)
  qed (use that in \<open>auto intro: mark_handled_sessions mark_handled_advance mark_handled_work\<close>)
  with HandleInput show ?thesis by (simp add: exec_input_def committed_advances)
next
  case (SessionActivity sid now)
  then show ?thesis
    by (auto simp: exec_input_def intro!: committed_advances intro: advances_same session_activity_steady session_activity_same)
qed

lemma message_tables:
  "create_message sender p limit uuid now db = Inr (db', m) \<Longrightarrow> db' = messages_update (\<lambda>_. messages db') db"
  "record_message_sender_entry sender mid entry peer rel body now db = Inr (db', x) \<Longrightarrow> db' = messages_update (\<lambda>_. messages db') db"
  "mark_message_delivered mid target now mx db = Inr (db', y) \<Longrightarrow> db' = messages_update (\<lambda>_. messages db') db"
  "acknowledge_message mid target now db = Inr (db', m) \<Longrightarrow> db' = messages_update (\<lambda>_. messages db') db"
  "queue_home_failure_nudge sha sid g tf failed now db = Inr (db', z) \<Longrightarrow> db' = messages_update (\<lambda>_. messages db') db"
  by (auto simp: record_message_sender_entry_def mark_message_delivered_def acknowledge_message_def
      queue_home_failure_nudge_def insert_or_ignore_message_def Let_def split: if_splits option.splits sum.splits dest!: create_messageD)

lemma advances_message_table: "db' = messages_update (\<lambda>_. messages db') db \<Longrightarrow> messages_advance db db' \<Longrightarrow> keeps_work db db' \<Longrightarrow> advances db db'"
  by (rule advances_messages) (erule ssubst, simp)+

lemma exec_message_advances: "messages_inv db \<Longrightarrow> advances db (exec_message e y db)"
  by (cases y) (auto simp: exec_message_def intro!: committed_advances intro: advances_message_table message_tables
      create_message_advance create_message_work record_entry_advance record_entry_work mark_delivered_advance mark_delivered_work
      acknowledge_advance acknowledge_work home_nudge_advance home_nudge_work)

lemma task_tables:
  "mark_child_task_submitted i now db = Inr (db', x) \<Longrightarrow> db' = tasks_update (\<lambda>_. tasks db') db"
  "record_child_creation_entry parent tid child name rel entry body db = Inr (db', y) \<Longrightarrow> db' = tasks_update (\<lambda>_. tasks db') db"
  "fst (complete_submitted_child_task child err now db) = tasks_update (\<lambda>_. tasks (fst (complete_submitted_child_task child err now db))) db"
  by (auto simp: mark_child_task_submitted_def record_child_creation_entry_def complete_submitted_child_task_def Let_def
      split: if_splits option.splits)

lemma advances_task_table: "db' = tasks_update (\<lambda>_. tasks db') db \<Longrightarrow> tasks_advance db db' \<Longrightarrow> keeps_work db db' \<Longrightarrow> advances db db'"
  by (rule advances_tasks) (erule ssubst, simp)+

lemma exec_task_advances: "tasks_inv db \<Longrightarrow> advances db (exec_task e y db)"
  by (cases y) (auto simp: exec_task_def intro!: committed_advances intro: advances_task_table task_tables
      submit_task_advance submit_task_work complete_task_advance complete_task_work creation_entry_advance creation_entry_work)

lemma store_inv_unique: "store_inv db \<Longrightarrow> unique_key s_id (sessions db)"
  by (simp add: store_inv_def sessions_inv_def table_inv_def)

lemma exec_inference_advances: "store_inv db \<Longrightarrow> advances db (exec_inference e y db)"
  by (cases y) (auto simp: exec_inference_def intro!: policy_advances retarget_policy store_inv_unique committed_advances
      intro: record_resolved_policy queue_inference_policy update_inference_policy inference_result_policy)

lemma exec_advances: "store_inv db \<Longrightarrow> advances db (exec e x db)"
  by (cases x) (simp_all add: exec_def store_inv_def exec_session_advances exec_manage_advances exec_input_advances
      exec_message_advances exec_task_advances exec_inference_advances)

lemma exec_inv: "store_inv db \<Longrightarrow> store_inv (exec e x db)"
  using exec_advances [of db e x]
  by (auto simp: advances_def store_inv_def sessions_forward_def messages_advance_def inputs_advance_def tasks_advance_def)

lemma exec_phase: "store_inv db \<Longrightarrow> session db i = Some r \<Longrightarrow> \<exists>r'. session (exec e x db) i = Some r' \<and> session_advances r r'"
  using exec_advances [of db e x] unfolding advances_def sessions_forward_def by blast

section \<open>Runs\<close>

text \<open>
  The four forward-only entities of the store. The status of a message is its envelope and
  state, of a receipt the pair of its delivery and handling times, of a task its child, prompt
  and state, of a session its lifecycle and generation.
\<close>

type_synonym msg_status = "(string \<times> string \<times> string) \<times> message_state"

definition msg_status :: "store \<Rightarrow> string \<Rightarrow> msg_status option" where
  "msg_status db i = map_option (\<lambda>m. ((m_sender m, m_target m, m_body m), m_state m)) (message db i)"

definition msg_step :: "msg_status \<Rightarrow> msg_status \<Rightarrow> bool" where
  "msg_step a b \<longleftrightarrow> fst a = fst b \<and> msg_move (snd a) (snd b)"

type_synonym receipt_marks = "int option \<times> int option"

definition receipt_marks :: "store \<Rightarrow> string \<Rightarrow> receipt_marks option" where
  "receipt_marks db i = map_option (\<lambda>r. (r_delivered_at r, r_handled_at r)) (receipt db i)"

inductive mark_move :: "receipt_marks \<Rightarrow> receipt_marks \<Rightarrow> bool" where
  mm_deliver: "mark_move (None, None) (Some d, None)"
| mm_handle: "mark_move (None, None) (None, Some h)"

inductive_simps mark_move_from [simp]: "mark_move (Some d, h) s" "mark_move (d, Some h) s"

definition task_status :: "store \<Rightarrow> string \<Rightarrow> ((string \<times> string option) \<times> task_state) option" where
  "task_status db i = map_option (\<lambda>t. ((t_child_id t, t_prompt t), t_state t)) (task db i)"

definition task_step :: "(string \<times> string option) \<times> task_state \<Rightarrow> (string \<times> string option) \<times> task_state \<Rightarrow> bool" where
  "task_step a b \<longleftrightarrow> fst a = fst b \<and> task_move (snd a) (snd b)"

definition phase_of :: "store \<Rightarrow> string \<Rightarrow> phase option" where
  "phase_of db i = map_option phase (session db i)"

lemma rtranclp_snd: "m\<^sup>*\<^sup>* a b \<Longrightarrow> (\<lambda>x y. fst x = fst y \<and> m (snd x) (snd y))\<^sup>*\<^sup>* (c, a) (c, b)"
proof (induction rule: rtranclp_induct)
  case (step y z)
  then show ?case by (auto intro: rtranclp.rtrancl_into_rtrancl)
qed simp

interpretation message_run: forward_status "exec e" msg_status msg_step store_inv for e
proof
  show "store_inv s \<Longrightarrow> store_inv (exec e x s)" for s x by (rule exec_inv)
  fix s i a x assume inv: "store_inv s" and "msg_status s i = Some a"
  then obtain m where m: "message s i = Some m" "a = ((m_sender m, m_target m, m_body m), m_state m)"
    by (auto simp: msg_status_def)
  obtain m' where m': "message (exec e x s) i = Some m'" "row_advances m m'"
    using exec_advances [OF inv, of e x] m(1) unfolding advances_def messages_advance_def by blast
  have "msg_step\<^sup>*\<^sup>* (c, m_state m) (c, m_state m')" for c
    using rtranclp_snd [of msg_move "m_state m" "m_state m'" c] m'(2) by (simp add: row_advances_def msg_step_def [abs_def])
  with m m' show "\<exists>b. msg_status (exec e x s) i = Some b \<and> msg_step\<^sup>*\<^sup>* a b"
    by (intro exI [of _ "((m_sender m, m_target m, m_body m), m_state m')"]) (simp add: msg_status_def row_advances_def)
qed

interpretation receipt_run: forward_status "exec e" receipt_marks mark_move store_inv for e
proof
  show "store_inv s \<Longrightarrow> store_inv (exec e x s)" for s x by (rule exec_inv)
  fix s i a x assume inv: "store_inv s" and "receipt_marks s i = Some a"
  then obtain r where r: "receipt s i = Some r" "a = (r_delivered_at r, r_handled_at r)"
    by (auto simp: receipt_marks_def)
  obtain r' where r': "receipt (exec e x s) i = Some r'" "receipt_advances r r'"
    using exec_advances [OF inv, of e x] r(1) unfolding advances_def inputs_advance_def by blast
  have one: "r_handled_at q = None \<or> r_delivered_at q = None" if "store_inv db" "receipt db i = Some q" for db q
    using that by (auto simp: store_inv_def inputs_inv_def receipts_inv_def receipt_def dest: find_row_SomeD)
  have "mark_move\<^sup>*\<^sup>* (r_delivered_at r, r_handled_at r) (r_delivered_at r', r_handled_at r')"
    using one [OF inv r(1)] one [OF exec_inv [OF inv] r'(1)] r'(2)
    by (cases "r_delivered_at r"; cases "r_handled_at r"; cases "r_delivered_at r'"; cases "r_handled_at r'")
      (auto simp: receipt_advances_def intro: mark_move.intros)
  with r r' show "\<exists>b. receipt_marks (exec e x s) i = Some b \<and> mark_move\<^sup>*\<^sup>* a b" by (simp add: receipt_marks_def)
qed

interpretation task_run: forward_status "exec e" task_status task_step store_inv for e
proof
  show "store_inv s \<Longrightarrow> store_inv (exec e x s)" for s x by (rule exec_inv)
  fix s i a x assume inv: "store_inv s" and "task_status s i = Some a"
  then obtain t where t: "task s i = Some t" "a = ((t_child_id t, t_prompt t), t_state t)" by (auto simp: task_status_def)
  obtain t' where t': "task (exec e x s) i = Some t'" "task_advances t t'"
    using exec_advances [OF inv, of e x] t(1) unfolding advances_def tasks_advance_def by blast
  have "task_step\<^sup>*\<^sup>* (c, t_state t) (c, t_state t')" for c
    using rtranclp_snd [of task_move "t_state t" "t_state t'" c] t'(2) by (simp add: task_advances_def task_step_def [abs_def])
  with t t' show "\<exists>b. task_status (exec e x s) i = Some b \<and> task_step\<^sup>*\<^sup>* a b"
    by (intro exI [of _ "((t_child_id t, t_prompt t), t_state t')"]) (simp add: task_status_def task_advances_def)
qed

interpretation session_run: forward_status "exec e" phase_of phase_move store_inv for e
proof
  show "store_inv s \<Longrightarrow> store_inv (exec e x s)" for s x by (rule exec_inv)
  fix s i a x assume inv: "store_inv s" and "phase_of s i = Some a"
  then obtain r where r: "session s i = Some r" "a = phase r" by (auto simp: phase_of_def)
  obtain r' where "session (exec e x s) i = Some r'" "session_advances r r'" using exec_phase [OF inv r(1)] by blast
  then show "\<exists>b. phase_of (exec e x s) i = Some b \<and> phase_move\<^sup>*\<^sup>* a b"
    by (intro exI [of _ "phase r'"]) (simp add: phase_of_def session_advances_def r(2))
qed

lemma empty_store_inv: "store_inv empty_store"
  by (simp add: store_inv_def sessions_inv_def table_inv_def names_ok_def messages_inv_def inputs_inv_def receipts_inv_def
      tasks_inv_def work_inv_def empty_store_def unique_key_def)

lemma run_inv: "store_inv db \<Longrightarrow> store_inv (run e xs db)"
  unfolding run_def by (rule message_run.inv_run)

lemma reachable_inv: "store_inv (run e xs empty_store)"
  by (rule run_inv [OF empty_store_inv])

end
