(* ===== verification/Activity.thy ===== *)
theory Activity
  imports Lifecycle
begin

text \<open>
  The displayed activity of ancestors (\<open>#refreshAncestors\<close> of src/store.mjs): after an actor
  changes its activity, every ancestor shows what its own state and the number of its working
  descendants say.
\<close>

section \<open>The view that the working count depends on\<close>

definition same_view :: "session_row \<Rightarrow> session_row \<Rightarrow> bool" where
  "same_view r r' \<longleftrightarrow> s_id r' = s_id r \<and> s_parent r' = s_parent r \<and> live r' = live r \<and> (s_activity r' = Working \<longleftrightarrow> s_activity r = Working)"

lemma same_view_refl: "same_view r r"
  by (simp add: same_view_def)

lemma same_view_trans: "same_view a b \<Longrightarrow> same_view b c \<Longrightarrow> same_view a c"
  by (simp add: same_view_def)

lemma list_all2_filter_ids:
  assumes "list_all2 R t t'" and "\<And>r r'. R r r' \<Longrightarrow> s_id r' = s_id r \<and> p r' = p r"
  shows "map s_id (filter p t') = map s_id (filter p t)"
  using assms(1) by (induction rule: list_all2_induct) (auto dest: assms(2))

lemma cte_view:
  assumes t: "list_all2 same_view t t'" and p: "\<And>r r'. same_view r r' \<Longrightarrow> p r' = p r"
  shows "cte p t' ids = cte p t ids"
proof -
  have "map s_id (filter (\<lambda>r. p r \<and> (\<exists>i \<in> set ids. s_parent r = Some i)) t')
      = map s_id (filter (\<lambda>r. p r \<and> (\<exists>i \<in> set ids. s_parent r = Some i)) t)" for ids
  proof (rule list_all2_filter_ids [OF t])
    fix r r' assume v: "same_view r r'"
    show "s_id r' = s_id r \<and> (p r' \<and> (\<exists>i \<in> set ids. s_parent r' = Some i)) = (p r \<and> (\<exists>i \<in> set ids. s_parent r = Some i))"
      using p [OF v] v by (simp add: same_view_def)
  qed
  then have "cte_step p t' = cte_step p t" by (simp add: cte_step_def fun_eq_iff)
  moreover have "length t' = length t" using t by (simp add: list_all2_lengthD)
  ultimately show ?thesis by (simp add: cte_def)
qed

lemma working_count_view:
  assumes t: "list_all2 same_view t t'"
  shows "working_descendant_count t' sid = working_descendant_count t sid"
proof -
  have "map s_id (filter (\<lambda>r. s_parent r = Some sid \<and> live r) t') = map s_id (filter (\<lambda>r. s_parent r = Some sid \<and> live r) t)"
    by (rule list_all2_filter_ids [OF t]) (simp add: same_view_def)
  moreover have "cte live t' ids = cte live t ids" for ids by (rule cte_view [OF t]) (simp add: same_view_def)
  ultimately have ids: "descendant_ids t' sid = descendant_ids t sid" by (simp add: descendant_ids_def)
  have "map s_id (filter (\<lambda>r. s_id r \<in> A \<and> s_id r \<noteq> sid \<and> s_activity r = Working) t')
      = map s_id (filter (\<lambda>r. s_id r \<in> A \<and> s_id r \<noteq> sid \<and> s_activity r = Working) t)" for A
    by (rule list_all2_filter_ids [OF t]) (auto simp: same_view_def)
  from arg_cong [OF this, of length] show ?thesis unfolding working_descendant_count_def ids by simp
qed

lemma refresh_row_view: "row_ok r \<Longrightarrow> same_view r (refresh_row now k r)"
  by (auto simp: same_view_def refresh_row_def shown_activity_def live_def row_ok_def)

lemma refresh_row_ok: "row_ok r \<Longrightarrow> row_ok (refresh_row now k r)"
  using refresh_row_steady [of r now k] by (simp add: steady_def)

definition rows_ok :: "session_row list \<Rightarrow> bool" where
  "rows_ok t \<longleftrightarrow> (\<forall>r \<in> set t. row_ok r)"

lemma refresh_one_view: "rows_ok t \<Longrightarrow> list_all2 same_view t (modify_row s_id i (refresh_row now k) t)"
  unfolding modify_row_def by (rule list_all2_update_where) (simp_all add: rows_ok_def refresh_row_view same_view_refl)

lemma refresh_one_ok: "rows_ok t \<Longrightarrow> rows_ok (modify_row s_id i (refresh_row now k) t)"
  by (auto simp: rows_ok_def modify_row_def set_update_where refresh_row_ok)

lemma refresh_row_id [simp]: "s_id (refresh_row now k r) = s_id r"
  by (simp add: refresh_row_def)

section \<open>The walk\<close>

lemma refresh_walk_view: "rows_ok t \<Longrightarrow> list_all2 same_view t (refresh_walk n now seen c t)"
proof (induction n now seen c t rule: refresh_walk.induct)
  case (3 n now seen i t)
  show ?case
  proof (cases "i \<in> set seen \<or> find_row s_id t i = None")
    case True
    then show ?thesis by (auto simp: list.rel_refl same_view_refl)
  next
    case False
    then obtain r where r: "i \<notin> set seen" "find_row s_id t i = Some r" by auto
    show ?thesis
      using "3.IH" [OF r refresh_one_ok [OF "3.prems"]] r list_all2_trans [OF same_view_trans refresh_one_view [OF "3.prems"]] by simp
  qed
qed (simp_all add: list.rel_refl same_view_refl)

lemma refresh_walk_seen: "k \<in> set seen \<Longrightarrow> find_row s_id (refresh_walk n now seen c t) k = find_row s_id t k"
proof (induction n now seen c t rule: refresh_walk.induct)
  case (3 n now seen i t)
  then show ?case by (cases "find_row s_id t i") (auto simp: find_row_modify)
qed simp_all

lemma chain_ids: "list_all2 same_view t t' \<Longrightarrow> map s_id (chain n t' seen c) = map s_id (chain n t seen c)"
proof (induction n t seen c rule: chain.induct)
  case (3 n t seen i)
  have "rel_option same_view (find_row s_id t i) (find_row s_id t' i)"
    using "3.prems" by (rule list_all2_find_row) (simp add: same_view_def)
  then show ?case
  proof (cases rule: option.rel_cases)
    case (Some r r')
    then have "parent_of r' = parent_of r" "s_id r' = s_id r" by (simp_all add: same_view_def parent_of_def)
    with 3 Some show ?thesis by simp
  qed simp
qed simp_all

lemma refresh_walk_shows:
  assumes "rows_ok t" and "a \<in> set (chain n t seen c)"
  shows "\<exists>a'. find_row s_id (refresh_walk n now seen c t) (s_id a) = Some a'
    \<and> s_activity a' = shown_activity a' (working_descendant_count t (s_id a))
    \<and> (s_quiet_since a' \<noteq> None \<longleftrightarrow> s_lifecycle a' = Resident \<and> \<not> s_streaming a')"
  using assms
proof (induction n now seen c t arbitrary: a rule: refresh_walk.induct)
  case (3 n now seen i t)
  from "3.prems"(2) obtain r where r: "i \<notin> set seen" "find_row s_id t i = Some r"
    by (cases "find_row s_id t i") (auto split: if_splits)
  define t1 where "t1 = modify_row s_id i (refresh_row now (working_descendant_count t i)) t"
  have view: "list_all2 same_view t t1" unfolding t1_def by (rule refresh_one_view [OF "3.prems"(1)])
  have walk: "refresh_walk (Suc n) now seen (Some i) t = refresh_walk n now (i # seen) (parent_of r) t1"
    using r by (simp add: t1_def)
  have id: "s_id r = i" using r(2) by (auto dest: find_row_SomeD)
  from "3.prems"(2) r consider "a = r" | "a \<in> set (chain n t (i # seen) (parent_of r))" by auto
  then show ?case
  proof cases
    case 1
    have "find_row s_id t1 i = Some (refresh_row now (working_descendant_count t i) r)"
      unfolding t1_def using r(2) by (simp add: find_row_modify)
    with refresh_walk_seen [of i "i # seen"] walk 1 id show ?thesis
      by (auto simp: refresh_row_def shown_activity_def split: option.split)
  next
    case 2
    then have "s_id a \<in> set (map s_id (chain n t1 (i # seen) (parent_of r)))" unfolding chain_ids [OF view] by simp
    then obtain a1 where a1: "a1 \<in> set (chain n t1 (i # seen) (parent_of r))" "s_id a1 = s_id a" by auto
    have "rows_ok t1" unfolding t1_def by (rule refresh_one_ok [OF "3.prems"(1)])
    from "3.IH" [OF r, folded t1_def, OF this a1(1)] show ?thesis
      unfolding walk a1(2) working_count_view [OF view] .
  qed
qed simp_all

section \<open>Properties\<close>

lemma refresh_ancestors_shows:
  assumes inv: "sessions_inv db" and r: "session db sid = Some r"
    and a: "a \<in> set (chain (length (sessions db)) (sessions db) [] (parent_of r))"
  shows "\<exists>a'. session (refresh_ancestors sid now db) (s_id a) = Some a'
    \<and> s_activity a' = shown_activity a' (working_descendant_count (sessions (refresh_ancestors sid now db)) (s_id a))
    \<and> (s_quiet_since a' \<noteq> None \<longleftrightarrow> s_lifecycle a' = Resident \<and> \<not> s_streaming a')"
proof -
  have ok: "rows_ok (sessions db)" using inv by (simp add: rows_ok_def sessions_inv_def table_inv_def)
  have t: "sessions (refresh_ancestors sid now db) = refresh_walk (length (sessions db)) now [] (parent_of r) (sessions db)"
    using r by (simp add: refresh_ancestors_def)
  show ?thesis
    using refresh_walk_shows [OF ok a, of now] working_count_view [OF refresh_walk_view [OF ok]]
    unfolding session_def t by simp
qed

definition reported_row :: "bool \<Rightarrow> activity \<Rightarrow> bool \<Rightarrow> int \<Rightarrow> session_row \<Rightarrow> session_row" where
  "reported_row streaming act changed now r = r\<lparr>s_streaming := streaming, s_activity := act,
     s_quiet_since := (if streaming then None else case s_quiet_since r of None \<Rightarrow> Some now | Some q \<Rightarrow> Some q),
     s_updated_at := (if changed then now else s_updated_at r)\<rparr>"

lemma set_actor_activityD:
  assumes "set_actor_activity sid g streaming now db = Inr (db', x)" and "session db sid = Some r"
  shows "\<exists>act ch. db' = refresh_ancestors sid now (upd_session sid (reported_row streaming act ch now) db)
    \<and> s_lifecycle r = Resident \<and> (act = Working \<longleftrightarrow> streaming)"
proof -
  define act where "act = (if streaming then Working else if working_descendant_count (sessions db) sid > 0 then Delegating else Idle)"
  have "db' = refresh_ancestors sid now (upd_session sid (reported_row streaming act (s_streaming r \<noteq> streaming \<or> s_activity r \<noteq> act) now) db)"
    "s_lifecycle r = Resident"
    using assms unfolding set_actor_activity_def Let_def act_def [symmetric] reported_row_def by (simp_all split: if_split_asm)
  moreover have "act = Working \<longleftrightarrow> streaming" by (simp add: act_def)
  ultimately show ?thesis by blast
qed

text \<open>
  C8: After an actor reports its activity, every ancestor on its parent chain shows working,
  delegating, idle or inactive exactly as its own lifecycle and streaming flag and the final
  count of its working descendants say, and has an idle interval exactly when it is resident
  and not streaming.
\<close>

theorem ancestors_show_activity:
  assumes "set_actor_activity sid g streaming now db = Inr (db', x)" and "sessions_inv db" and "session db sid = Some r"
    and "a \<in> set (chain (length (sessions db)) (sessions db) [] (parent_of r))"
  shows "\<exists>a'. session db' (s_id a) = Some a' \<and> s_activity a' = shown_activity a' (working_descendant_count (sessions db') (s_id a))
    \<and> (s_quiet_since a' \<noteq> None \<longleftrightarrow> s_lifecycle a' = Resident \<and> \<not> s_streaming a')"
proof -
  obtain act ch where d: "db' = refresh_ancestors sid now (upd_session sid (reported_row streaming act ch now) db)"
      "s_lifecycle r = Resident" "act = Working \<longleftrightarrow> streaming"
    using set_actor_activityD [OF assms(1,3)] by blast
  let ?f = "reported_row streaming act ch now"
  define db1 where "db1 = upd_session sid ?f db"
  have f: "sessions db1 = modify_row s_id sid ?f (sessions db)" "s_id (?f x) = s_id x" "s_parent (?f x) = s_parent x" for x
    by (simp_all add: db1_def reported_row_def)
  have "sessions_advance db db1"
    unfolding db1_def by (rule upd_session_steady [OF assms(3)]) (use d(2,3) in \<open>auto simp: reported_row_def steady_defs split: option.split\<close>)
  then have "sessions_inv db1" using assms(2) by (simp add: sessions_advance_def)
  moreover have row: "session db1 sid = Some (?f r)" "parent_of (?f r) = parent_of r"
    using assms(3) f by (simp_all add: session_def session_tbl.lookup_modify parent_of_def)
  have "map s_id (chain n (modify_row s_id sid ?f t) seen c) = map s_id (chain n t seen c)" for n t seen c
  proof (induction n t seen c rule: chain.induct)
    case (3 n t seen i)
    then show ?case using f(2,3) by (cases "find_row s_id t i") (auto simp: find_row_modify parent_of_def)
  qed simp_all
  then have "s_id a \<in> set (map s_id (chain (length (sessions db1)) (sessions db1) [] (parent_of (?f r))))"
    using assms(4) unfolding f(1) row(2) by (simp add: modify_row_def)
  then obtain a1 where a1: "a1 \<in> set (chain (length (sessions db1)) (sessions db1) [] (parent_of (?f r)))" "s_id a1 = s_id a" by auto
  show ?thesis
    using refresh_ancestors_shows [OF \<open>sessions_inv db1\<close> row(1) a1(1), of now] unfolding a1(2) d(1) db1_def [symmetric] .
qed

end
