(* ===== verification/Histories.thy ===== *)
theory Histories
  imports Harness Activity
begin

text \<open>
  What holds over every history of store operations, from the empty store on: the properties of
  the durable store that span its tables, with concrete runs as witnesses.
\<close>

section \<open>A concrete run\<close>

definition demo_env :: env where
  "demo_env = \<lparr>e_sha = id, e_stringify = (\<lambda>_. ''{}''), e_observer = None\<rparr>"

definition demo_input :: input_params where
  "demo_input = \<lparr>ip_id = Some ''i1'', ip_message = ''hello'', ip_images = ''[]'', ip_location = Undef, ip_behavior = Auto,
     ip_source = SrcUser, ip_origin = None, ip_client = None, ip_retry = None, ip_limit = 2, ip_bytes_limit = 100, ip_global_limit = 200\<rparr>"

definition demo_message :: message_params where
  "demo_message = \<lparr>mp_target = ''r'', mp_body = ''done'', mp_id = Some ''m1'', mp_mode = None\<rparr>"

definition demo_admit :: "store_op list" where
  "demo_admit = [OnSession (CreateRoot \<lparr>rp_id = ''r'', rp_name = Some ''root'', rp_cwd = Some ''/w'', rp_repository = None,
       rp_file = Some ''f'', rp_token = Some ''tr'', rp_launch = None\<rparr> 1),
     OnSession (MarkStarted ''r'' 1 (Some 10) None None 2),
     OnSession (CreateChild ''r'' ''c'' (Some ''g'') [(''name'', JStr ''kid''), (''prompt'', JStr ''do'')] (Some ''tc'') ''t1'' 3),
     OnSession (MarkStarted ''c'' 1 (Some 11) None None 4)]"

definition demo_work :: "store_op list" where
  "demo_work = [OnSession (SetActivity ''c'' 1 True 5),
     OnInput (CreateInput ''r'' ''u'' demo_input 6),
     OnInput (CompleteInput ''i1'' ''r'' 7 (Some ''e1'')),
     OnMessage (CreateMessage ''c'' demo_message 4 ''u'' 8),
     OnMessage (RecordEntry ''c'' ''m1'' ''e2'' ''r'' RelParent ''done'' 9),
     OnMessage (DeliverMessage ''m1'' ''r'' 10 3),
     OnMessage (AcknowledgeMessage ''m1'' ''r'' 11),
     OnSession (PrepareRevival ''c'' (Some ''tc2'') True None 12)]"

section \<open>Invariants\<close>

text \<open>
  C1: In every store that a sequence of operations builds from the empty one: session ids and
  the names of live siblings are unique, the tree has no live orphan and consistent depths,
  the shown activity agrees with the actor's state, message and input rows are well formed,
  every pending input has its open receipt, and no open message, task or input belongs to a
  deleted session.
\<close>

theorem reachable_store_inv: "store_inv (run e xs empty_store)"
  by (rule reachable_inv)

lemma names_distinct:
  assumes "table_inv t"
    and "\<And>a b. a \<in> set t \<Longrightarrow> b \<in> set t \<Longrightarrow> p a \<Longrightarrow> p b \<Longrightarrow> s_display_name a = s_display_name b \<Longrightarrow> name_clash a b"
  shows "distinct (map s_display_name (filter p t))"
proof -
  have "distinct t" "inj_on s_id (set t)" using assms(1) by (simp_all add: table_inv_def unique_key_def distinct_map)
  moreover have "inj_on s_display_name (set (filter p t))"
    using assms \<open>inj_on s_id (set t)\<close> unfolding table_inv_def names_ok_def inj_on_def by simp blast
  ultimately show ?thesis by (simp add: distinct_map)
qed

text \<open>
  No two live roots, and no two live children of one parent, ever have the same display name.
\<close>

theorem live_names_distinct:
  "distinct (map s_display_name (filter (\<lambda>r. live r \<and> s_kind r = Root) (sessions (run e xs empty_store))))
   \<and> distinct (map s_display_name (filter (\<lambda>r. live r \<and> s_kind r = Child \<and> s_parent r = Some p) (sessions (run e xs empty_store))))"
  using reachable_inv [of e xs]
  by (auto simp: store_inv_def sessions_inv_def name_clash_def intro!: names_distinct)

text \<open>
  The count that decides between delegating and idle is the number of live proper
  descendants that are working.
\<close>

theorem working_count_correct:
  "working_descendant_count (sessions (run e xs empty_store)) sid =
    card {r \<in> set (sessions (run e xs empty_store)). live_descendant (sessions (run e xs empty_store)) sid (s_id r)
       \<and> s_id r \<noteq> sid \<and> s_activity r = Working}"
  using reachable_inv [of e xs] by (intro working_count_card) (simp add: store_inv_def sessions_inv_def table_inv_def)

text \<open>
  The consistency diagnosis of a store that operations built never reports work that
  belongs to a deleted session.
\<close>

theorem diagnosis_clean:
  "MessageTargetsDeleted i j \<notin> set (diagnose (run e xs empty_store)) \<and> MessageAwaitsDeleted i j \<notin> set (diagnose (run e xs empty_store))
   \<and> TaskTargetsDeleted i j \<notin> set (diagnose (run e xs empty_store))"
proof -
  let ?db = "run e xs empty_store"
  have w: "work_inv ?db" using reachable_inv [of e xs] by (simp add: store_inv_def)
  have dead: "\<not> live_id ?db k" if "is_deleted ?db k" for k
    using that by (auto simp: is_deleted_def live_id_def live_def split: option.splits)
  have "filter (\<lambda>m. is_deleted ?db (m_target m) \<and> m_state m \<in> set pending_states) (messages ?db) = []"
    "filter (\<lambda>m. is_deleted ?db (m_sender m) \<and> m_state m = MAccepted) (messages ?db) = []"
    "filter (\<lambda>t. is_deleted ?db (t_child_id t) \<and> t_state t \<in> {TQueued, TSubmitted}) (tasks ?db) = []"
    using w dead by (auto simp: work_inv_def message_homed_def task_homed_def filter_empty_conv)
  then show ?thesis unfolding diagnose_def by (auto dest!: in_set_takeD split: if_splits)
qed

section \<open>Histories of messages, receipts and sessions\<close>

lemma msg_steps: "msg_step\<^sup>*\<^sup>* a b \<Longrightarrow> fst b = fst a \<and> msg_move\<^sup>*\<^sup>* (snd a) (snd b)"
  by (induction rule: rtranclp_induct) (auto simp: msg_step_def intro: rtranclp.rtrancl_into_rtrancl)

lemma msg_final: "msg_move\<^sup>*\<^sup>* a b \<Longrightarrow> a \<in> {MAcknowledged, MRejected} \<Longrightarrow> b = a"
  by (erule converse_rtranclpE) auto

lemma message_ok_row: "store_inv db \<Longrightarrow> message db i = Some m \<Longrightarrow> message_ok m"
  by (auto simp: store_inv_def messages_inv_def message_def dest: find_row_SomeD)

text \<open>
  C3: Once admitted, a message is never lost or altered: after any further operations it has the
  same sender, target and body, its state has only moved forward along accepted, queued,
  delivered, acknowledged or rejected, a final state is kept, it was delivered at most once, and
  it is queued only after its sender's transcript entry or as a lifecycle receipt.
\<close>

theorem message_history:
  assumes "message (run e xs empty_store) i = Some m"
  shows "\<exists>m'. message (run e ys (run e xs empty_store)) i = Some m' \<and> m_sender m' = m_sender m \<and> m_target m' = m_target m
    \<and> m_body m' = m_body m \<and> msg_move\<^sup>*\<^sup>* (m_state m) (m_state m')
    \<and> (m_state m \<in> {MAcknowledged, MRejected} \<longrightarrow> m_state m' = m_state m) \<and> m_attempts m' \<le> 1
    \<and> (m_state m' \<in> {MQueued, MDelivered, MAcknowledged} \<longrightarrow> m_entry m' \<noteq> None \<or> m_exit_generation m' \<noteq> None)"
proof -
  have "msg_status (run e xs empty_store) i = Some ((m_sender m, m_target m, m_body m), m_state m)"
    using assms by (simp add: msg_status_def)
  from message_run.status_run [OF reachable_inv this, where xs = ys and e = e] obtain b where
    b: "msg_status (run e ys (run e xs empty_store)) i = Some b" "msg_step\<^sup>*\<^sup>* ((m_sender m, m_target m, m_body m), m_state m) b"
    unfolding run_def by blast
  then obtain m' where m': "message (run e ys (run e xs empty_store)) i = Some m'" "b = ((m_sender m', m_target m', m_body m'), m_state m')"
    by (auto simp: msg_status_def)
  have "message_ok m'" using run_inv [OF reachable_inv] m'(1) by (rule message_ok_row)
  moreover have env: "(m_sender m', m_target m', m_body m') = (m_sender m, m_target m, m_body m)"
      "msg_move\<^sup>*\<^sup>* (m_state m) (m_state m')"
    using msg_steps [OF b(2)] unfolding m'(2) by simp_all
  moreover have "m_state m \<in> {MAcknowledged, MRejected} \<longrightarrow> m_state m' = m_state m" using msg_final [OF env(2)] by blast
  ultimately show ?thesis using m'(1) unfolding message_ok_def by (intro exI [of _ m']) blast
qed

lemma message_history_witness:
  "\<exists>m'. message (run demo_env [OnSession (Reconcile id 20)] (run demo_env (demo_admit @ demo_work) empty_store)) ''m1'' = Some m'
     \<and> m_state m' = MAcknowledged"
proof -
  have "map_option m_state (message (run demo_env (demo_admit @ demo_work) empty_store) ''m1'') = Some MAcknowledged" by code_simp
  then obtain m where m: "message (run demo_env (demo_admit @ demo_work) empty_store) ''m1'' = Some m" "m_state m = MAcknowledged" by auto
  show ?thesis using message_history [OF m(1), of "[OnSession (Reconcile id 20)]"] m(2) by auto
qed

lemma mark_final: "mark_move\<^sup>*\<^sup>* (d, h) b \<Longrightarrow> d \<noteq> None \<or> h \<noteq> None \<Longrightarrow> b = (d, h)"
  by (erule converse_rtranclpE) auto



lemma run_session: "store_inv db \<Longrightarrow> session db i = Some r \<Longrightarrow> \<exists>r'. session (run e ys db) i = Some r' \<and> session_advances r r'"
proof (induction ys arbitrary: db r)
  case (Cons y ys)
  obtain r1 where r1: "session (exec e y db) i = Some r1" "session_advances r r1" using exec_phase [OF Cons.prems] by blast
  from Cons.IH [OF exec_inv [OF Cons.prems(1)] r1(1)] r1(2) show ?case
    by (auto simp: run_def intro: session_advances_trans)
qed (simp add: run_def)

lemma phase_generation: "phase_move\<^sup>*\<^sup>* a b \<Longrightarrow> snd a \<le> snd b"
  by (induction rule: rtranclp_induct) (auto elim!: phase_move.cases)

lemma phase_deleted: "phase_move\<^sup>*\<^sup>* a b \<Longrightarrow> fst a = Deleted \<Longrightarrow> b = a"
  by (erule converse_rtranclpE) (auto elim!: phase_move.cases)

text \<open>
  C7: No operation ever removes a session or moves it in the tree, its actor generation never
  decreases, and a deleted session stays deleted at its last generation.
\<close>

theorem session_history:
  assumes "session (run e xs empty_store) i = Some r"
  shows "\<exists>r'. session (run e ys (run e xs empty_store)) i = Some r' \<and> same_place r r' \<and> s_generation r \<le> s_generation r'
    \<and> (s_lifecycle r = Deleted \<longrightarrow> s_lifecycle r' = Deleted \<and> s_generation r' = s_generation r)"
proof -
  obtain r' where r': "session (run e ys (run e xs empty_store)) i = Some r'" "session_advances r r'"
    using run_session [OF reachable_inv assms] by blast
  moreover have "phase_of (run e ys (run e xs empty_store)) i = Some (phase r)" if "s_lifecycle r = Deleted"
    unfolding run_def [of e ys]
    by (rule session_run.final_run [OF reachable_inv]) (use assms that in \<open>auto simp: phase_of_def phase_def elim!: phase_move.cases\<close>)
  ultimately show ?thesis
    using phase_generation [of "phase r" "phase r'"] by (auto simp: session_advances_def phase_of_def phase_def)
qed

lemma session_history_witness:
  "\<exists>r'. session (run demo_env [OnManage (DeleteSession ''r'' 30)] (run demo_env (demo_admit @ demo_work) empty_store)) ''c'' = Some r'
     \<and> s_depth r' = 1 \<and> 2 \<le> s_generation r'"
proof -
  have "map_option (\<lambda>r. (s_depth r, s_generation r)) (session (run demo_env (demo_admit @ demo_work) empty_store) ''c'') = Some (1, 2)" by code_simp
  then obtain r where r: "session (run demo_env (demo_admit @ demo_work) empty_store) ''c'' = Some r" "s_depth r = 1" "s_generation r = 2" by auto
  show ?thesis using session_history [OF r(1), of "[OnManage (DeleteSession ''r'' 30)]"] r(2,3) by (auto simp: same_place_def)
qed

text \<open>
  C6: An actor process of an older generation is fenced off: once a session has moved past
  generation \<open>g\<close>, every start, activity, lifecycle, failure or error report and every
  registration that names \<open>g\<close> leaves the store exactly as it is, after any further operations.
\<close>

theorem stale_generation_fenced:
  assumes "session (run e xs empty_store) sid = Some r" and "g < s_generation r"
    and "y \<in> {MarkStarted sid g pid file ident now, MarkLifecycle sid g lc err report now, SetActivity sid g streaming now,
      TurnFailure sid g tf now, LastError sid g msg now, RegisterActor p now}"
    and "ap_id p = sid" "ap_generation p = g"
  shows "exec e (OnSession y) (run e ys (run e xs empty_store)) = run e ys (run e xs empty_store)"
proof -
  let ?db = "run e ys (run e xs empty_store)"
  obtain r' where r': "session ?db sid = Some r'" "session_advances r r'" using run_session [OF reachable_inv assms(1)] by blast
  then have gen: "s_generation r' \<noteq> g"
    using assms(2) phase_generation [of "phase r" "phase r'"] by (auto simp: session_advances_def phase_def)
  have same: "x = r'" if "x \<in> set (sessions ?db)" "s_id x = sid" for x
    using inv_row_unique [OF _ r'(1)] that run_inv [OF reachable_inv] by (auto simp: store_inv_def)
  have "update_where (\<lambda>x. s_id x = sid \<and> s_generation x = g \<and> s_lifecycle x \<noteq> Deleted) f (sessions ?db) = sessions ?db" for f
    by (rule update_where_none) (use same gen in auto)
  with assms(3-5) r'(1) gen show ?thesis
    by (auto simp: exec_def exec_session_def mark_actor_started_def mark_actor_lifecycle_def set_actor_activity_def
        record_actor_turn_failure_def record_session_last_error_def register_actor_def Let_def split: option.split)
qed

lemma stale_generation_fenced_witness:
  "exec demo_env (OnSession (SetActivity ''c'' 1 False 40)) (run demo_env [] (run demo_env (demo_admit @ demo_work) empty_store))
     = run demo_env [] (run demo_env (demo_admit @ demo_work) empty_store)"
proof -
  let ?p = "\<lparr>ap_id = ''c'', ap_generation = 1, ap_token = ''tc'', ap_file = None, ap_cwd = None, ap_repository = None\<rparr>"
  have "map_option s_generation (session (run demo_env (demo_admit @ demo_work) empty_store) ''c'') = Some 2" by code_simp
  then obtain r where r: "session (run demo_env (demo_admit @ demo_work) empty_store) ''c'' = Some r" "s_generation r = 2" by auto
  show ?thesis
    by (rule stale_generation_fenced [OF r(1), where g = 1 and p = ?p and streaming = False and now = 40]) (simp_all add: r(2))
qed

section \<open>Family roots\<close>

lemma placed_root_path:
  assumes inv: "sessions_inv db" and ids: "session db [] = None"
  shows "session db i = Some r \<Longrightarrow> live r \<Longrightarrow> s_depth r \<le> max_ancestor_depth \<Longrightarrow> \<exists>q. root_path (session db) i (s_depth r) q"
proof (induction "s_depth r" arbitrary: i r)
  case 0
  then have "r \<in> set (sessions db)" by (auto simp: session_def dest: find_row_SomeD)
  with inv have "placed (sessions db) r" by (simp add: sessions_inv_def table_inv_def)
  with 0 have "s_kind r = Root" "s_parent r = None" by (auto simp: placed_def split: skind.splits)
  with 0 show ?case using root_path.at_root [of "session db" i r] session_id [of db i r] by auto
next
  case (Suc d)
  then have "r \<in> set (sessions db)" by (auto simp: session_def dest: find_row_SomeD)
  with inv have pl: "placed (sessions db) r" by (simp add: sessions_inv_def table_inv_def)
  with Suc.hyps(2) obtain p where p: "s_kind r = Child" "p \<in> set (sessions db)" "s_parent r = Some (s_id p)" "s_depth r = Suc (s_depth p)"
    "live p" using Suc.prems(2) by (auto simp: placed_def split: skind.splits)
  have sp: "session db (s_id p) = Some p"
    using inv p(2) by (simp add: sessions_inv_def table_inv_def session_def find_row_unique)
  with ids have "s_id p \<noteq> []" by auto
  moreover obtain q where "root_path (session db) (s_id p) (s_depth p) q"
    using Suc.hyps(1) [of p "s_id p"] Suc.hyps(2) p sp Suc.prems(3) by auto
  ultimately show ?case
    using Suc.prems p session_id [OF Suc.prems(1)] root_path.below [of "session db" i r "s_depth p" "s_id p" q]
    by (auto simp: parent_of_def)
qed



section \<open>Messages\<close>

lemma reachable_message_ok: "message (run e xs empty_store) i = Some m \<Longrightarrow> message_ok m"
  by (rule message_ok_row [OF reachable_inv])

text \<open>
  A message is delivered by its first delivery call: in every reachable store, with any
  positive attempt limit, a call that finds the message queued or delivered leaves it delivered,
  and the branch that rejects a message for too many delivery attempts is never taken.
\<close>

theorem delivery_attempts_unreachable:
  assumes "mark_message_delivered mid target now mx (run e xs empty_store) = Inr (db', Some (m, failed))" and "1 \<le> mx"
  shows "\<not> failed \<and> m_state m = MDelivered \<and> m_attempts m \<le> 1 \<and> message db' mid = Some m"
proof -
  obtain m0 where m0: "message (run e xs empty_store) mid = Some m0"
    using assms(1) by (auto simp: mark_message_delivered_def split: option.splits)
  have "m_state m0 = MQueued \<longrightarrow> m_attempts m0 = 0" "m_attempts m0 \<le> 1"
    using reachable_message_ok [OF m0] by (auto simp: message_ok_def)
  moreover have "message (upd_message mid f (run e xs empty_store)) mid = Some (f m0)" if "\<And>m. m_id (f m) = m_id m" for f
    using m0 that by (simp add: message_def message_tbl.lookup_modify)
  ultimately show ?thesis
    using assms m0 by (auto simp: mark_message_delivered_def Let_def split: if_splits)
qed

lemma delivery_attempts_unreachable_witness:
  "\<exists>db' m failed. mark_message_delivered ''m1'' ''r'' 10 3 (run demo_env (demo_admit @ take 5 demo_work) empty_store) = Inr (db', Some (m, failed))
     \<and> \<not> failed \<and> m_state m = MDelivered"
proof -
  let ?r = "mark_message_delivered ''m1'' ''r'' 10 3 (run demo_env (demo_admit @ take 5 demo_work) empty_store)"
  have "(case ?r of Inr (_, Some _) \<Rightarrow> True | _ \<Rightarrow> False)" by code_simp
  then obtain db' m failed where r: "?r = Inr (db', Some (m, failed))" by (auto split: sum.splits option.splits prod.splits)
  show ?thesis using delivery_attempts_unreachable [OF r] r by auto
qed

section \<open>Inputs\<close>

text \<open>
  C4: Submitting an input again under its identity after any further operations (delivery,
  handling, restart, deletion) never enqueues it a second time: the pending inputs and the set
  of receipts stay as they are.
\<close>

theorem resubmission_never_enqueues:
  assumes "create_actor_input sha stringify sid uuid p now (run e xs empty_store) = Inr (db1, x)" and "ip_id p = Some i"
    and "e_sha e = sha" "e_stringify e = stringify"
    and "create_actor_input sha' stringify' sid' uuid' p' now' (run e ys db1) = Inr (db2, y)" and "ip_id p' = Some i"
  shows "inputs db2 = inputs (run e ys db1) \<and> map r_id (receipts db2) = map r_id (receipts (run e ys db1)) \<and> r_id (fst y) = i"
proof -
  have db1: "db1 = run e (xs @ [OnInput (CreateInput sid uuid p now)]) empty_store"
    using assms(1,3,4) by (simp add: run_def exec_def exec_input_def)
  have "receipt db1 i \<noteq> None"
    using create_actor_inputD [OF assms(1)] assms(2)
    by (auto dest!: admit_inputD dest: session_activity_tables simp: receipt_def find_row_add_row receipt_tbl.lookup_modify split: option.splits)
  then obtain a where "receipt_marks db1 i = Some a" by (auto simp: receipt_marks_def)
  then have "receipt_marks (run e ys db1) i \<noteq> None"
    using receipt_run.status_run [of db1 i a e ys] reachable_inv db1 unfolding run_def by fastforce
  then have "receipt (run e ys db1) i \<noteq> None" by (auto simp: receipt_marks_def)
  with create_actor_inputD [OF assms(5)] assms(6) obtain r where
    "receipt (run e ys db1) i = Some r" "db2 = upd_receipt i (restore_metadata p') (run e ys db1)" "fst y = restore_metadata p' r"
    by auto
  then show ?thesis
    by (auto simp: modify_row_def map_key_update_where receipt_def dest: find_row_SomeD)
qed

lemma resubmission_never_enqueues_witness:
  "\<exists>db1 x db2 y. create_actor_input id (\<lambda>_. ''{}'') ''r'' ''u'' demo_input 6 (run demo_env demo_admit empty_store) = Inr (db1, x)
    \<and> create_actor_input id (\<lambda>_. ''{}'') ''r'' ''u2'' demo_input 50 (run demo_env [OnInput (CompleteInput ''i1'' ''r'' 7 (Some ''e1''))] db1) = Inr (db2, y)
    \<and> inputs db2 = inputs (run demo_env [OnInput (CompleteInput ''i1'' ''r'' 7 (Some ''e1''))] db1)"
proof -
  let ?s = "\<lambda>u t. create_actor_input id (\<lambda>_. ''{}'') ''r'' u demo_input t"
  let ?ys = "[OnInput (CompleteInput ''i1'' ''r'' 7 (Some ''e1''))]"
  have "(case ?s ''u'' 6 (run demo_env demo_admit empty_store) of Inr (db1, _) \<Rightarrow> ok (?s ''u2'' 50 (run demo_env ?ys db1)) | _ \<Rightarrow> False)"
    by code_simp
  then obtain db1 x db2 y where r: "?s ''u'' 6 (run demo_env demo_admit empty_store) = Inr (db1, x)"
    "?s ''u2'' 50 (run demo_env ?ys db1) = Inr (db2, y)"
    by (auto simp: ok_def split: sum.splits prod.splits)
  have i: "ip_id demo_input = Some ''i1''" "e_sha demo_env = id" "e_stringify demo_env = (\<lambda>_. ''{}'')"
    by (simp_all add: demo_input_def demo_env_def)
  show ?thesis using resubmission_never_enqueues [OF r(1) i r(2) i(1)] r by blast
qed

section \<open>Concrete applications of the properties of the components\<close>

lemma result_cases: "ok r \<Longrightarrow> (\<And>s x. r = Inr (s, x) \<Longrightarrow> P) \<Longrightarrow> P"
  by (cases r) auto

lemma submit_replay_idempotent_witness:
  "\<exists>db' x. create_actor_input id (\<lambda>_. ''{}'') ''r'' ''u'' demo_input 6 (run demo_env demo_admit empty_store) = Inr (db', x)
     \<and> create_actor_input id (\<lambda>_. ''{}'') ''r'' ''v'' demo_input 60 db' = Inr (db', x)"
proof -
  have "ok (create_actor_input id (\<lambda>_. ''{}'') ''r'' ''u'' demo_input 6 (run demo_env demo_admit empty_store))" by code_simp
  then obtain db' x where r: "create_actor_input id (\<lambda>_. ''{}'') ''r'' ''u'' demo_input 6 (run demo_env demo_admit empty_store) = Inr (db', x)"
    by (rule result_cases)
  have "inputs_inv (run demo_env demo_admit empty_store)" using reachable_inv [of demo_env demo_admit] by (simp add: store_inv_def)
  then show ?thesis using submit_replay_idempotent [OF r, of "''i1''"] r by (auto simp: demo_input_def)
qed

lemma submit_within_limits_witness:
  "\<exists>db' x. create_actor_input id (\<lambda>_. ''{}'') ''r'' ''u'' demo_input 6 (run demo_env demo_admit empty_store) = Inr (db', x)
     \<and> session_pending db' ''r'' \<le> 2 \<and> session_bytes db' ''r'' \<le> 100 \<and> global_bytes db' \<le> 200"
proof -
  let ?r = "create_actor_input id (\<lambda>_. ''{}'') ''r'' ''u'' demo_input 6 (run demo_env demo_admit empty_store)"
  have "(case ?r of Inr (db', _) \<Rightarrow> length (inputs db') \<noteq> length (inputs (run demo_env demo_admit empty_store)) | _ \<Rightarrow> False)" by code_simp
  then obtain db' x where r: "?r = Inr (db', x)" "inputs db' \<noteq> inputs (run demo_env demo_admit empty_store)"
    by (cases ?r) fastforce+
  show ?thesis using submit_within_limits [OF r] r by (auto simp: demo_input_def)
qed

lemma create_message_admits_witness:
  "\<exists>db' m. create_message ''c'' demo_message 4 ''u'' 8 (run demo_env demo_admit empty_store) = Inr (db', m)
     \<and> m_relationship m \<noteq> RelSelf \<and> pending_count db' (m_target m) \<le> 4"
proof -
  let ?r = "create_message ''c'' demo_message 4 ''u'' 8 (run demo_env demo_admit empty_store)"
  have "(case ?r of Inr (db', _) \<Rightarrow> length (messages db') \<noteq> length (messages (run demo_env demo_admit empty_store)) | _ \<Rightarrow> False)" by code_simp
  then obtain db' m where r: "?r = Inr (db', m)" "messages db' \<noteq> messages (run demo_env demo_admit empty_store)"
    by (cases ?r) fastforce+
  show ?thesis using create_message_admits [OF r] r by auto
qed

lemma create_message_idempotent_witness:
  "\<exists>db' m. create_message ''c'' demo_message 4 ''u'' 8 (run demo_env demo_admit empty_store) = Inr (db', m)
     \<and> create_message ''c'' demo_message 0 ''v'' 80 db' = Inr (db', m)"
proof -
  let ?r = "create_message ''c'' demo_message 4 ''u'' 8 (run demo_env demo_admit empty_store)"
  have "ok ?r" by code_simp
  then obtain db' m where r: "?r = Inr (db', m)" by (rule result_cases)
  show ?thesis using create_message_idempotent [OF r, of "''m1''" 0 "''v''" 80] r by (simp add: demo_message_def)
qed

lemma ancestors_show_activity_witness:
  "\<exists>db' x a'. set_actor_activity ''c'' 1 True 5 (run demo_env demo_admit empty_store) = Inr (db', x) \<and> session db' ''r'' = Some a'
     \<and> s_activity a' = shown_activity a' (working_descendant_count (sessions db') ''r'')"
proof -
  let ?db = "run demo_env demo_admit empty_store"
  have "ok (set_actor_activity ''c'' 1 True 5 ?db)" by code_simp
  then obtain db' x where r: "set_actor_activity ''c'' 1 True 5 ?db = Inr (db', x)" by (rule result_cases)
  have "(case session ?db ''c'' of None \<Rightarrow> False | Some c \<Rightarrow>
      ''r'' \<in> s_id ` set (chain (length (sessions ?db)) (sessions ?db) [] (parent_of c)))" by code_simp
  then obtain c a where c: "session ?db ''c'' = Some c" "a \<in> set (chain (length (sessions ?db)) (sessions ?db) [] (parent_of c))" "s_id a = ''r''"
    by (auto split: option.splits)
  have "sessions_inv ?db" using reachable_inv [of demo_env demo_admit] by (simp add: store_inv_def)
  then show ?thesis using ancestors_show_activity [OF r _ c(1,2)] r c(3) by auto
qed

end
