(* ===== verification/PolicyHistory.thy ===== *)
theory PolicyHistory
  imports Histories
begin

text \<open>
  Moving the default model over a reachable store: the dry run announces exactly the sessions that
  the move changes, the move is one simultaneous update of them, and a second move finds nothing.
\<close>

section \<open>A moved row is no longer on the old model\<close>

lemma jget_plain: "jget k v \<noteq> Undef \<Longrightarrow> is_plain_object v"
  by (cases v) (auto simp: jget_def is_plain_object_def)

lemma is_model_plain: "is_model v p i \<Longrightarrow> is_plain_object v"
  using jget_plain [of "''id''" v] by (simp add: is_model_def)

lemma on_model_plain:
  assumes "is_model (resolved_model l) p i"
  shows "is_plain_object l" "is_plain_object (jget ''model'' l)"
proof -
  have "is_plain_object (jget ''resolved'' (jget ''model'' l))" using is_model_plain assms by (auto simp: resolved_model_def)
  then have "jget ''resolved'' (jget ''model'' l) \<noteq> Undef" by (auto simp: is_plain_object_def)
  then show m: "is_plain_object (jget ''model'' l)" by (rule jget_plain)
  then have "jget ''model'' l \<noteq> Undef" by (auto simp: is_plain_object_def)
  then show "is_plain_object l" by (rule jget_plain)
qed

definition rewritten :: "retarget \<Rightarrow> session_row list \<Rightarrow> (string \<Rightarrow> string) \<Rightarrow> int \<Rightarrow> session_row \<Rightarrow> session_row" where
  "rewritten g t fresh now r = (if moves g t r then moved_row g fresh now r else r)"

lemma rewritten_same [simp]: "s_id (rewritten g t fresh now r) = s_id r" "s_parent (rewritten g t fresh now r) = s_parent r"
  "s_deleted_at (rewritten g t fresh now r) = s_deleted_at r" "s_lifecycle (rewritten g t fresh now r) = s_lifecycle r"
  by (simp_all add: rewritten_def moved_row_def)

lemma moves_model: "moves g t r \<Longrightarrow> is_model (resolved_model (launch_of r)) (rg_provider g) (rg_model g)"
  by (auto simp: moves_def retarget_class_of_def Let_def split: if_splits)

lemma launch_moved [simp]: "launch_of (moved_row g fresh now r) = moved_launch g (fresh (s_id r)) r"
  by (simp add: moved_row_def launch_of_def)

lemma moved_source:
  assumes "is_model (resolved_model (launch_of r)) p i"
  shows "jget ''source'' (jget ''model'' (moved_launch g u r)) = jget ''source'' (jget ''model'' (launch_of r))"
  using on_model_plain [OF assms] by (auto simp: moved_launch_def Let_def jget_jset with_field_def)

lemma rewritten_source: "jget ''source'' (jget ''model'' (launch_of (rewritten g t fresh now r))) = jget ''source'' (jget ''model'' (launch_of r))"
  by (auto simp: rewritten_def moves_model [THEN moved_source])

lemma follows_rewritten: "follows n (map (rewritten g t fresh now) t') (Some (rewritten g t fresh now r)) = follows n t' (Some r)"
proof (induction n arbitrary: r)
  case 0
  show ?case by (simp add: rewritten_source Let_def)
next
  case (Suc n)
  have found: "find_row s_id (map (rewritten g t fresh now) t') p = map_option (rewritten g t fresh now) (find_row s_id t' p)" for p
    using find_row_update [where key = s_id and p = "\<lambda>_. True" and f = "rewritten g t fresh now" and t = t' and k = p] by (simp add: update_where_def)
  have "follows n (map (rewritten g t fresh now) t') (find_row s_id (map (rewritten g t fresh now) t') p) = follows n t' (find_row s_id t' p)" for p
    unfolding found by (cases "find_row s_id t' p") (simp_all only: option.map Suc.IH follows.simps(1))
  then show ?case by (simp add: rewritten_source Let_def split: option.split)
qed

lemma moved_settled:
  assumes "is_model (resolved_model (launch_of r)) (rg_provider g) (rg_model g)" "(rg_to_provider g, rg_to_model g) \<noteq> (rg_provider g, rg_model g)"
  shows "\<not> is_model (resolved_model (moved_launch g u r)) (rg_provider g) (rg_model g) \<or> truthy (pending_inference (moved_launch g u r))"
  using on_model_plain [OF assms(1)] assms(2)
  by (auto simp: moved_launch_def Let_def jget_jset with_field_def pending_inference_def truthy_def resolved_model_def
      is_model_def model_ref_def jget_def [of _ "JObj _"])

lemma rewritten_settled:
  assumes "rg_apply g" "(rg_to_provider g, rg_to_model g) \<noteq> (rg_provider g, rg_model g)"
  shows "retarget_class_of g (map (rewritten g t fresh now) t) (rewritten g t fresh now r) \<noteq> Some Moved"
proof (cases "moves g t r")
  case True
  show ?thesis
    using moved_settled [OF moves_model [OF True] assms(2), of "fresh (s_id r)"] True
    by (auto simp: retarget_class_of_def Let_def rewritten_def)
next
  case False
  have "retarget_class_of g (map (rewritten g t fresh now) t) (rewritten g t fresh now r) = retarget_class_of g t r"
    using follows_rewritten [of max_follow_depth g t fresh now t r] False
    unfolding retarget_class_of_def by (simp add: rewritten_def)
  then show ?thesis using False assms(1) by (simp add: moves_def)
qed

section \<open>The report\<close>

definition moved_entry :: "retarget \<Rightarrow> session_row \<Rightarrow> string \<times> string \<times> bool" where
  "moved_entry g r = (s_id r, s_display_name r, s_id r \<in> set (rg_live g))"

lemma report_moved: "rr_moved (report_row g c r rep) = rr_moved rep @ (if c = Some Moved then [moved_entry g r] else [])"
  by (simp add: report_row_def moved_entry_def split: option.split retarget_class.split)

lemma loop_moved: "rr_moved (snd (retarget_loop g fresh now t rs rep db))
    = rr_moved rep @ map (moved_entry g) (filter (\<lambda>r. retarget_class_of g t r = Some Moved) rs)"
  by (induction rs arbitrary: rep db) (simp_all add: report_moved Let_def)

lemma report_of_moved: "rr_moved (snd (retarget_default_inference g fresh now db))
    = map (moved_entry g) (filter (\<lambda>r. retarget_class_of g (retarget_rows db) r = Some Moved) (retarget_rows db))"
  by (simp add: retarget_default_inference_def loop_moved)

lemma retarget_dry: "snd (retarget_default_inference (g\<lparr>rg_apply := b\<rparr>) fresh' now' db) = snd (retarget_default_inference g fresh now db)"
  by (simp add: retarget_default_inference_def retarget_report_dry)

lemma filter_rewrite: "(\<And>r. q (f r) = q r) \<Longrightarrow> filter q (map f xs) = map f (filter q xs)"
  by (induction xs) auto

lemma retarget_rows_rewritten:
  assumes "unique_key s_id (sessions db)"
  shows "retarget_rows (fst (retarget_default_inference g fresh now db)) = map (rewritten g (retarget_rows db) fresh now) (retarget_rows db)"
proof -
  define f where "f r = (if r \<in> set (retarget_rows db) then rewritten g (retarget_rows db) fresh now r else r)" for r
  have rows: "sessions (fst (retarget_default_inference g fresh now db)) = map f (sessions db)"
    by (simp add: retarget_rows_update [OF assms] update_where_def rewritten_def f_def cong: map_cong)
  have "s_deleted_at (f r) = s_deleted_at r" "live (f r) = live r" for r by (simp_all add: f_def live_def)
  then have "retarget_rows (fst (retarget_default_inference g fresh now db)) = map f (retarget_rows db)"
    unfolding retarget_rows_def [of "fst _"] rows by (subst filter_rewrite) (simp_all add: retarget_rows_def)
  also have "\<dots> = map (rewritten g (retarget_rows db) fresh now) (retarget_rows db)" by (rule map_cong) (simp_all add: f_def)
  finally show ?thesis .
qed

lemma retarget_settled:
  assumes "unique_key s_id (sessions db)" "rg_apply g" "(rg_to_provider g, rg_to_model g) \<noteq> (rg_provider g, rg_model g)"
  shows "rr_moved (snd (retarget_default_inference g fresh' now' (fst (retarget_default_inference g fresh now db)))) = []"
  unfolding report_of_moved retarget_rows_rewritten [OF assms(1)] filter_map o_def
  using rewritten_settled [OF assms(2,3)] by simp

lemma dry_run_store: "fst (retarget_default_inference (g\<lparr>rg_apply := False\<rparr>) fresh now db) = db"
proof -
  have "fst (retarget_loop (g\<lparr>rg_apply := False\<rparr>) fresh now t rs rep d) = d" for t rs rep d
    by (induction rs arbitrary: rep) (simp_all add: Let_def)
  then show ?thesis by (simp add: retarget_default_inference_def)
qed

lemma moved_ids:
  assumes "unique_key s_id (sessions db)" "session db i = Some r" "rg_apply g"
  shows "i \<in> fst ` set (rr_moved (snd (retarget_default_inference g fresh now db)))
    \<longleftrightarrow> r \<in> set (retarget_rows db) \<and> moves g (retarget_rows db) r"
proof -
  have r: "r \<in> set (sessions db)" "s_id r = i" using assms(2) by (auto simp: session_def dest: find_row_SomeD)
  have same: "x = r" if "x \<in> set (sessions db)" "s_id x = i" for x
    using assms(1) r that by (auto simp: unique_key_def distinct_map dest: inj_onD)
  have rows: "x \<in> set (sessions db)" if "x \<in> set (retarget_rows db)" for x using that by (simp add: retarget_rows_def)
  have "i \<in> fst ` set (map (moved_entry g) (filter q (retarget_rows db))) \<longleftrightarrow> r \<in> set (retarget_rows db) \<and> q r" for q
    using same rows r(2) by (fastforce simp: moved_entry_def image_iff)
  then show ?thesis unfolding report_of_moved using assms(3) by (simp add: moves_def)
qed

lemma retarget_session:
  assumes "unique_key s_id (sessions db)" "rg_apply g"
  shows "session (fst (retarget_default_inference g fresh now db)) i
    = map_option (\<lambda>r. if i \<in> fst ` set (rr_moved (snd (retarget_default_inference g fresh now db))) then moved_row g fresh now r else r) (session db i)"
proof (cases "session db i")
  case None
  then show ?thesis by (simp add: retarget_rows_update [OF assms(1)] session_def find_row_update moved_row_def)
next
  case (Some r)
  have "find_row s_id (sessions db) i = Some r" using Some by (simp add: session_def)
  with Some show ?thesis
    by (simp add: moved_ids [OF assms(1) Some assms(2)] retarget_rows_update [OF assms(1)] session_def find_row_update moved_row_def)
qed

lemma reachable_unique: "unique_key s_id (sessions (run e xs empty_store))"
  by (rule store_inv_unique [OF reachable_inv])

text \<open>
  C32: Moving the default in a reachable store does exactly what the dry run announces: the dry run
  changes nothing and gives the same report; the move rewrites the launch of exactly the reported
  sessions, all from the rows as they were, and touches no other table; a second move finds nothing to move.
\<close>

theorem retarget_as_announced:
  assumes "rg_apply g" and "(rg_to_provider g, rg_to_model g) \<noteq> (rg_provider g, rg_model g)"
    and "retarget_default_inference (g\<lparr>rg_apply := False\<rparr>) fresh now (run e xs empty_store) = (dry, announced)"
    and "retarget_default_inference g fresh now (run e xs empty_store) = (db', report)"
  shows "dry = run e xs empty_store \<and> report = announced
    \<and> session db' i = map_option (\<lambda>r. if i \<in> fst ` set (rr_moved announced) then moved_row g fresh now r else r) (session (run e xs empty_store) i)
    \<and> db' = sessions_update (\<lambda>_. sessions db') (run e xs empty_store)
    \<and> rr_moved (snd (retarget_default_inference g fresh' now' db')) = []"
proof -
  let ?db = "run e xs empty_store"
  have out: "dry = ?db" "report = announced"
    using assms(3,4) dry_run_store [of g fresh now ?db] retarget_dry [where g = g and b = False and fresh = fresh and fresh' = fresh and now = now and now' = now and db = ?db] by simp_all
  have step: "fst (retarget_default_inference g fresh now ?db) = db'" "snd (retarget_default_inference g fresh now ?db) = announced"
    using assms(4) out(2) by simp_all
  have "db' = sessions_update (\<lambda>_. sessions db') ?db"
    using retarget_rows_update [OF reachable_unique, of g fresh now e xs] unfolding step by (erule_tac ssubst) simp
  then show ?thesis
    using out retarget_session [OF reachable_unique [of e xs] assms(1), of fresh now i]
      retarget_settled [OF reachable_unique [of e xs] assms(1,2), of fresh' now' fresh now]
    unfolding step by blast
qed

definition demo_retarget :: retarget where
  "demo_retarget = \<lparr>rg_provider = ''p'', rg_model = ''a'', rg_to_provider = ''p'', rg_to_model = ''b'', rg_to_fast = False,
     rg_live = [''r''], rg_thinking = id, rg_apply = True\<rparr>"

definition demo_selection :: selection where
  "demo_selection = \<lparr>sl_provider = ''p'', sl_model = ''a'', sl_thinking = JStr ''low'', sl_fast = False, sl_window = None\<rparr>"

lemma retarget_as_announced_witness:
  "session (fst (retarget_default_inference demo_retarget id 30 (run demo_env (demo_admit @ [OnInference (RecordResolved ''r'' 1 demo_selection 20)]) empty_store))) ''r''
    \<noteq> session (run demo_env (demo_admit @ [OnInference (RecordResolved ''r'' 1 demo_selection 20)]) empty_store) ''r''"
proof -
  let ?db = "run demo_env (demo_admit @ [OnInference (RecordResolved ''r'' 1 demo_selection 20)]) empty_store"
  obtain dry announced where dry: "retarget_default_inference (demo_retarget\<lparr>rg_apply := False\<rparr>) id 30 ?db = (dry, announced)" by fastforce
  obtain db' report where run: "retarget_default_inference demo_retarget id 30 ?db = (db', report)" by fastforce
  have "rr_moved (snd (retarget_default_inference (demo_retarget\<lparr>rg_apply := False\<rparr>) id 30 ?db)) = [(''r'', ''root'', True)]" by code_simp
  then have moved: "''r'' \<in> fst ` set (rr_moved announced)" using dry by simp
  have "map_option s_updated_at (session ?db ''r'') = Some 20" by code_simp
  then obtain r where r: "session ?db ''r'' = Some r" "s_updated_at r = 20" by auto
  have "session db' ''r'' = Some (moved_row demo_retarget id 30 r)"
    using retarget_as_announced [OF _ _ dry run] moved r(1) by (simp add: demo_retarget_def)
  moreover have "moved_row demo_retarget id 30 r \<noteq> r" using r(2) by (auto simp: moved_row_def dest: arg_cong [where f = s_updated_at])
  ultimately show ?thesis using run r(1) by simp
qed

end
