(* ===== verification/Listing.thy ===== *)
theory Listing
  imports Ledger "HOL-Library.Multiset"
begin

text \<open>
  The reading operations of src/store.mjs: the roster of a caller, the sessions it may search, the
  bounded page of the navigator, usage and telemetry totals and operational counts. \<open>localeCompare\<close>
  compares by collation keys, which \<open>ck\<close> gives.
\<close>

section \<open>Lineages\<close>

text \<open>
  The loop over ancestors as the code has it, without a bound: the value \<open>None\<close> is a loop that
  does not return. \<open>nm\<close> is the name that a row contributes.
\<close>

partial_function (option) lineage_loop :: "(session_row \<Rightarrow> string) \<Rightarrow> session_row list \<Rightarrow> session_row \<Rightarrow> string list \<Rightarrow> string list \<Rightarrow> string list option" where
  "lineage_loop nm t r seen names = (case parent_of r of
      None \<Rightarrow> Some names
    | Some p \<Rightarrow> (case find_row s_id t p of
        None \<Rightarrow> Some names
      | Some q \<Rightarrow> if s_id q \<in> set seen then Some names else lineage_loop nm t q (s_id q # seen) (nm q # names)))"

definition lineage :: "(session_row \<Rightarrow> string) \<Rightarrow> session_row list \<Rightarrow> session_row \<Rightarrow> string option" where
  "lineage nm t r = map_option (join_with ''/'') (lineage_loop nm t r [s_id r] [nm r])"

section \<open>The roster\<close>

record roster_entry =
  re_session :: session_row
  re_lineage :: "string option"
  re_relationship :: relationship
  re_working :: nat

definition get_roster :: "(string \<Rightarrow> string) \<Rightarrow> store \<Rightarrow> string \<Rightarrow> roster_entry list result" where
  "get_roster ck db caller_id = (let rows = filter live (sessions db) in
     case find (\<lambda>r. s_id r = caller_id) rows of
       None \<Rightarrow> Inl (Thrown ''caller session does not exist'')
     | Some caller \<Rightarrow> Inr (sort_key (\<lambda>e. (re_relationship e \<noteq> RelSelf, s_activity (re_session e), ck (s_display_name (re_session e)), ck (s_id (re_session e))))
         (map (\<lambda>r. \<lparr>re_session = r, re_lineage = lineage s_display_name rows r, re_relationship = the (relationship_between caller r),
             re_working = working_descendant_count (sessions db) (s_id r)\<rparr>) (roster_members db caller))))"

section \<open>Searchable sessions\<close>

definition deleted_suffix :: "session_row \<Rightarrow> string" where
  "deleted_suffix r = ''-deleted-'' @ s_short_id r"

definition ends_with :: "string \<Rightarrow> string \<Rightarrow> bool" where
  "ends_with s e \<longleftrightarrow> length e \<le> length s \<and> drop (length s - length e) s = e"

definition historical_name :: "session_row \<Rightarrow> string" where
  "historical_name r = (if s_lifecycle r = Deleted \<and> ends_with (s_display_name r) (deleted_suffix r)
     then take (length (s_display_name r) - length (deleted_suffix r)) (s_display_name r) else s_display_name r)"

record search_entry =
  se_session :: session_row
  se_name :: string
  se_lineage :: "string option"
  se_fast :: "fast_preference option"

definition list_searchable_sessions :: "(string \<Rightarrow> string) \<Rightarrow> store \<Rightarrow> string \<Rightarrow> bool \<Rightarrow> bool \<Rightarrow> bool \<Rightarrow> search_entry list result" where
  "list_searchable_sessions ck db caller_id include_deleted include_self include_fast = (case session db caller_id of
      None \<Rightarrow> Inl (Thrown ''caller session does not exist'')
    | Some caller \<Rightarrow>
        if s_lifecycle caller = Deleted then Inl (Thrown ''caller session does not exist'')
        else (let rows = filter (\<lambda>r. s_family_id r = s_family_id caller \<and> s_session_file r \<noteq> None) (sessions db)
          in Inr (sort_key (\<lambda>e. (- s_updated_at (se_session e), ck (s_id (se_session e))))
               (map (\<lambda>r. \<lparr>se_session = r, se_name = historical_name r, se_lineage = lineage historical_name rows r,
                   se_fast = (if include_fast then Some (resolve_fast_mode (s_id r) (session db)) else None)\<rparr>)
                 (filter (\<lambda>r. (include_deleted \<or> live r) \<and> (include_self \<or> s_id r \<noteq> s_id caller)) rows)))))"

section \<open>The navigator\<close>

definition max_navigator_sessions :: nat where
  "max_navigator_sessions = 512"

definition open_work :: "store \<Rightarrow> session_row \<Rightarrow> bool" where
  "open_work db r \<longleftrightarrow> list_ex (\<lambda>i. i_session i = s_id r) (inputs db)
     \<or> list_ex (\<lambda>t. t_child_id t = s_id r \<and> t_state t \<in> {TQueued, TSubmitted}) (tasks db)
     \<or> list_ex (\<lambda>m. m_target m = s_id r \<and> m_state m \<in> {MQueued, MDelivered}) (messages db)"

definition navigator_rank :: "store \<Rightarrow> string list \<Rightarrow> session_row \<Rightarrow> nat" where
  "navigator_rank db preferred r =
     (if s_id r \<in> set preferred then 0 else if s_activity r = Working then 1 else if s_activity r = Delegating then 2
      else if s_lifecycle r = Starting then 3 else if open_work db r then 4 else if s_lifecycle r = Resident then 5 else 6)"

text \<open>A row of rank 6 is in none of the classes that the query selects.\<close>

definition priority_rows :: "store \<Rightarrow> string list \<Rightarrow> nat \<Rightarrow> session_row list" where
  "priority_rows db preferred limit = take limit
     (sort_key (\<lambda>r. (navigator_rank db preferred r, - s_updated_at r, - s_created_at r))
       (rev (sort_key s_id (filter (\<lambda>r. live r \<and> navigator_rank db preferred r < 6) (sessions db)))))"

definition newest_rows :: "store \<Rightarrow> nat \<Rightarrow> session_row list" where
  "newest_rows db limit = take limit (rev (sort_key (\<lambda>r. (s_created_at r, s_id r)) (filter live (sessions db))))"

text \<open>The first row of every id.\<close>

fun merge_rows :: "session_row list \<Rightarrow> session_row list \<Rightarrow> session_row list" where
  "merge_rows acc [] = acc"
| "merge_rows acc (r # rs) = merge_rows (if find_row s_id acc (s_id r) = None then acc @ [r] else acc) rs"

text \<open>\<open>parent_chain\<close>: the parents within \<open>n\<close> steps, level by level.\<close>

fun parents_within :: "session_row list \<Rightarrow> nat \<Rightarrow> string list \<Rightarrow> string list" where
  "parents_within t 0 ids = []"
| "parents_within t (Suc n) ids = (let ps = remdups (List.map_filter (\<lambda>i. case find_row s_id t i of Some r \<Rightarrow> s_parent r | None \<Rightarrow> None) ids)
     in ps @ parents_within t n ps)"

definition context_rows :: "store \<Rightarrow> string list \<Rightarrow> nat \<Rightarrow> session_row list" where
  "context_rows db ids limit = take (limit * max_ancestor_depth) (sort_key (\<lambda>r. (s_depth r, s_created_at r, s_id r))
     (filter (\<lambda>r. live r \<and> s_id r \<in> set (parents_within (sessions db) max_ancestor_depth ids)) (sessions db)))"

text \<open>A row and its ancestors, root first; the bound leaves room for one row more than the depth.\<close>

fun nav_chain :: "nat \<Rightarrow> session_row list \<Rightarrow> session_row option \<Rightarrow> session_row list \<Rightarrow> session_row list" where
  "nav_chain 0 t r acc = acc"
| "nav_chain (Suc n) t None acc = acc"
| "nav_chain (Suc n) t (Some r) acc = (if s_id r \<in> set (map s_id acc) then acc
     else nav_chain n t (case parent_of r of Some p \<Rightarrow> find_row s_id t p | None \<Rightarrow> None) (r # acc))"

definition ancestry :: "session_row list \<Rightarrow> session_row \<Rightarrow> session_row list" where
  "ancestry t r = nav_chain (Suc max_ancestor_depth) t (Some r) []"

text \<open>A candidate is taken with all its missing ancestors or not at all.\<close>

fun select_rows :: "nat \<Rightarrow> session_row list \<Rightarrow> session_row list \<Rightarrow> string list \<Rightarrow> string list" where
  "select_rows limit t [] sel = sel"
| "select_rows limit t (c # cs) sel = (let
      missing = filter (\<lambda>r. s_id r \<notin> set sel) (ancestry t c);
      sel' = (if length sel + length missing \<le> limit then sel @ map s_id missing else sel)
    in if length sel' = limit then sel' else select_rows limit t cs sel')"

definition working_counts :: "store \<Rightarrow> nat \<Rightarrow> string \<Rightarrow> nat" where
  "working_counts db limit i = length (filter (\<lambda>w. i \<in> set (parents_within (sessions db) max_ancestor_depth [s_id w]))
     (take limit (sort_key (\<lambda>r. (- s_updated_at r, s_id r)) (filter (\<lambda>r. live r \<and> s_activity r = Working) (sessions db)))))"

record nav_entry =
  ve_session :: session_row
  ve_working :: nat
  ve_fast :: fast_preference
  ve_lineage :: string

record nav_page =
  np_sessions :: "nav_entry list"
  np_total :: nat
  np_truncated :: bool

definition known_rows :: "store \<Rightarrow> string list \<Rightarrow> nat \<Rightarrow> session_row list" where
  "known_rows db preferred limit = (let candidates = merge_rows [] (priority_rows db preferred limit @ newest_rows db limit)
     in merge_rows candidates (context_rows db (map s_id candidates) limit))"

definition selected_ids :: "store \<Rightarrow> string list \<Rightarrow> nat \<Rightarrow> string list" where
  "selected_ids db preferred limit = select_rows limit (known_rows db preferred limit)
     (merge_rows [] (take (max 1 (limit div 8)) (newest_rows db limit) @ priority_rows db preferred limit @ newest_rows db limit)) []"

definition list_navigator_sessions :: "(string \<Rightarrow> string) \<Rightarrow> store \<Rightarrow> int \<Rightarrow> string list \<Rightarrow> nav_page result" where
  "list_navigator_sessions ck db bound preferred_ids =
     (if bound < 1 \<or> int max_navigator_sessions < bound then Inl (Thrown ''navigator limit must be from 1 through 512'')
      else (let limit = nat bound; preferred = take limit (rev (remdups (rev (filter (\<lambda>i. i \<noteq> []) preferred_ids)))); total_live = length (filter live (sessions db))
        in if total_live = 0 then Inr \<lparr>np_sessions = [], np_total = 0, np_truncated = False\<rparr>
           else (let
               rows = known_rows db preferred limit;
               chosen = sort_key (\<lambda>r. (s_created_at r, ck (s_id r))) (List.map_filter (find_row s_id rows) (selected_ids db preferred limit));
               entries = map (\<lambda>r. \<lparr>ve_session = r, ve_working = working_counts db limit (s_id r), ve_fast = resolve_fast_mode (s_id r) (find_row s_id rows),
                 ve_lineage = join_with ''/'' (map s_display_name (ancestry rows r))\<rparr>) chosen
             in Inr \<lparr>np_sessions = entries, np_total = total_live, np_truncated = length entries < total_live\<rparr>)))"

section \<open>Telemetry and usage\<close>

record flow =
  fl_input :: nat
  fl_output :: nat
  fl_cache_read :: nat
  fl_cache_write :: nat
  fl_reasoning :: nat
  fl_total :: nat
  fl_hit :: "rat option"

definition flow_of :: "usage_totals \<Rightarrow> flow" where
  "flow_of u = (let denominator = ut_input u + ut_cache_read u + ut_cache_write u in
     \<lparr>fl_input = ut_input u, fl_output = ut_output u, fl_cache_read = ut_cache_read u, fl_cache_write = ut_cache_write u,
      fl_reasoning = ut_reasoning u, fl_total = ut_total u,
      fl_hit = (if 0 < denominator then Some (of_nat (ut_cache_read u) / of_nat denominator) else None)\<rparr>)"

record telemetry =
  te_entries :: nat
  te_session :: flow
  te_latest :: "(string \<times> string \<times> flow) option"
  te_context :: "(nat option \<times> nat \<times> rat option) option"

text \<open>The latest entry is the last one by time; entries of one time are in the order of insertion.\<close>

definition get_session_telemetry :: "store \<Rightarrow> string \<Rightarrow> telemetry result" where
  "get_session_telemetry db sid =
     (if session db sid = None then Inl (Thrown ''session does not exist'')
      else (let mine = filter (\<lambda>u. u_session u = sid) (usage db) in Inr
        \<lparr>te_entries = length mine, te_session = flow_of (load_usage_summary mine),
         te_latest = (if mine = [] then None else (let u = last (sort_key u_recorded_at mine) in
            Some (u_provider u, u_model u, flow_of (load_usage_summary [u])))),
         te_context = map_option (\<lambda>c. (c_tokens c, c_window c, c_percent c)) (find_row c_session (contexts db) sid)\<rparr>))"

text \<open>The totals of the models, recomputed from the table or updated in the cache.\<close>

record model_total =
  mo_model :: "string \<times> string"   \<comment> \<open>provider and model\<close>
  mo_entries :: nat
  mo_total :: nat
  mo_cost :: rat

definition u_key :: "usage_row \<Rightarrow> string \<times> string" where
  "u_key u = (u_provider u, u_model u)"

definition model_total_of :: "usage_row list \<Rightarrow> string \<times> string \<Rightarrow> model_total" where
  "model_total_of t k = (let mine = filter (\<lambda>u. u_key u = k) t in
     \<lparr>mo_model = k, mo_entries = length mine, mo_total = sum_list (map u_total mine), mo_cost = sum_list (map u_cost mine)\<rparr>)"

definition load_models :: "usage_row list \<Rightarrow> model_total list" where
  "load_models t = map (model_total_of t) (remdups (map u_key t))"

definition bump_model :: "usage_row \<Rightarrow> model_total \<Rightarrow> model_total" where
  "bump_model u m = m\<lparr>mo_entries := mo_entries m + 1, mo_total := mo_total m + u_total u, mo_cost := mo_cost m + u_cost u\<rparr>"

definition add_model_usage :: "usage_row \<Rightarrow> model_total list \<Rightarrow> model_total list" where
  "add_model_usage u ms =
     (if find_row mo_model ms (u_key u) = None then ms @ [\<lparr>mo_model = u_key u, mo_entries = 1, mo_total = u_total u, mo_cost = u_cost u\<rparr>]
      else modify_row mo_model (u_key u) (bump_model u) ms)"

definition top_models :: "model_total list \<Rightarrow> model_total list" where
  "top_models ms = take 64 (sort_key (\<lambda>m. (- int (mo_total m), mo_model m)) ms)"

definition get_usage_summary :: "(usage_totals \<times> model_total list) option \<Rightarrow> usage_row list \<Rightarrow> usage_totals \<times> model_total list" where
  "get_usage_summary cache t = (case cache of
      Some (totals, ms) \<Rightarrow> (totals, top_models ms)
    | None \<Rightarrow> (load_usage_summary t, top_models (load_models t)))"

section \<open>The usage window\<close>

definition window_fields :: "usage_row list \<Rightarrow> (string \<times> rat) list" where
  "window_fields t = (let u = load_usage_summary t in
     [(''entries'', of_nat (length t)), (''sessions'', of_nat (length (remdups (map u_session t)))), (''inputTokens'', of_nat (ut_input u)),
      (''outputTokens'', of_nat (ut_output u)), (''cacheReadTokens'', of_nat (ut_cache_read u)), (''cacheWriteTokens'', of_nat (ut_cache_write u)),
      (''reasoningTokens'', of_nat (ut_reasoning u)), (''totalTokens'', of_nat (ut_total u)), (''estimatedCost'', ut_cost u)])"

text \<open>Every total is cut at the largest safe integer and says whether it was.\<close>

definition saturate :: "rat \<Rightarrow> rat \<times> bool" where
  "saturate x = (if of_int max_safe < x then (of_int max_safe, True) else (x, False))"

definition project_window :: "usage_row list \<Rightarrow> (string \<times> rat \<times> bool) list" where
  "project_window t = map (\<lambda>(k, x). (k, saturate x)) (window_fields t)"

record window_report =
  uw_since :: int
  uw_aggregate :: "(string \<times> rat \<times> bool) list"
  uw_models :: "((string \<times> string) \<times> (string \<times> rat \<times> bool) list) list"
  uw_truncated :: bool

definition get_usage_window :: "store \<Rightarrow> int \<Rightarrow> int \<Rightarrow> window_report result" where
  "get_usage_window db minutes observed =
     (if minutes < 1 \<or> 10080 < minutes then Inl (Thrown ''usage window must be an integer from 1 through 10080 minutes'')
      else if observed < 0 \<or> max_safe < observed then Inl (Thrown ''usage observation time must be a non-negative safe integer'')
      else (let since = observed - minutes * 60000;
                t = filter (\<lambda>u. since \<le> u_recorded_at u \<and> u_recorded_at u \<le> observed) (usage db);
                keys = take 65 (map mo_model (sort_key (\<lambda>m. (- int (mo_total m), mo_model m)) (load_models t)))
            in Inr \<lparr>uw_since = since, uw_aggregate = project_window t,
                 uw_models = map (\<lambda>k. (k, project_window (filter (\<lambda>u. u_key u = k) t))) (take 64 keys), uw_truncated = 64 < length keys\<rparr>))"

section \<open>Operational counts\<close>

definition tally_by :: "('r \<Rightarrow> 'k) \<Rightarrow> 'r list \<Rightarrow> ('k \<times> nat) list" where
  "tally_by f t = map (\<lambda>k. (k, length (filter (\<lambda>r. f r = k) t))) (remdups (map f t))"

record counts =
  oc_sessions :: "((skind \<times> activity) \<times> nat) list"
  oc_actors :: "(lifecycle \<times> nat) list"
  oc_children :: "(lifecycle \<times> nat) list"
  oc_messages :: "(message_state \<times> nat) list"
  oc_inputs :: "(input_state \<times> nat) list"
  oc_tasks :: "(task_state \<times> nat) list"

definition get_operational_counts :: "store \<Rightarrow> counts" where
  "get_operational_counts db = \<lparr>
     oc_sessions = tally_by (\<lambda>r. (s_kind r, s_activity r)) (filter live (sessions db)),
     oc_actors = tally_by s_lifecycle (sessions db),
     oc_children = tally_by s_lifecycle (filter (\<lambda>r. s_id r \<in> set (children db)) (sessions db)),
     oc_messages = tally_by m_state (messages db), oc_inputs = tally_by i_state (inputs db), oc_tasks = tally_by t_state (tasks db)\<rparr>"

section \<open>The loops end\<close>

lemma lineage_ends:
  assumes "finite S" "set (map s_id t) - set seen \<subseteq> S"
  shows "\<exists>ns. lineage_loop nm t r seen names = Some ns \<and> length ns \<le> length names + card S"
  using assms
proof (induction S arbitrary: r seen names rule: finite_psubset_induct)
  case (psubset S)
  show ?case
  proof (cases "\<exists>p q. parent_of r = Some p \<and> find_row s_id t p = Some q \<and> s_id q \<notin> set seen")
    case True
    then obtain p q where q: "parent_of r = Some p" "find_row s_id t p = Some q" "s_id q \<notin> set seen" by blast
    have "s_id q \<in> S" using q(3) find_row_SomeD [OF q(2)] psubset.prems by auto
    then have less: "S - {s_id q} \<subset> S" by auto
    then have card: "card (S - {s_id q}) < card S" using psubset.hyps(1) by (rule psubset_card_mono [rotated])
    have "set (map s_id t) - set (s_id q # seen) \<subseteq> S - {s_id q}" using psubset.prems by auto
    from psubset.IH [OF less this] obtain ns where ns: "lineage_loop nm t q (s_id q # seen) (nm q # names) = Some ns"
      "length ns \<le> length (nm q # names) + card (S - {s_id q})" by blast
    have "lineage_loop nm t r seen names = Some ns"
      by (subst lineage_loop.simps) (simp add: q ns(1))
    then show ?thesis using ns(2) card by auto
  next
    case False
    then have "lineage_loop nm t r seen names = Some names"
      by (subst lineage_loop.simps) (auto split: option.split)
    then show ?thesis by auto
  qed
qed

text \<open>
  C35: The loop that collects the names of a session's ancestors ends for every table, also for one whose
  parents form a cycle or are missing, and collects at most one name more than the table has rows.
\<close>

theorem lineage_terminates:
  "\<exists>names. lineage_loop nm t r [s_id r] [nm r] = Some names \<and> length names \<le> length t + 1
    \<and> lineage nm t r = Some (join_with ''/'' names)"
proof -
  obtain names where n: "lineage_loop nm t r [s_id r] [nm r] = Some names" "length names \<le> length [nm r] + card (set (map s_id t))"
    using lineage_ends [of "set (map s_id t)" t "[s_id r]" nm r "[nm r]"] by auto
  moreover have "card (set (map s_id t)) \<le> length t" using card_length [of "map s_id t"] by simp
  ultimately show ?thesis by (auto simp: lineage_def)
qed

section \<open>The usage cache\<close>

lemma model_total_key [simp]: "mo_model (model_total_of t k) = k"
  by (simp add: model_total_of_def Let_def)

lemma model_total_snoc: "model_total_of (t @ [u]) k = (if u_key u = k then bump_model u (model_total_of t k) else model_total_of t k)"
  by (simp add: model_total_of_def bump_model_def Let_def)

lemma load_models_keys: "map mo_model (load_models t) = remdups (map u_key t)"
  by (simp add: load_models_def o_def)

lemma mset_remdups_snoc: "mset (remdups (xs @ [x])) = (if x \<in> set xs then mset (remdups xs) else add_mset x (mset (remdups xs)))"
  by (induction xs) auto

lemma mset_load_models: "mset (load_models t) = image_mset (model_total_of t) (mset (remdups (map u_key t)))"
  by (simp add: load_models_def)

lemma mset_add_model:
  assumes "mset ms = mset (load_models t)"
  shows "mset (add_model_usage u ms) = mset (load_models (t @ [u]))"
proof -
  have keys: "mo_model ` set ms = u_key ` set t"
    using assms load_models_keys [of t] by (metis list.set_map mset_eq_setD set_remdups)
  show ?thesis
  proof (cases "u_key u \<in> u_key ` set t")
    case True
    have "mset (add_model_usage u ms) = image_mset (\<lambda>m. if mo_model m = u_key u then bump_model u m else m) (mset ms)"
    proof -
      have "find_row mo_model ms (u_key u) \<noteq> None" using True keys by (metis find_row_None_iff imageE)
      then show ?thesis by (auto simp: add_model_usage_def modify_row_def update_where_def)
    qed
    also have "\<dots> = image_mset (\<lambda>k. model_total_of (t @ [u]) k) (mset (remdups (map u_key t)))"
      unfolding assms mset_load_models by (simp add: image_mset.compositionality o_def model_total_snoc) (rule image_mset_cong, auto)
    also have "\<dots> = mset (load_models (t @ [u]))"
      using True mset_remdups_snoc [of "map u_key t" "u_key u"] unfolding mset_load_models by (simp add: image_iff)
    finally show ?thesis .
  next
    case False
    have none: "filter (\<lambda>x. u_key x = u_key u) t = []" using False by (auto simp: filter_empty_conv image_iff)
    have "model_total_of (t @ [u]) k = model_total_of t k" if "k \<in> u_key ` set t" for k using that False by (auto simp: model_total_snoc)
    then have "image_mset (model_total_of (t @ [u])) (mset (remdups (map u_key t))) = image_mset (model_total_of t) (mset (remdups (map u_key t)))"
      by (intro image_mset_cong) auto
    moreover have "model_total_of (t @ [u]) (u_key u) = \<lparr>mo_model = u_key u, mo_entries = 1, mo_total = u_total u, mo_cost = u_cost u\<rparr>"
      by (simp add: model_total_of_def none)
    moreover have "find_row mo_model ms (u_key u) = None" using False unfolding keys [symmetric] find_row_None_iff by (metis imageI)
    ultimately show ?thesis
      using False assms mset_remdups_snoc [of "map u_key t" "u_key u"] unfolding mset_load_models
      by (simp add: add_model_usage_def mset_load_models image_iff)
  qed
qed

lemma top_models_mset:
  assumes "mset ms = mset (load_models t)"
  shows "top_models ms = top_models (load_models t)"
proof -
  have "inj_on mo_model (set (load_models t))"
    using load_models_keys [of t] by (metis distinct_map distinct_remdups)
  then have "inj_on (\<lambda>m. (- int (mo_total m), mo_model m)) (set ms)"
    using mset_eq_setD [OF assms] by (auto simp: inj_on_def)
  then have "sort_key (\<lambda>m. (- int (mo_total m), mo_model m)) ms = sort_key (\<lambda>m. (- int (mo_total m), mo_model m)) (load_models t)"
    by (intro sort_key_inj_key_eq) (simp_all add: assms)
  then show ?thesis by (simp add: top_models_def)
qed

definition cached :: "usage_row list \<Rightarrow> usage_row list \<Rightarrow> usage_totals \<times> model_total list" where
  "cached t us = fold (\<lambda>u (s, ms). (add_usage u s, add_model_usage u ms)) us (load_usage_summary t, load_models t)"

lemma load_summary_snoc: "load_usage_summary (t @ [u]) = add_usage u (load_usage_summary t)"
  by (simp add: load_usage_summary_def add_usage_def)

lemma cached_loaded: "fst (cached t us) = load_usage_summary (t @ us) \<and> mset (snd (cached t us)) = mset (load_models (t @ us))"
proof (induction us rule: rev_induct)
  case (snoc u us)
  then show ?case
    using mset_add_model [of "snd (cached t us)" "t @ us" u] load_summary_snoc [of "t @ us" u]
    by (simp add: cached_def case_prod_unfold)
qed (simp add: cached_def)

text \<open>The summary kept up to date by \<open>recordUsage\<close> is the one that a new load of the table gives.\<close>

lemma usage_cache_exact: "get_usage_summary (Some (cached t us)) (t @ us) = get_usage_summary None (t @ us)"
  using cached_loaded [of t us] top_models_mset [of "snd (cached t us)" "t @ us"]
  by (simp add: get_usage_summary_def case_prod_unfold)

end
