(* ===== verification/ChildPolicy.thy ===== *)
theory ChildPolicy
  imports Schema "HOL-Library.Multiset"
begin

text \<open>
  The launch policy of a child (src/child-policy.mjs) and the catalog of models it is chosen from
  (src/inference-options.mjs): validation of untyped catalogs, exact resolution of a model and a
  thinking level, and the search for models. \<open>txt\<close> is \<open>String(value)\<close> of a value that is not a string; the values of a JavaScript
  object are looked up by \<open>jget\<close>.
\<close>

text \<open>\<open>String(value)\<close>: the text of a string is the string.\<close>

definition string_of :: "(js \<Rightarrow> string) \<Rightarrow> js \<Rightarrow> string" where
  "string_of txt v = (case v of JStr s \<Rightarrow> s | _ \<Rightarrow> txt v)"

section \<open>Thinking levels\<close>

definition thinking_levels :: "string list" where
  "thinking_levels = [''off'', ''minimal'', ''low'', ''medium'', ''high'', ''xhigh'', ''max'']"

definition supported_thinking_levels :: "js \<Rightarrow> string list" where
  "supported_thinking_levels m =
     (if \<not> truthy (jget ''reasoning'' m) then [''off'']
      else filter (\<lambda>level. (let mapped = jget level (jget ''thinkingLevelMap'' m) in
        mapped \<noteq> Null \<and> (level \<in> {''xhigh'', ''max''} \<longrightarrow> mapped \<noteq> Undef))) thinking_levels)"

section \<open>The catalog of a request\<close>

record model =
  md_provider :: string
  md_id :: string
  md_name :: string
  md_reasoning :: bool
  md_levels :: "string list"

definition at_index :: "string \<Rightarrow> nat \<Rightarrow> string \<Rightarrow> string" where
  "at_index what k rest = what @ ''['' @ show_nat k @ '']'' @ rest"

definition bounded_name :: "nat \<Rightarrow> js \<Rightarrow> string option" where
  "bounded_name mx v = (case v of JStr s \<Rightarrow> if s \<noteq> [] \<and> length s \<le> mx then Some s else None | _ \<Rightarrow> None)"

definition require_model :: "string \<Rightarrow> js \<Rightarrow> (string \<times> string) result" where
  "require_model context m =
     (if \<not> is_plain_object m then Inl (Thrown (context @ '' is required''))
      else (case bounded_name 128 (jget ''provider'' m) of
          None \<Rightarrow> Inl (Thrown (context @ ''.provider must be a non-empty bounded_name string''))
        | Some provider \<Rightarrow> (case bounded_name 256 (jget ''id'' m) of
            None \<Rightarrow> Inl (Thrown (context @ ''.id must be a non-empty bounded_name string''))
          | Some i \<Rightarrow> Inr (provider, i))))"

definition pair_key :: "string \<Rightarrow> string \<Rightarrow> string" where
  "pair_key provider i = provider @ [CHR 0x00] @ i"

definition level_names :: "js list \<Rightarrow> string list option" where
  "level_names vs = (if list_all (\<lambda>v. case v of JStr s \<Rightarrow> s \<in> set thinking_levels | _ \<Rightarrow> False) vs \<and> distinct vs
     then Some (map (\<lambda>v. case v of JStr s \<Rightarrow> s | _ \<Rightarrow> []) vs) else None)"

definition normalize_model :: "nat \<Rightarrow> string list \<Rightarrow> js \<Rightarrow> model result" where
  "normalize_model k seen m = (let context = at_index ''availableModels'' k in
     case require_model (context []) m of
       Inl e \<Rightarrow> Inl e
     | Inr (provider, i) \<Rightarrow>
         if pair_key provider i \<in> set seen then Inl (Thrown (''availableModels contains a duplicate: '' @ provider @ ''/'' @ i))
         else (case jget ''thinkingLevels'' m of
             JArr vs \<Rightarrow>
               if vs = [] then Inl (Thrown (context ''.thinkingLevels must be a non-empty array''))
               else (case level_names vs of
                   None \<Rightarrow> Inl (Thrown (context ''.thinkingLevels contains an unsupported or duplicate level''))
                 | Some levels \<Rightarrow>
                     if jget ''reasoning'' m \<noteq> JBool True \<and> levels \<noteq> [''off''] then Inl (Thrown (context '' without reasoning must support only off''))
                     else Inr \<lparr>md_provider = provider, md_id = i,
                       md_name = (case jget ''name'' m of JStr s \<Rightarrow> if length s \<le> 256 then s else i | _ \<Rightarrow> i),
                       md_reasoning = (jget ''reasoning'' m = JBool True), md_levels = levels\<rparr>)
           | _ \<Rightarrow> Inl (Thrown (context ''.thinkingLevels must be a non-empty array''))))"

fun normalize_models_from :: "nat \<Rightarrow> string list \<Rightarrow> js list \<Rightarrow> model list result" where
  "normalize_models_from k seen [] = Inr []"
| "normalize_models_from k seen (m # ms) = (case normalize_model k seen m of
      Inl e \<Rightarrow> Inl e
    | Inr x \<Rightarrow> (case normalize_models_from (k + 1) (pair_key (md_provider x) (md_id x) # seen) ms of
        Inl e \<Rightarrow> Inl e | Inr xs \<Rightarrow> Inr (x # xs)))"

definition normalize_models :: "js \<Rightarrow> model list result" where
  "normalize_models v = (case v of
      JArr ms \<Rightarrow> if ms = [] \<or> 512 < length ms then Inl (Thrown ''availableModels must contain 1 through 512 models'')
        else normalize_models_from 0 [] ms
    | _ \<Rightarrow> Inl (Thrown ''availableModels must contain 1 through 512 models''))"

section \<open>The skill catalog\<close>

definition normalize_skill :: "nat \<Rightarrow> string list \<Rightarrow> js \<Rightarrow> skill result" where
  "normalize_skill k seen v = (let context = at_index ''skillCatalog'' k;
       field = (\<lambda>key. case bounded_name 4096 (jget key v) of
           None \<Rightarrow> Inl (Thrown (context (''.'' @ key @ '' must be a non-empty bounded_name string''))) | Some s \<Rightarrow> Inr s) in
     if \<not> is_plain_object v then Inl (Thrown (context '' must be an object''))
     else (case (field ''id'', field ''version'', field ''contentHash'', field ''skillPath'') of
         (Inr i, Inr version, Inr hash, Inr path) \<Rightarrow>
           if i \<in> set seen then Inl (Thrown (''skillCatalog contains duplicate ID: '' @ i))
           else (case jget ''pythonBacked'' v of
               JBool b \<Rightarrow> Inr \<lparr>k_id = i, k_version = version, k_hash = hash, k_path = path, k_python = b\<rparr>
             | _ \<Rightarrow> Inl (Thrown (context ''.pythonBacked must be boolean'')))
       | (Inl e, _) \<Rightarrow> Inl e
       | (Inr _, Inl e, _) \<Rightarrow> Inl e
       | (Inr _, Inr _, Inl e, _) \<Rightarrow> Inl e
       | (Inr _, Inr _, Inr _, Inl e) \<Rightarrow> Inl e))"

fun normalize_skills_from :: "nat \<Rightarrow> string list \<Rightarrow> js list \<Rightarrow> skill list result" where
  "normalize_skills_from k seen [] = Inr []"
| "normalize_skills_from k seen (v # vs) = (case normalize_skill k seen v of
      Inl e \<Rightarrow> Inl e
    | Inr x \<Rightarrow> (case normalize_skills_from (k + 1) (k_id x # seen) vs of Inl e \<Rightarrow> Inl e | Inr xs \<Rightarrow> Inr (x # xs)))"

definition normalize_skill_catalog :: "js \<Rightarrow> skill list result" where
  "normalize_skill_catalog v = (case v of
      JArr vs \<Rightarrow> if 128 < length vs then Inl (Thrown ''skillCatalog must contain at most 128 skills'') else normalize_skills_from 0 [] vs
    | _ \<Rightarrow> Inl (Thrown ''skillCatalog must contain at most 128 skills''))"

section \<open>The policy of a child\<close>

definition full_name :: "model \<Rightarrow> string" where
  "full_name m = md_provider m @ ''/'' @ md_id m"

definition resolve_exact_model :: "string \<Rightarrow> js \<Rightarrow> model list \<Rightarrow> model result" where
  "resolve_exact_model context reference ms = (case bounded_name 384 reference of
      None \<Rightarrow> Inl (Thrown (context @ '' must be a non-empty exact model reference''))
    | Some ref \<Rightarrow> (case filter (\<lambda>m. full_name m = ref) ms of
        [m] \<Rightarrow> Inr m
      | _ \<Rightarrow> (case filter (\<lambda>m. md_id m = ref) ms of
          [m] \<Rightarrow> Inr m
        | [] \<Rightarrow> Inl (Thrown (context @ '' did not resolve exactly: '' @ ref))
        | _ \<Rightarrow> Inl (Thrown (context @ '' is ambiguous; use provider/model: '' @ ref)))))"

datatype policy_source = FromRequest | FromConfig | FromParent

fun source_name :: "policy_source \<Rightarrow> string" where
  "source_name FromRequest = ''explicit''"
| "source_name FromConfig = ''configured''"
| "source_name FromParent = ''parent''"

definition resolve_thinking :: "(js \<Rightarrow> string) \<Rightarrow> js \<Rightarrow> js \<Rightarrow> js \<Rightarrow> (js \<times> string \<times> policy_source) result" where
  "resolve_thinking txt explicit configured parent = (let
      candidate = coalesce (coalesce explicit configured) parent;
      source = (if \<not> nullish explicit then FromRequest else if \<not> nullish configured then FromConfig else FromParent)
    in case candidate of
        JStr s \<Rightarrow> if s \<in> set thinking_levels then Inr (coalesce explicit Null, s, source)
          else Inl (Thrown (source_name source @ '' child thinking level is unsupported: '' @ s))
      | _ \<Rightarrow> Inl (Thrown (source_name source @ '' child thinking level is unsupported: '' @ txt candidate)))"

definition alnum :: "char \<Rightarrow> bool" where
  "alnum c \<longleftrightarrow> (let n = of_char c :: nat in 48 \<le> n \<and> n \<le> 57 \<or> 65 \<le> n \<and> n \<le> 90 \<or> 97 \<le> n \<and> n \<le> 122)"

definition child_name_ok :: "string \<Rightarrow> bool" where
  "child_name_ok s \<longleftrightarrow> (case s of [] \<Rightarrow> False
     | c # r \<Rightarrow> alnum c \<and> length r \<le> 63 \<and> list_all (\<lambda>d. alnum d \<or> d \<in> {CHR ''.'', CHR ''_'', CHR ''-''}) r)"

record child_policy =
  po_depth :: int
  po_cwd :: string
  po_repository :: "string option"
  po_prompt :: string
  po_fork :: bool
  po_name :: js
  po_requested_model :: js
  po_model :: model
  po_model_source :: policy_source
  po_requested_thinking :: js
  po_thinking :: string
  po_thinking_source :: policy_source
  po_skills :: "skill list"
  po_capabilities :: "(string \<times> string \<times> string \<times> string) list"

definition capability :: "skill \<Rightarrow> string \<times> string \<times> string \<times> string" where
  "capability k = (k_id k, k_version k, k_hash k, k_path k)"

text \<open>What the request says before any catalog is read.\<close>

definition request_basics :: "(js \<Rightarrow> string) \<Rightarrow> js \<Rightarrow> session_row option \<Rightarrow> int \<Rightarrow> (session_row \<times> bool \<times> string) result" where
  "request_basics txt request parent max_depth =
     (if \<not> is_plain_object request then Inl (Thrown ''child request must be an object'')
      else (case parent of None \<Rightarrow> Inl (Thrown ''parent session is required'')
        | Some p \<Rightarrow> (case (if jget ''forkContext'' request = Undef then JBool False else jget ''forkContext'' request) of
            JBool fork \<Rightarrow>
              if max_depth < 0 \<or> 4 < max_depth then Inl (Thrown ''maxDepth must be from 0 through 4'')
              else if max_depth < int (s_depth p) + 1 then Inl (Thrown (''maximum child depth '' @ show_int max_depth @ '' would be exceeded''))
              else (case jget ''prompt'' request of
                  JStr prompt \<Rightarrow>
                    if js_trim prompt = [] \<or> 65536 < utf8_len prompt
                    then Inl (Thrown ''child prompt must be a non-empty string of at most 65536 UTF-8 bytes'')
                    else if \<not> nullish (jget ''name'' request) \<and> \<not> child_name_ok (string_of txt (jget ''name'' request))
                    then Inl (Thrown ''child name must start with an alphanumeric character and contain at most 64 alphanumeric, dot, underscore, or hyphen characters'')
                    else Inr (p, fork, prompt)
                | _ \<Rightarrow> Inl (Thrown ''child prompt must be a non-empty string of at most 65536 UTF-8 bytes''))
          | _ \<Rightarrow> Inl (Thrown ''fork_context must be boolean''))))"

definition choose_model :: "js \<Rightarrow> js \<Rightarrow> model list \<Rightarrow> model \<Rightarrow> (model \<times> policy_source) result" where
  "choose_model requested configured ms parent_match =
     (if requested \<noteq> Null then (case resolve_exact_model ''explicit child model'' requested ms of Inl e \<Rightarrow> Inl e | Inr m \<Rightarrow> Inr (m, FromRequest))
      else if configured \<noteq> Null then (case resolve_exact_model ''configured child model'' configured ms of Inl e \<Rightarrow> Inl e | Inr m \<Rightarrow> Inr (m, FromConfig))
      else Inr (parent_match, FromParent))"

text \<open>The available model that the parent uses.\<close>

definition parent_choice :: "js \<Rightarrow> model list \<Rightarrow> model result" where
  "parent_choice request ms = (case require_model ''parentModel'' (jget ''parentModel'' request) of
      Inl e \<Rightarrow> Inl e
    | Inr (provider, i) \<Rightarrow> (case find (\<lambda>m. md_provider m = provider \<and> md_id m = i) ms of
        None \<Rightarrow> Inl (Thrown (''parent model is not available: '' @ provider @ ''/'' @ i))
      | Some m \<Rightarrow> Inr m))"

definition thinking_choice :: "(js \<Rightarrow> string) \<Rightarrow> js \<Rightarrow> js \<Rightarrow> model \<Rightarrow> (js \<times> string \<times> policy_source) result" where
  "thinking_choice txt request configured m = (case resolve_thinking txt (jget ''thinkingLevel'' request) configured (jget ''parentThinkingLevel'' request) of
      Inl e \<Rightarrow> Inl e
    | Inr (wanted, level, source) \<Rightarrow>
        if level \<notin> set (md_levels m) then Inl (Thrown (source_name source @ '' child thinking level '' @ level @ '' is not supported by ''
          @ full_name m @ ''; supported levels: '' @ join_with '', '' (md_levels m)))
        else Inr (wanted, level, source))"

definition resolve_child_launch_policy :: "(js \<Rightarrow> string) \<Rightarrow> js \<Rightarrow> session_row option \<Rightarrow> js \<Rightarrow> js \<Rightarrow> int \<Rightarrow> child_policy result" where
  "resolve_child_launch_policy txt request parent configured_model configured_thinking max_depth =
     (case request_basics txt request parent max_depth of
       Inl e \<Rightarrow> Inl e
     | Inr (p, fork, prompt) \<Rightarrow> (case normalize_models (jget ''availableModels'' request) of
         Inl e \<Rightarrow> Inl e
       | Inr ms \<Rightarrow> (case parent_choice request ms of
           Inl e \<Rightarrow> Inl e
         | Inr parent_match \<Rightarrow> (case choose_model (coalesce (jget ''model'' request) Null) configured_model ms parent_match of
             Inl e \<Rightarrow> Inl e
           | Inr (m, msource) \<Rightarrow> (case thinking_choice txt request configured_thinking m of
               Inl e \<Rightarrow> Inl e
             | Inr (wanted, level, tsource) \<Rightarrow> (case normalize_skill_catalog (jget ''skillCatalog'' request) of
                 Inl e \<Rightarrow> Inl e
               | Inr skills \<Rightarrow> Inr \<lparr>po_depth = int (s_depth p) + 1, po_cwd = s_cwd p, po_repository = s_repository_root p, po_prompt = js_trim prompt,
                   po_fork = fork, po_name = coalesce (jget ''name'' request) Null, po_requested_model = coalesce (jget ''model'' request) Null,
                   po_model = m, po_model_source = msource, po_requested_thinking = wanted, po_thinking = level, po_thinking_source = tsource,
                   po_skills = skills, po_capabilities = map capability (filter k_python skills)\<rparr>))))))"

section \<open>The search for models\<close>

text \<open>\<open>toLowerCase\<close> on the characters of the model's strings.\<close>

definition js_lower :: "string \<Rightarrow> string" where
  "js_lower s = map (\<lambda>c. let n = of_char c :: nat in
     if 65 \<le> n \<and> n \<le> 90 \<or> 192 \<le> n \<and> n \<le> 222 \<and> n \<noteq> 215 then char_of (n + 32) else c) s"

definition has_part :: "string \<Rightarrow> string \<Rightarrow> bool" where
  "has_part hay needle \<longleftrightarrow> list_ex (\<lambda>k. take (length needle) (drop k hay) = needle) [0..<length hay + 1]"

fun preferred_entries_from :: "string list \<Rightarrow> js list \<Rightarrow> (string \<times> string) list" where
  "preferred_entries_from seen [] = []"
| "preferred_entries_from seen (v # vs) = (case (is_plain_object v, jget ''provider'' v, jget ''id'' v) of
      (True, JStr provider, JStr i) \<Rightarrow>
        if pair_key provider i \<in> set seen then preferred_entries_from seen vs
        else (provider, i) # preferred_entries_from (pair_key provider i # seen) vs
    | _ \<Rightarrow> preferred_entries_from seen vs)"

definition preferred_entries :: "js \<Rightarrow> (string \<times> string) list" where
  "preferred_entries v = preferred_entries_from [] (case v of JArr vs \<Rightarrow> vs | _ \<Rightarrow> if nullish v then [] else [v])"

definition index_of :: "('a \<Rightarrow> bool) \<Rightarrow> 'a list \<Rightarrow> nat option" where
  "index_of p xs = (let n = length (takeWhile (\<lambda>x. \<not> p x) xs) in if n < length xs then Some n else None)"

definition preferred_index :: "model list \<Rightarrow> string \<times> string \<Rightarrow> nat option" where
  "preferred_index ms e = (case index_of (\<lambda>m. (md_provider m, md_id m) = e) ms of
      Some k \<Rightarrow> Some k
    | None \<Rightarrow> if length (filter (\<lambda>m. md_id m = snd e) ms) = 1 then index_of (\<lambda>m. md_id m = snd e) ms else None)"

definition to_front :: "nat option \<Rightarrow> 'a list \<Rightarrow> 'a list" where
  "to_front k xs = (case k of
      Some n \<Rightarrow> if 0 < n then xs ! n # take n xs @ drop (n + 1) xs else xs
    | None \<Rightarrow> xs)"

definition find_models :: "(js \<Rightarrow> string) \<Rightarrow> js \<Rightarrow> js \<Rightarrow> int \<Rightarrow> js \<Rightarrow> model list result" where
  "find_models txt models query limit preferred =
     (if limit < 1 \<or> 100 < limit then Inl (Thrown ''limit must be an integer from 1 through 100'')
      else (let needle = js_lower (js_trim (string_of txt (coalesce query (JStr []))))
        in case normalize_models models of
            Inl e \<Rightarrow> Inl e
          | Inr ms \<Rightarrow> (let matching = filter (\<lambda>m. needle = [] \<or> has_part (js_lower (full_name m @ '' '' @ md_name m)) needle) ms
              in Inr (take (nat limit) (fold (\<lambda>e xs. to_front (preferred_index xs e) xs) (rev (preferred_entries preferred)) matching)))))"

section \<open>The projected catalog\<close>

definition supports_fast_mode :: "js \<Rightarrow> bool" where
  "supports_fast_mode m \<longleftrightarrow> jget ''id'' m \<in> {JStr ''gpt-6-astra'', JStr ''gpt-6.1-sol''}
     \<and> (jget ''provider'' m = JStr ''openai-codex'' \<and> jget ''api'' m = JStr ''openai-codex-responses''
       \<or> jget ''provider'' m = JStr ''openai'' \<and> jget ''api'' m = JStr ''openai-responses'')"

definition bounded_string :: "string \<Rightarrow> nat \<Rightarrow> js \<Rightarrow> string result" where
  "bounded_string context mx v = (case v of
      JStr s \<Rightarrow> if s = [] \<or> mx < length s \<or> mx < utf8_len s
        then Inl (Thrown (context @ '' must be a non-empty string of at most '' @ show_nat mx @ '' characters'')) else Inr s
    | _ \<Rightarrow> Inl (Thrown (context @ '' must be a non-empty string of at most '' @ show_nat mx @ '' characters'')))"

definition validate_thinking_level_map :: "string \<Rightarrow> js \<Rightarrow> error option" where
  "validate_thinking_level_map context m = (case jget ''thinkingLevelMap'' m of
      Undef \<Rightarrow> None
    | JObj ps \<Rightarrow> (case find (\<lambda>level. case map_of ps level of
            None \<Rightarrow> False | Some v \<Rightarrow> (case v of Undef \<Rightarrow> False | Null \<Rightarrow> False | JStr _ \<Rightarrow> False | _ \<Rightarrow> True)) thinking_levels of
          None \<Rightarrow> None
        | Some level \<Rightarrow> Some (Thrown (context @ ''.thinkingLevelMap.'' @ level @ '' must be a string, null, or undefined'')))
    | _ \<Rightarrow> Some (Thrown (context @ ''.thinkingLevelMap must be an object when provided'')))"

record offered =
  of_model :: model
  of_window :: int
  of_fast :: bool

definition project_model :: "nat \<Rightarrow> js \<Rightarrow> offered result" where
  "project_model k m = (let context = at_index ''availableModels'' k in
     if \<not> is_plain_object m then Inl (Thrown (context '' must be an object''))
     else (case (bounded_string (context ''.provider'') 128 (jget ''provider'' m), bounded_string (context ''.id'') 256 (jget ''id'' m),
                 bounded_string (context ''.name'') 256 (jget ''name'' m)) of
         (Inr provider, Inr i, Inr name) \<Rightarrow> (case jget ''reasoning'' m of
             JBool reasoning \<Rightarrow> (case js_safe_int (jget ''contextWindow'' m) of
                 None \<Rightarrow> Inl (Thrown (context ''.contextWindow must be a positive integer of at most 10000000''))
               | Some window \<Rightarrow>
                   if window \<le> 0 \<or> 10000000 < window then Inl (Thrown (context ''.contextWindow must be a positive integer of at most 10000000''))
                   else (case validate_thinking_level_map (context []) m of
                       Some e \<Rightarrow> Inl e
                     | None \<Rightarrow> Inr \<lparr>of_model = \<lparr>md_provider = provider, md_id = i, md_name = name, md_reasoning = reasoning,
                           md_levels = supported_thinking_levels m\<rparr>, of_window = window, of_fast = supports_fast_mode m\<rparr>))
           | _ \<Rightarrow> Inl (Thrown (context ''.reasoning must be boolean'')))
       | (Inl e, _) \<Rightarrow> Inl e
       | (Inr _, Inl e, _) \<Rightarrow> Inl e
       | (Inr _, Inr _, Inl e) \<Rightarrow> Inl e))"

fun project_models_from :: "nat \<Rightarrow> string list \<Rightarrow> js list \<Rightarrow> offered list result" where
  "project_models_from k seen [] = Inr []"
| "project_models_from k seen (m # ms) = (case project_model k m of
      Inl e \<Rightarrow> Inl e
    | Inr x \<Rightarrow> (let key = pair_key (md_provider (of_model x)) (md_id (of_model x)) in
        if key \<in> set seen then Inl (Thrown (''availableModels contains a duplicate provider/id: '' @ full_name (of_model x)))
        else (case project_models_from (k + 1) (key # seen) ms of Inl e \<Rightarrow> Inl e | Inr xs \<Rightarrow> Inr (x # xs))))"

definition project_available_models :: "js \<Rightarrow> offered list result" where
  "project_available_models v = (case v of
      JArr ms \<Rightarrow> if 512 < length ms then Inl (Thrown ''availableModels must be an array of at most 512 models'') else project_models_from 0 [] ms
    | _ \<Rightarrow> Inl (Thrown ''availableModels must be an array of at most 512 models''))"

definition resolve_model_selection :: "js \<Rightarrow> js \<Rightarrow> js \<Rightarrow> offered result" where
  "resolve_model_selection models provider i = (case bounded_string ''selection.provider'' 128 provider of
      Inl e \<Rightarrow> Inl e
    | Inr p \<Rightarrow> (case bounded_string ''selection.id'' 256 i of
        Inl e \<Rightarrow> Inl e
      | Inr q \<Rightarrow> (case project_available_models models of
          Inl e \<Rightarrow> Inl e
        | Inr os \<Rightarrow> (case find (\<lambda>x. md_provider (of_model x) = p \<and> md_id (of_model x) = q) os of
            None \<Rightarrow> Inl (Thrown (''model did not resolve exactly: '' @ p @ ''/'' @ q))
          | Some x \<Rightarrow> Inr x))))"

definition validate_inference_effort :: "(js \<Rightarrow> string) \<Rightarrow> js \<Rightarrow> model \<Rightarrow> string result" where
  "validate_inference_effort txt effort m = (case effort of
      JStr s \<Rightarrow>
        if s \<notin> set thinking_levels then Inl (Thrown (''unsupported inference effort: '' @ s))
        else if s \<notin> set (md_levels m) then Inl (Thrown (''inference effort '' @ s @ '' is not supported by '' @ full_name m))
        else Inr s
    | _ \<Rightarrow> Inl (Thrown (''unsupported inference effort: '' @ string_of txt effort)))"

section \<open>What an accepted policy promises\<close>

definition model_fields_ok :: "model \<Rightarrow> bool" where
  "model_fields_ok m \<longleftrightarrow> md_provider m \<noteq> [] \<and> length (md_provider m) \<le> 128 \<and> md_id m \<noteq> [] \<and> length (md_id m) \<le> 256 \<and> length (md_name m) \<le> 256
     \<and> md_levels m \<noteq> [] \<and> distinct (md_levels m) \<and> set (md_levels m) \<subseteq> set thinking_levels \<and> (\<not> md_reasoning m \<longrightarrow> md_levels m = [''off''])"

lemma boundedD: "bounded_name mx v = Some s \<Longrightarrow> v = JStr s \<and> s \<noteq> [] \<and> length s \<le> mx"
  by (auto simp: bounded_name_def split: js.splits if_splits)

lemma require_modelD: "require_model c m = Inr (p, i) \<Longrightarrow> p \<noteq> [] \<and> length p \<le> 128 \<and> i \<noteq> [] \<and> length i \<le> 256"
  by (auto simp: require_model_def dest!: boundedD split: if_splits option.splits)

lemma level_namesD:
  assumes "level_names vs = Some ls"
  shows "distinct ls \<and> set ls \<subseteq> set thinking_levels \<and> (vs \<noteq> [] \<longrightarrow> ls \<noteq> [])"
proof -
  have cond: "list_all (\<lambda>v. case v of JStr s \<Rightarrow> s \<in> set thinking_levels | _ \<Rightarrow> False) vs" and d: "distinct vs"
    and ls: "ls = map (\<lambda>v. case v of JStr s \<Rightarrow> s | _ \<Rightarrow> []) vs"
    using assms by (simp_all add: level_names_def split: if_splits)
  have "(case v of JStr s \<Rightarrow> s \<in> set thinking_levels | _ \<Rightarrow> False) \<Longrightarrow> \<exists>x. v = JStr x \<and> x \<in> set thinking_levels" for v by (cases v) auto
  then have all: "\<forall>v\<in>set vs. \<exists>x. v = JStr x \<and> x \<in> set thinking_levels" using cond unfolding list_all_iff by blast
  have "inj_on (\<lambda>v. case v of JStr s \<Rightarrow> s | _ \<Rightarrow> []) (set vs)"
  proof (rule inj_onI)
    fix x y assume "x \<in> set vs" "y \<in> set vs" and eq: "(case x of JStr s \<Rightarrow> s | _ \<Rightarrow> []) = (case y of JStr s \<Rightarrow> s | _ \<Rightarrow> [])"
    then obtain a b where "x = JStr a" "y = JStr b" using all by blast
    then show "x = y" using eq by simp
  qed
  then show ?thesis using all d unfolding ls by (auto simp: distinct_map)
qed

lemma normalize_modelD:
  assumes "normalize_model k seen m = Inr x"
  shows "model_fields_ok x \<and> pair_key (md_provider x) (md_id x) \<notin> set seen"
proof -
  obtain p i vs ls where r: "require_model (at_index ''availableModels'' k []) m = Inr (p, i)" "pair_key p i \<notin> set seen" "vs \<noteq> []"
    "level_names vs = Some ls" "jget ''reasoning'' m \<noteq> JBool True \<longrightarrow> ls = [''off'']"
    "x = \<lparr>md_provider = p, md_id = i, md_name = (case jget ''name'' m of JStr s \<Rightarrow> if length s \<le> 256 then s else i | _ \<Rightarrow> i),
       md_reasoning = (jget ''reasoning'' m = JBool True), md_levels = ls\<rparr>"
    using assms by (auto simp: normalize_model_def Let_def split: sum.splits prod.splits if_splits option.splits js.splits)
  then show ?thesis
    using require_modelD [OF r(1)] level_namesD [OF r(4)] by (simp add: model_fields_ok_def split: js.split)
qed

definition model_key :: "model \<Rightarrow> string" where
  "model_key m = pair_key (md_provider m) (md_id m)"

lemma normalize_models_fromD:
  "normalize_models_from k seen vs = Inr ms \<Longrightarrow> length ms = length vs \<and> list_all model_fields_ok ms \<and> distinct (map model_key ms) \<and> set (map model_key ms) \<inter> set seen = {}"
proof (induction vs arbitrary: k seen ms)
  case (Cons v vs)
  obtain x xs where x: "normalize_model k seen v = Inr x" "normalize_models_from (k + 1) (model_key x # seen) vs = Inr xs" "ms = x # xs"
    using Cons.prems by (auto simp: model_key_def split: sum.splits)
  show ?case using Cons.IH [OF x(2)] normalize_modelD [OF x(1)] x(3) by (auto simp: model_key_def)
qed simp

lemma normalize_modelsD:
  "normalize_models v = Inr ms \<Longrightarrow> ms \<noteq> [] \<and> length ms \<le> 512 \<and> list_all model_fields_ok ms \<and> distinct (map model_key ms)"
  by (auto simp: normalize_models_def dest!: normalize_models_fromD split: js.splits if_splits)

lemma normalize_skills_fromD:
  "normalize_skills_from k seen vs = Inr ks \<Longrightarrow> length ks = length vs \<and> distinct (map k_id ks) \<and> set (map k_id ks) \<inter> set seen = {}"
proof (induction vs arbitrary: k seen ks)
  case (Cons v vs)
  obtain x xs where x: "normalize_skill k seen v = Inr x" "normalize_skills_from (k + 1) (k_id x # seen) vs = Inr xs" "ks = x # xs"
    using Cons.prems by (auto split: sum.splits)
  have "k_id x \<notin> set seen"
    using x(1) by (auto simp: normalize_skill_def Let_def split: if_splits sum.splits option.splits js.splits)
  then show ?case using Cons.IH [OF x(2)] x(3) by auto
qed simp

lemma skill_catalogD: "normalize_skill_catalog v = Inr ks \<Longrightarrow> length ks \<le> 128 \<and> distinct (map k_id ks)"
  by (auto simp: normalize_skill_catalog_def dest!: normalize_skills_fromD split: js.splits if_splits)

lemma exact_modelD: "resolve_exact_model c v ms = Inr m \<Longrightarrow> m \<in> set ms \<and> (\<exists>ref. v = JStr ref \<and> (full_name m = ref \<or> md_id m = ref))"
proof -
  assume r: "resolve_exact_model c v ms = Inr m"
  then obtain ref where v: "v = JStr ref" by (auto simp: resolve_exact_model_def dest!: boundedD split: option.splits)
  have one: "m \<in> set ms \<and> q m" if "filter q ms = [m]" for q
  proof -
    have "m \<in> set (filter q ms)" using that by simp
    then show ?thesis by simp
  qed
  show ?thesis
    using r v one [of "\<lambda>m. full_name m = ref"] one [of "\<lambda>m. md_id m = ref"]
    by (auto simp: resolve_exact_model_def bounded_name_def split: option.splits list.splits if_splits)
qed

lemma choose_modelD:
  assumes "choose_model requested configured ms pm = Inr (m, source)" "pm \<in> set ms"
  shows "m \<in> set ms \<and> (source = FromRequest \<longleftrightarrow> requested \<noteq> Null) \<and> (source = FromConfig \<longleftrightarrow> requested = Null \<and> configured \<noteq> Null)
    \<and> (source = FromParent \<longrightarrow> m = pm) \<and> (requested \<noteq> Null \<longrightarrow> (\<exists>ref. requested = JStr ref \<and> (full_name m = ref \<or> md_id m = ref)))"
  using assms exact_modelD [of "''explicit child model''" requested ms m] exact_modelD [of "''configured child model''" configured ms m]
  by (auto simp: choose_model_def split: if_splits sum.splits)

lemma parent_choiceD: "parent_choice request ms = Inr pm \<Longrightarrow> pm \<in> set ms"
  by (auto simp: parent_choice_def find_Some_iff split: sum.splits option.splits)

lemma thinking_choiceD: "thinking_choice txt request configured m = Inr (w, level, source) \<Longrightarrow> level \<in> set (md_levels m)"
  by (auto simp: thinking_choice_def split: sum.splits prod.splits if_splits)

lemma request_basicsD: "request_basics txt request parent mx = Inr (p, fork, prompt) \<Longrightarrow>
   parent = Some p \<and> int (s_depth p) + 1 \<le> mx \<and> mx \<le> 4 \<and> js_trim prompt \<noteq> [] \<and> utf8_len prompt \<le> 65536
   \<and> (nullish (jget ''name'' request) \<or> child_name_ok (string_of txt (jget ''name'' request)))"
  by (auto simp: request_basics_def split: if_splits option.splits js.splits)

lemma child_policyD:
  assumes "resolve_child_launch_policy txt request parent cm ct mx = Inr pol"
  shows "\<exists>p fork prompt ms pm m msource wanted level tsource skills. request_basics txt request parent mx = Inr (p, fork, prompt)
    \<and> normalize_models (jget ''availableModels'' request) = Inr ms \<and> parent_choice request ms = Inr pm
    \<and> choose_model (coalesce (jget ''model'' request) Null) cm ms pm = Inr (m, msource)
    \<and> thinking_choice txt request ct m = Inr (wanted, level, tsource) \<and> normalize_skill_catalog (jget ''skillCatalog'' request) = Inr skills
    \<and> pol = \<lparr>po_depth = int (s_depth p) + 1, po_cwd = s_cwd p, po_repository = s_repository_root p, po_prompt = js_trim prompt,
         po_fork = fork, po_name = coalesce (jget ''name'' request) Null, po_requested_model = coalesce (jget ''model'' request) Null,
         po_model = m, po_model_source = msource, po_requested_thinking = wanted, po_thinking = level, po_thinking_source = tsource,
         po_skills = skills, po_capabilities = map capability (filter k_python skills)\<rparr>"
  using assms unfolding resolve_child_launch_policy_def by (auto split: sum.splits prod.splits)

lemma utf8_len_dropWhile: "utf8_len (dropWhile q s) \<le> utf8_len s"
  by (induction s) (auto simp: utf8_len_def)

lemma utf8_len_trim: "utf8_len (js_trim s) \<le> utf8_len s"
proof -
  have r: "utf8_len (rev x) = utf8_len x" for x by (simp add: utf8_len_def flip: rev_map)
  show ?thesis
    unfolding js_trim_def r using utf8_len_dropWhile [of js_space "rev (dropWhile js_space s)"] utf8_len_dropWhile [of js_space s]
    by (simp add: r)
qed


definition demo_request :: js where
  "demo_request = JObj [(''prompt'', JStr ''go''), (''availableModels'', JArr [JObj [(''provider'', JStr ''p''), (''id'', JStr ''m''),
     (''thinkingLevels'', JArr [JStr ''off''])]]), (''parentModel'', JObj [(''provider'', JStr ''p''), (''id'', JStr ''m'')]),
     (''parentThinkingLevel'', JStr ''off''), (''skillCatalog'', JArr [])]"

definition demo_parent :: session_row where
  "demo_parent = \<lparr>s_id = ''r'', s_short_id = ''s'', s_session_file = None, s_cwd = ''/w'', s_repository_root = None, s_display_name = ''root'',
     s_kind = Root, s_family_id = ''r'', s_parent = None, s_depth = 0, s_activity = Idle, s_streaming = False, s_lifecycle = Resident, s_actor_token = ''t'', s_generation = 1,
     s_pid = None, s_identity = None, s_launch = None, s_scratch = None, s_quiet_since = None, s_last_error = None, s_created_at = 0, s_updated_at = 0,
     s_last_activity_at = None, s_started_at = None, s_stopped_at = None, s_deleted_at = None\<rparr>"


section \<open>The projected catalog is a catalog of requests\<close>

definition offered_js :: "offered \<Rightarrow> js" where
  "offered_js x = JObj [(''provider'', JStr (md_provider (of_model x))), (''id'', JStr (md_id (of_model x))), (''name'', JStr (md_name (of_model x))),
     (''reasoning'', JBool (md_reasoning (of_model x))), (''thinkingLevels'', JArr (map JStr (md_levels (of_model x)))),
     (''contextWindow'', jint (of_window x)), (''fastModeSupported'', JBool (of_fast x))]"

lemma offered_fields: "jget ''provider'' (offered_js x) = JStr (md_provider (of_model x))" "jget ''id'' (offered_js x) = JStr (md_id (of_model x))"
    "jget ''name'' (offered_js x) = JStr (md_name (of_model x))" "jget ''reasoning'' (offered_js x) = JBool (md_reasoning (of_model x))"
    "jget ''thinkingLevels'' (offered_js x) = JArr (map JStr (md_levels (of_model x)))" "is_plain_object (offered_js x)"
  by (simp_all add: offered_js_def jget_def is_plain_object_def)

lemma supported_levels: "distinct (supported_thinking_levels m)" "set (supported_thinking_levels m) \<subseteq> set thinking_levels"
    "\<not> truthy (jget ''reasoning'' m) \<Longrightarrow> supported_thinking_levels m = [''off'']"
proof -
  have "distinct thinking_levels" by (simp add: thinking_levels_def)
  then show "distinct (supported_thinking_levels m)" by (simp add: supported_thinking_levels_def)
  show "set (supported_thinking_levels m) \<subseteq> set thinking_levels" by (auto simp: supported_thinking_levels_def thinking_levels_def)
qed (simp add: supported_thinking_levels_def)

lemma bounded_stringD: "bounded_string c mx v = Inr s \<Longrightarrow> s \<noteq> [] \<and> length s \<le> mx"
  by (auto simp: bounded_string_def split: js.splits if_splits)

lemma project_modelD:
  assumes "project_model k m = Inr x" "md_levels (of_model x) \<noteq> []"
  shows "model_fields_ok (of_model x)"
proof -
  obtain p i n b w where r: "bounded_string (at_index ''availableModels'' k ''.provider'') 128 (jget ''provider'' m) = Inr p"
      "bounded_string (at_index ''availableModels'' k ''.id'') 256 (jget ''id'' m) = Inr i"
      "bounded_string (at_index ''availableModels'' k ''.name'') 256 (jget ''name'' m) = Inr n" "jget ''reasoning'' m = JBool b"
      "of_model x = \<lparr>md_provider = p, md_id = i, md_name = n, md_reasoning = b, md_levels = supported_thinking_levels m\<rparr>"
    using assms(1) by (auto simp: project_model_def Let_def split: if_splits sum.splits option.splits js.splits)
  then show ?thesis
    using assms(2) bounded_stringD [OF r(1)] bounded_stringD [OF r(2)] bounded_stringD [OF r(3)] supported_levels [of m]
    by (simp add: model_fields_ok_def truthy_def)
qed

lemma level_names_strings:
  assumes "distinct ls" "set ls \<subseteq> set thinking_levels"
  shows "level_names (map JStr ls) = Some ls"
proof -
  have "list_all (\<lambda>s. s \<in> set thinking_levels) ls" using assms(2) by (auto simp: list_all_iff)
  moreover have "distinct (map JStr ls)" using assms(1) by (simp add: distinct_map inj_on_def)
  ultimately show ?thesis by (simp add: level_names_def list_all_iff o_def)
qed

lemma normalize_offered:
  assumes ok: "model_fields_ok (of_model x)" and seen: "model_key (of_model x) \<notin> set seen"
  shows "normalize_model k seen (offered_js x) = Inr (of_model x)"
proof -
  have r: "require_model c (offered_js x) = Inr (md_provider (of_model x), md_id (of_model x))" for c
    using ok by (simp add: require_model_def offered_fields bounded_name_def model_fields_ok_def)
  have l: "level_names (map JStr (md_levels (of_model x))) = Some (md_levels (of_model x))"
    using ok by (simp add: level_names_strings model_fields_ok_def)
  show ?thesis
    using ok seen unfolding normalize_model_def r Let_def offered_fields sum.case prod.case js.case l
    by (auto simp: model_key_def model_fields_ok_def)
qed

lemma project_models_accepted:
  "project_models_from k seen ms = Inr os \<Longrightarrow> list_all (\<lambda>x. md_levels (of_model x) \<noteq> []) os \<Longrightarrow>
   normalize_models_from k seen (map offered_js os) = Inr (map of_model os)"
proof (induction ms arbitrary: k seen os)
  case (Cons m ms)
  obtain x xs where x: "project_model k m = Inr x" "model_key (of_model x) \<notin> set seen"
      "project_models_from (k + 1) (model_key (of_model x) # seen) ms = Inr xs" "os = x # xs"
    using Cons.prems(1) by (auto simp: model_key_def Let_def split: sum.splits if_splits)
  have "normalize_model k seen (offered_js x) = Inr (of_model x)"
    using project_modelD [OF x(1)] x(2,4) Cons.prems(2) by (intro normalize_offered) simp_all
  with Cons.IH [OF x(3)] Cons.prems(2) x(4) show ?case by (simp add: model_key_def)
qed simp

lemma project_models_length: "project_models_from k seen ms = Inr os \<Longrightarrow> length os = length ms"
  by (induction ms arbitrary: k seen os) (auto simp: Let_def split: sum.splits if_splits)

text \<open>
  A catalog that \<open>projectAvailableModels\<close> has projected is accepted by the policy of children as it is, when every
  model keeps a thinking level; one model that supports no level makes the whole catalog unusable.
\<close>

lemma projected_catalog_accepted:
  assumes "project_available_models v = Inr os" "os \<noteq> []"
  shows "(case normalize_models (JArr (map offered_js os)) of Inr ms \<Rightarrow> ms = map of_model os | Inl _ \<Rightarrow> False)
    \<longleftrightarrow> list_all (\<lambda>x. md_levels (of_model x) \<noteq> []) os"
proof -
  obtain vs where vs: "v = JArr vs" "length vs \<le> 512" "project_models_from 0 [] vs = Inr os"
    using assms(1) by (auto simp: project_available_models_def split: js.splits if_splits)
  have n: "normalize_models (JArr (map offered_js os)) = normalize_models_from 0 [] (map offered_js os)"
    using assms(2) vs(2) project_models_length [OF vs(3)] by (simp add: normalize_models_def)
  have "list_all (\<lambda>x. md_levels (of_model x) \<noteq> []) os" if "normalize_models_from 0 [] (map offered_js os) = Inr (map of_model os)"
    using normalize_models_fromD [OF that] by (auto simp: list_all_iff model_fields_ok_def)
  then show ?thesis
    unfolding n using project_models_accepted [OF vs(3)] by (auto split: sum.split)
qed

section \<open>The search keeps what it found\<close>

lemma to_front_mset: "mset (to_front (index_of q xs) xs) = mset xs"
proof (cases "index_of q xs")
  case (Some n)
  then have "n < length xs" by (auto simp: index_of_def Let_def split: if_splits)
  then have "xs = take n xs @ xs ! n # drop (n + 1) xs" by (simp add: id_take_nth_drop)
  then have "mset xs = mset (xs ! n # take n xs @ drop (n + 1) xs)" by (metis mset.simps(2) mset_append union_mset_add_mset_right)
  then show ?thesis using Some by (simp add: to_front_def)
qed (simp add: to_front_def)

lemma preferred_to_front_mset: "mset (to_front (preferred_index xs e) xs) = mset xs"
proof -
  have "mset (to_front None xs) = mset xs" by (simp add: to_front_def)
  then show ?thesis
    using to_front_mset [of "\<lambda>m. (md_provider m, md_id m) = e" xs] to_front_mset [of "\<lambda>m. md_id m = snd e" xs]
    by (auto simp: preferred_index_def split: option.split)
qed

lemma find_models_found:
  assumes "find_models txt models query limit preferred = Inr xs"
  shows "\<exists>ms ys. normalize_models models = Inr ms \<and> xs = take (nat limit) ys \<and> length xs \<le> 100
    \<and> mset ys = mset (filter (\<lambda>m. js_lower (js_trim (string_of txt (coalesce query (JStr [])))) = []
        \<or> has_part (js_lower (full_name m @ '' '' @ md_name m)) (js_lower (js_trim (string_of txt (coalesce query (JStr [])))))) ms)"
proof -
  have keep: "mset (fold (\<lambda>e xs. to_front (preferred_index xs e) xs) es ys) = mset ys" for es ys
    by (induction es arbitrary: ys) (simp_all add: preferred_to_front_mset)
  show ?thesis
    using assms by (auto simp: find_models_def Let_def keep split: if_splits sum.splits intro!: exI)
qed

end
