(* ===== verification/CronSchedule.thy ===== *)
theory CronSchedule
  imports Prelude
begin

text \<open>
  Schedules of recurring and one-shot jobs (src/cron-schedule.mjs): validation and
  normalisation of a requested schedule, and the next occurrence after a claimed one. The
  cron-expression library, the time-zone database and \<open>Date.parse\<close> are the fields of
  \<open>calendar\<close>. Times are integer milliseconds; every value is far below 2^53, where the
  source's doubles are exact.
\<close>

record calendar =
  cal_zone :: "string \<Rightarrow> bool"                                   \<comment> \<open>\<open>Intl.DateTimeFormat\<close> accepts the zone\<close>
  cal_next :: "string \<Rightarrow> string \<Rightarrow> int \<Rightarrow> string + int option" \<comment> \<open>\<open>Cron(pattern).nextRun(after)\<close>, or its error\<close>
  cal_once :: "string \<Rightarrow> string \<Rightarrow> string + int option"          \<comment> \<open>\<open>Cron(pattern).getOnce()\<close>\<close>
  cal_parse :: "string \<Rightarrow> int option"                             \<comment> \<open>\<open>Date.parse\<close>; \<open>None\<close> is NaN\<close>

definition default_cron_timezone :: string where
  "default_cron_timezone = ''UTC''"

definition min_cron_interval_seconds :: int where
  "min_cron_interval_seconds = 300"

definition max_cron_interval_seconds :: int where
  "max_cron_interval_seconds = 31622400"

datatype schedule =
    SAt string string     \<comment> \<open>ISO time and zone\<close>
  | SEvery int string     \<comment> \<open>interval in seconds and zone\<close>
  | SCron string string   \<comment> \<open>five-field expression and zone\<close>

fun recurring :: "schedule \<Rightarrow> bool" where
  "recurring (SAt _ _) = False"
| "recurring (SEvery _ _) = True"
| "recurring (SCron _ _) = True"

fun schedule_zone :: "schedule \<Rightarrow> string" where
  "schedule_zone (SAt _ z) = z"
| "schedule_zone (SEvery _ z) = z"
| "schedule_zone (SCron _ z) = z"

text \<open>The JSON value a schedule is stored as.\<close>

fun schedule_js :: "schedule \<Rightarrow> js" where
  "schedule_js (SAt t z) = JObj [(''kind'', JStr ''at''), (''at'', JStr t), (''timezone'', JStr z)]"
| "schedule_js (SEvery n z) = JObj [(''kind'', JStr ''every''), (''intervalSeconds'', jint n), (''timezone'', JStr z)]"
| "schedule_js (SCron e z) = JObj [(''kind'', JStr ''cron''), (''expression'', JStr e), (''timezone'', JStr z)]"

record normalized =
  nz_schedule :: schedule
  nz_display :: string
  nz_next :: int
  nz_recurring :: bool

definition validate_cron_timezone :: "calendar \<Rightarrow> js \<Rightarrow> string result" where
  "validate_cron_timezone cal v = (case v of
      JStr z \<Rightarrow> if z = [] \<or> length z > 128 then Inl (TypeErr ''timezone must be a non-empty IANA timezone'')
        else if \<not> cal_zone cal z then Inl (TypeErr (''invalid IANA timezone: '' @ z)) else Inr z
    | _ \<Rightarrow> Inl (TypeErr ''timezone must be a non-empty IANA timezone''))"

text \<open>\<open>cronDate\<close>: the library's error becomes a \<open>TypeError\<close>.\<close>

definition cron_date :: "calendar \<Rightarrow> string \<Rightarrow> string \<Rightarrow> int \<Rightarrow> bool \<Rightarrow> int option result" where
  "cron_date cal pattern zone after allow_past =
     (case (if allow_past then cal_once cal pattern zone else cal_next cal pattern zone after) of
        Inl why \<Rightarrow> Inl (TypeErr why)
      | Inr v \<Rightarrow> Inr v)"

section \<open>ISO date-times\<close>

text \<open>The regular expression of \<open>isoAt\<close>, as a matcher that returns the rest of the string.\<close>

definition is_digit :: "char \<Rightarrow> bool" where
  "is_digit c \<longleftrightarrow> 48 \<le> (of_char c :: nat) \<and> of_char c \<le> (57 :: nat)"

fun digits :: "nat \<Rightarrow> string \<Rightarrow> string option" where
  "digits 0 s = Some s"
| "digits (Suc n) [] = None"
| "digits (Suc n) (c # s) = (if is_digit c then digits n s else None)"

fun lit :: "char \<Rightarrow> string \<Rightarrow> string option" where
  "lit c [] = None"
| "lit c (d # s) = (if d = c then Some s else None)"

definition bind :: "'a option \<Rightarrow> ('a \<Rightarrow> 'b option) \<Rightarrow> 'b option" where
  "bind x f = (case x of None \<Rightarrow> None | Some y \<Rightarrow> f y)"

text \<open>\<open>(?:Z|[+-]\d{2}:?\d{2})?$\<close>\<close>

definition offset_rest :: "string \<Rightarrow> bool" where
  "offset_rest s \<longleftrightarrow> (case s of
      [] \<Rightarrow> False
    | c # r \<Rightarrow> if c = CHR ''Z'' then r = []
        else (c = CHR ''+'' \<or> c = CHR ''-'') \<and> (case digits 2 r of None \<Rightarrow> False
          | Some r1 \<Rightarrow> digits 2 r1 = Some [] \<or> (case lit (CHR '':'') r1 of Some r2 \<Rightarrow> digits 2 r2 = Some [] | None \<Rightarrow> False)))"

definition end_rest :: "string \<Rightarrow> bool" where
  "end_rest s \<longleftrightarrow> s = [] \<or> offset_rest s"

text \<open>\<open>(?:\.\d{1,3})?\<close> and then the end.\<close>

definition fraction_rest :: "string \<Rightarrow> bool" where
  "fraction_rest s \<longleftrightarrow> end_rest s \<or> (case lit (CHR ''.'') s of None \<Rightarrow> False
     | Some r \<Rightarrow> list_ex (\<lambda>n. case digits n r of Some q \<Rightarrow> end_rest q | None \<Rightarrow> False) [1, 2, 3])"

definition seconds_rest :: "string \<Rightarrow> bool" where
  "seconds_rest s \<longleftrightarrow> end_rest s \<or> (case bind (lit (CHR '':'') s) (digits 2) of None \<Rightarrow> False | Some r \<Rightarrow> fraction_rest r)"

definition iso_shape :: "string \<Rightarrow> bool" where
  "iso_shape s \<longleftrightarrow> (case bind (bind (bind (bind (bind (bind (bind (bind (digits 4 s)
       (lit (CHR ''-''))) (digits 2)) (lit (CHR ''-''))) (digits 2)) (lit (CHR ''T''))) (digits 2)) (lit (CHR '':''))) (digits 2) of
     None \<Rightarrow> False | Some r \<Rightarrow> seconds_rest r)"

text \<open>\<open>/(?:Z|[+-]\d{2}:?\d{2})$/\<close> anywhere at the end of the string.\<close>

definition explicit_offset :: "string \<Rightarrow> bool" where
  "explicit_offset s \<longleftrightarrow> list_ex (\<lambda>n. n \<le> length s \<and> offset_rest (drop (length s - n) s)) [1, 5, 6]"

definition iso_at :: "calendar \<Rightarrow> js \<Rightarrow> string \<Rightarrow> int \<Rightarrow> bool \<Rightarrow> int result" where
  "iso_at cal v zone now allow_past = (case v of
      JStr s \<Rightarrow>
        if length s > 128 \<or> \<not> iso_shape s
        then Inl (TypeErr ''at schedule must be an ISO date-time, with an optional UTC offset'')
        else (case (if explicit_offset s then Inr (cal_parse cal s) else cron_date cal s zone (now - 1) allow_past) of
            Inl e \<Rightarrow> Inl e
          | Inr None \<Rightarrow> Inl (TypeErr ''at schedule is not a valid date-time'')
          | Inr (Some t) \<Rightarrow> if \<not> allow_past \<and> t \<le> now then Inl (TypeErr ''at schedule must be in the future'') else Inr t)
    | _ \<Rightarrow> Inl (TypeErr ''at schedule must be an ISO date-time, with an optional UTC offset''))"

section \<open>Normalisation\<close>

text \<open>\<open>s.trim().split(/\s+/).length\<close> for a trimmed string: an empty string splits into one part.\<close>

fun gaps :: "bool \<Rightarrow> string \<Rightarrow> nat" where
  "gaps inside [] = 0"
| "gaps inside (c # s) = (if js_space c then (if inside then 0 else 1) + gaps True s else gaps False s)"

definition field_count :: "string \<Rightarrow> nat" where
  "field_count s = gaps False (js_trim s) + 1"

definition normalize_cron_schedule :: "calendar \<Rightarrow> js \<Rightarrow> int \<Rightarrow> js \<Rightarrow> bool \<Rightarrow> int \<Rightarrow> normalized result" where
  "normalize_cron_schedule cal v now default_zone allow_past min_interval =
     (if \<not> is_plain_object v then Inl (TypeErr ''schedule must be an object'')
      else (case validate_cron_timezone cal (coalesce (jget ''timezone'' v) default_zone) of
        Inl e \<Rightarrow> Inl e
      | Inr zone \<Rightarrow>
          if jget ''kind'' v = JStr ''at'' then
            (case iso_at cal (jget ''at'' v) zone now allow_past of
               Inl e \<Rightarrow> Inl e
             | Inr t \<Rightarrow> (case iso_string t of
                 Inl e \<Rightarrow> Inl e
               | Inr s \<Rightarrow> Inr \<lparr>nz_schedule = SAt s zone, nz_display = s @ '' ('' @ zone @ '')'', nz_next = t, nz_recurring = False\<rparr>))
          else if jget ''kind'' v = JStr ''every'' then
            (case js_int (jget ''intervalSeconds'' v) of
               Some n \<Rightarrow> if n < min_interval \<or> n > max_cron_interval_seconds
                 then Inl (TypeErr (''intervalSeconds must be an integer from '' @ show_int min_interval @ '' through '' @ show_int max_cron_interval_seconds))
                 else Inr \<lparr>nz_schedule = SEvery n zone, nz_display = ''every '' @ show_int n @ '' seconds'',
                        nz_next = now + n * 1000, nz_recurring = True\<rparr>
             | None \<Rightarrow> Inl (TypeErr (''intervalSeconds must be an integer from '' @ show_int min_interval @ '' through '' @ show_int max_cron_interval_seconds)))
          else if jget ''kind'' v = JStr ''cron'' then
            (case jget ''expression'' v of
               JStr e \<Rightarrow> if length e > 256 \<or> field_count e \<noteq> 5 then Inl (TypeErr ''cron expression must contain exactly five fields'')
                 else (case cron_date cal (js_trim e) zone now False of
                     Inl err \<Rightarrow> Inl err
                   | Inr None \<Rightarrow> Inl (TypeErr ''cron expression has no future occurrence'')
                   | Inr (Some t) \<Rightarrow> Inr \<lparr>nz_schedule = SCron (js_trim e) zone, nz_display = js_trim e @ '' ('' @ zone @ '')'',
                        nz_next = t, nz_recurring = True\<rparr>)
             | _ \<Rightarrow> Inl (TypeErr ''cron expression must contain exactly five fields''))
          else Inl (TypeErr ''schedule.kind must be at, every, or cron'')))"

text \<open>\<open>nextCronRunAfter\<close> on a stored schedule; \<open>None\<close> is \<open>null\<close>.\<close>

definition next_cron_run_after :: "calendar \<Rightarrow> schedule \<Rightarrow> int \<Rightarrow> int \<Rightarrow> int option result" where
  "next_cron_run_after cal s scheduled now = (case s of
      SAt _ _ \<Rightarrow> Inr None
    | SEvery n _ \<Rightarrow> (let interval = n * 1000 in
        if interval \<le> 0 \<or> interval > max_safe then Inl (TypeErr ''stored interval schedule is invalid'')
        else Inr (Some (scheduled + (max 0 (now - scheduled) div interval + 1) * interval)))
    | SCron e z \<Rightarrow> (case validate_cron_timezone cal (JStr z) of
        Inl err \<Rightarrow> Inl err
      | Inr zone \<Rightarrow> cron_date cal e zone (max scheduled now) False))"

section \<open>Properties\<close>

text \<open>
  The next occurrence of an interval schedule is the first point of the job's own grid that
  lies after both the claimed occurrence and the present, so a late tick skips missed
  occurrences without drifting off the grid.
\<close>

theorem next_interval_run:
  assumes "next_cron_run_after cal (SEvery n zone) scheduled now = Inr r"
  shows "\<exists>t k. r = Some t \<and> 0 < k \<and> t = scheduled + k * (n * 1000) \<and> scheduled < t \<and> now < t
    \<and> (\<forall>j > 0. now < scheduled + j * (n * 1000) \<longrightarrow> t \<le> scheduled + j * (n * 1000))"
proof -
  let ?d = "n * 1000" and ?e = "max 0 (now - scheduled)"
  have d: "0 < ?d" and r: "r = Some (scheduled + (?e div ?d + 1) * ?d)"
    using assms by (auto simp: next_cron_run_after_def Let_def split: if_splits)
  have pos: "0 < ?e div ?d + 1" using d by (simp add: pos_imp_zdiv_nonneg_iff)
  have up: "?e < (?e div ?d + 1) * ?d"
    using d pos_mod_bound [OF d, of ?e] by (simp add: algebra_simps minus_mod_eq_mult_div [symmetric])
  have least: "?e div ?d + 1 \<le> j" if "0 < j" "now < scheduled + j * ?d" for j
  proof -
    have "?e < j * ?d" using that d by (auto simp: max_def)
    moreover have "?e div ?d * ?d = ?e - ?e mod ?d" by (rule minus_mod_eq_div_mult [symmetric])
    moreover have "0 \<le> ?e mod ?d" using d by simp
    ultimately have "?e div ?d * ?d < j * ?d" by linarith
    then show ?thesis using d by (simp add: mult_less_cancel_right)
  qed
  have "scheduled < scheduled + (?e div ?d + 1) * ?d" using pos d by simp
  moreover have "now < scheduled + (?e div ?d + 1) * ?d" using up by auto
  moreover have "scheduled + (?e div ?d + 1) * ?d \<le> scheduled + j * ?d" if "0 < j" "now < scheduled + j * ?d" for j
    using least [OF that] d by simp
  ultimately show ?thesis using r pos by blast
qed

lemma next_interval_run_witness:
  "\<exists>r. next_cron_run_after \<lparr>cal_zone = (\<lambda>_. True), cal_next = (\<lambda>_ _ _. Inr None), cal_once = (\<lambda>_ _. Inr None), cal_parse = (\<lambda>_. None)\<rparr>
      (SEvery 300 ''UTC'') 1000 1000000 = Inr r \<and> (\<exists>t k. r = Some t \<and> 0 < k \<and> t = 1000 + k * (300 * 1000) \<and> 1000000 < t)"
proof -
  let ?cal = "\<lparr>cal_zone = (\<lambda>_. True), cal_next = (\<lambda>_ _ _. Inr None), cal_once = (\<lambda>_ _. Inr None), cal_parse = (\<lambda>_. None)\<rparr>"
  have r: "next_cron_run_after ?cal (SEvery 300 ''UTC'') 1000 1000000 = Inr (Some 1201000)" by code_simp
  show ?thesis using next_interval_run [OF r] r by blast
qed

lemma length_js_trim: "length (js_trim s) \<le> length s"
  unfolding js_trim_def by (metis le_trans length_dropWhile_le length_rev)

lemma validate_zoneD: "validate_cron_timezone cal v = Inr z \<Longrightarrow> validate_cron_timezone cal (JStr z) = Inr z \<and> z \<noteq> [] \<and> cal_zone cal z"
  by (auto simp: validate_cron_timezone_def split: js.splits if_splits)

text \<open>The ways in which \<open>normalizeCronSchedule\<close> succeeds.\<close>

lemma normalize_scheduleD:
  assumes "normalize_cron_schedule cal v now dz ap mi = Inr n"
  obtains (at) z t s where "jget ''kind'' v = JStr ''at''" "validate_cron_timezone cal (JStr z) = Inr z" "iso_at cal (jget ''at'' v) z now ap = Inr t"
      "iso_string t = Inr s" "n = \<lparr>nz_schedule = SAt s z, nz_display = s @ '' ('' @ z @ '')'', nz_next = t, nz_recurring = False\<rparr>"
  | (every) z k where "validate_cron_timezone cal (JStr z) = Inr z" "mi \<le> k" "k \<le> max_cron_interval_seconds"
      "n = \<lparr>nz_schedule = SEvery k z, nz_display = ''every '' @ show_int k @ '' seconds'', nz_next = now + k * 1000, nz_recurring = True\<rparr>"
  | (cron) z e t where "validate_cron_timezone cal (JStr z) = Inr z" "length e \<le> 256" "field_count e = 5"
      "cron_date cal (js_trim e) z now False = Inr (Some t)"
      "n = \<lparr>nz_schedule = SCron (js_trim e) z, nz_display = js_trim e @ '' ('' @ z @ '')'', nz_next = t, nz_recurring = True\<rparr>"
proof -
  obtain z where z: "validate_cron_timezone cal (coalesce (jget ''timezone'' v) dz) = Inr z"
    using assms by (auto simp: normalize_cron_schedule_def split: if_splits sum.splits)
  note z' = conjunct1 [OF validate_zoneD [OF z]]
  consider "jget ''kind'' v = JStr ''at''" | "jget ''kind'' v = JStr ''every''" | "jget ''kind'' v = JStr ''cron''"
    using assms z by (auto simp: normalize_cron_schedule_def split: if_splits)
  then show thesis
  proof cases
    case 1
    with assms z z' obtain t s where "iso_at cal (jget ''at'' v) z now ap = Inr t" "iso_string t = Inr s"
        "n = \<lparr>nz_schedule = SAt s z, nz_display = s @ '' ('' @ z @ '')'', nz_next = t, nz_recurring = False\<rparr>"
      by (auto simp: normalize_cron_schedule_def split: if_splits sum.splits)
    with 1 z' show thesis by (rule at)
  next
    case 2
    with assms z obtain k where "mi \<le> k" "k \<le> max_cron_interval_seconds"
        "n = \<lparr>nz_schedule = SEvery k z, nz_display = ''every '' @ show_int k @ '' seconds'', nz_next = now + k * 1000, nz_recurring = True\<rparr>"
      by (auto simp: normalize_cron_schedule_def split: if_splits option.splits)
    with z' show thesis by (rule every)
  next
    case 3
    with assms z obtain e where e: "jget ''expression'' v = JStr e"
      by (cases "jget ''expression'' v") (auto simp: normalize_cron_schedule_def split: if_splits)
    with 3 assms z obtain t where "length e \<le> 256" "field_count e = 5" "cron_date cal (js_trim e) z now False = Inr (Some t)"
        "n = \<lparr>nz_schedule = SCron (js_trim e) z, nz_display = js_trim e @ '' ('' @ z @ '')'', nz_next = t, nz_recurring = True\<rparr>"
      by (auto simp: normalize_cron_schedule_def split: if_splits option.splits sum.splits)
    with z' show thesis by (rule cron)
  qed
qed

text \<open>
  An accepted schedule is within the documented bounds: a valid zone; an interval from the
  minimum through 366 days whose first run is one interval ahead; a five-field expression; and a
  one-shot time in the future unless past times were allowed.
\<close>

theorem accepted_schedule_bounds:
  assumes "normalize_cron_schedule cal v now dz ap mi = Inr n"
  shows "cal_zone cal (schedule_zone (nz_schedule n)) \<and> nz_recurring n = recurring (nz_schedule n)
    \<and> (case nz_schedule n of
         SAt s _ \<Rightarrow> iso_string (nz_next n) = Inr s \<and> (\<not> ap \<longrightarrow> now < nz_next n)
       | SEvery k _ \<Rightarrow> mi \<le> k \<and> k \<le> max_cron_interval_seconds \<and> nz_next n = now + k * 1000
       | SCron e _ \<Rightarrow> field_count e = 5 \<and> length e \<le> 256)"
  using assms
proof (cases rule: normalize_scheduleD)
  case (at z t s)
  then have "\<not> ap \<longrightarrow> now < t" by (auto simp: iso_at_def split: js.splits if_splits sum.splits option.splits)
  with at show ?thesis by (auto dest: validate_zoneD)
next
  case (cron z e t)
  then show ?thesis using length_js_trim [of e] by (auto simp: field_count_def js_trim_idem dest: validate_zoneD)
qed (auto dest: validate_zoneD)

definition demo_calendar :: calendar where
  "demo_calendar = \<lparr>cal_zone = (\<lambda>z. z = ''UTC''), cal_next = (\<lambda>_ _ after. Inr (Some (after + 60000))),
     cal_once = (\<lambda>_ _. Inr None), cal_parse = (\<lambda>s. if s = ''2001-09-09T01:46:40Z'' then Some 1000000000000 else None)\<rparr>"

lemma accepted_schedule_bounds_witness:
  "\<exists>n. normalize_cron_schedule demo_calendar (JObj [(''kind'', JStr ''at''), (''at'', JStr ''2001-09-09T01:46:40Z'')]) 5 (JStr ''UTC'') False 300 = Inr n
     \<and> 5 < nz_next n \<and> nz_schedule n = SAt ''2001-09-09T01:46:40.000Z'' ''UTC''"
proof -
  let ?r = "normalize_cron_schedule demo_calendar (JObj [(''kind'', JStr ''at''), (''at'', JStr ''2001-09-09T01:46:40Z'')]) 5 (JStr ''UTC'') False 300"
  have "(case ?r of Inr n \<Rightarrow> nz_schedule n = SAt ''2001-09-09T01:46:40.000Z'' ''UTC'' | Inl _ \<Rightarrow> False)" by code_simp
  then obtain n where r: "?r = Inr n" "nz_schedule n = SAt ''2001-09-09T01:46:40.000Z'' ''UTC''" by (auto split: sum.splits)
  show ?thesis using accepted_schedule_bounds [OF r(1)] r by simp
qed

text \<open>
  Reading a stored recurring schedule back and normalising it again for the same instant
  gives the same schedule, display and first run, whatever default zone is configured: the check
  that a repeated creation request has the same intent compares equal values.
\<close>

theorem stored_schedule_roundtrip:
  assumes "normalize_cron_schedule cal v now dz ap mi = Inr n" and "nz_recurring n"
  shows "normalize_cron_schedule cal (schedule_js (nz_schedule n)) now dz' ap' mi = Inr n"
  using assms(1)
proof (cases rule: normalize_scheduleD)
  case (every z k)
  then show ?thesis by (simp add: normalize_cron_schedule_def is_plain_object_def jget_def coalesce_def nullish_def)
next
  case (cron z e t)
  moreover have "field_count (js_trim e) = field_count e" by (simp add: field_count_def js_trim_idem)
  ultimately show ?thesis
    using length_js_trim [of e] by (simp add: normalize_cron_schedule_def is_plain_object_def jget_def coalesce_def nullish_def js_trim_idem)
qed (use assms(2) in simp)

lemma stored_schedule_roundtrip_witness:
  "normalize_cron_schedule demo_calendar (schedule_js (SCron ''0 9 * * 1'' ''UTC'')) 5 (JStr ''Mars'') False 300
     = normalize_cron_schedule demo_calendar (JObj [(''kind'', JStr ''cron''), (''expression'', JStr '' 0 9 * * 1 '')]) 5 (JStr ''UTC'') False 300"
proof -
  let ?r = "normalize_cron_schedule demo_calendar (JObj [(''kind'', JStr ''cron''), (''expression'', JStr '' 0 9 * * 1 '')]) 5 (JStr ''UTC'') False 300"
  have "(case ?r of Inr n \<Rightarrow> nz_schedule n = SCron ''0 9 * * 1'' ''UTC'' \<and> nz_recurring n | Inl _ \<Rightarrow> False)" by code_simp
  then obtain n where r: "?r = Inr n" "nz_schedule n = SCron ''0 9 * * 1'' ''UTC''" "nz_recurring n" by (auto split: sum.splits)
  show ?thesis using stored_schedule_roundtrip [OF r(1,3), of "JStr ''Mars''" False] r by simp
qed

end
