(* ===== verification/CronLaunch.thy ===== *)
theory CronLaunch
  imports Prelude
begin

text \<open>
  The launch policy of a scheduled job (src/cron-launch.mjs): a model and a thinking level, each
  either an explicit pin or the live settings default. A policy is read from a JSON value of any
  shape, and what is stored and shown is always one of the two well-formed variants.
\<close>

datatype model_policy =
    SettingsModel
  | PinnedModel string string string   \<comment> \<open>requested, provider and model id\<close>

datatype thinking_policy =
    SettingsThinking
  | PinnedThinking string string       \<comment> \<open>requested and resolved level\<close>

text \<open>The policy \<open>{ model, thinking, capabilityIds: [] }\<close>.\<close>

record launch =
  ln_model :: model_policy
  ln_thinking :: thinking_policy

fun model_js :: "model_policy \<Rightarrow> js" where
  "model_js SettingsModel = JObj [(''requested'', Null), (''resolved'', Null), (''source'', JStr ''settings'')]"
| "model_js (PinnedModel r p i) = JObj [(''requested'', JStr r),
     (''resolved'', JObj [(''provider'', JStr p), (''id'', JStr i)]), (''source'', JStr ''explicit'')]"

fun thinking_js :: "thinking_policy \<Rightarrow> js" where
  "thinking_js SettingsThinking = JObj [(''requested'', Null), (''resolved'', Null), (''source'', JStr ''settings'')]"
| "thinking_js (PinnedThinking r l) = JObj [(''requested'', JStr r), (''resolved'', JStr l), (''source'', JStr ''explicit'')]"

definition launch_js :: "launch \<Rightarrow> js" where
  "launch_js l = JObj [(''model'', model_js (ln_model l)), (''thinking'', thinking_js (ln_thinking l)), (''capabilityIds'', JArr [])]"

text \<open>A string with at least one character, as \<open>typeof v === "string" && v\<close> asks.\<close>

definition full_string :: "js \<Rightarrow> string option" where
  "full_string v = (case v of JStr s \<Rightarrow> if s = [] then None else Some s | _ \<Rightarrow> None)"

definition is_pinned_model :: "js \<Rightarrow> bool" where
  "is_pinned_model m \<longleftrightarrow> jget ''source'' m = JStr ''explicit'' \<and> truthy (jget ''resolved'' m)
     \<and> full_string (jget ''provider'' (jget ''resolved'' m)) \<noteq> None
     \<and> full_string (jget ''id'' (jget ''resolved'' m)) \<noteq> None"

definition is_pinned_thinking :: "js \<Rightarrow> bool" where
  "is_pinned_thinking t \<longleftrightarrow> jget ''source'' t = JStr ''explicit'' \<and> full_string (jget ''resolved'' t) \<noteq> None"

definition js_text :: "js \<Rightarrow> string" where
  "js_text v = (case v of JStr s \<Rightarrow> s | _ \<Rightarrow> [])"

definition normalize_cron_launch :: "js \<Rightarrow> launch" where
  "normalize_cron_launch launch = (let m = jget ''model'' launch; t = jget ''thinking'' launch in
     \<lparr>ln_model = (if is_pinned_model m
        then (let p = js_text (jget ''provider'' (jget ''resolved'' m)); i = js_text (jget ''id'' (jget ''resolved'' m))
          in PinnedModel (case full_string (jget ''requested'' m) of Some r \<Rightarrow> r | None \<Rightarrow> p @ ''/'' @ i) p i)
        else SettingsModel),
      ln_thinking = (if is_pinned_thinking t
        then (let l = js_text (jget ''resolved'' t)
          in PinnedThinking (case full_string (jget ''requested'' t) of Some r \<Rightarrow> r | None \<Rightarrow> l) l)
        else SettingsThinking)\<rparr>)"

text \<open>
  The pin a request builds. A provider or model that is not a string never passes
  \<open>is_pinned_model\<close>, so the text rendered for it is dropped with the pin.
\<close>

definition model_pin :: "js \<Rightarrow> js \<Rightarrow> js" where
  "model_pin p m = (if truthy p \<and> truthy m
     then JObj [(''requested'', JStr (js_text p @ ''/'' @ js_text m)), (''resolved'', JObj [(''provider'', p), (''id'', m)]), (''source'', JStr ''explicit'')]
     else model_js SettingsModel)"

definition thinking_pin :: "js \<Rightarrow> js" where
  "thinking_pin t = (if truthy t
     then JObj [(''requested'', t), (''resolved'', t), (''source'', JStr ''explicit'')]
     else thinking_js SettingsThinking)"

definition cron_launch_from_request :: "js \<Rightarrow> launch" where
  "cron_launch_from_request q = normalize_cron_launch (JObj [
     (''model'', model_pin (jget ''provider'' q) (jget ''model'' q)), (''thinking'', thinking_pin (jget ''thinkingLevel'' q))])"

definition merge_cron_launch :: "js \<Rightarrow> js \<Rightarrow> launch" where
  "merge_cron_launch current patch = (let
      has_model = (jget ''provider'' patch \<noteq> Undef \<or> jget ''model'' patch \<noteq> Undef);
      has_thinking = (jget ''thinkingLevel'' patch \<noteq> Undef)
    in if \<not> has_model \<and> \<not> has_thinking then normalize_cron_launch current
    else (let
        nxt = launch_js (normalize_cron_launch current);
        nxt = (if has_model then jset ''model'' (model_pin (jget ''provider'' patch) (jget ''model'' patch)) nxt else nxt);
        nxt = (if has_thinking then jset ''thinking'' (thinking_pin (jget ''thinkingLevel'' patch)) nxt else nxt)
      in normalize_cron_launch nxt))"

section \<open>Lemmas\<close>

text \<open>The policies that can be stored: every text of a pin is non-empty.\<close>

fun model_ok :: "model_policy \<Rightarrow> bool" where
  "model_ok SettingsModel = True"
| "model_ok (PinnedModel r p i) = (r \<noteq> [] \<and> p \<noteq> [] \<and> i \<noteq> [])"

fun thinking_ok :: "thinking_policy \<Rightarrow> bool" where
  "thinking_ok SettingsThinking = True"
| "thinking_ok (PinnedThinking r l) = (r \<noteq> [] \<and> l \<noteq> [])"

definition launch_ok :: "launch \<Rightarrow> bool" where
  "launch_ok l \<longleftrightarrow> model_ok (ln_model l) \<and> thinking_ok (ln_thinking l)"

lemma full_string_iff: "full_string v = Some s \<longleftrightarrow> v = JStr s \<and> s \<noteq> []"
  by (auto simp: full_string_def split: js.splits)

lemma full_string_JStr [simp]: "full_string (JStr s) = (if s = [] then None else Some s)"
  by (simp add: full_string_def)

lemma jget_JObj: "jget k (JObj ps) = (case map_of ps k of Some x \<Rightarrow> x | None \<Rightarrow> Undef)"
  by (simp add: jget_def)

lemmas launch_read = jget_JObj is_pinned_model_def is_pinned_thinking_def js_text_def truthy_def

text \<open>The model and the thinking level are read independently of each other.\<close>

definition read_model :: "js \<Rightarrow> model_policy" where
  "read_model m = ln_model (normalize_cron_launch (JObj [(''model'', m)]))"

definition read_thinking :: "js \<Rightarrow> thinking_policy" where
  "read_thinking t = ln_thinking (normalize_cron_launch (JObj [(''thinking'', t)]))"

lemma normalize_launch_parts:
  "normalize_cron_launch l = \<lparr>ln_model = read_model (jget ''model'' l), ln_thinking = read_thinking (jget ''thinking'' l)\<rparr>"
  by (simp add: normalize_cron_launch_def read_model_def read_thinking_def Let_def jget_JObj)

lemma read_model_ok: "model_ok (read_model m)"
  by (auto simp: read_model_def normalize_cron_launch_def Let_def jget_JObj is_pinned_model_def full_string_iff js_text_def split: option.splits)

lemma read_thinking_ok: "thinking_ok (read_thinking t)"
  by (auto simp: read_thinking_def normalize_cron_launch_def Let_def jget_JObj is_pinned_thinking_def full_string_iff js_text_def split: option.splits)

lemma read_model_js: "model_ok m \<Longrightarrow> read_model (model_js m) = m"
  by (cases m) (auto simp: read_model_def normalize_cron_launch_def Let_def launch_read)

lemma read_thinking_js: "thinking_ok t \<Longrightarrow> read_thinking (thinking_js t) = t"
  by (cases t) (auto simp: read_thinking_def normalize_cron_launch_def Let_def launch_read)

lemma launch_js_parts [simp]:
  "jget ''model'' (launch_js l) = model_js (ln_model l)" "jget ''thinking'' (launch_js l) = thinking_js (ln_thinking l)"
  "is_plain_object (launch_js l)"
  by (simp_all add: launch_js_def jget_JObj is_plain_object_def)

lemma normalize_launch_ok: "launch_ok (normalize_cron_launch l)"
  by (simp add: launch_ok_def normalize_launch_parts read_model_ok read_thinking_ok)

lemma normalize_launch_js: "launch_ok l \<Longrightarrow> normalize_cron_launch (launch_js l) = l"
  by (simp add: launch_ok_def normalize_launch_parts read_model_js read_thinking_js)

declare model_js.simps [simp del] thinking_js.simps [simp del]

lemma read_model_settings [simp]: "read_model (model_js SettingsModel) = SettingsModel"
  by (rule read_model_js) simp

lemma read_thinking_settings [simp]: "read_thinking (thinking_js SettingsThinking) = SettingsThinking"
  by (rule read_thinking_js) simp

text \<open>The parts of a patch that are present replace the stored ones, the others stay.\<close>

lemma merge_launch_parts:
  "merge_cron_launch current patch = (let old = normalize_cron_launch current in
     \<lparr>ln_model = (if jget ''provider'' patch \<noteq> Undef \<or> jget ''model'' patch \<noteq> Undef
        then read_model (model_pin (jget ''provider'' patch) (jget ''model'' patch)) else ln_model old),
      ln_thinking = (if jget ''thinkingLevel'' patch \<noteq> Undef then read_thinking (thinking_pin (jget ''thinkingLevel'' patch)) else ln_thinking old)\<rparr>)"
  using normalize_launch_ok [of current]
  by (auto simp: merge_cron_launch_def Let_def normalize_launch_parts jget_jset launch_ok_def read_model_js read_thinking_js)

text \<open>
  C24: A launch policy read from any JSON value is well formed (every text of a pin is
  non-empty), and writing it out and reading it back gives the same policy: normalisation is
  idempotent, also on what a merge or a creation request produces.
\<close>

theorem cron_launch_roundtrip:
  "launch_ok (normalize_cron_launch v) \<and> normalize_cron_launch (launch_js (normalize_cron_launch v)) = normalize_cron_launch v
    \<and> normalize_cron_launch (launch_js (merge_cron_launch v patch)) = merge_cron_launch v patch
    \<and> normalize_cron_launch (launch_js (cron_launch_from_request patch)) = cron_launch_from_request patch"
proof -
  have "launch_ok (merge_cron_launch v patch)"
    by (simp add: merge_launch_parts Let_def launch_ok_def read_model_ok read_thinking_ok normalize_launch_ok [unfolded launch_ok_def])
  then show ?thesis
    by (simp add: normalize_launch_js normalize_launch_ok cron_launch_from_request_def)
qed

text \<open>
  A merge changes only what the patch mentions: an absent model keeps the stored model, an
  absent thinking level keeps the stored one; a null model or level clears the pin; a string
  provider and model replace it; and merging the same patch again changes nothing.
\<close>

theorem merge_cron_launch_laws:
  "(jget ''provider'' patch = Undef \<longrightarrow> jget ''model'' patch = Undef \<longrightarrow> ln_model (merge_cron_launch v patch) = ln_model (normalize_cron_launch v))
   \<and> (jget ''thinkingLevel'' patch = Undef \<longrightarrow> ln_thinking (merge_cron_launch v patch) = ln_thinking (normalize_cron_launch v))
   \<and> (jget ''model'' patch = Null \<longrightarrow> ln_model (merge_cron_launch v patch) = SettingsModel)
   \<and> (jget ''thinkingLevel'' patch = Null \<longrightarrow> ln_thinking (merge_cron_launch v patch) = SettingsThinking)
   \<and> (p \<noteq> [] \<longrightarrow> m \<noteq> [] \<longrightarrow> jget ''provider'' patch = JStr p \<longrightarrow> jget ''model'' patch = JStr m
        \<longrightarrow> ln_model (merge_cron_launch v patch) = PinnedModel (p @ ''/'' @ m) p m)
   \<and> merge_cron_launch (launch_js (merge_cron_launch v patch)) patch = merge_cron_launch v patch"
proof -
  have "truthy Null = False" by (simp add: truthy_def)
  moreover have "read_model (model_pin (JStr p) (JStr m)) = PinnedModel (p @ ''/'' @ m) p m" if "p \<noteq> []" "m \<noteq> []"
    using that by (simp add: model_pin_def read_model_def normalize_cron_launch_def Let_def launch_read)
  moreover have "normalize_cron_launch (launch_js (merge_cron_launch v patch)) = merge_cron_launch v patch"
    by (intro normalize_launch_js) (simp add: merge_launch_parts Let_def launch_ok_def read_model_ok read_thinking_ok
        normalize_launch_ok [unfolded launch_ok_def])
  ultimately show ?thesis
    by (auto simp: merge_launch_parts Let_def model_pin_def thinking_pin_def)
qed

lemma merge_cron_launch_laws_witness:
  "ln_model (merge_cron_launch (launch_js (normalize_cron_launch Undef)) (JObj [(''provider'', JStr ''acme''), (''model'', JStr ''m1'')]))
     = PinnedModel ''acme/m1'' ''acme'' ''m1''"
  using merge_cron_launch_laws [of "JObj [(''provider'', JStr ''acme''), (''model'', JStr ''m1'')]" "launch_js (normalize_cron_launch Undef)" "''acme''" "''m1''"]
  by (simp add: jget_JObj)

end
