(* ===== verification/CronCheck.thy ===== *)
theory CronCheck
  imports Prelude
begin

text \<open>
  The check command of a scheduled job (src/cron-check.mjs): validation of a requested check and
  the life of its process, as a fold over the events the child process and the timer deliver.
  Decoding UTF-8 is a parameter: Node turns the collected bytes into text.
\<close>

definition max_cron_check_timeout_seconds :: int where
  "max_cron_check_timeout_seconds = 120"

definition max_cron_check_command_bytes :: nat where
  "max_cron_check_command_bytes = 4096"

definition max_cron_check_output_bytes :: nat where
  "max_cron_check_output_bytes = 16384"

definition cron_check_failure_alert_threshold :: nat where
  "cron_check_failure_alert_threshold = 3"

definition min_checked_interval_seconds :: int where
  "min_checked_interval_seconds = 60"

record cron_check =
  ck_command :: string
  ck_timeout :: int

definition cron_check_js :: "cron_check \<Rightarrow> js" where
  "cron_check_js c = JObj [(''command'', JStr (ck_command c)), (''timeoutSeconds'', jint (ck_timeout c))]"

text \<open>\<open>Object.keys\<close> of the object; the first key outside the two allowed ones is reported.\<close>

definition normalize_cron_check :: "js \<Rightarrow> cron_check option result" where
  "normalize_cron_check v = (if nullish v then Inr None else (case v of
      JObj ps \<Rightarrow> (case find (\<lambda>p. fst p \<notin> {''command'', ''timeoutSeconds''}) ps of
          Some p \<Rightarrow> Inl (TypeErr (''check.'' @ fst p @ '' is not supported''))
        | None \<Rightarrow> (case jget ''command'' v of
            JStr c \<Rightarrow>
              if js_trim c = [] \<or> char_of (0 :: nat) \<in> set c \<or> utf8_len c > max_cron_check_command_bytes
              then Inl (TypeErr ''check.command must be a nonblank shell command of at most 4096 bytes'')
              else (case js_int (if jget ''timeoutSeconds'' v = Undef then jint 30 else jget ''timeoutSeconds'' v) of
                  Some t \<Rightarrow> if t < 1 \<or> t > max_cron_check_timeout_seconds
                    then Inl (TypeErr ''check.timeoutSeconds must be an integer from 1 through 120'')
                    else Inr (Some \<lparr>ck_command = c, ck_timeout = t\<rparr>)
                | None \<Rightarrow> Inl (TypeErr ''check.timeoutSeconds must be an integer from 1 through 120''))
          | _ \<Rightarrow> Inl (TypeErr ''check.command must be a nonblank shell command of at most 4096 bytes'')))
    | _ \<Rightarrow> Inl (TypeErr ''check must be an object'')))"

section \<open>The check process\<close>

datatype check_event =
    Stdout string           \<comment> \<open>a chunk of bytes\<close>
  | Stderr string
  | TimerFired
  | SpawnError string
  | Closed "int option" string   \<comment> \<open>exit code, or \<open>null\<close> and the signal\<close>

datatype check_result = CheckOk string | CheckFailed string

record check_process =
  cp_chunks :: "string list"
  cp_bytes :: nat
  cp_stderr :: string
  cp_timed_out :: bool
  cp_result :: "check_result option"

definition check_started :: check_process where
  "check_started = \<lparr>cp_chunks = [], cp_bytes = 0, cp_stderr = [], cp_timed_out = False, cp_result = None\<rparr>"

text \<open>\<open>s.slice(-n)\<close>\<close>

definition last_chars :: "nat \<Rightarrow> string \<Rightarrow> string" where
  "last_chars n s = drop (length s - n) s"

text \<open>Only the first result resolves the promise.\<close>

definition finish_check :: "check_result \<Rightarrow> check_process \<Rightarrow> check_process" where
  "finish_check r p = (case cp_result p of None \<Rightarrow> p\<lparr>cp_result := Some r\<rparr> | Some _ \<Rightarrow> p)"

definition truncated_note :: string where
  "truncated_note = char_of (10 :: nat) # ''[check output truncated]''"

definition close_result :: "(string \<Rightarrow> string) \<Rightarrow> int \<Rightarrow> check_process \<Rightarrow> int option \<Rightarrow> string \<Rightarrow> check_result" where
  "close_result decode timeout p code signal =
    (if cp_timed_out p then CheckFailed (''timed out after '' @ show_int timeout @ '' s'')
     else if code \<noteq> Some 0 then
       (let detail = (if js_trim (cp_stderr p) \<noteq> [] then '': '' @ js_trim (cp_stderr p) else [])
        in CheckFailed ((case code of None \<Rightarrow> ''killed by '' @ signal | Some c \<Rightarrow> ''exited with code '' @ show_int c) @ detail))
     else
       (let output = js_trim (decode (take max_cron_check_output_bytes (concat (cp_chunks p))))
        in CheckOk (if cp_bytes p > max_cron_check_output_bytes then output @ truncated_note else output)))"

definition check_step :: "(string \<Rightarrow> string) \<Rightarrow> int \<Rightarrow> check_event \<Rightarrow> check_process \<Rightarrow> check_process" where
  "check_step decode timeout ev p = (case ev of
      Stdout chunk \<Rightarrow> p\<lparr>cp_chunks := (if cp_bytes p \<le> max_cron_check_output_bytes then cp_chunks p @ [chunk] else cp_chunks p),
                       cp_bytes := cp_bytes p + length chunk\<rparr>
    | Stderr chunk \<Rightarrow> p\<lparr>cp_stderr := last_chars 500 (cp_stderr p @ decode chunk)\<rparr>
    | TimerFired \<Rightarrow> (if cp_result p = None then p\<lparr>cp_timed_out := True\<rparr> else p)
    | SpawnError msg \<Rightarrow> finish_check (CheckFailed (''could not start: '' @ msg)) p
    | Closed code signal \<Rightarrow> finish_check (close_result decode timeout p code signal) p)"

definition run_cron_check :: "(string \<Rightarrow> string) \<Rightarrow> int \<Rightarrow> check_event list \<Rightarrow> check_process" where
  "run_cron_check decode timeout evs = fold (check_step decode timeout) evs check_started"

section \<open>Lemmas\<close>

text \<open>All bytes a list of events wrote to standard output, and all text written to standard error.\<close>

definition all_stdout :: "check_event list \<Rightarrow> string" where
  "all_stdout evs = concat (map (\<lambda>e. case e of Stdout c \<Rightarrow> c | _ \<Rightarrow> []) evs)"

definition all_stderr :: "(string \<Rightarrow> string) \<Rightarrow> check_event list \<Rightarrow> string" where
  "all_stderr decode evs = concat (map (\<lambda>e. case e of Stderr c \<Rightarrow> decode c | _ \<Rightarrow> []) evs)"

lemma last_chars_append: "last_chars n (last_chars n s @ t) = last_chars n (s @ t)"
proof (cases "n \<le> length s")
  case True
  then show ?thesis by (auto simp: last_chars_def add.commute)
qed (simp add: last_chars_def)

lemma length_last_chars: "length (last_chars n s) \<le> n"
  by (simp add: last_chars_def)

lemma stdout_step:
  assumes "take max_cron_check_output_bytes (concat (cp_chunks p)) = take max_cron_check_output_bytes out"
    and "cp_bytes p = length out" and "length (concat (cp_chunks p)) \<le> length out"
    and "length out \<le> max_cron_check_output_bytes \<longrightarrow> concat (cp_chunks p) = out"
  shows "take max_cron_check_output_bytes (concat (cp_chunks (check_step d t (Stdout c) p))) = take max_cron_check_output_bytes (out @ c)"
    and "length (out @ c) \<le> max_cron_check_output_bytes \<longrightarrow> concat (cp_chunks (check_step d t (Stdout c) p)) = out @ c"
  using assms by (auto simp: check_step_def)

text \<open>What the collected output says about the whole output, after any events.\<close>

definition collected :: "(string \<Rightarrow> string) \<Rightarrow> check_process \<Rightarrow> check_event list \<Rightarrow> bool" where
  "collected decode p evs \<longleftrightarrow> cp_bytes p = length (all_stdout evs)
     \<and> take max_cron_check_output_bytes (concat (cp_chunks p)) = take max_cron_check_output_bytes (all_stdout evs)
     \<and> length (concat (cp_chunks p)) \<le> length (all_stdout evs)
     \<and> (length (all_stdout evs) \<le> max_cron_check_output_bytes \<longrightarrow> concat (cp_chunks p) = all_stdout evs)
     \<and> cp_stderr p = last_chars 500 (all_stderr decode evs)"

lemma finish_check_same [simp]:
  "cp_chunks (finish_check r p) = cp_chunks p" "cp_bytes (finish_check r p) = cp_bytes p"
  "cp_stderr (finish_check r p) = cp_stderr p" "cp_timed_out (finish_check r p) = cp_timed_out p"
  by (simp_all add: finish_check_def split: option.split)

lemma collected_step: "collected decode p evs \<Longrightarrow> collected decode (check_step decode t e p) (evs @ [e])"
  unfolding collected_def
  by (cases e) (auto simp: check_step_def all_stdout_def all_stderr_def last_chars_append)

lemma collected_run: "collected decode (run_cron_check decode t evs) evs"
proof (induction evs rule: rev_induct)
  case Nil
  show ?case by (simp add: run_cron_check_def check_started_def collected_def all_stdout_def all_stderr_def last_chars_def)
next
  case (snoc e evs)
  then show ?case using collected_step [of decode "run_cron_check decode t evs" evs t e] by (simp add: run_cron_check_def)
qed

lemma result_stays: "cp_result p = Some r \<Longrightarrow> cp_result (fold (check_step decode t) evs p) = Some r"
proof (induction evs arbitrary: p)
  case (Cons e evs)
  have "cp_result (check_step decode t e p) = Some r"
    using Cons.prems by (cases e) (simp_all add: check_step_def finish_check_def)
  then show ?case using Cons.IH by simp
qed simp

lemma no_result_yet: "cp_result p = None \<Longrightarrow> \<forall>e \<in> set evs. \<not> (\<exists>c s. e = Closed c s) \<and> \<not> (\<exists>m. e = SpawnError m)
    \<Longrightarrow> cp_result (fold (check_step decode t) evs p) = None
      \<and> cp_timed_out (fold (check_step decode t) evs p) = (cp_timed_out p \<or> TimerFired \<in> set evs)"
proof (induction evs arbitrary: p)
  case (Cons e evs)
  have "cp_result (check_step decode t e p) = None \<and> cp_timed_out (check_step decode t e p) = (cp_timed_out p \<or> e = TimerFired)"
    using Cons.prems by (cases e) (simp_all add: check_step_def)
  then show ?case using Cons by auto
qed simp

text \<open>
  C23: The collected output is equivalent to keeping everything the process wrote. Whatever events
  preceded the process's end, its result is a timeout when the timer fired, otherwise an
  error with the exit code or signal and the last 500 characters of standard error for a nonzero
  exit, otherwise the trimmed first 16384 bytes of standard output, marked exactly when more was
  written; and no later event changes it.
\<close>

theorem check_result_of_whole_output:
  assumes "\<forall>e \<in> set before. \<not> (\<exists>c s. e = Closed c s) \<and> \<not> (\<exists>m. e = SpawnError m)"
  shows "cp_result (run_cron_check decode timeout (before @ [Closed code signal] @ later)) = Some
    (if TimerFired \<in> set before then CheckFailed (''timed out after '' @ show_int timeout @ '' s'')
     else if code \<noteq> Some 0 then
       CheckFailed ((case code of None \<Rightarrow> ''killed by '' @ signal | Some c \<Rightarrow> ''exited with code '' @ show_int c)
         @ (let tail = js_trim (last_chars 500 (all_stderr decode before)) in if tail \<noteq> [] then '': '' @ tail else []))
     else CheckOk (js_trim (decode (take 16384 (all_stdout before)))
         @ (if length (all_stdout before) > 16384 then truncated_note else [])))"
proof -
  let ?p = "run_cron_check decode timeout before"
  have coll: "collected decode ?p before" by (rule collected_run)
  have none: "cp_result ?p = None" "cp_timed_out ?p = (TimerFired \<in> set before)"
    using no_result_yet [OF _ assms, of check_started] by (simp_all add: run_cron_check_def check_started_def)
  have "cp_result (fold (check_step decode timeout) later (check_step decode timeout (Closed code signal) ?p))
    = Some (close_result decode timeout ?p code signal)"
    by (rule result_stays) (simp add: check_step_def finish_check_def none)
  then show ?thesis
    using coll none by (auto simp: run_cron_check_def close_result_def collected_def Let_def max_cron_check_output_bytes_def)
qed

lemma check_result_of_whole_output_witness:
  "cp_result (run_cron_check id 30 ([Stdout ''new '', Stderr ''warn'', Stdout ''mail''] @ [Closed (Some 0) []] @ [Stdout ''late'']))
     = Some (CheckOk ''new mail'')"
proof -
  have "js_trim (id (take 16384 ''new mail'')) = ''new mail''" by code_simp
  then show ?thesis
    using check_result_of_whole_output [of "[Stdout ''new '', Stderr ''warn'', Stdout ''mail'']" id 30 "Some 0" "[]" "[Stdout ''late'']"]
    by (simp add: all_stdout_def)
qed

text \<open>
  An accepted check has a command with visible text, without NUL and of at most 4096 bytes,
  and a timeout of 1 through 120 seconds; the stored JSON of a check is accepted again unchanged.
\<close>

theorem accepted_check_bounds:
  assumes "normalize_cron_check v = Inr (Some c)"
  shows "js_trim (ck_command c) \<noteq> [] \<and> char_of (0 :: nat) \<notin> set (ck_command c) \<and> utf8_len (ck_command c) \<le> 4096
    \<and> 1 \<le> ck_timeout c \<and> ck_timeout c \<le> 120 \<and> normalize_cron_check (cron_check_js c) = Inr (Some c)"
proof -
  have "js_trim (ck_command c) \<noteq> [] \<and> char_of (0 :: nat) \<notin> set (ck_command c) \<and> utf8_len (ck_command c) \<le> 4096
    \<and> 1 \<le> ck_timeout c \<and> ck_timeout c \<le> 120"
    using assms by (auto simp: normalize_cron_check_def max_cron_check_command_bytes_def max_cron_check_timeout_seconds_def
        split: if_splits js.splits option.splits)
  then show ?thesis
    by (simp add: normalize_cron_check_def cron_check_js_def nullish_def jget_def max_cron_check_command_bytes_def max_cron_check_timeout_seconds_def)
qed

lemma accepted_check_bounds_witness:
  "\<exists>c. normalize_cron_check (JObj [(''command'', JStr ''ls'')]) = Inr (Some c) \<and> ck_timeout c \<le> 120 \<and> ck_command c = ''ls''"
proof -
  have r: "normalize_cron_check (JObj [(''command'', JStr ''ls'')]) = Inr (Some \<lparr>ck_command = ''ls'', ck_timeout = 30\<rparr>)"
    by code_simp
  show ?thesis using accepted_check_bounds [OF r] r by auto
qed

end
