(* ===== verification/CronStore.thy ===== *)
theory CronStore
  imports Tables CronSchedule CronLaunch CronCheck
begin

text \<open>
  The tables of scheduled jobs and their runs (src/cron-store.mjs) and every operation on them.
  A job or run as its callers see it is the record \<open>job\<close> or \<open>run\<close>; the stored row extends it
  with the one column that is not shown. Columns with JSON text hold the value it stands for.
  The foreign key into the sessions table is the predicate \<open>known\<close>.
\<close>

datatype exec_mode = Fresh | OriginMode

datatype notify_intent = ResultIntent | ConditionalIntent | SilentIntent

datatype job_state = Scheduled | Paused | JobCompleted | Removed

datatype run_status = Claimed | Running | RunCompleted | RunFailed | Unknown | SkippedOverlap

datatype run_source = ScheduledSource | ManualSource

datatype disposition = Deliver | NoFinding

datatype check_kind = OutputKind | FailureKind

record pending_check =
  pc_kind :: check_kind
  pc_text :: string
  pc_at :: int

record job =
  jb_id :: string
  jb_name :: string
  jb_prompt :: string
  jb_schedule :: schedule
  jb_display :: string
  jb_timezone :: string
  jb_mode :: exec_mode
  jb_intent :: "notify_intent option"
  jb_origin :: "string option"
  jb_cwd :: string
  jb_repo :: "string option"
  jb_launch :: launch
  jb_repeat :: "int option"
  jb_fires :: int
  jb_enabled :: bool
  jb_state :: job_state
  jb_next :: "int option"
  jb_last_run :: "int option"
  jb_last_status :: "run_status option"
  jb_last_error :: "string option"
  jb_created :: int
  jb_updated :: int
  jb_check :: "cron_check option"
  jb_failures :: nat
  jb_pending :: "pending_check option"

record job_row = job +
  jb_alerted :: bool

record run =
  rn_id :: string
  rn_job :: string
  rn_source :: run_source
  rn_at :: int
  rn_status :: run_status
  rn_mode_requested :: exec_mode
  rn_mode_used :: "exec_mode option"
  rn_session :: "string option"
  rn_fallback :: "string option"
  rn_input :: "string option"
  rn_intent :: "notify_intent option"
  rn_disposition :: "disposition option"
  rn_body :: "string option"
  rn_evaluated :: "int option"
  rn_check :: "(check_kind \<times> string) option"
  rn_output :: "string option"
  rn_error :: "string option"
  rn_claimed :: int
  rn_started :: "int option"
  rn_completed :: "int option"

record run_row = run +
  rn_recorded :: bool

record cron_db =
  cron_jobs :: "job_row list"
  cron_runs :: "run_row list"

definition empty_cron :: cron_db where
  "empty_cron = \<lparr>cron_jobs = [], cron_runs = []\<rparr>"

definition map_job :: "job_row \<Rightarrow> job" where
  "map_job r = (job.truncate r)\<lparr>jb_launch := normalize_cron_launch (launch_js (jb_launch r))\<rparr>"

definition map_run :: "run_row \<Rightarrow> run" where
  "map_run r = run.truncate r"

definition job_of :: "cron_db \<Rightarrow> string \<Rightarrow> job_row option" where
  "job_of db k = find_row jb_id (cron_jobs db) k"

definition run_of :: "cron_db \<Rightarrow> string \<Rightarrow> run_row option" where
  "run_of db k = find_row rn_id (cron_runs db) k"

definition active :: "run_row \<Rightarrow> bool" where
  "active r \<longleftrightarrow> rn_status r = Claimed \<or> rn_status r = Running"

definition terminal :: "run_row \<Rightarrow> bool" where
  "terminal r \<longleftrightarrow> rn_status r \<in> {RunCompleted, RunFailed, Unknown, SkippedOverlap}"

text \<open>SQLite's \<open>lower\<close> folds the ASCII letters only.\<close>

definition sql_lower :: "string \<Rightarrow> string" where
  "sql_lower s = map (\<lambda>c. let n = of_char c :: nat in if 65 \<le> n \<and> n \<le> 90 then char_of (n + 32) else c) s"

section \<open>Constraints\<close>

definition live_job :: "job_row \<Rightarrow> bool" where
  "live_job r \<longleftrightarrow> jb_state r \<noteq> Removed"

definition name_taken :: "cron_db \<Rightarrow> string \<Rightarrow> string \<Rightarrow> bool" where
  "name_taken db own name = list_ex (\<lambda>r. live_job r \<and> jb_id r \<noteq> own \<and> sql_lower (jb_name r) = sql_lower name) (cron_jobs db)"

definition job_error :: "(string \<Rightarrow> bool) \<Rightarrow> job_row \<Rightarrow> cron_db \<Rightarrow> error option" where
  "job_error known r db =
     (if (case jb_repeat r of Some n \<Rightarrow> n \<le> 0 | None \<Rightarrow> False) then Some (CheckViolation ''cron_jobs'')
      else if live_job r \<and> name_taken db (jb_id r) (jb_name r) then Some (UniqueViolation ''cron_job_live_name'')
      else if (case jb_origin r of Some s \<Rightarrow> \<not> known s | None \<Rightarrow> False) then Some (ForeignKeyViolation ''cron_jobs'')
      else None)"

definition insert_job :: "(string \<Rightarrow> bool) \<Rightarrow> job_row \<Rightarrow> cron_db \<Rightarrow> cron_db result" where
  "insert_job known r db = (if job_of db (jb_id r) \<noteq> None then Inl (UniqueViolation ''cron_jobs'')
     else case job_error known r db of Some e \<Rightarrow> Inl e | None \<Rightarrow> Inr (cron_jobs_update (add_row r) db))"

definition active_run_of :: "cron_db \<Rightarrow> string \<Rightarrow> run_row option" where
  "active_run_of db j = find (\<lambda>r. rn_job r = j \<and> active r) (cron_runs db)"

definition insert_run :: "run_row \<Rightarrow> cron_db \<Rightarrow> cron_db result" where
  "insert_run r db =
     (if run_of db (rn_id r) \<noteq> None then Inl (UniqueViolation ''cron_runs'')
      else if rn_source r = ScheduledSource \<and> list_ex (\<lambda>x. rn_source x = ScheduledSource \<and> rn_job x = rn_job r \<and> rn_at x = rn_at r) (cron_runs db)
        then Inl (UniqueViolation ''cron_scheduled_occurrence'')
      else if active r \<and> active_run_of db (rn_job r) \<noteq> None then Inl (UniqueViolation ''cron_one_active_run'')
      else if job_of db (rn_job r) = None then Inl (ForeignKeyViolation ''cron_runs'')
      else Inr (cron_runs_update (add_row r) db))"

abbreviation upd_job :: "string \<Rightarrow> (job_row \<Rightarrow> job_row) \<Rightarrow> cron_db \<Rightarrow> cron_db" where
  "upd_job j f db \<equiv> cron_jobs_update (modify_row jb_id j f) db"

abbreviation upd_run :: "string \<Rightarrow> (run_row \<Rightarrow> run_row) \<Rightarrow> cron_db \<Rightarrow> cron_db" where
  "upd_run k f db \<equiv> cron_runs_update (modify_row rn_id k f) db"

section \<open>Jobs\<close>

definition get_job :: "cron_db \<Rightarrow> string \<Rightarrow> job option" where
  "get_job db k = map_option map_job (job_of db k)"

definition get_run :: "cron_db \<Rightarrow> string \<Rightarrow> run option" where
  "get_run db k = map_option map_run (run_of db k)"

record job_input =
  ji_id :: string
  ji_name :: string
  ji_prompt :: string
  ji_schedule :: schedule
  ji_display :: string
  ji_timezone :: string
  ji_mode :: exec_mode
  ji_intent :: "notify_intent option"
  ji_origin :: "string option"
  ji_cwd :: string
  ji_repo :: "string option"
  ji_launch :: launch
  ji_repeat :: "int option"
  ji_next :: "int option"
  ji_check :: "cron_check option"

definition new_job :: "job_input \<Rightarrow> bool \<Rightarrow> int \<Rightarrow> job_row" where
  "new_job p paused now = \<lparr>jb_id = ji_id p, jb_name = ji_name p, jb_prompt = ji_prompt p, jb_schedule = ji_schedule p,
     jb_display = ji_display p, jb_timezone = ji_timezone p, jb_mode = ji_mode p, jb_intent = ji_intent p,
     jb_origin = ji_origin p, jb_cwd = ji_cwd p, jb_repo = ji_repo p,
     jb_launch = normalize_cron_launch (launch_js (ji_launch p)), jb_repeat = ji_repeat p, jb_fires = 0,
     jb_enabled = (\<not> paused), jb_state = (if paused then Paused else Scheduled), jb_next = ji_next p,
     jb_last_run = None, jb_last_status = None, jb_last_error = None, jb_created = now, jb_updated = now,
     jb_check = ji_check p, jb_failures = 0, jb_pending = None, jb_alerted = False\<rparr>"

definition create_job :: "(string \<Rightarrow> bool) \<Rightarrow> job_input \<Rightarrow> js \<Rightarrow> int \<Rightarrow> cron_db \<Rightarrow> (cron_db \<times> job option) result" where
  "create_job known p initially_paused now db =
     (case (if initially_paused = Undef then JBool False else initially_paused) of
        JBool paused \<Rightarrow> (case insert_job known (new_job p paused now) db of
            Inl e \<Rightarrow> Inl e
          | Inr db' \<Rightarrow> Inr (db', get_job db' (ji_id p)))
      | _ \<Rightarrow> Inl (TypeErr ''initiallyPaused must be a boolean''))"

text \<open>\<open>ORDER BY claimed_at DESC, id DESC\<close>\<close>

definition newest_first :: "run_row list \<Rightarrow> run_row list" where
  "newest_first rs = rev (sort_key (\<lambda>r. (rn_claimed r, rn_id r)) rs)"

definition runs_of :: "cron_db \<Rightarrow> string \<Rightarrow> run_row list" where
  "runs_of db j = newest_first (filter (\<lambda>r. rn_job r = j) (cron_runs db))"

definition inspect_job :: "cron_db \<Rightarrow> string \<Rightarrow> job option \<times> run_status option" where
  "inspect_job db j = (get_job db j,
     (case job_of db j of None \<Rightarrow> None | Some _ \<Rightarrow> (case runs_of db j of [] \<Rightarrow> None | r # _ \<Rightarrow> Some (rn_status r))))"

definition by_creation :: "job_row list \<Rightarrow> job_row list" where
  "by_creation = sort_key (\<lambda>r. (jb_created r, jb_id r))"

definition resolve_job :: "cron_db \<Rightarrow> string \<Rightarrow> bool \<Rightarrow> job result" where
  "resolve_job db selector include_removed =
     (case find (\<lambda>r. jb_id r = selector \<and> (include_removed \<or> live_job r)) (cron_jobs db) of
        Some r \<Rightarrow> Inr (map_job r)
      | None \<Rightarrow> (case by_creation (filter (\<lambda>r. sql_lower (jb_name r) = sql_lower selector \<and> (include_removed \<or> live_job r)) (cron_jobs db)) of
            [] \<Rightarrow> Inl (Thrown (''cron job not found: '' @ selector))
          | [r] \<Rightarrow> Inr (map_job r)
          | _ \<Rightarrow> Inl (Thrown (''cron job selector is ambiguous: '' @ selector))))"

definition list_jobs :: "cron_db \<Rightarrow> bool \<Rightarrow> job list" where
  "list_jobs db include_removed = map map_job (by_creation (filter (\<lambda>r. include_removed \<or> live_job r) (cron_jobs db)))"

text \<open>The columns \<open>replaceJob\<close> writes: a \<open>job_input\<close> and the fields of the new state.\<close>

definition replaced_row :: "job_input \<Rightarrow> int \<Rightarrow> bool \<Rightarrow> job_state \<Rightarrow> int \<Rightarrow> job_row \<Rightarrow> job_row" where
  "replaced_row p fires enabled state now r = r\<lparr>jb_name := ji_name p, jb_prompt := ji_prompt p, jb_schedule := ji_schedule p,
     jb_display := ji_display p, jb_timezone := ji_timezone p, jb_mode := ji_mode p,
     jb_launch := normalize_cron_launch (launch_js (ji_launch p)), jb_repeat := ji_repeat p, jb_fires := fires,
     jb_enabled := enabled, jb_state := state, jb_next := ji_next p, jb_last_error := None, jb_updated := now,
     jb_intent := ji_intent p, jb_check := ji_check p, jb_failures := 0, jb_alerted := False\<rparr>"

definition replace_job :: "string \<Rightarrow> job_input \<Rightarrow> int \<Rightarrow> bool \<Rightarrow> job_state \<Rightarrow> int \<Rightarrow> cron_db \<Rightarrow> (cron_db \<times> job option) result" where
  "replace_job j p fires enabled state now db =
     (case job_of db j of
        None \<Rightarrow> Inl (Thrown ''cron job does not exist'')
      | Some r \<Rightarrow> if \<not> live_job r then Inl (Thrown ''cron job does not exist'')
          else (case job_error (\<lambda>_. True) (replaced_row p fires enabled state now r) db of
            Some e \<Rightarrow> Inl e
          | None \<Rightarrow> (let db' = upd_job j (replaced_row p fires enabled state now) db in Inr (db', get_job db' j))))"

text \<open>An UPDATE of the job with identity \<open>j\<close> where the row satisfies \<open>p\<close>; \<open>why\<close> when no row changed.\<close>

definition change_job :: "string \<Rightarrow> (job_row \<Rightarrow> bool) \<Rightarrow> (job_row \<Rightarrow> job_row) \<Rightarrow> string \<Rightarrow> cron_db \<Rightarrow> (cron_db \<times> job option) result" where
  "change_job j p f why db = (case job_of db j of
      Some r \<Rightarrow> if p r then (let db' = upd_job j f db in Inr (db', get_job db' j)) else Inl (Thrown why)
    | None \<Rightarrow> Inl (Thrown why))"

definition pause_job :: "string \<Rightarrow> int \<Rightarrow> cron_db \<Rightarrow> (cron_db \<times> job option) result" where
  "pause_job j now db = change_job j (\<lambda>r. jb_state r = Scheduled)
     (\<lambda>r. r\<lparr>jb_enabled := False, jb_state := Paused, jb_updated := now\<rparr>) ''cron job is not scheduled'' db"

definition resume_job :: "string \<Rightarrow> int option \<Rightarrow> int \<Rightarrow> job option \<Rightarrow> cron_db \<Rightarrow> (cron_db \<times> job option) result" where
  "resume_job j next_run now expected db =
     (if expected \<noteq> None \<and> get_job db j \<noteq> expected then Inl (Thrown ''cron job changed before resume'')
      else change_job j (\<lambda>r. jb_state r = Paused)
        (\<lambda>r. r\<lparr>jb_enabled := True, jb_state := Scheduled, jb_next := next_run, jb_last_error := None, jb_updated := now\<rparr>)
        ''cron job is not paused'' db)"

definition remove_job :: "string \<Rightarrow> int \<Rightarrow> cron_db \<Rightarrow> (cron_db \<times> job option) result" where
  "remove_job j now db = change_job j live_job
     (\<lambda>r. r\<lparr>jb_enabled := False, jb_state := Removed, jb_next := None, jb_updated := now\<rparr>) ''cron job does not exist'' db"

definition due :: "int \<Rightarrow> job_row \<Rightarrow> bool" where
  "due now r \<longleftrightarrow> jb_enabled r \<and> jb_state r = Scheduled \<and> (case jb_next r of Some t \<Rightarrow> t \<le> now | None \<Rightarrow> False)"

definition list_due_jobs :: "cron_db \<Rightarrow> int \<Rightarrow> nat \<Rightarrow> job list" where
  "list_due_jobs db now limit = map map_job (take limit (sort_key (\<lambda>r. (the (jb_next r), jb_created r, jb_id r)) (filter (due now) (cron_jobs db))))"

section \<open>Claims\<close>

definition count_active_runs :: "cron_db \<Rightarrow> nat" where
  "count_active_runs db = length (filter active (cron_runs db))"

datatype claim = NotClaimed | SkippedRun run "job option" | ClaimedRun run "job option"

text \<open>A run row as the INSERTs of the three claims write it.\<close>

definition new_run :: "string \<Rightarrow> job_row \<Rightarrow> run_source \<Rightarrow> int \<Rightarrow> int \<Rightarrow> run_row" where
  "new_run k j source moment now = \<lparr>rn_id = k, rn_job = jb_id j, rn_source = source, rn_at = moment, rn_status = Claimed,
     rn_mode_requested = jb_mode j, rn_mode_used = None, rn_session = None, rn_fallback = None, rn_input = None,
     rn_intent = jb_intent j, rn_disposition = None, rn_body = None, rn_evaluated = None, rn_check = None,
     rn_output = None, rn_error = None, rn_claimed = now, rn_started = None, rn_completed = None, rn_recorded = False\<rparr>"

definition skip_run :: "run_row \<Rightarrow> int \<Rightarrow> run_row \<Rightarrow> run_row" where
  "skip_run a now r = r\<lparr>rn_status := SkippedOverlap, rn_completed := Some now, rn_error := Some (''overlap with active run '' @ rn_id a)\<rparr>"

text \<open>Whether one more firing uses up the repeat count, and the row after it.\<close>

definition exhausted :: "job_row \<Rightarrow> bool" where
  "exhausted j \<longleftrightarrow> (case jb_repeat j of Some n \<Rightarrow> n \<le> jb_fires j + 1 | None \<Rightarrow> False)"

definition fired_row :: "int option \<Rightarrow> int \<Rightarrow> run_status \<Rightarrow> string option \<Rightarrow> int \<Rightarrow> job_row \<Rightarrow> job_row" where
  "fired_row next_run moment status why now j = (let
      final = (if exhausted j then None else next_run);
      state = (if exhausted j \<or> final = None then JobCompleted else Scheduled)
    in j\<lparr>jb_fires := jb_fires j + 1, jb_enabled := (state = Scheduled), jb_state := state, jb_next := final,
      jb_last_run := Some moment, jb_last_status := Some status, jb_last_error := why, jb_updated := now\<rparr>)"

text \<open>\<open>Number(null)\<close> is 0.\<close>

definition claim_scheduled_run :: "string \<Rightarrow> string \<Rightarrow> int \<Rightarrow> int option \<Rightarrow> int \<Rightarrow> cron_db \<Rightarrow> (cron_db \<times> claim) result" where
  "claim_scheduled_run j k moment next_run now db =
     (case job_of db j of
        None \<Rightarrow> Inr (db, NotClaimed)
      | Some row \<Rightarrow>
          if \<not> jb_enabled row \<or> jb_state row \<noteq> Scheduled \<or> (case jb_next row of None \<Rightarrow> 0 | Some t \<Rightarrow> t) \<noteq> moment then Inr (db, NotClaimed)
          else (let
              busy = active_run_of db j;
              new = new_run k row ScheduledSource moment now;
              new = (case busy of Some a \<Rightarrow> skip_run a now new | None \<Rightarrow> new)
            in case insert_run new db of
                Inl e \<Rightarrow> Inl e
              | Inr db1 \<Rightarrow> (let db2 = upd_job j (fired_row next_run moment (rn_status new) (rn_error new) now) db1
                  in Inr (db2, (if busy = None then ClaimedRun else SkippedRun) (map_run new) (get_job db2 j)))))"

definition claim_manual_run :: "string \<Rightarrow> string \<Rightarrow> int \<Rightarrow> int \<Rightarrow> cron_db \<Rightarrow> (cron_db \<times> run) result" where
  "claim_manual_run j k moment now db =
     (case job_of db j of
        None \<Rightarrow> Inl (Thrown ''cron job does not exist'')
      | Some row \<Rightarrow>
          if \<not> live_job row then Inl (Thrown ''cron job does not exist'')
          else (case active_run_of db j of
              Some a \<Rightarrow> Inl (Thrown (''cron job is already running: '' @ rn_id a))
            | None \<Rightarrow> (case insert_run (new_run k row ManualSource moment now) db of
                Inl e \<Rightarrow> Inl e
              | Inr db1 \<Rightarrow> Inr (upd_job j (\<lambda>r. r\<lparr>jb_last_run := Some moment, jb_last_status := Some Claimed, jb_last_error := None, jb_updated := now\<rparr>) db1,
                  map_run (new_run k row ManualSource moment now)))))"

definition has_active_run :: "cron_db \<Rightarrow> string \<Rightarrow> bool" where
  "has_active_run db j \<longleftrightarrow> active_run_of db j \<noteq> None"

section \<open>Checks\<close>

definition defer_checked_occurrence :: "string \<Rightarrow> int \<Rightarrow> int option \<Rightarrow> int \<Rightarrow> cron_db \<Rightarrow> cron_db \<times> bool" where
  "defer_checked_occurrence j moment next_run now db = (let
      p = (\<lambda>r. jb_id r = j \<and> jb_enabled r \<and> jb_state r = Scheduled \<and> jb_next r = Some moment \<and> jb_pending r = None)
    in (cron_jobs_update (update_where p (\<lambda>r. r\<lparr>jb_next := next_run, jb_updated := now\<rparr>)) db, changes p (cron_jobs db) = 1))"

definition record_check_success :: "string \<Rightarrow> int \<Rightarrow> cron_db \<Rightarrow> cron_db" where
  "record_check_success j now db = upd_job j (\<lambda>r. r\<lparr>jb_failures := 0, jb_alerted := False,
     jb_last_error := (if jb_failures r > 0 then None else jb_last_error r), jb_updated := now\<rparr>) db"

definition failed_check_row :: "string \<Rightarrow> int \<Rightarrow> job_row \<Rightarrow> job_row" where
  "failed_check_row why now r = r\<lparr>jb_failures := jb_failures r + 1, jb_last_error := Some (''check failed: '' @ why), jb_updated := now\<rparr>"

definition record_check_failure :: "string \<Rightarrow> string \<Rightarrow> nat \<Rightarrow> int \<Rightarrow> cron_db \<Rightarrow> cron_db \<times> nat \<times> bool" where
  "record_check_failure j why threshold now db = (let
      db1 = upd_job j (failed_check_row why now) db;
      alert = (case job_of db1 j of Some r \<Rightarrow> threshold \<le> jb_failures r \<and> \<not> jb_alerted r | None \<Rightarrow> False);
      db2 = (if alert then upd_job j (\<lambda>r. r\<lparr>jb_alerted := True\<rparr>) db1 else db1)
    in (db2, (case job_of db1 j of Some r \<Rightarrow> jb_failures r | None \<Rightarrow> 0), alert))"

definition set_pending_check :: "string \<Rightarrow> pending_check \<Rightarrow> int \<Rightarrow> cron_db \<Rightarrow> cron_db \<times> bool" where
  "set_pending_check j pending now db = (let p = (\<lambda>r. jb_id r = j \<and> live_job r \<and> jb_pending r = None)
    in (cron_jobs_update (update_where p (\<lambda>r. r\<lparr>jb_pending := Some pending, jb_updated := now\<rparr>)) db, changes p (cron_jobs db) = 1))"

definition list_pending_check_jobs :: "cron_db \<Rightarrow> nat \<Rightarrow> job list" where
  "list_pending_check_jobs db limit = map map_job (take limit (sort_key (\<lambda>r. (jb_updated r, jb_id r))
     (filter (\<lambda>r. jb_pending r \<noteq> None \<and> live_job r) (cron_jobs db))))"

definition checked_row :: "pending_check \<Rightarrow> int \<Rightarrow> job_row \<Rightarrow> job_row" where
  "checked_row pending now j = j\<lparr>jb_pending := None, jb_fires := jb_fires j + 1,
     jb_state := (if exhausted j then JobCompleted else jb_state j), jb_enabled := (\<not> exhausted j \<and> jb_enabled j),
     jb_next := (if exhausted j then None else jb_next j), jb_last_run := Some (pc_at pending),
     jb_last_status := Some Claimed, jb_updated := now\<rparr>"

definition claim_checked_run :: "string \<Rightarrow> string \<Rightarrow> int \<Rightarrow> cron_db \<Rightarrow> (cron_db \<times> claim) result" where
  "claim_checked_run j k now db =
     (case job_of db j of
        None \<Rightarrow> Inr (db, NotClaimed)
      | Some row \<Rightarrow> (case jb_pending row of
          None \<Rightarrow> Inr (db, NotClaimed)
        | Some pending \<Rightarrow>
            if \<not> live_job row \<or> active_run_of db j \<noteq> None then Inr (db, NotClaimed)
            else (let new = (new_run k row ScheduledSource (pc_at pending) now)\<lparr>rn_check := Some (pc_kind pending, pc_text pending)\<rparr>
              in case insert_run new db of
                  Inl e \<Rightarrow> Inl e
                | Inr db1 \<Rightarrow> (let db2 = upd_job j (checked_row pending now) db1 in Inr (db2, ClaimedRun (map_run new) (get_job db2 j))))))"

section \<open>Runs\<close>

definition mark_run_running :: "(string \<Rightarrow> bool) \<Rightarrow> string \<Rightarrow> exec_mode \<Rightarrow> string \<Rightarrow> string option \<Rightarrow> string option \<Rightarrow> int \<Rightarrow> cron_db
    \<Rightarrow> (cron_db \<times> run option) result" where
  "mark_run_running known k mode sid fallback input now db =
     (case run_of db k of
        None \<Rightarrow> Inl (Thrown ''cron run is not claimed'')
      | Some r \<Rightarrow>
          if rn_status r \<noteq> Claimed then Inl (Thrown ''cron run is not claimed'')
          else if \<not> known sid then Inl (ForeignKeyViolation ''cron_runs'')
          else (let
              db1 = upd_run k (\<lambda>r. r\<lparr>rn_status := Running, rn_mode_used := Some mode, rn_session := Some sid,
                rn_fallback := fallback, rn_input := input, rn_started := Some now\<rparr>) db;
              db2 = upd_job (rn_job r) (\<lambda>j. j\<lparr>jb_last_status := Some Running, jb_last_error := None, jb_updated := now\<rparr>) db1
            in Inr (db2, get_run db2 k)))"

definition finish_run :: "string \<Rightarrow> run_status \<Rightarrow> string option \<Rightarrow> string option \<Rightarrow> int \<Rightarrow> cron_db \<Rightarrow> (cron_db \<times> run option) result" where
  "finish_run k status output why now db =
     (if status \<notin> {RunCompleted, RunFailed, Unknown} then Inl (Thrown ''unsupported cron run terminal state'')
      else (case run_of db k of
          None \<Rightarrow> Inr (db, None)
        | Some r \<Rightarrow>
            if \<not> active r then Inr (db, get_run db k)
            else (let
                db1 = upd_run k (\<lambda>r. r\<lparr>rn_status := status, rn_output := output, rn_error := why, rn_completed := Some now\<rparr>) db;
                db2 = upd_job (rn_job r) (\<lambda>j. j\<lparr>jb_last_status := Some status, jb_last_error := why, jb_updated := now\<rparr>) db1
              in Inr (db2, get_run db2 k))))"

definition interrupted_error :: string where
  "interrupted_error = ''supervisor restarted during execution; outcome is unknown''"

definition interrupt_run :: "int \<Rightarrow> run_row \<Rightarrow> run_row" where
  "interrupt_run now r = r\<lparr>rn_status := Unknown, rn_error := Some interrupted_error, rn_completed := Some now\<rparr>"

definition reconcile_interrupted_runs :: "int \<Rightarrow> cron_db \<Rightarrow> cron_db \<times> run list" where
  "reconcile_interrupted_runs now db = (let
      db1 = cron_runs_update (update_where active (interrupt_run now)) db;
      touched = (\<lambda>j. list_ex (\<lambda>r. rn_job r = jb_id j \<and> rn_status r = Unknown \<and> rn_completed r = Some now) (cron_runs db1));
      db2 = cron_jobs_update (update_where touched (\<lambda>j. j\<lparr>jb_last_status := Some Unknown, jb_last_error := Some interrupted_error, jb_updated := now\<rparr>)) db1
    in (db2, map map_run (filter active (cron_runs db))))"

definition list_runs :: "cron_db \<Rightarrow> string \<Rightarrow> nat \<Rightarrow> run list" where
  "list_runs db j limit = map map_run (take limit (runs_of db j))"

definition list_active_runs_for_session :: "cron_db \<Rightarrow> string \<Rightarrow> run list" where
  "list_active_runs_for_session db sid = map map_run (sort_key (\<lambda>r. (rn_claimed r, rn_id r))
     (filter (\<lambda>r. rn_session r = Some sid \<and> active r) (cron_runs db)))"

definition has_active_run_for_session :: "cron_db \<Rightarrow> string \<Rightarrow> bool" where
  "has_active_run_for_session db sid = list_ex (\<lambda>r. rn_session r = Some sid \<and> active r) (cron_runs db)"

definition active_run_session_ids :: "cron_db \<Rightarrow> string list" where
  "active_run_session_ids db = remdups (concat (map (\<lambda>r. case rn_session r of Some s \<Rightarrow> [s] | None \<Rightarrow> []) (filter active (cron_runs db))))"

section \<open>Notifications\<close>

definition report_notification :: "string \<Rightarrow> string \<Rightarrow> disposition \<Rightarrow> string option \<Rightarrow> int \<Rightarrow> cron_db \<Rightarrow> (cron_db \<times> run option) result" where
  "report_notification k sid d body now db =
     (if (d = Deliver \<and> (case body of None \<Rightarrow> True | Some b \<Rightarrow> js_trim b = [] \<or> length b > 1000)) \<or> (d = NoFinding \<and> body \<noteq> None)
      then Inl (Thrown ''invalid cron delivery disposition'')
      else (case run_of db k of
          None \<Rightarrow> Inl (Thrown ''run does not accept a disposition from this actor'')
        | Some r \<Rightarrow>
            if rn_session r \<noteq> Some sid \<or> rn_intent r \<notin> {Some ResultIntent, Some ConditionalIntent}
              then Inl (Thrown ''run does not accept a disposition from this actor'')
            else if d = NoFinding \<and> rn_intent r \<noteq> Some ConditionalIntent then Inl (Thrown ''result runs require a deliver disposition'')
            else if rn_disposition r \<noteq> None then
              (if rn_disposition r \<noteq> Some d \<or> rn_body r \<noteq> body then Inl (Thrown ''cron run already has a different disposition'')
               else Inr (db, get_run db k))
            else if rn_status r \<noteq> Running then Inl (Thrown ''cron run is no longer evaluating'')
            else (let db1 = upd_run k (\<lambda>r. r\<lparr>rn_disposition := Some d, rn_body := body, rn_evaluated := Some now\<rparr>) db
              in Inr (db1, get_run db1 k))))"

definition pending_notifications :: "cron_db \<Rightarrow> nat \<Rightarrow> run list" where
  "pending_notifications db limit = map map_run (take limit (sort_key (\<lambda>r. (null_first (rn_completed r), rn_id r))
     (filter (\<lambda>r. rn_intent r \<noteq> None \<and> \<not> rn_recorded r \<and> \<not> active r) (cron_runs db))))"

definition mark_recorded :: "run_row \<Rightarrow> run_row" where
  "mark_recorded r = r\<lparr>rn_recorded := True\<rparr>"

definition notification_recorded :: "string \<Rightarrow> cron_db \<Rightarrow> cron_db" where
  "notification_recorded k db = upd_run k mark_recorded db"

definition prunable :: "run_row \<Rightarrow> bool" where
  "prunable r \<longleftrightarrow> (rn_intent r = None \<or> rn_recorded r) \<and> terminal r"

definition prune_runs :: "nat \<Rightarrow> cron_db \<Rightarrow> cron_db \<times> nat" where
  "prune_runs keep db = (let p = (\<lambda>r. prunable r \<and> rn_id r \<in> set (map rn_id (drop keep (runs_of db (rn_job r)))))
     in (cron_runs_update (filter (\<lambda>r. \<not> p r)) db, changes p (cron_runs db)))"

definition count_by :: "('r \<Rightarrow> 'k) \<Rightarrow> 'r list \<Rightarrow> ('k \<times> nat) list" where
  "count_by f rs = map (\<lambda>k. (k, length (filter (\<lambda>r. f r = k) rs))) (remdups (map f rs))"

definition get_cron_operational_counts :: "cron_db \<Rightarrow> (job_state \<times> nat) list \<times> (run_status \<times> nat) list" where
  "get_cron_operational_counts db = (count_by jb_state (cron_jobs db), count_by rn_status (cron_runs db))"

end
