(* ===== verification/CronScheduler.thy ===== *)
theory CronScheduler
  imports CronStore Schema
begin

text \<open>
  The scheduler of jobs (src/cron-scheduler.mjs): creation and change of jobs on behalf of a
  root session, and the tick that turns due occurrences and finished checks into claimed runs.
  A tick has no \<open>await\<close>, so it is one step; the asynchronous parts (the dispatch of a run, the
  check process) are lists of work in flight and steps of their own. The SHA-256 digest and the
  random identity are parameters.
\<close>

definition max_concurrent_checks :: nat where
  "max_concurrent_checks = 4"

record cron_env =
  ce_calendar :: calendar
  ce_sha256 :: "string \<Rightarrow> string"     \<comment> \<open>lower-case hexadecimal digest\<close>
  ce_max_parallel :: nat
  ce_default_zone :: string

definition nul :: string where
  "nul = [char_of (0 :: nat)]"

definition scheduled_run_id :: "cron_env \<Rightarrow> string \<Rightarrow> int \<Rightarrow> string" where
  "scheduled_run_id ev j t = ''cron-'' @ take 24 (ce_sha256 ev (j @ nul @ show_int t))"

definition manual_run_id :: "cron_env \<Rightarrow> string \<Rightarrow> int \<Rightarrow> string \<Rightarrow> string" where
  "manual_run_id ev j now random = ''cron-'' @ take 24 (ce_sha256 ev (j @ nul @ ''manual'' @ nul @ show_int now @ nul @ random))"

definition require_repeat :: "js \<Rightarrow> bool \<Rightarrow> int option result" where
  "require_repeat v rec = (if nullish v then Inr (if rec then None else Some 1)
     else (case js_int v of
         Some n \<Rightarrow> if n < 1 \<or> n > 1000000 then Inl (TypeErr ''repeat must be an integer from 1 through 1000000 or null'')
           else if \<not> rec \<and> n \<noteq> 1 then Inl (TypeErr ''one-shot schedules require repeat 1'')
           else Inr (Some n)
       | None \<Rightarrow> Inl (TypeErr ''repeat must be an integer from 1 through 1000000 or null'')))"

section \<open>Prompts\<close>

definition blank_line :: string where
  "blank_line = [char_of (10 :: nat), char_of (10 :: nat)]"

definition check_section :: "run \<Rightarrow> string list" where
  "check_section r = (case rn_check r of
      Some (OutputKind, text) \<Rightarrow> [''## Check output'', text]
    | Some (FailureKind, text) \<Rightarrow> [''## Check failure'', text @ blank_line @ ''The task did not run. Tell the user that this job's check needs fixing.'']
    | None \<Rightarrow> [])"

definition cron_run_prompt :: "job \<Rightarrow> run \<Rightarrow> string result" where
  "cron_run_prompt j r = (case iso_string (rn_at r) of
      Inl e \<Rightarrow> Inl e
    | Inr t \<Rightarrow> Inr (join_with blank_line ([
        ''Scheduled job '' @ jb_name j @ '' ('' @ jb_id j @ '') is firing.'',
        ''Scheduled occurrence: '' @ t @ ''.'',
        ''Complete the task below. Do not create, update, or remove scheduled jobs during this run.'',
        ''## Scheduled task'', jb_prompt j] @ check_section r)))"

definition cron_origin_prompt :: "job \<Rightarrow> run \<Rightarrow> string" where
  "cron_origin_prompt j r = join_with blank_line ([jb_prompt j] @ check_section r)"

section \<open>State\<close>

text \<open>
  \<open>sc_launches\<close> are the runs whose dispatch has not settled, \<open>sc_checks\<close> the checks in flight
  with their occurrence (their job ids are the set \<open>#checks\<close>), \<open>sc_immediate\<close> the number of
  ticks queued with \<open>setImmediate\<close>.
\<close>

record sched =
  sc_db :: cron_db
  sc_stopped :: bool
  sc_launches :: "(run \<times> job) list"
  sc_checks :: "(job \<times> int) list"
  sc_immediate :: nat

definition new_scheduler :: "cron_db \<Rightarrow> sched" where
  "new_scheduler db = \<lparr>sc_db = db, sc_stopped = True, sc_launches = [], sc_checks = [], sc_immediate = 0\<rparr>"

definition start_scheduler :: "int \<Rightarrow> sched \<Rightarrow> sched" where
  "start_scheduler now s = (if \<not> sc_stopped s then s
     else s\<lparr>sc_stopped := False, sc_db := fst (reconcile_interrupted_runs now (sc_db s)), sc_immediate := sc_immediate s + 1\<rparr>)"

definition stop_scheduler :: "sched \<Rightarrow> sched" where
  "stop_scheduler s = s\<lparr>sc_stopped := True\<rparr>"

definition launch_run :: "run \<Rightarrow> job \<Rightarrow> sched \<Rightarrow> sched" where
  "launch_run r j s = s\<lparr>sc_launches := sc_launches s @ [(r, j)]\<rparr>"

definition start_check :: "cron_env \<Rightarrow> int \<Rightarrow> job \<Rightarrow> sched \<Rightarrow> sched result" where
  "start_check ev now j s =
     (if list_ex (\<lambda>c. jb_id (fst c) = jb_id j) (sc_checks s) \<or> jb_pending j \<noteq> None \<or> length (sc_checks s) \<ge> max_concurrent_checks
      then Inr s
      else (let moment = (case jb_next j of Some t \<Rightarrow> t | None \<Rightarrow> 0) in
        case next_cron_run_after (ce_calendar ev) (jb_schedule j) moment now of
          Inl e \<Rightarrow> Inl e
        | Inr next_run \<Rightarrow> (let (db, changed) = defer_checked_occurrence (jb_id j) moment next_run now (sc_db s); s' = s\<lparr>sc_db := db\<rparr> in
            if \<not> changed \<or> has_active_run db (jb_id j) then Inr s'
            else Inr (s'\<lparr>sc_checks := sc_checks s' @ [(j, moment)]\<rparr>))))"

section \<open>The tick\<close>

text \<open>
  Both loops of a tick: a candidate that is not \<open>free\<close> ends the loop when no capacity is left;
  a claimed run takes one unit; a thrown error ends the tick with what was done so far.
\<close>

datatype outcome = Took | Passed | Overlapped | Threw error

record tally =
  ty_capacity :: nat
  ty_claimed :: nat
  ty_skipped :: nat

fun claim_loop :: "('c \<Rightarrow> bool) \<Rightarrow> ('c \<Rightarrow> 's \<Rightarrow> 's \<times> outcome) \<Rightarrow> 'c list \<Rightarrow> 's \<Rightarrow> tally \<Rightarrow> 's \<times> tally \<times> error option" where
  "claim_loop free step [] s n = (s, n, None)"
| "claim_loop free step (c # cs) s n =
     (if \<not> free c \<and> ty_capacity n = 0 then (s, n, None)
      else (case step c s of
          (s', Took) \<Rightarrow> claim_loop free step cs s' (n\<lparr>ty_capacity := ty_capacity n - 1, ty_claimed := ty_claimed n + 1\<rparr>)
        | (s', Passed) \<Rightarrow> claim_loop free step cs s' n
        | (s', Overlapped) \<Rightarrow> claim_loop free step cs s' (n\<lparr>ty_skipped := ty_skipped n + 1\<rparr>)
        | (s', Threw e) \<Rightarrow> (s', n, Some e)))"

text \<open>What a claim does to the scheduler: a claimed run is launched.\<close>

definition absorb :: "(cron_db \<times> claim) result \<Rightarrow> job \<Rightarrow> sched \<Rightarrow> sched \<times> outcome" where
  "absorb r j s = (case r of
      Inl e \<Rightarrow> (s, Threw e)
    | Inr (db, NotClaimed) \<Rightarrow> (s\<lparr>sc_db := db\<rparr>, Passed)
    | Inr (db, SkippedRun _ _) \<Rightarrow> (s\<lparr>sc_db := db\<rparr>, Overlapped)
    | Inr (db, ClaimedRun k j') \<Rightarrow> (launch_run k (case j' of Some x \<Rightarrow> x | None \<Rightarrow> j) (s\<lparr>sc_db := db\<rparr>), Took))"

definition pending_step :: "cron_env \<Rightarrow> int \<Rightarrow> job \<Rightarrow> sched \<Rightarrow> sched \<times> outcome" where
  "pending_step ev now j s = absorb (claim_checked_run (jb_id j)
     (scheduled_run_id ev (jb_id j) (case jb_pending j of Some p \<Rightarrow> pc_at p | None \<Rightarrow> 0)) now (sc_db s)) j s"

definition due_step :: "cron_env \<Rightarrow> int \<Rightarrow> job \<Rightarrow> sched \<Rightarrow> sched \<times> outcome" where
  "due_step ev now j s =
     (if jb_check j \<noteq> None then (case start_check ev now j s of Inl e \<Rightarrow> (s, Threw e) | Inr s' \<Rightarrow> (s', Passed))
      else (let moment = (case jb_next j of Some t \<Rightarrow> t | None \<Rightarrow> 0) in
        case next_cron_run_after (ce_calendar ev) (jb_schedule j) moment now of
          Inl e \<Rightarrow> (s, Threw e)
        | Inr next_run \<Rightarrow> absorb (claim_scheduled_run (jb_id j) (scheduled_run_id ev (jb_id j) moment) moment next_run now (sc_db s)) j s))"

definition tick :: "cron_env \<Rightarrow> int \<Rightarrow> sched \<Rightarrow> sched \<times> (nat \<times> nat) result" where
  "tick ev now s = (if sc_stopped s then (s, Inr (0, 0))
     else (case claim_loop (\<lambda>_. False) (pending_step ev now) (list_pending_check_jobs (sc_db s) 64) s
         \<lparr>ty_capacity = ce_max_parallel ev - count_active_runs (sc_db s), ty_claimed = 0, ty_skipped = 0\<rparr> of
       (s1, n1, Some e) \<Rightarrow> (s1, Inl e)
     | (s1, n1, None) \<Rightarrow> (case claim_loop (\<lambda>j. jb_check j \<noteq> None) (due_step ev now) (list_due_jobs (sc_db s1) now 64) s1 n1 of
         (s2, n2, Some e) \<Rightarrow> (s2, Inl e)
       | (s2, n2, None) \<Rightarrow> (s2\<lparr>sc_db := fst (prune_runs 50 (sc_db s2))\<rparr>, Inr (ty_claimed n2, ty_skipped n2)))))"

text \<open>A tick queued with \<open>setImmediate\<close>.\<close>

definition immediate_tick :: "cron_env \<Rightarrow> int \<Rightarrow> sched \<Rightarrow> sched" where
  "immediate_tick ev now s = (if sc_immediate s = 0 then s else fst (tick ev now (s\<lparr>sc_immediate := sc_immediate s - 1\<rparr>)))"

section \<open>Work in flight\<close>

definition drop_nth :: "nat \<Rightarrow> 'a list \<Rightarrow> 'a list" where
  "drop_nth n xs = take n xs @ drop (Suc n) xs"

text \<open>
  The dispatch of the \<open>n\<close>-th launch settles: with the error of the prompt or of the supervisor's
  \<open>dispatchRun\<close>, which fails the run, or without one.
\<close>

definition error_message :: "error \<Rightarrow> string" where
  "error_message e = (case e of Thrown m \<Rightarrow> m | TypeErr m \<Rightarrow> m | Coded c m \<Rightarrow> m | UniqueViolation t \<Rightarrow> ''UNIQUE constraint failed: '' @ t
     | ForeignKeyViolation t \<Rightarrow> ''FOREIGN KEY constraint failed'' | CheckViolation t \<Rightarrow> ''CHECK constraint failed: '' @ t)"

definition dispatched :: "nat \<Rightarrow> string option \<Rightarrow> int \<Rightarrow> sched \<Rightarrow> sched" where
  "dispatched n failure now s = (if n \<ge> length (sc_launches s) then s
     else (let (r, j) = sc_launches s ! n;
         why = (case cron_run_prompt j r of Inl e \<Rightarrow> Some (error_message e) | Inr _ \<Rightarrow> failure);
         db = (case why of Some m \<Rightarrow> committed (sc_db s) (finish_run (rn_id r) RunFailed None (Some m) now (sc_db s)) | None \<Rightarrow> sc_db s)
       in s\<lparr>sc_db := db, sc_launches := drop_nth n (sc_launches s)\<rparr>))"

definition failure_text :: "nat \<Rightarrow> string \<Rightarrow> string" where
  "failure_text n why = ''The check command failed '' @ show_nat n @ '' times in a row. Last error: '' @ why"

text \<open>\<open>#checkFinished\<close>: what a result records, and the pending result that should wake the agent.\<close>

definition record_result :: "job \<Rightarrow> int \<Rightarrow> check_result \<Rightarrow> int \<Rightarrow> cron_db \<Rightarrow> cron_db \<times> pending_check option" where
  "record_result j moment r now db = (case r of
      CheckOk output \<Rightarrow> (record_check_success (jb_id j) now db,
        if output \<noteq> [] then Some \<lparr>pc_kind = OutputKind, pc_text = output, pc_at = moment\<rparr> else None)
    | CheckFailed why \<Rightarrow> (let (db', failures, alert) = record_check_failure (jb_id j) why cron_check_failure_alert_threshold now db
        in (db', if alert then Some \<lparr>pc_kind = FailureKind, pc_text = failure_text failures why, pc_at = moment\<rparr> else None)))"

definition check_finished :: "nat \<Rightarrow> check_result \<Rightarrow> int \<Rightarrow> sched \<Rightarrow> sched" where
  "check_finished n r now s = (if n \<ge> length (sc_checks s) then s
     else (let (j, moment) = sc_checks s ! n;
         (db, pending) = record_result j moment r now (sc_db s);
         (db', set) = (case pending of Some p \<Rightarrow> set_pending_check (jb_id j) p now db | None \<Rightarrow> (db, False))
       in s\<lparr>sc_db := db', sc_checks := drop_nth n (sc_checks s),
           sc_immediate := (if set \<and> \<not> sc_stopped s then sc_immediate s + 1 else sc_immediate s)\<rparr>))"

section \<open>Creating and changing jobs\<close>

text \<open>Parameters of a creation as the protocol's validator passes them on.\<close>

record cron_params =
  pr_name :: string
  pr_prompt :: string
  pr_schedule :: js
  pr_timezone :: "string option"
  pr_mode :: "exec_mode option"
  pr_intent :: "notify_intent option"
  pr_launch :: js       \<comment> \<open>the \<open>provider\<close>, \<open>model\<close> and \<open>thinkingLevel\<close> properties\<close>
  pr_repeat :: js
  pr_check :: js

definition or_else :: "'a option \<Rightarrow> 'a \<Rightarrow> 'a" where
  "or_else x d = (case x of Some v \<Rightarrow> v | None \<Rightarrow> d)"

definition interval_floor :: "cron_check option \<Rightarrow> int" where
  "interval_floor c = (if c \<noteq> None then min_checked_interval_seconds else min_cron_interval_seconds)"

definition creation_params :: "cron_env \<Rightarrow> store \<Rightarrow> string \<Rightarrow> cron_params \<Rightarrow> int \<Rightarrow> bool \<Rightarrow> string \<Rightarrow> job_input result" where
  "creation_params ev db origin p created allow_past k =
     (case session db origin of
        None \<Rightarrow> Inl (Thrown ''cron jobs may only be created from a live root session'')
      | Some o_row \<Rightarrow>
          if s_lifecycle o_row = Deleted \<or> s_kind o_row \<noteq> Root \<or> s_depth o_row \<noteq> 0
          then Inl (Thrown ''cron jobs may only be created from a live root session'')
          else (case normalize_cron_check (pr_check p) of
              Inl e \<Rightarrow> Inl e
            | Inr check \<Rightarrow> (case normalize_cron_schedule (ce_calendar ev) (pr_schedule p) created
                  (JStr (or_else (pr_timezone p) (ce_default_zone ev))) allow_past (interval_floor check) of
                Inl e \<Rightarrow> Inl e
              | Inr nz \<Rightarrow>
                  if check \<noteq> None \<and> \<not> nz_recurring nz then Inl (TypeErr ''a check needs a recurring schedule'')
                  else (case require_repeat (pr_repeat p) (nz_recurring nz) of
                      Inl e \<Rightarrow> Inl e
                    | Inr reps \<Rightarrow> Inr \<lparr>ji_id = k, ji_name = pr_name p, ji_prompt = pr_prompt p, ji_schedule = nz_schedule nz,
                        ji_display = nz_display nz, ji_timezone = schedule_zone (nz_schedule nz), ji_mode = or_else (pr_mode p) Fresh,
                        ji_intent = pr_intent p, ji_origin = Some origin, ji_cwd = s_cwd o_row, ji_repo = s_repository_root o_row,
                        ji_launch = cron_launch_from_request (pr_launch p), ji_repeat = reps, ji_next = Some (nz_next nz), ji_check = check\<rparr>))))"

text \<open>The first field, in the source's order, in which a request differs from the existing job.\<close>

definition intent_mismatch :: "job_input \<Rightarrow> job \<Rightarrow> string option" where
  "intent_mismatch p j = map_option fst (find (\<lambda>(_, same). \<not> same)
     [(''name'', ji_name p = jb_name j), (''prompt'', ji_prompt p = jb_prompt j), (''schedule'', ji_schedule p = jb_schedule j),
      (''timezone'', ji_timezone p = jb_timezone j), (''executionMode'', ji_mode p = jb_mode j),
      (''notificationIntent'', ji_intent p = jb_intent j), (''originSessionId'', ji_origin p = jb_origin j),
      (''cwd'', ji_cwd p = jb_cwd j), (''repositoryRoot'', ji_repo p = jb_repo j), (''launch'', ji_launch p = jb_launch j),
      (''repeat'', ji_repeat p = jb_repeat j), (''check'', ji_check p = jb_check j)])"

definition reuse_creation :: "cron_env \<Rightarrow> store \<Rightarrow> job \<Rightarrow> string \<Rightarrow> cron_params \<Rightarrow> job result" where
  "reuse_creation ev db j origin p = (case creation_params ev db origin p (jb_created j) True (jb_id j) of
      Inl e \<Rightarrow> Inl e
    | Inr requested \<Rightarrow> (case intent_mismatch requested j of
        Some field \<Rightarrow> Inl (Thrown (''cron jobId already exists with different intent: '' @ field))
      | None \<Rightarrow> Inr j))"

text \<open>\<open>/^[A-Za-z0-9_-]{1,128}$/\<close>\<close>

definition job_id_char :: "char \<Rightarrow> bool" where
  "job_id_char c \<longleftrightarrow> (let n = of_char c :: nat in (48 \<le> n \<and> n \<le> 57) \<or> (65 \<le> n \<and> n \<le> 90) \<or> (97 \<le> n \<and> n \<le> 122) \<or> c = CHR ''_'' \<or> c = CHR ''-'')"

definition valid_job_id :: "string \<Rightarrow> bool" where
  "valid_job_id k \<longleftrightarrow> 1 \<le> length k \<and> length k \<le> 128 \<and> list_all job_id_char k"

definition inspect_creation :: "cron_env \<Rightarrow> store \<Rightarrow> cron_db \<Rightarrow> string \<Rightarrow> cron_params \<Rightarrow> js \<Rightarrow> (job option \<times> run_status option) result" where
  "inspect_creation ev db cdb origin p k = (case k of
      JStr jid \<Rightarrow> if \<not> valid_job_id jid then Inl (TypeErr ''jobId is invalid'')
        else (case inspect_job cdb jid of
            (None, st) \<Rightarrow> Inr (None, st)
          | (Some j, st) \<Rightarrow> (case reuse_creation ev db j origin p of Inl e \<Rightarrow> Inl e | Inr _ \<Rightarrow> Inr (Some j, st)))
    | _ \<Rightarrow> Inl (TypeErr ''jobId is invalid''))"

definition is_at_request :: "js \<Rightarrow> bool" where
  "is_at_request v \<longleftrightarrow> jget ''kind'' v = JStr ''at''"

text \<open>
  \<open>between\<close> is what another writer of the same database commits between the lookup and the
  INSERT; \<open>fresh\<close> is the random identity used when none was requested.
\<close>

definition create_cron_job :: "cron_env \<Rightarrow> store \<Rightarrow> (cron_db \<Rightarrow> cron_db) \<Rightarrow> string \<Rightarrow> cron_params \<Rightarrow> int \<Rightarrow> string option \<Rightarrow> bool \<Rightarrow> string
    \<Rightarrow> cron_db \<Rightarrow> (cron_db \<times> job option) result" where
  "create_cron_job ev db between origin p now k initially_paused fresh cdb =
     (if (case k of Some jid \<Rightarrow> \<not> valid_job_id jid | None \<Rightarrow> False)
      then Inl (TypeErr ''jobId must contain 1 through 128 ASCII letters, digits, underscores, or hyphens'')
      else (case bind k (get_job cdb) of
          Some j \<Rightarrow> (case reuse_creation ev db j origin p of Inl e \<Rightarrow> Inl e | Inr j' \<Rightarrow> Inr (cdb, Some j'))
        | None \<Rightarrow> (case creation_params ev db origin p now (initially_paused \<and> is_at_request (pr_schedule p)) (or_else k fresh) of
            Inl e \<Rightarrow> Inl e
          | Inr input \<Rightarrow> (case create_job (\<lambda>sid. session db sid \<noteq> None) input (JBool initially_paused) now (between cdb) of
              Inr done \<Rightarrow> Inr done
            | Inl e \<Rightarrow> (case bind k (get_job (between cdb)) of
                Some j \<Rightarrow> (case reuse_creation ev db j origin p of Inl e' \<Rightarrow> Inl e' | Inr j' \<Rightarrow> Inr (between cdb, Some j'))
              | None \<Rightarrow> Inl e)))))"

record cron_patch =
  pt_name :: "string option"
  pt_prompt :: "string option"
  pt_schedule :: js
  pt_timezone :: "string option"
  pt_mode :: "exec_mode option"
  pt_intent :: "notify_intent option"
  pt_launch :: js
  pt_repeat :: js
  pt_check :: js

definition too_short :: "schedule \<Rightarrow> bool" where
  "too_short s \<longleftrightarrow> (case s of SEvery n _ \<Rightarrow> n < min_cron_interval_seconds | _ \<Rightarrow> False)"

text \<open>The schedule part of an update: the new schedule, its display, next run and recurrence.\<close>

definition patched_schedule :: "cron_env \<Rightarrow> job \<Rightarrow> cron_patch \<Rightarrow> cron_check option \<Rightarrow> int \<Rightarrow> (schedule \<times> string \<times> int option) result" where
  "patched_schedule ev j p check now =
     (if pt_schedule p = Undef then Inr (jb_schedule j, jb_display j, jb_next j)
      else (case normalize_cron_schedule (ce_calendar ev) (pt_schedule p) now (JStr (or_else (pt_timezone p) (jb_timezone j))) False (interval_floor check) of
          Inl e \<Rightarrow> Inl e
        | Inr nz \<Rightarrow> Inr (nz_schedule nz, nz_display nz, Some (nz_next nz))))"

definition js_of_repeat :: "int option \<Rightarrow> js" where
  "js_of_repeat x = (case x of Some n \<Rightarrow> jint n | None \<Rightarrow> Null)"

definition update_cron_job :: "cron_env \<Rightarrow> string \<Rightarrow> cron_patch \<Rightarrow> int \<Rightarrow> cron_db \<Rightarrow> (cron_db \<times> job option) result" where
  "update_cron_job ev selector p now cdb =
     (case resolve_job cdb selector False of
        Inl e \<Rightarrow> Inl e
      | Inr j \<Rightarrow> (case (if pt_check p = Undef then Inr (jb_check j) else normalize_cron_check (pt_check p)) of
          Inl e \<Rightarrow> Inl e
        | Inr check \<Rightarrow> (case patched_schedule ev j p check now of
            Inl e \<Rightarrow> Inl e
          | Inr (sched, display, next_run) \<Rightarrow>
              if check \<noteq> None \<and> \<not> recurring sched then Inl (TypeErr ''a check needs a recurring schedule'')
              else if check = None \<and> too_short sched then Inl (TypeErr ''a job without a check needs an interval of at least 300 seconds'')
              else (case require_repeat (if pt_repeat p \<noteq> Undef then pt_repeat p else js_of_repeat (jb_repeat j)) (recurring sched) of
                  Inl e \<Rightarrow> Inl e
                | Inr reps \<Rightarrow> (let
                    reset = (pt_schedule p \<noteq> Undef \<or> pt_repeat p \<noteq> Undef);
                    paused = (jb_state j = Paused);
                    completed = (jb_state j = JobCompleted \<and> \<not> reset)
                  in replace_job (jb_id j) \<lparr>ji_id = jb_id j, ji_name = or_else (pt_name p) (jb_name j), ji_prompt = or_else (pt_prompt p) (jb_prompt j),
                      ji_schedule = sched, ji_display = display, ji_timezone = schedule_zone sched, ji_mode = or_else (pt_mode p) (jb_mode j),
                      ji_intent = (case pt_intent p of Some i \<Rightarrow> Some i | None \<Rightarrow> jb_intent j), ji_origin = jb_origin j, ji_cwd = jb_cwd j, ji_repo = jb_repo j,
                      ji_launch = merge_cron_launch (launch_js (jb_launch j)) (pt_launch p), ji_repeat = reps,
                      ji_next = (if reset then next_run else jb_next j), ji_check = check\<rparr>
                    (if reset then 0 else jb_fires j) (\<not> paused \<and> \<not> completed)
                    (if paused then Paused else if completed then JobCompleted else Scheduled) now cdb)))))"

definition pause_cron_job :: "string \<Rightarrow> int \<Rightarrow> cron_db \<Rightarrow> (cron_db \<times> job option) result" where
  "pause_cron_job selector now cdb = (case resolve_job cdb selector False of Inl e \<Rightarrow> Inl e | Inr j \<Rightarrow> pause_job (jb_id j) now cdb)"

text \<open>\<open>Math.max(now, NaN)\<close> is NaN, which SQLite stores as NULL.\<close>

definition resumed_next :: "cron_env \<Rightarrow> job \<Rightarrow> int \<Rightarrow> int option result" where
  "resumed_next ev j now = (case jb_schedule j of
      SAt t _ \<Rightarrow> Inr (map_option (max now) (cal_parse (ce_calendar ev) t))
    | SEvery n _ \<Rightarrow> Inr (Some (now + n * 1000))
    | SCron _ _ \<Rightarrow> (case normalize_cron_schedule (ce_calendar ev) (schedule_js (jb_schedule j)) now (JStr (jb_timezone j)) False min_cron_interval_seconds of
        Inl e \<Rightarrow> Inl e
      | Inr nz \<Rightarrow> Inr (Some (nz_next nz))))"

definition resume_cron_job :: "cron_env \<Rightarrow> string \<Rightarrow> int \<Rightarrow> job option \<Rightarrow> cron_db \<Rightarrow> (cron_db \<times> job option) result" where
  "resume_cron_job ev selector now expected cdb = (case resolve_job cdb selector False of
      Inl e \<Rightarrow> Inl e
    | Inr j \<Rightarrow> if jb_state j \<noteq> Paused then Inl (Thrown ''cron job is not paused'')
        else (case resumed_next ev j now of Inl e \<Rightarrow> Inl e | Inr t \<Rightarrow> resume_job (jb_id j) t now expected cdb))"

definition remove_cron_job :: "string \<Rightarrow> int \<Rightarrow> cron_db \<Rightarrow> (cron_db \<times> job option) result" where
  "remove_cron_job selector now cdb = (case resolve_job cdb selector False of Inl e \<Rightarrow> Inl e | Inr j \<Rightarrow> remove_job (jb_id j) now cdb)"

definition run_now :: "cron_env \<Rightarrow> string \<Rightarrow> int \<Rightarrow> string \<Rightarrow> sched \<Rightarrow> (sched \<times> run) result" where
  "run_now ev selector now random s =
     (if count_active_runs (sc_db s) \<ge> ce_max_parallel ev then Inl (Thrown ''cron parallel-run limit is reached'')
      else (case resolve_job (sc_db s) selector False of
          Inl e \<Rightarrow> Inl e
        | Inr j \<Rightarrow> (case claim_manual_run (jb_id j) (manual_run_id ev (jb_id j) now random) now now (sc_db s) of
            Inl e \<Rightarrow> Inl e
          | Inr (db, r) \<Rightarrow> Inr (launch_run r j (s\<lparr>sc_db := db\<rparr>), r))))"

definition cron_history :: "cron_db \<Rightarrow> string \<Rightarrow> nat \<Rightarrow> (job \<times> run list) result" where
  "cron_history cdb selector limit = (case resolve_job cdb selector True of
      Inl e \<Rightarrow> Inl e
    | Inr j \<Rightarrow> Inr (j, list_runs cdb (jb_id j) limit))"

end
