(* ===== verification/CronRuns.thy ===== *)
theory CronRuns
  imports CronScheduler
begin

text \<open>
  What the constraints of the job and run tables keep true, for every operation of
  src/cron-store.mjs: identities and live names are unique, a run belongs to a job, a job has
  at most one active run and at most one run per scheduled occurrence, and a job is enabled
  exactly while it is scheduled.
\<close>

section \<open>The invariant\<close>

definition job_ok :: "job_row \<Rightarrow> bool" where
  "job_ok r \<longleftrightarrow> jb_enabled r = (jb_state r = Scheduled) \<and> launch_ok (jb_launch r) \<and> (\<forall>n. jb_repeat r = Some n \<longrightarrow> 0 < n)"

definition same_name :: "job_row \<Rightarrow> job_row \<Rightarrow> bool" where
  "same_name a b \<longleftrightarrow> live_job a \<and> live_job b \<and> sql_lower (jb_name a) = sql_lower (jb_name b)"

definition jobs_inv :: "job_row list \<Rightarrow> bool" where
  "jobs_inv t \<longleftrightarrow> unique_key jb_id t \<and> (\<forall>r \<in> set t. job_ok r) \<and> (\<forall>a \<in> set t. \<forall>b \<in> set t. same_name a b \<longrightarrow> jb_id a = jb_id b)"

definition run_ok :: "run_row \<Rightarrow> bool" where
  "run_ok r \<longleftrightarrow> (rn_completed r = None) = active r"

definition exclusive :: "run_row \<Rightarrow> run_row \<Rightarrow> bool" where
  "exclusive a b \<longleftrightarrow> rn_job a = rn_job b \<and> (active a \<and> active b \<or> rn_source a = ScheduledSource \<and> rn_source b = ScheduledSource \<and> rn_at a = rn_at b)"

definition runs_inv :: "string set \<Rightarrow> run_row list \<Rightarrow> bool" where
  "runs_inv js t \<longleftrightarrow> unique_key rn_id t \<and> (\<forall>r \<in> set t. run_ok r \<and> rn_job r \<in> js) \<and> (\<forall>a \<in> set t. \<forall>b \<in> set t. exclusive a b \<longrightarrow> rn_id a = rn_id b)"

definition job_ids :: "cron_db \<Rightarrow> string set" where
  "job_ids db = jb_id ` set (cron_jobs db)"

definition cron_inv :: "cron_db \<Rightarrow> bool" where
  "cron_inv db \<longleftrightarrow> jobs_inv (cron_jobs db) \<and> runs_inv (job_ids db) (cron_runs db)"

lemma cron_inv_empty [simp]: "cron_inv empty_cron"
  by (simp add: cron_inv_def empty_cron_def jobs_inv_def runs_inv_def unique_key_def)

interpretation cron_job_tbl: keyed_table "find_row jb_id" add_row "modify_row jb_id" "jb_id :: job_row \<Rightarrow> string" "unique_key jb_id"
  by (rule keyed_list_table)

interpretation cron_run_tbl: keyed_table "find_row rn_id" add_row "modify_row rn_id" "rn_id :: run_row \<Rightarrow> string" "unique_key rn_id"
  by (rule keyed_list_table)

section \<open>Jobs\<close>

lemma job_of_iff: "job_of db j = None \<longleftrightarrow> j \<notin> job_ids db"
  by (auto simp: job_of_def job_ids_def find_row_None_iff)

lemma job_ofD: "job_of db j = Some r \<Longrightarrow> jb_id r = j \<and> r \<in> set (cron_jobs db)"
  by (auto simp: job_of_def dest: find_row_SomeD)

lemma jobs_inv_insert:
  assumes "jobs_inv (cron_jobs db)" "insert_job known r db = Inr db'" "job_ok r"
  shows "jobs_inv (cron_jobs db')" and "cron_runs db' = cron_runs db" and "job_ids db' = insert (jb_id r) (job_ids db)"
proof -
  have r: "job_of db (jb_id r) = None" "job_error known r db = None" "db' = cron_jobs_update (add_row r) db"
    using assms(2) by (auto simp: insert_job_def split: if_splits option.splits)
  have fresh: "\<forall>x \<in> set (cron_jobs db). jb_id x \<noteq> jb_id r" using r(1) by (auto simp: job_of_def find_row_None_iff)
  have nm: "\<not> same_name r x" "\<not> same_name x r" if "x \<in> set (cron_jobs db)" for x
    using r(2) that fresh by (auto simp: job_error_def name_taken_def list_ex_iff same_name_def split: if_splits)
  show "jobs_inv (cron_jobs db')"
    using assms(1,3) nm r(1) unfolding r(3) jobs_inv_def by (auto simp: unique_key_add_row job_of_def)
  show "cron_runs db' = cron_runs db" "job_ids db' = insert (jb_id r) (job_ids db)" by (auto simp: r(3) job_ids_def)
qed

lemma jobs_inv_map:
  assumes "jobs_inv t" and id: "\<And>r. jb_id (g r) = jb_id r" and "\<And>r. r \<in> set t \<Longrightarrow> job_ok (g r)"
    and "\<And>a b. a \<in> set t \<Longrightarrow> b \<in> set t \<Longrightarrow> same_name (g a) (g b) \<Longrightarrow> jb_id a = jb_id b"
  shows "jobs_inv (map g t)"
proof -
  have "map jb_id (map g t) = map jb_id t" by (simp add: id)
  then have "unique_key jb_id (map g t)" using assms(1) unfolding jobs_inv_def unique_key_def by argo
  then show ?thesis using assms(3,4) by (simp add: jobs_inv_def id)
qed

lemma jobs_inv_update:
  assumes "jobs_inv t" and "\<And>r. jb_id (f r) = jb_id r" and "\<And>r. jb_name (f r) = jb_name r"
    and "\<And>r. p r \<Longrightarrow> live_job (f r) \<Longrightarrow> live_job r" and "\<And>r. p r \<Longrightarrow> job_ok r \<Longrightarrow> job_ok (f r)"
  shows "jobs_inv (update_where p f t)"
  unfolding update_where_def
proof (rule jobs_inv_map [OF assms(1)])
  fix a b assume m: "a \<in> set t" "b \<in> set t" and s: "same_name (if p a then f a else a) (if p b then f b else b)"
  have "same_name a b" using s assms(3,4) by (auto simp: same_name_def split: if_splits)
  with m assms(1) show "jb_id a = jb_id b" by (simp add: jobs_inv_def)
qed (use assms in \<open>auto simp: jobs_inv_def\<close>)

lemma jobs_inv_replace:
  assumes "jobs_inv (cron_jobs db)" "job_of db j = Some r" "job_error known (f r) db = None"
    and id: "\<And>r. jb_id (f r) = jb_id r" and ok: "job_ok (f r)"
  shows "jobs_inv (modify_row jb_id j f (cron_jobs db))"
  unfolding modify_row_def update_where_def
proof (rule jobs_inv_map [OF assms(1)])
  have uniq: "unique_key jb_id (cron_jobs db)" using assms(1) by (simp add: jobs_inv_def)
  have row: "x = r" if "x \<in> set (cron_jobs db)" "jb_id x = j" for x
    using find_row_unique [OF uniq that(1)] that(2) assms(2) by (simp add: job_of_def)
  have nm: "\<not> same_name (f r) x" "\<not> same_name x (f r)" if "x \<in> set (cron_jobs db)" "jb_id x \<noteq> j" for x
    using assms(3) that job_ofD [OF assms(2)]
    by (auto simp: job_error_def name_taken_def list_ex_iff same_name_def id split: if_splits)
  show "job_ok (if jb_id x = j then f x else x)" if "x \<in> set (cron_jobs db)" for x
    using that row ok assms(1) by (auto simp: jobs_inv_def)
  fix a b assume m: "a \<in> set (cron_jobs db)" "b \<in> set (cron_jobs db)"
    and s: "same_name (if jb_id a = j then f a else a) (if jb_id b = j then f b else b)"
  consider "jb_id a = j" "jb_id b = j" | "jb_id a = j" "jb_id b \<noteq> j" | "jb_id a \<noteq> j" "jb_id b = j" | "jb_id a \<noteq> j" "jb_id b \<noteq> j"
    by blast
  then show "jb_id a = jb_id b"
  proof cases
    case 2
    with s m nm(1) [of b] row [of a] show ?thesis by simp
  next
    case 3
    with s m nm(2) [of a] row [of b] show ?thesis by simp
  qed (use s m assms(1) in \<open>simp_all add: jobs_inv_def\<close>)
qed (simp add: id)

section \<open>Runs\<close>

lemma run_ofD: "run_of db k = Some r \<Longrightarrow> rn_id r = k \<and> r \<in> set (cron_runs db)"
  by (auto simp: run_of_def dest: find_row_SomeD)

lemma active_run_ofD: "active_run_of db j = Some r \<Longrightarrow> r \<in> set (cron_runs db) \<and> rn_job r = j \<and> active r"
  by (auto simp: active_run_of_def find_Some_iff)

lemma active_run_of_None: "active_run_of db j = None \<longleftrightarrow> (\<forall>r \<in> set (cron_runs db). rn_job r = j \<longrightarrow> \<not> active r)"
  by (auto simp: active_run_of_def find_None_iff)

lemma insert_runD:
  assumes "insert_run r db = Inr db'"
  shows "db' = cron_runs_update (add_row r) db" and "run_of db (rn_id r) = None" and "rn_job r \<in> job_ids db"
    and "\<forall>x \<in> set (cron_runs db). \<not> exclusive r x \<and> \<not> exclusive x r"
  using assms by (auto simp: insert_run_def exclusive_def list_ex_iff active_run_of_None job_of_iff split: if_splits)

lemma runs_inv_insert:
  assumes "runs_inv (job_ids db) (cron_runs db)" "insert_run r db = Inr db'" "run_ok r"
  shows "runs_inv (job_ids db) (cron_runs db')"
proof -
  note d = insert_runD [OF assms(2)]
  show ?thesis
    using assms(1,3) d(2-4) unfolding d(1) runs_inv_def by (auto simp: unique_key_add_row run_of_def)
qed

lemma runs_inv_mapI:
  "unique_key rn_id (map g t) \<Longrightarrow> (\<And>r. r \<in> set t \<Longrightarrow> run_ok (g r) \<and> rn_job (g r) \<in> js) \<Longrightarrow>
   (\<And>a b. a \<in> set t \<Longrightarrow> b \<in> set t \<Longrightarrow> exclusive (g a) (g b) \<Longrightarrow> rn_id (g a) = rn_id (g b)) \<Longrightarrow> runs_inv js (map g t)"
  by (simp add: runs_inv_def)

lemma runs_inv_update:
  assumes "runs_inv js t" and "\<And>r. rn_id (f r) = rn_id r" and "\<And>r. rn_job (f r) = rn_job r \<and> rn_source (f r) = rn_source r \<and> rn_at (f r) = rn_at r"
    and "\<And>r. p r \<Longrightarrow> active (f r) \<Longrightarrow> active r" and "\<And>r. p r \<Longrightarrow> run_ok r \<Longrightarrow> run_ok (f r)"
  shows "runs_inv js (update_where p f t)"
proof -
  let ?g = "\<lambda>r. if p r then f r else r"
  have "map rn_id (map ?g t) = map rn_id t" using assms(2) by (induction t) auto
  then have "unique_key rn_id (map ?g t)" using assms(1) unfolding runs_inv_def unique_key_def by argo
  moreover have "run_ok (?g r) \<and> rn_job (?g r) \<in> js" if "r \<in> set t" for r
    using that assms(1,3,5) by (auto simp: runs_inv_def)
  moreover have "rn_id (?g a) = rn_id (?g b)" if m: "a \<in> set t" "b \<in> set t" and e: "exclusive (?g a) (?g b)" for a b
  proof -
    have "exclusive a b" using e assms(3,4) by (auto simp: exclusive_def split: if_splits)
    with m assms(1) have "rn_id a = rn_id b" by (simp add: runs_inv_def)
    then show ?thesis by (auto simp: assms(2))
  qed
  ultimately show ?thesis unfolding update_where_def by (rule runs_inv_mapI)
qed

lemma runs_inv_filter: "runs_inv js t \<Longrightarrow> runs_inv js (filter p t)"
  by (auto simp: runs_inv_def unique_key_filter)

lemma runs_inv_mono: "runs_inv js t \<Longrightarrow> js \<subseteq> js' \<Longrightarrow> runs_inv js' t"
  by (auto simp: runs_inv_def)

lemma job_ids_update [simp]: "(\<And>r. jb_id (f r) = jb_id r) \<Longrightarrow> job_ids (cron_jobs_update (update_where p f) db) = job_ids db"
  using arg_cong [OF map_key_update_where [of jb_id f p "cron_jobs db"], of set] by (simp add: job_ids_def)

lemma job_ids_upd_job [simp]: "(\<And>r. jb_id (f r) = jb_id r) \<Longrightarrow> job_ids (upd_job j f db) = job_ids db"
  unfolding modify_row_def by (rule job_ids_update)

lemma job_ids_runs [simp]: "job_ids (cron_runs_update g db) = job_ids db"
  by (simp add: job_ids_def)

text \<open>An update of job rows that keeps names and identities, in the form every operation uses.\<close>

lemma cron_inv_upd_jobs:
  assumes "cron_inv db" and "\<And>r. jb_id (f r) = jb_id r" and "\<And>r. jb_name (f r) = jb_name r"
    and "\<And>r. p r \<Longrightarrow> live_job (f r) \<Longrightarrow> live_job r" and "\<And>r. p r \<Longrightarrow> job_ok r \<Longrightarrow> job_ok (f r)"
  shows "cron_inv (cron_jobs_update (update_where p f) db)"
  using assms(1) jobs_inv_update [of "cron_jobs db" f p, OF _ assms(2-5)] by (simp add: cron_inv_def assms(2))

lemma cron_inv_upd_job:
  assumes "cron_inv db" and "\<And>r. jb_id (f r) = jb_id r" and "\<And>r. jb_name (f r) = jb_name r"
    and "\<And>r. live_job (f r) \<Longrightarrow> live_job r" and "\<And>r. job_ok r \<Longrightarrow> job_ok (f r)"
  shows "cron_inv (upd_job j f db)"
  unfolding modify_row_def by (rule cron_inv_upd_jobs) (use assms in auto)

lemma cron_inv_upd_runs:
  assumes "cron_inv db" and "\<And>r. rn_id (f r) = rn_id r" and "\<And>r. rn_job (f r) = rn_job r \<and> rn_source (f r) = rn_source r \<and> rn_at (f r) = rn_at r"
    and "\<And>r. p r \<Longrightarrow> active (f r) \<Longrightarrow> active r" and "\<And>r. p r \<Longrightarrow> run_ok r \<Longrightarrow> run_ok (f r)"
  shows "cron_inv (cron_runs_update (update_where p f) db)"
  using assms(1) runs_inv_update [of _ "cron_runs db" f p, OF _ assms(2-5)] by (simp add: cron_inv_def)

section \<open>What an operation does to the runs\<close>

text \<open>A run keeps its identity, job and occurrence, never returns from running to claimed, and once settled changes only its notification mark.\<close>

definition run_move :: "run_row \<Rightarrow> run_row \<Rightarrow> bool" where
  "run_move r r' \<longleftrightarrow> rn_id r' = rn_id r \<and> rn_job r' = rn_job r \<and> rn_at r' = rn_at r
     \<and> (rn_status r = Running \<longrightarrow> rn_status r' \<noteq> Claimed)
     \<and> (\<not> active r \<longrightarrow> r' = r \<or> r' = mark_recorded r)"

definition evolves :: "cron_db \<Rightarrow> cron_db \<Rightarrow> bool" where
  "evolves db db' \<longleftrightarrow> (\<forall>k r. run_of db k = Some r \<longrightarrow> (\<exists>r'. run_of db' k = Some r' \<and> run_move r r'))"

text \<open>Operations that claim nothing are \<open>quiet\<close>; a claim adds one active run.\<close>

definition quiet :: "cron_db \<Rightarrow> cron_db \<Rightarrow> bool" where
  "quiet db db' \<longleftrightarrow> (cron_inv db \<longrightarrow> cron_inv db') \<and> count_active_runs db' \<le> count_active_runs db \<and> evolves db db'"

definition claims :: "cron_db \<Rightarrow> cron_db \<Rightarrow> bool" where
  "claims db db' \<longleftrightarrow> (cron_inv db \<longrightarrow> cron_inv db') \<and> count_active_runs db' = Suc (count_active_runs db) \<and> evolves db db'"

lemma mark_recorded_fields [simp]:
  "rn_id (mark_recorded r) = rn_id r" "rn_job (mark_recorded r) = rn_job r" "rn_at (mark_recorded r) = rn_at r"
  "rn_status (mark_recorded r) = rn_status r" "rn_source (mark_recorded r) = rn_source r" "rn_completed (mark_recorded r) = rn_completed r"
  by (simp_all add: mark_recorded_def)

lemma mark_recorded_idem: "mark_recorded (mark_recorded r) = mark_recorded r"
  by (simp add: mark_recorded_def)

lemma run_move_refl [simp]: "run_move r r"
  by (simp add: run_move_def active_def)

lemma settled_moveD: "run_move a b \<Longrightarrow> \<not> active a \<Longrightarrow> (b = a \<or> b = mark_recorded a) \<and> \<not> active b \<and> rn_status b = rn_status a"
  by (auto simp: run_move_def active_def)

lemma run_move_trans:
  assumes ab: "run_move a b" and bc: "run_move b c"
  shows "run_move a c"
proof (cases "active a")
  case False
  have "b = a \<or> b = mark_recorded a" "\<not> active b" using settled_moveD [OF ab False] by blast+
  moreover from this have "c = b \<or> c = mark_recorded b" using settled_moveD [OF bc] by blast
  ultimately have c: "c = a \<or> c = mark_recorded a" using mark_recorded_idem by metis
  have "run_move a (mark_recorded a)" using False by (simp add: run_move_def active_def)
  with c show ?thesis by auto
next
  case True
  have "rn_status c \<noteq> Claimed" if "rn_status a = Running"
  proof (cases "active b")
    case True
    then show ?thesis using that ab bc by (simp add: run_move_def active_def)
  next
    case False
    then show ?thesis using settled_moveD [OF bc] by (simp add: active_def)
  qed
  with True ab bc show ?thesis by (simp add: run_move_def)
qed

lemma evolves_refl [simp]: "evolves db db"
  by (simp add: evolves_def)

lemma evolves_trans: "evolves a b \<Longrightarrow> evolves b c \<Longrightarrow> evolves a c"
  unfolding evolves_def using run_move_trans by blast

lemma quiet_refl [simp]: "quiet db db"
  by (simp add: quiet_def)

lemma quiet_trans: "quiet a b \<Longrightarrow> quiet b c \<Longrightarrow> quiet a c"
  unfolding quiet_def using evolves_trans by (meson le_trans)

lemma claims_quiet: "claims a b \<Longrightarrow> quiet b c \<Longrightarrow> count_active_runs c = count_active_runs b \<Longrightarrow> claims a c"
  unfolding claims_def quiet_def using evolves_trans by metis

lemma evolves_same_runs: "cron_runs db' = cron_runs db \<Longrightarrow> evolves db db'"
  by (simp add: evolves_def run_of_def)

lemma count_active_jobs [simp]: "count_active_runs (cron_jobs_update f db) = count_active_runs db"
  by (simp add: count_active_runs_def)

lemma quiet_jobs:
  assumes "cron_inv db \<Longrightarrow> cron_inv (cron_jobs_update g db)"
  shows "quiet db (cron_jobs_update g db)"
  using assms by (simp add: quiet_def evolves_same_runs)

lemma quiet_upd_jobs:
  assumes "\<And>r. jb_id (f r) = jb_id r" and "\<And>r. jb_name (f r) = jb_name r"
    and "\<And>r. p r \<Longrightarrow> live_job (f r) \<Longrightarrow> live_job r" and "\<And>r. p r \<Longrightarrow> job_ok r \<Longrightarrow> job_ok (f r)"
  shows "quiet db (cron_jobs_update (update_where p f) db)"
  by (rule quiet_jobs) (use assms in \<open>auto intro!: cron_inv_upd_jobs\<close>)

lemma quiet_upd_job:
  assumes "\<And>r. jb_id (f r) = jb_id r" and "\<And>r. jb_name (f r) = jb_name r"
    and "\<And>r. live_job (f r) \<Longrightarrow> live_job r" and "\<And>r. job_ok r \<Longrightarrow> job_ok (f r)"
  shows "quiet db (upd_job j f db)"
  unfolding modify_row_def by (rule quiet_upd_jobs) (use assms in auto)

lemma cron_runs_map: "cron_runs (cron_runs_update g db) = g (cron_runs db)"
  by simp

lemma count_filter_map: "(\<And>r. p (g r) \<Longrightarrow> p r) \<Longrightarrow> length (filter p (map g t)) \<le> length (filter p t)"
proof (induction t)
  case (Cons r t)
  then show ?case using Cons.prems [of r] by (cases "p (g r)") (simp_all add: le_SucI)
qed simp

lemma evolves_upd_runs:
  assumes "\<And>r. rn_id (f r) = rn_id r" and "\<And>r. p r \<Longrightarrow> run_move r (f r)"
  shows "evolves db (cron_runs_update (update_where p f) db)"
  using assms by (auto simp: evolves_def run_of_def find_row_update)

lemma quiet_upd_runs:
  assumes "\<And>r. rn_id (f r) = rn_id r" and "\<And>r. rn_job (f r) = rn_job r \<and> rn_source (f r) = rn_source r \<and> rn_at (f r) = rn_at r"
    and "\<And>r. p r \<Longrightarrow> active (f r) \<Longrightarrow> active r" and "\<And>r. p r \<Longrightarrow> run_ok r \<Longrightarrow> run_ok (f r)" and "\<And>r. p r \<Longrightarrow> run_move r (f r)"
  shows "quiet db (cron_runs_update (update_where p f) db)"
proof -
  have "count_active_runs (cron_runs_update (update_where p f) db) \<le> count_active_runs db"
    unfolding count_active_runs_def update_where_def cron_db.simps cron_db.update_convs cron_db.select_convs
  proof (subst cron_runs_map, rule count_filter_map)
    show "active r" if "active (if p r then f r else r)" for r using that assms(3) [of r] by (cases "p r") simp_all
  qed
  then show ?thesis
    using cron_inv_upd_runs [of db f p] evolves_upd_runs [of f p db] assms by (simp add: quiet_def)
qed

lemma update_at_key: "find_row key t k = Some r \<Longrightarrow> unique_key key t \<Longrightarrow>
    update_where (\<lambda>x. key x = k) f t = update_where (\<lambda>x. x = r) f t"
  unfolding update_where_def by (rule map_cong) (auto dest: find_row_SomeD find_row_unique)

lemma run_of_add: "run_of db (rn_id r) = None \<Longrightarrow>
   run_of (cron_runs_update (add_row r) db) k = (if k = rn_id r then Some r else run_of db k)"
  by (auto simp: run_of_def find_row_add_row split: option.split)

lemma insert_run_effect:
  assumes "insert_run r db = Inr db'" "run_ok r"
  shows "cron_inv db \<longrightarrow> cron_inv db'" and "evolves db db'"
    and "count_active_runs db' = (if active r then Suc (count_active_runs db) else count_active_runs db)"
proof -
  note d = insert_runD [OF assms(1)]
  show "cron_inv db \<longrightarrow> cron_inv db'"
    using runs_inv_insert [OF _ assms] by (auto simp: cron_inv_def d(1))
  show "evolves db db'"
  proof (unfold evolves_def, intro allI impI)
    fix k x assume x: "run_of db k = Some x"
    then have "k \<noteq> rn_id r" using d(2) by force
    then have "run_of db' k = Some x" using x by (simp add: d(1) run_of_add [OF d(2)])
    then show "\<exists>r'. run_of db' k = Some r' \<and> run_move x r'" by (intro exI [of _ x] conjI) simp_all
  qed
  show "count_active_runs db' = (if active r then Suc (count_active_runs db) else count_active_runs db)"
    by (simp add: d(1) count_active_runs_def add_row_def)
qed

section \<open>The operations of the store\<close>

lemma new_job_ok: "(\<And>n. ji_repeat p = Some n \<Longrightarrow> 0 < n) \<Longrightarrow> job_ok (new_job p paused now)"
  by (simp add: job_ok_def new_job_def normalize_launch_ok)

lemma replaced_row_simps [simp]:
  "jb_id (replaced_row p fires en st now r) = jb_id r" "jb_name (replaced_row p fires en st now r) = ji_name p"
  "jb_state (replaced_row p fires en st now r) = st" "jb_enabled (replaced_row p fires en st now r) = en"
  "jb_repeat (replaced_row p fires en st now r) = ji_repeat p" "jb_next (replaced_row p fires en st now r) = ji_next p"
  "jb_launch (replaced_row p fires en st now r) = normalize_cron_launch (launch_js (ji_launch p))"
  by (simp_all add: replaced_row_def)

lemma create_job_quiet:
  assumes "create_job known p ip now db = Inr (db', j)"
  shows "quiet db db'"
proof -
  obtain paused where ins: "insert_job known (new_job p paused now) db = Inr db'"
    using assms by (auto simp: create_job_def split: js.splits sum.splits if_splits)
  have err: "job_error known (new_job p paused now) db = None" and runs: "cron_runs db' = cron_runs db"
    using ins by (auto simp: insert_job_def split: if_splits option.splits)
  have "job_ok (new_job p paused now)"
    by (rule new_job_ok) (use err in \<open>auto simp: job_error_def new_job_def not_le split: if_splits option.splits\<close>)
  then have "cron_inv db \<longrightarrow> cron_inv db'"
    using jobs_inv_insert [OF _ ins] runs_inv_mono [OF _ subset_insertI] by (simp add: cron_inv_def runs)
  then show ?thesis by (simp add: quiet_def evolves_same_runs runs count_active_runs_def)
qed

lemma replace_job_quiet:
  assumes "replace_job j p fires en st now db = Inr (db', x)" and "en = (st = Scheduled)"
  shows "quiet db db'"
proof -
  obtain r where r: "job_of db j = Some r" "job_error (\<lambda>_. True) (replaced_row p fires en st now r) db = None"
      "db' = upd_job j (replaced_row p fires en st now) db"
    using assms(1) by (auto simp: replace_job_def Let_def split: option.splits if_splits)
  have "job_ok (replaced_row p fires en st now r)"
    using r(2) assms(2) by (auto simp: job_ok_def job_error_def normalize_launch_ok not_le split: if_splits option.splits)
  then have "cron_inv db \<longrightarrow> cron_inv db'"
    using jobs_inv_replace [where f = "replaced_row p fires en st now", OF _ r(1,2)] by (simp add: cron_inv_def r(3))
  then show ?thesis by (simp add: quiet_def evolves_same_runs r(3))
qed

lemma quiet_at_row:
  assumes "job_of db j = Some r" and "\<And>r. jb_id (f r) = jb_id r" and "\<And>r. jb_name (f r) = jb_name r"
    and "live_job (f r) \<Longrightarrow> live_job r" and "job_ok r \<Longrightarrow> job_ok (f r)"
  shows "quiet db (upd_job j f db)"
proof (rule quiet_jobs)
  assume inv: "cron_inv db"
  then have "unique_key jb_id (cron_jobs db)" by (simp add: cron_inv_def jobs_inv_def)
  from update_at_key [OF _ this, of j r f] have eq: "upd_job j f db = cron_jobs_update (update_where (\<lambda>x. x = r) f) db"
    using assms(1) by (simp add: job_of_def modify_row_def)
  show "cron_inv (upd_job j f db)" unfolding eq by (rule cron_inv_upd_jobs [OF inv]) (use assms(2-5) in auto)
qed

lemma change_job_quiet:
  assumes "change_job j p f why db = Inr (db', x)"
    and "\<And>r. jb_id (f r) = jb_id r" and "\<And>r. jb_name (f r) = jb_name r"
    and "\<And>r. p r \<Longrightarrow> live_job (f r) \<Longrightarrow> live_job r" and "\<And>r. p r \<Longrightarrow> job_ok r \<Longrightarrow> job_ok (f r)"
  shows "quiet db db'"
proof -
  obtain r where "job_of db j = Some r" "p r" "db' = upd_job j f db"
    using assms(1) by (auto simp: change_job_def Let_def split: option.splits if_splits)
  with assms(2-5) show ?thesis by (auto intro: quiet_at_row)
qed

lemma pause_job_quiet: "pause_job j now db = Inr (db', x) \<Longrightarrow> quiet db db'"
  unfolding pause_job_def by (erule change_job_quiet) (auto simp: live_job_def job_ok_def)

lemma resume_job_quiet: "resume_job j t now ex db = Inr (db', x) \<Longrightarrow> quiet db db'"
  unfolding resume_job_def by (split if_splits, simp, erule change_job_quiet) (auto simp: live_job_def job_ok_def)

lemma remove_job_quiet: "remove_job j now db = Inr (db', x) \<Longrightarrow> quiet db db'"
  unfolding remove_job_def by (erule change_job_quiet) (auto simp: live_job_def job_ok_def)

lemma defer_quiet: "quiet db (fst (defer_checked_occurrence j m t now db))"
  by (simp add: defer_checked_occurrence_def Let_def) (rule quiet_upd_jobs, auto simp: live_job_def job_ok_def)

lemma record_check_success_quiet: "quiet db (record_check_success j now db)"
  unfolding record_check_success_def by (rule quiet_upd_job) (auto simp: live_job_def job_ok_def)

lemma failed_check_row_simps [simp]:
  "jb_id (failed_check_row why now r) = jb_id r" "jb_name (failed_check_row why now r) = jb_name r"
  "jb_failures (failed_check_row why now r) = Suc (jb_failures r)" "jb_alerted (failed_check_row why now r) = jb_alerted r"
  "live_job (failed_check_row why now r) = live_job r" "job_ok (failed_check_row why now r) = job_ok r"
  by (simp_all add: failed_check_row_def live_job_def job_ok_def)

lemma record_check_failure_quiet: "quiet db (fst (record_check_failure j why n now db))"
proof -
  have 1: "quiet db (upd_job j (failed_check_row why now) db)" by (rule quiet_upd_job) auto
  have 2: "quiet d (upd_job j (\<lambda>r. r\<lparr>jb_alerted := True\<rparr>) d)" for d
    by (rule quiet_upd_job) (auto simp: live_job_def job_ok_def)
  show ?thesis using 1 quiet_trans [OF 1 2] by (simp add: record_check_failure_def Let_def)
qed

lemma set_pending_check_quiet: "quiet db (fst (set_pending_check j p now db))"
  by (simp add: set_pending_check_def Let_def) (rule quiet_upd_jobs, auto simp: live_job_def job_ok_def)

lemma new_run_simps [simp]:
  "rn_id (new_run k j src m now) = k" "rn_job (new_run k j src m now) = jb_id j" "rn_status (new_run k j src m now) = Claimed"
  "rn_completed (new_run k j src m now) = None" "rn_at (new_run k j src m now) = m"
  by (simp_all add: new_run_def)

lemma new_run_ok: "run_ok (new_run k j src m now)" "active (new_run k j src m now)" "\<not> active (skip_run a now r)" "run_ok (skip_run a now r)"
  by (simp_all add: run_ok_def active_def skip_run_def)

lemma fired_row_quiet: "job_of db j = Some r \<Longrightarrow> live_job r \<Longrightarrow> quiet db (upd_job j (fired_row t m st why now) db)"
  by (rule quiet_at_row) (auto simp: fired_row_def Let_def live_job_def job_ok_def)

lemma claim_scheduled_run_effect:
  assumes "claim_scheduled_run j k m t now db = Inr (db', c)"
  shows "(case c of NotClaimed \<Rightarrow> db' = db | SkippedRun _ _ \<Rightarrow> quiet db db' | ClaimedRun _ _ \<Rightarrow> claims db db')"
proof (cases "c = NotClaimed")
  case True
  then show ?thesis using assms by (auto simp: claim_scheduled_run_def Let_def split: option.splits sum.splits if_splits)
next
  case False
  then obtain row where row: "job_of db j = Some row" "live_job row"
    using assms by (auto simp: claim_scheduled_run_def live_job_def split: option.splits if_splits)
  define new where "new = (case active_run_of db j of Some a \<Rightarrow> skip_run a now (new_run k row ScheduledSource m now) | None \<Rightarrow> new_run k row ScheduledSource m now)"
  obtain db1 where ins: "insert_run new db = Inr db1" and db': "db' = upd_job j (fired_row t m (rn_status new) (rn_error new) now) db1"
    and c: "c = (if active_run_of db j = None then ClaimedRun else SkippedRun) (map_run new) (get_job db' j)"
    using assms row(1) False by (auto simp: claim_scheduled_run_def Let_def new_def split: if_splits sum.splits)
  have "run_ok new" "active new = (active_run_of db j = None)" by (auto simp: new_def new_run_ok split: option.split)
  note eff = insert_run_effect [OF ins this(1)]
  have "job_of db1 j = Some row" using row(1) insert_runD(1) [OF ins] by (simp add: job_of_def)
  note q = fired_row_quiet [OF this row(2), of t m "rn_status new" "rn_error new" now]
  have "quiet db1 db'" "count_active_runs db' = count_active_runs db1" using q db' by simp_all
  then show ?thesis
    using eff \<open>active new = _\<close> by (auto simp: c claims_def quiet_def intro: evolves_trans)
qed

lemma claim_manual_run_claims:
  assumes "claim_manual_run j k m now db = Inr (db', r)"
  shows "claims db db'"
proof -
  obtain row db1 where ins: "insert_run (new_run k row ManualSource m now) db = Inr db1"
    and db': "db' = upd_job j (\<lambda>r. r\<lparr>jb_last_run := Some m, jb_last_status := Some Claimed, jb_last_error := None, jb_updated := now\<rparr>) db1"
    using assms by (auto simp: claim_manual_run_def split: option.splits sum.splits if_splits)
  have "quiet db1 db'" unfolding db' by (rule quiet_upd_job) (auto simp: live_job_def job_ok_def)
  moreover have "count_active_runs db' = count_active_runs db1" by (simp add: db')
  ultimately show ?thesis using insert_run_effect [OF ins new_run_ok(1)] by (auto simp: claims_def quiet_def new_run_ok intro: evolves_trans)
qed

lemma checked_row_quiet: "job_of db j = Some r \<Longrightarrow> live_job r \<Longrightarrow> quiet db (upd_job j (checked_row p now) db)"
  by (rule quiet_at_row) (auto simp: checked_row_def live_job_def job_ok_def split: if_splits)

lemma claim_checked_run_effect:
  assumes "claim_checked_run j k now db = Inr (db', c)"
  shows "(case c of NotClaimed \<Rightarrow> db' = db | SkippedRun _ _ \<Rightarrow> False | ClaimedRun _ _ \<Rightarrow> claims db db')"
proof (cases "c = NotClaimed")
  case True
  then show ?thesis using assms by (auto simp: claim_checked_run_def Let_def split: option.splits sum.splits if_splits)
next
  case False
  then obtain row pending db1 where ins: "insert_run ((new_run k row ScheduledSource (pc_at pending) now)\<lparr>rn_check := Some (pc_kind pending, pc_text pending)\<rparr>) db = Inr db1"
    and db': "db' = upd_job j (checked_row pending now) db1" and c: "\<exists>x y. c = ClaimedRun x y" and row: "job_of db j = Some row" "live_job row"
    using assms by (auto simp: claim_checked_run_def Let_def split: option.splits sum.splits if_splits)
  have ok: "run_ok ((new_run k row ScheduledSource (pc_at pending) now)\<lparr>rn_check := v\<rparr>)" "active ((new_run k row ScheduledSource (pc_at pending) now)\<lparr>rn_check := v\<rparr>)" for v
    by (simp_all add: run_ok_def active_def)
  have "quiet db1 db'" "count_active_runs db' = count_active_runs db1" using checked_row_quiet [of db1 j row pending now] insert_runD(1) [OF ins] row db' by (simp_all add: job_of_def)
  with insert_run_effect [OF ins ok(1)] ok(2) have "claims db db'" by (auto simp: claims_def quiet_def intro: evolves_trans)
  with c show ?thesis by auto
qed

text \<open>The update of one run row, when only that row matters.\<close>

lemma quiet_at_run:
  assumes "run_of db k = Some r" and "\<And>r. rn_id (f r) = rn_id r" and "\<And>r. rn_job (f r) = rn_job r \<and> rn_source (f r) = rn_source r \<and> rn_at (f r) = rn_at r"
    and "active (f r) \<Longrightarrow> active r" and "run_ok r \<Longrightarrow> run_ok (f r)" and "run_move r (f r)" and inv: "cron_inv db"
  shows "quiet db (upd_run k f db)"
proof -
  have "unique_key rn_id (cron_runs db)" using inv by (simp add: cron_inv_def runs_inv_def)
  from update_at_key [OF _ this, of k r f] have eq: "upd_run k f db = cron_runs_update (update_where (\<lambda>x. x = r) f) db"
    using assms(1) by (simp add: run_of_def modify_row_def)
  show ?thesis unfolding eq by (rule quiet_upd_runs) (use assms(2-6) in auto)
qed

text \<open>Row functions of the run updates, by name.\<close>

definition running_row :: "exec_mode \<Rightarrow> string \<Rightarrow> string option \<Rightarrow> string option \<Rightarrow> int \<Rightarrow> run_row \<Rightarrow> run_row" where
  "running_row mode sid fb inp now r = r\<lparr>rn_status := Running, rn_mode_used := Some mode, rn_session := Some sid,
     rn_fallback := fb, rn_input := inp, rn_started := Some now\<rparr>"

definition finished_row :: "run_status \<Rightarrow> string option \<Rightarrow> string option \<Rightarrow> int \<Rightarrow> run_row \<Rightarrow> run_row" where
  "finished_row st out why now r = r\<lparr>rn_status := st, rn_output := out, rn_error := why, rn_completed := Some now\<rparr>"

definition reported_run :: "disposition \<Rightarrow> string option \<Rightarrow> int \<Rightarrow> run_row \<Rightarrow> run_row" where
  "reported_run d body now r = r\<lparr>rn_disposition := Some d, rn_body := body, rn_evaluated := Some now\<rparr>"

lemma job_status_quiet: "quiet db (upd_job j (\<lambda>r. r\<lparr>jb_last_status := st, jb_last_error := why, jb_updated := now\<rparr>) db)"
  by (rule quiet_upd_job) (auto simp: live_job_def job_ok_def)

lemma mark_run_running_quiet:
  assumes "mark_run_running known k mode sid fb inp now db = Inr (db', x)" "cron_inv db"
  shows "quiet db db'"
proof -
  obtain r where r: "run_of db k = Some r" "rn_status r = Claimed"
    and db': "db' = upd_job (rn_job r) (\<lambda>j. j\<lparr>jb_last_status := Some Running, jb_last_error := None, jb_updated := now\<rparr>) (upd_run k (running_row mode sid fb inp now) db)"
    using assms(1) by (auto simp: mark_run_running_def Let_def running_row_def [abs_def] split: option.splits if_splits)
  have "quiet db (upd_run k (running_row mode sid fb inp now) db)"
    by (rule quiet_at_run [OF r(1) _ _ _ _ _ assms(2)]) (use r(2) in \<open>auto simp: running_row_def active_def run_ok_def run_move_def\<close>)
  then show ?thesis using job_status_quiet unfolding db' by (rule quiet_trans)
qed

lemma finish_runD:
  assumes "finish_run k st out why now db = Inr (db', x)"
  shows "db' = db \<and> (\<forall>r. run_of db k = Some r \<longrightarrow> \<not> active r) \<or> (\<exists>r. run_of db k = Some r \<and> active r \<and> st \<in> {RunCompleted, RunFailed, Unknown}
     \<and> db' = upd_job (rn_job r) (\<lambda>j. j\<lparr>jb_last_status := Some st, jb_last_error := why, jb_updated := now\<rparr>) (upd_run k (finished_row st out why now) db))"
  using assms by (auto simp: finish_run_def Let_def finished_row_def [abs_def] split: option.splits if_splits)

lemma finish_run_quiet:
  assumes "finish_run k st out why now db = Inr (db', x)" "cron_inv db"
  shows "quiet db db'"
  using finish_runD [OF assms(1)]
proof (elim disjE exE conjE)
  fix r assume r: "run_of db k = Some r" "active r" "st \<in> {RunCompleted, RunFailed, Unknown}"
    and db': "db' = upd_job (rn_job r) (\<lambda>j. j\<lparr>jb_last_status := Some st, jb_last_error := why, jb_updated := now\<rparr>) (upd_run k (finished_row st out why now) db)"
  have "quiet db (upd_run k (finished_row st out why now) db)"
    by (rule quiet_at_run [OF r(1) _ _ _ _ _ assms(2)]) (use r(2,3) in \<open>auto simp: finished_row_def active_def run_ok_def run_move_def\<close>)
  then show ?thesis using job_status_quiet unfolding db' by (rule quiet_trans)
qed simp

lemma interrupt_run_simps [simp]:
  "rn_id (interrupt_run now r) = rn_id r" "rn_job (interrupt_run now r) = rn_job r" "rn_source (interrupt_run now r) = rn_source r"
  "rn_at (interrupt_run now r) = rn_at r" "rn_status (interrupt_run now r) = Unknown" "rn_completed (interrupt_run now r) = Some now"
  "rn_error (interrupt_run now r) = Some interrupted_error"
  by (simp_all add: interrupt_run_def)

lemma reconcile_quiet: "quiet db (fst (reconcile_interrupted_runs now db))"
proof -
  have "quiet db (cron_runs_update (update_where active (interrupt_run now)) db)"
    by (rule quiet_upd_runs) (auto simp: active_def run_ok_def run_move_def)
  moreover have "quiet d (cron_jobs_update (update_where p (\<lambda>j. j\<lparr>jb_last_status := Some Unknown, jb_last_error := e, jb_updated := now\<rparr>)) d)" for d p e
    by (rule quiet_upd_jobs) (auto simp: live_job_def job_ok_def)
  ultimately show ?thesis by (simp add: reconcile_interrupted_runs_def Let_def) (rule quiet_trans)
qed

lemma report_notification_quiet:
  assumes "report_notification k sid d body now db = Inr (db', x)" "cron_inv db"
  shows "quiet db db'"
proof -
  consider "db' = db" | r where "run_of db k = Some r" "rn_status r = Running" "db' = upd_run k (reported_run d body now) db"
    using assms(1) by (auto simp: report_notification_def Let_def reported_run_def [abs_def] split: option.splits if_splits)
  then show ?thesis
  proof cases
    case 2
    show ?thesis unfolding 2(3)
      by (rule quiet_at_run [OF 2(1) _ _ _ _ _ assms(2)]) (use 2(2) in \<open>auto simp: reported_run_def active_def run_ok_def run_move_def\<close>)
  qed simp
qed

lemma recorded_quiet: "quiet db (notification_recorded k db)"
  unfolding notification_recorded_def modify_row_def
  by (rule quiet_upd_runs) (simp_all add: active_def run_ok_def run_move_def)

section \<open>Pruning\<close>

definition newer :: "run_row \<Rightarrow> run_row \<Rightarrow> bool" where
  "newer r x \<longleftrightarrow> rn_job x = rn_job r \<and> (rn_claimed r, rn_id r) < (rn_claimed x, rn_id x)"

lemma prune_runs_sub: "set (cron_runs (fst (prune_runs keep db))) \<subseteq> set (cron_runs db)"
  by (auto simp: prune_runs_def Let_def)

lemma prune_keeps_active: "r \<in> set (cron_runs db) \<Longrightarrow> active r \<Longrightarrow> r \<in> set (cron_runs (fst (prune_runs keep db)))"
  by (auto simp: prune_runs_def Let_def prunable_def terminal_def active_def)

lemma prune_runs_inv: "cron_inv db \<Longrightarrow> cron_inv (fst (prune_runs keep db))"
  using runs_inv_filter by (auto simp: cron_inv_def prune_runs_def Let_def job_ids_def)

lemma length_filter_filter: "length (filter p (filter q xs)) \<le> length (filter p xs)"
  by (induction xs) auto

lemma prune_count: "count_active_runs (fst (prune_runs keep db)) \<le> count_active_runs db"
  by (simp add: prune_runs_def Let_def count_active_runs_def length_filter_filter del: filter_filter)

lemma prune_run_of:
  assumes inv: "cron_inv db" and r: "run_of (fst (prune_runs keep db)) k = Some r"
  shows "run_of db k = Some r"
proof -
  have "rn_id r = k" "r \<in> set (cron_runs db)" using run_ofD [OF r] prune_runs_sub by blast+
  moreover have "unique_key rn_id (cron_runs db)" using inv by (simp add: cron_inv_def runs_inv_def)
  ultimately show ?thesis using find_row_unique by (force simp: run_of_def)
qed

end
