(* ===== verification/CronHistory.thy ===== *)
theory CronHistory
  imports CronRuns
begin

text \<open>
  Histories of the scheduler: every operation that changes its state as one datatype, the state
  after a sequence of them, and what holds after every sequence. The loops of a tick are clients
  of the interface \<open>run_queue\<close>.
\<close>

section \<open>A queue of claims\<close>

text \<open>
  The steps a claiming loop makes: each keeps the invariant and the history, only a claim adds to
  the load and only by one, and candidates that skip the capacity test claim nothing.
\<close>

locale run_queue =
  fixes free :: "'c \<Rightarrow> bool"
    and step :: "'c \<Rightarrow> 's \<Rightarrow> 's \<times> outcome"
    and load :: "'s \<Rightarrow> nat"
    and good :: "'s \<Rightarrow> bool"
    and past :: "'s \<Rightarrow> 's \<Rightarrow> bool"
  assumes step_good: "good s \<Longrightarrow> step c s = (s', x) \<Longrightarrow> good s'"
    and step_past: "good s \<Longrightarrow> step c s = (s', x) \<Longrightarrow> past s s'"
    and step_load: "good s \<Longrightarrow> step c s = (s', x) \<Longrightarrow> load s' \<le> load s + (if x = Took then 1 else 0)"
    and free_step: "free c \<Longrightarrow> step c s = (s', x) \<Longrightarrow> x \<noteq> Took"
    and past_refl: "past s s"
    and past_trans: "past a b \<Longrightarrow> past b c' \<Longrightarrow> past a c'"
begin

lemma loop_invariant:
  assumes "claim_loop free step cs s n = (s', n', e)" and "good s"
  shows "good s' \<and> past s s' \<and> load s' + ty_capacity n' \<le> load s + ty_capacity n"
  using assms
proof (induction cs arbitrary: s n)
  case Nil
  then show ?case by (simp add: past_refl)
next
  case (Cons c cs)
  show ?case
  proof (cases "\<not> free c \<and> ty_capacity n = 0")
    case True
    then show ?thesis using Cons.prems by (simp add: past_refl)
  next
    case False
    obtain s1 x where st: "step c s = (s1, x)" by fastforce
    have s1: "good s1" "past s s1" "load s1 \<le> load s + (if x = Took then 1 else 0)"
      using step_good step_past step_load Cons.prems(2) st by blast+
    have cap: "x = Took \<Longrightarrow> 0 < ty_capacity n" using False free_step [OF _ st] by auto
    show ?thesis
    proof (cases "\<exists>why. x = Threw why")
      case True
      then have "s' = s1" "n' = n" using Cons.prems(1) False st by auto
      then show ?thesis using s1 True by auto
    next
      case nothrow: False
      obtain n1 where rest: "claim_loop free step cs s1 n1 = (s', n', e)" and n1: "load s1 + ty_capacity n1 \<le> load s + ty_capacity n"
      proof (cases x)
        case Took
        show ?thesis by (rule that [of "n\<lparr>ty_capacity := ty_capacity n - 1, ty_claimed := ty_claimed n + 1\<rparr>"])
          (use Took Cons.prems(1) False st s1(3) cap in auto)
      next
        case Passed
        show ?thesis by (rule that [of n]) (use Passed Cons.prems(1) False st s1(3) in auto)
      next
        case Overlapped
        show ?thesis by (rule that [of "n\<lparr>ty_skipped := ty_skipped n + 1\<rparr>"]) (use Overlapped Cons.prems(1) False st s1(3) in auto)
      qed (use nothrow in simp)
      from Cons.IH [OF rest s1(1)] n1 past_trans [OF s1(2)] show ?thesis by auto
    qed
  qed
qed

end

section \<open>The invariant of the scheduler\<close>

definition checks_ok :: "sched \<Rightarrow> bool" where
  "checks_ok s \<longleftrightarrow> distinct (map (jb_id \<circ> fst) (sc_checks s)) \<and> length (sc_checks s) \<le> max_concurrent_checks"

definition sched_good :: "sched \<Rightarrow> bool" where
  "sched_good s \<longleftrightarrow> cron_inv (sc_db s) \<and> checks_ok s"

abbreviation sched_load :: "sched \<Rightarrow> nat" where
  "sched_load s \<equiv> count_active_runs (sc_db s)"

abbreviation sched_past :: "sched \<Rightarrow> sched \<Rightarrow> bool" where
  "sched_past s s' \<equiv> evolves (sc_db s) (sc_db s')"

lemma launch_run_simps [simp]:
  "sc_db (launch_run r j s) = sc_db s" "sc_checks (launch_run r j s) = sc_checks s" "sc_stopped (launch_run r j s) = sc_stopped s"
  by (simp_all add: launch_run_def)

lemma start_check_effect:
  assumes "start_check ev now j s = Inr s'"
  shows "quiet (sc_db s) (sc_db s') \<and> (checks_ok s \<longrightarrow> checks_ok s')"
proof -
  have dq: "quiet db d" if "defer_checked_occurrence j m t now db = (d, b)" for db d j m t b
    using defer_quiet [of db j m t now] that by simp
  have "quiet (sc_db s) (sc_db s')"
    using assms by (auto simp: start_check_def Let_def split: if_splits sum.splits prod.splits dest: dq)
  moreover have "checks_ok s \<longrightarrow> checks_ok s'"
    using assms by (fastforce simp: start_check_def Let_def checks_ok_def list_ex_iff split: if_splits sum.splits prod.splits)
  ultimately show ?thesis by blast
qed

lemma absorb_effect:
  assumes "absorb r j s = (s', x)"
    and "\<And>db c. r = Inr (db, c) \<Longrightarrow> (case c of NotClaimed \<Rightarrow> db = sc_db s | SkippedRun _ _ \<Rightarrow> quiet (sc_db s) db | ClaimedRun _ _ \<Rightarrow> claims (sc_db s) db)"
  shows "(sched_good s \<longrightarrow> sched_good s') \<and> sched_past s s' \<and> sched_load s' \<le> sched_load s + (if x = Took then 1 else 0)"
proof (cases r)
  case (Inl e)
  then show ?thesis using assms(1) by (auto simp: absorb_def)
next
  case (Inr p)
  obtain db c where p: "r = Inr (db, c)" using Inr by (cases p) simp
  show ?thesis
    using assms(1) assms(2) [OF p] p
    by (cases c) (auto simp: absorb_def sched_good_def checks_ok_def quiet_def claims_def)
qed

lemma pending_step_effect:
  assumes "pending_step ev now j s = (s', x)"
  shows "(sched_good s \<longrightarrow> sched_good s') \<and> sched_past s s' \<and> sched_load s' \<le> sched_load s + (if x = Took then 1 else 0)"
  using assms unfolding pending_step_def
  by (rule absorb_effect) (auto dest: claim_checked_run_effect split: claim.splits)

lemma due_step_effect:
  assumes "due_step ev now j s = (s', x)"
  shows "(sched_good s \<longrightarrow> sched_good s') \<and> sched_past s s' \<and> sched_load s' \<le> sched_load s + (if x = Took then 1 else 0)"
proof (cases "jb_check j = None")
  case False
  then have "s' = s \<or> start_check ev now j s = Inr s'" using assms by (auto simp: due_step_def split: sum.splits)
  then show ?thesis using start_check_effect by (fastforce simp: sched_good_def quiet_def)
next
  case True
  let ?m = "case jb_next j of Some t \<Rightarrow> t | None \<Rightarrow> 0"
  have "s' = s \<or> (\<exists>t. absorb (claim_scheduled_run (jb_id j) (scheduled_run_id ev (jb_id j) ?m) ?m t now (sc_db s)) j s = (s', x))"
    using assms True by (auto simp: due_step_def Let_def split: sum.splits)
  then show ?thesis
  proof (elim disjE exE)
    fix t assume "absorb (claim_scheduled_run (jb_id j) (scheduled_run_id ev (jb_id j) ?m) ?m t now (sc_db s)) j s = (s', x)"
    then show ?thesis by (rule absorb_effect) (auto dest: claim_scheduled_run_effect)
  qed simp
qed

interpretation pending_queue: run_queue "\<lambda>_. False" "pending_step ev now" sched_load sched_good sched_past for ev now
  by unfold_locales (use pending_step_effect in \<open>blast intro: evolves_trans evolves_refl\<close>)+

interpretation due_queue: run_queue "\<lambda>j. jb_check j \<noteq> None" "due_step ev now" sched_load sched_good sched_past for ev now
proof unfold_locales
  show "x \<noteq> Took" if "jb_check c \<noteq> None" "due_step ev now c s = (s', x)" for c s s' x
    using that by (auto simp: due_step_def split: sum.splits)
qed (use due_step_effect in \<open>blast intro: evolves_trans evolves_refl\<close>)+

section \<open>Operations\<close>

datatype cron_op =
    StartOp int
  | StopOp
  | TickOp int
  | ImmediateOp int
  | DispatchOp nat "string option" int
  | CheckOp nat check_result int
  | CreateOp string cron_params int "string option" bool string
  | UpdateOp string cron_patch int
  | PauseOp string int
  | ResumeOp string int "job option"
  | RemoveOp string int
  | RunNowOp string int string
  | RunningOp string exec_mode string "string option" "string option" int
  | FinishOp string run_status "string option" "string option" int
  | ReportOp string string disposition "string option" int
  | RecordedOp string

definition on_db :: "(cron_db \<Rightarrow> (cron_db \<times> 'a) result) \<Rightarrow> sched \<Rightarrow> sched" where
  "on_db f s = s\<lparr>sc_db := committed (sc_db s) (f (sc_db s))\<rparr>"

definition cron_exec :: "cron_env \<Rightarrow> store \<Rightarrow> cron_op \<Rightarrow> sched \<Rightarrow> sched" where
  "cron_exec ev db x s = (case x of
      StartOp now \<Rightarrow> start_scheduler now s
    | StopOp \<Rightarrow> stop_scheduler s
    | TickOp now \<Rightarrow> fst (tick ev now s)
    | ImmediateOp now \<Rightarrow> immediate_tick ev now s
    | DispatchOp n failure now \<Rightarrow> dispatched n failure now s
    | CheckOp n r now \<Rightarrow> check_finished n r now s
    | CreateOp origin p now k paused fresh \<Rightarrow> on_db (create_cron_job ev db id origin p now k paused fresh) s
    | UpdateOp selector p now \<Rightarrow> on_db (update_cron_job ev selector p now) s
    | PauseOp selector now \<Rightarrow> on_db (pause_cron_job selector now) s
    | ResumeOp selector now expected \<Rightarrow> on_db (resume_cron_job ev selector now expected) s
    | RemoveOp selector now \<Rightarrow> on_db (remove_cron_job selector now) s
    | RunNowOp selector now random \<Rightarrow> committed s (run_now ev selector now random s)
    | RunningOp k mode sid fb inp now \<Rightarrow> on_db (mark_run_running (\<lambda>i. session db i \<noteq> None) k mode sid fb inp now) s
    | FinishOp k st out why now \<Rightarrow> on_db (finish_run k st out why now) s
    | ReportOp k sid d body now \<Rightarrow> on_db (report_notification k sid d body now) s
    | RecordedOp k \<Rightarrow> s\<lparr>sc_db := notification_recorded k (sc_db s)\<rparr>)"

definition cron_run_ops :: "cron_env \<Rightarrow> store \<Rightarrow> cron_op list \<Rightarrow> sched \<Rightarrow> sched" where
  "cron_run_ops ev db xs s = fold (cron_exec ev db) xs s"

text \<open>What one operation keeps, with the capacity \<open>m\<close>.\<close>

definition step_ok :: "nat \<Rightarrow> sched \<Rightarrow> sched \<Rightarrow> bool" where
  "step_ok m s s' \<longleftrightarrow> (sched_good s \<longrightarrow> sched_good s' \<and> sched_load s' \<le> max m (sched_load s)
     \<and> (\<forall>k r r'. run_of (sc_db s) k = Some r \<longrightarrow> run_of (sc_db s') k = Some r' \<longrightarrow> run_move r r'))"

lemma evolvesD: "evolves db db' \<Longrightarrow> run_of db k = Some r \<Longrightarrow> run_of db' k = Some r' \<Longrightarrow> run_move r r'"
  unfolding evolves_def by (metis option.inject)

lemma step_ok_quiet: "(sched_good s \<Longrightarrow> quiet (sc_db s) (sc_db s')) \<Longrightarrow> (checks_ok s \<Longrightarrow> checks_ok s') \<Longrightarrow> step_ok m s s'"
  by (auto simp: step_ok_def sched_good_def quiet_def intro: evolvesD)

lemma committed_quiet: "(\<And>db' x. f db = Inr (db', x) \<Longrightarrow> quiet db db') \<Longrightarrow> quiet db (committed db (f db))"
  by (cases "f db") auto

lemma on_db_ok: "(\<And>db' x. cron_inv (sc_db s) \<Longrightarrow> f (sc_db s) = Inr (db', x) \<Longrightarrow> quiet (sc_db s) db') \<Longrightarrow> step_ok m s (on_db f s)"
  by (rule step_ok_quiet) (auto simp: on_db_def checks_ok_def sched_good_def intro: committed_quiet)

lemma checks_ok_drop: "checks_ok s \<Longrightarrow> sc_checks s' = drop_nth n (sc_checks s) \<Longrightarrow> checks_ok s'"
proof -
  assume ok: "checks_ok s" and s': "sc_checks s' = drop_nth n (sc_checks s)"
  have "distinct (drop_nth n xs)" if "distinct xs" for xs :: "string list"
  proof (cases "n < length xs")
    case True
    from that have "distinct (take n xs @ xs ! n # drop (Suc n) xs)" using id_take_nth_drop [OF True] by simp
    then show ?thesis by (simp add: drop_nth_def)
  qed (simp add: drop_nth_def that)
  moreover have "map f (drop_nth n xs) = drop_nth n (map f xs)" for f :: "job \<times> int \<Rightarrow> string" and xs
    by (simp add: drop_nth_def take_map drop_map)
  moreover have "length (drop_nth n (sc_checks s)) \<le> length (sc_checks s)"
    by (simp add: drop_nth_def min_def)
  ultimately show ?thesis using ok by (simp add: checks_ok_def s')
qed

lemma tick_ok: "step_ok (ce_max_parallel ev) s (fst (tick ev now s))"
proof -
  let ?n = "\<lparr>ty_capacity = ce_max_parallel ev - sched_load s, ty_claimed = 0, ty_skipped = 0\<rparr>"
  obtain s1 n1 e1 where l1: "claim_loop (\<lambda>_. False) (pending_step ev now) (list_pending_check_jobs (sc_db s) 64) s ?n = (s1, n1, e1)"
    by (metis prod_cases3)
  obtain s2 n2 e2 where l2: "claim_loop (\<lambda>j. jb_check j \<noteq> None) (due_step ev now) (list_due_jobs (sc_db s1) now 64) s1 n1 = (s2, n2, e2)"
    by (metis prod_cases3)
  let ?s3 = "s2\<lparr>sc_db := fst (prune_runs 50 (sc_db s2))\<rparr>"
  have cases: "fst (tick ev now s) \<in> {s, s1, s2, ?s3}"
    by (cases e1; cases e2) (simp_all add: tick_def l1 l2 del: not_None_eq)
  have "step_ok (ce_max_parallel ev) s t" if t: "t \<in> {s, s1, s2, ?s3}" for t
    unfolding step_ok_def
  proof
    assume good: "sched_good s"
    note i1 = pending_queue.loop_invariant [OF l1 good]
    note i2 = due_queue.loop_invariant [OF l2 conjunct1 [OF i1]]
    have past2: "sched_past s s2" using i1 i2 evolves_trans by blast
    have move3: "run_move r r'" if "run_of (sc_db s) k = Some r" "run_of (sc_db ?s3) k = Some r'" for k r r'
      using prune_run_of [of "sc_db s2" 50 k r'] that i2 evolvesD [OF past2] by (simp add: sched_good_def)
    have good3: "sched_good ?s3" using i2 prune_runs_inv by (simp add: sched_good_def checks_ok_def)
    have "sched_load s + ty_capacity ?n \<le> max (ce_max_parallel ev) (sched_load s)" by simp
    moreover have "sched_load ?s3 \<le> sched_load s2" using prune_count by simp
    ultimately show "sched_good t \<and> sched_load t \<le> max (ce_max_parallel ev) (sched_load s)
        \<and> (\<forall>k r r'. run_of (sc_db s) k = Some r \<longrightarrow> run_of (sc_db t) k = Some r' \<longrightarrow> run_move r r')"
      using t i1 i2 good good3 past2 move3 by (elim insertE) (auto dest: evolvesD)
  qed
  then show ?thesis using cases by blast
qed

lemma create_cron_quiet:
  assumes "create_cron_job ev db id origin p now k ip fresh cdb = Inr (cdb', x)"
  shows "quiet cdb cdb'"
  using assms create_job_quiet
  by (auto simp: create_cron_job_def split: if_splits option.splits sum.splits)

lemma update_cron_quiet:
  assumes "update_cron_job ev selector p now cdb = Inr (cdb', x)"
  shows "quiet cdb cdb'"
  using assms by (auto simp: update_cron_job_def Let_def split: sum.splits prod.splits if_splits elim!: replace_job_quiet)

lemma pause_cron_quiet: "pause_cron_job selector now cdb = Inr (cdb', x) \<Longrightarrow> quiet cdb cdb'"
  by (auto simp: pause_cron_job_def split: sum.splits dest: pause_job_quiet)

lemma resume_cron_quiet: "resume_cron_job ev selector now ex cdb = Inr (cdb', x) \<Longrightarrow> quiet cdb cdb'"
  by (auto simp: resume_cron_job_def split: sum.splits if_splits dest: resume_job_quiet)

lemma remove_cron_quiet: "remove_cron_job selector now cdb = Inr (cdb', x) \<Longrightarrow> quiet cdb cdb'"
  by (auto simp: remove_cron_job_def split: sum.splits dest: remove_job_quiet)

lemma dispatched_ok: "step_ok m s (dispatched n failure now s)"
proof (rule step_ok_quiet)
  assume good: "sched_good s"
  have "quiet (sc_db s) (committed (sc_db s) (finish_run k RunFailed None why now (sc_db s)))" for k why
    by (rule committed_quiet) (use good finish_run_quiet in \<open>auto simp: sched_good_def\<close>)
  then show "quiet (sc_db s) (sc_db (dispatched n failure now s))"
    by (auto simp: dispatched_def Let_def split: prod.split option.split)
next
  assume "checks_ok s"
  then show "checks_ok (dispatched n failure now s)"
    by (auto simp: dispatched_def Let_def checks_ok_def split: prod.split)
qed

lemma record_result_quiet: "record_result j moment r now db = (db', p) \<Longrightarrow> quiet db db'"
  using record_check_success_quiet record_check_failure_quiet
  by (cases r) (auto simp: record_result_def split: prod.splits, metis fst_conv)

lemma check_finished_ok: "step_ok m s (check_finished n r now s)"
proof (cases "n \<ge> length (sc_checks s)")
  case True
  then have "check_finished n r now s = s" by (simp add: check_finished_def)
  then show ?thesis by (simp add: step_ok_quiet)
next
  case False
  obtain j moment where c: "sc_checks s ! n = (j, moment)" by fastforce
  obtain db p where r: "record_result j moment r now (sc_db s) = (db, p)" by fastforce
  obtain db' set where w: "(case p of Some x \<Rightarrow> set_pending_check (jb_id j) x now db | None \<Rightarrow> (db, False)) = (db', set)" by fastforce
  have eq: "check_finished n r now s = s\<lparr>sc_db := db', sc_checks := drop_nth n (sc_checks s),
      sc_immediate := (if set \<and> \<not> sc_stopped s then sc_immediate s + 1 else sc_immediate s)\<rparr>"
    using False c r w by (simp add: check_finished_def)
  have "quiet db db'" using w set_pending_check_quiet [of db "jb_id j" _ now] by (cases p) (auto, metis fst_conv)
  then have "quiet (sc_db s) db'" using record_result_quiet [OF r] quiet_trans by blast
  then show ?thesis unfolding eq by (intro step_ok_quiet) (auto intro: checks_ok_drop)
qed

lemma step_ok_same_db: "sc_db s' = sc_db s \<Longrightarrow> sc_checks s' = sc_checks s \<Longrightarrow> step_ok m s s'"
  by (rule step_ok_quiet) (auto simp: checks_ok_def)

lemma step_ok_base: "step_ok m t s' \<Longrightarrow> sc_db t = sc_db s \<Longrightarrow> sc_checks t = sc_checks s \<Longrightarrow> step_ok m s s'"
  by (simp add: step_ok_def sched_good_def checks_ok_def)

lemma run_now_ok: "step_ok (ce_max_parallel ev) s (committed s (run_now ev selector now random s))"
proof (cases "run_now ev selector now random s")
  case (Inl e)
  then show ?thesis by (simp add: step_ok_same_db)
next
  case (Inr p)
  then obtain j r cdb where free: "count_active_runs (sc_db s) < ce_max_parallel ev"
    and c: "claim_manual_run (jb_id j) (manual_run_id ev (jb_id j) now random) now now (sc_db s) = Inr (cdb, r)"
    and p: "p = (launch_run r j (s\<lparr>sc_db := cdb\<rparr>), r)"
    by (auto simp: run_now_def not_le split: if_splits sum.splits)
  show ?thesis
    using claim_manual_run_claims [OF c] free
    by (auto simp: Inr p step_ok_def sched_good_def checks_ok_def claims_def dest: evolvesD)
qed

lemma exec_ok: "step_ok (ce_max_parallel ev) s (cron_exec ev db x s)"
proof (cases x)
  case (StartOp now)
  show ?thesis unfolding StartOp cron_exec_def
    by (simp add: start_scheduler_def step_ok_same_db) (intro impI step_ok_quiet, auto simp: reconcile_quiet checks_ok_def)
next
  case (ImmediateOp now)
  show ?thesis unfolding ImmediateOp cron_exec_def
    by (auto simp: immediate_tick_def step_ok_same_db intro: step_ok_base [OF tick_ok])
next
  case (RecordedOp k)
  show ?thesis unfolding RecordedOp cron_exec_def
    by simp (rule step_ok_quiet, auto simp: recorded_quiet checks_ok_def)
next
  case (CreateOp origin p now k paused fresh)
  show ?thesis unfolding CreateOp cron_exec_def cron_op.case by (rule on_db_ok) (rule create_cron_quiet)
next
  case (UpdateOp selector p now)
  show ?thesis unfolding UpdateOp cron_exec_def cron_op.case by (rule on_db_ok) (rule update_cron_quiet)
next
  case (PauseOp selector now)
  show ?thesis unfolding PauseOp cron_exec_def cron_op.case by (rule on_db_ok) (rule pause_cron_quiet)
next
  case (ResumeOp selector now expected)
  show ?thesis unfolding ResumeOp cron_exec_def cron_op.case by (rule on_db_ok) (rule resume_cron_quiet)
next
  case (RemoveOp selector now)
  show ?thesis unfolding RemoveOp cron_exec_def cron_op.case by (rule on_db_ok) (rule remove_cron_quiet)
next
  case (RunningOp k mode sid fb inp now)
  show ?thesis unfolding RunningOp cron_exec_def cron_op.case by (rule on_db_ok) (rule mark_run_running_quiet)
next
  case (FinishOp k st out why now)
  show ?thesis unfolding FinishOp cron_exec_def cron_op.case by (rule on_db_ok) (rule finish_run_quiet)
next
  case (ReportOp k sid d body now)
  show ?thesis unfolding ReportOp cron_exec_def cron_op.case by (rule on_db_ok) (rule report_notification_quiet)
qed (simp_all add: cron_exec_def stop_scheduler_def step_ok_same_db tick_ok dispatched_ok check_finished_ok run_now_ok)

lemma run_ops_good: "sched_good s \<Longrightarrow> sched_good (cron_run_ops ev db xs s) \<and> sched_load (cron_run_ops ev db xs s) \<le> max (ce_max_parallel ev) (sched_load s)"
proof (induction xs arbitrary: s)
  case (Cons x xs)
  have "sched_good (cron_exec ev db x s)" "sched_load (cron_exec ev db x s) \<le> max (ce_max_parallel ev) (sched_load s)"
    using exec_ok [of ev s db x] Cons.prems by (auto simp: step_ok_def)
  with Cons.IH [of "cron_exec ev db x s"] show ?case by (auto simp: cron_run_ops_def)
qed (simp add: cron_run_ops_def)

end
