(* ===== verification/CronPromises.thy ===== *)
theory CronPromises
  imports CronHistory
begin

text \<open>
  What the scheduler promises its users, over every history of operations: the limits on
  concurrent runs, the finality of a settled run, the effect of a restart, which runs pruning
  keeps, and when a failing check wakes the agent.
\<close>

section \<open>Limits\<close>

lemma distinct_filter_key:
  assumes "distinct (map key t)" and "\<And>a b. a \<in> set t \<Longrightarrow> b \<in> set t \<Longrightarrow> p a \<Longrightarrow> p b \<Longrightarrow> g a = g b \<Longrightarrow> key a = key b"
  shows "distinct (map g (filter p t))"
  using assms
proof (induction t)
  case (Cons r t)
  have "g r \<notin> g ` set (filter p t)" if pr: "p r"
  proof
    assume "g r \<in> g ` set (filter p t)"
    then obtain x where x: "x \<in> set t" "p x" "g r = g x" by auto
    then have "key r = key x" using Cons.prems(2) [of r x] pr by simp
    with x(1) Cons.prems(1) show False by auto
  qed
  moreover have "distinct (map g (filter p t))"
    by (rule Cons.IH) (use Cons.prems in auto)
  ultimately show ?case by simp
qed simp

lemma cron_inv_lists:
  assumes "cron_inv db"
  shows "distinct (map rn_job (filter active (cron_runs db)))"
    and "distinct (map (\<lambda>r. (rn_job r, rn_at r)) (filter (\<lambda>r. rn_source r = ScheduledSource) (cron_runs db)))"
    and "distinct (map (\<lambda>r. sql_lower (jb_name r)) (filter live_job (cron_jobs db)))"
    and "list_all job_ok (cron_jobs db)"
    and "list_all (\<lambda>r. job_of db (rn_job r) \<noteq> None) (cron_runs db)"
proof -
  have runs: "distinct (map rn_id (cron_runs db))"
      "\<And>a b. a \<in> set (cron_runs db) \<Longrightarrow> b \<in> set (cron_runs db) \<Longrightarrow> exclusive a b \<Longrightarrow> rn_id a = rn_id b"
    and jobs: "distinct (map jb_id (cron_jobs db))"
      "\<And>a b. a \<in> set (cron_jobs db) \<Longrightarrow> b \<in> set (cron_jobs db) \<Longrightarrow> same_name a b \<Longrightarrow> jb_id a = jb_id b"
    using assms by (auto simp: cron_inv_def runs_inv_def jobs_inv_def unique_key_def)
  show "distinct (map rn_job (filter active (cron_runs db)))"
    using runs(1) by (rule distinct_filter_key) (auto intro: runs(2) simp: exclusive_def)
  show "distinct (map (\<lambda>r. (rn_job r, rn_at r)) (filter (\<lambda>r. rn_source r = ScheduledSource) (cron_runs db)))"
    using runs(1) by (rule distinct_filter_key) (auto intro: runs(2) simp: exclusive_def)
  show "distinct (map (\<lambda>r. sql_lower (jb_name r)) (filter live_job (cron_jobs db)))"
    using jobs(1) by (rule distinct_filter_key) (auto intro: jobs(2) simp: same_name_def)
  show "list_all job_ok (cron_jobs db)" "list_all (\<lambda>r. job_of db (rn_job r) \<noteq> None) (cron_runs db)"
    using assms by (auto simp: cron_inv_def jobs_inv_def runs_inv_def list_all_iff job_of_iff)
qed

lemma new_scheduler_good: "sched_good (new_scheduler empty_cron)" "sched_load (new_scheduler empty_cron) = 0"
  by (simp_all add: sched_good_def new_scheduler_def checks_ok_def count_active_runs_def) (simp add: empty_cron_def)

text \<open>
  C17: After any sequence of operations (ticks, checks, dispatch outcomes, changes by users and
  reports) no more runs are active than \<open>maxParallel\<close>, a job has at most one active run and at
  most one run per scheduled occurrence, live jobs have different names, a job is enabled
  exactly while scheduled, and at most four checks are in flight, each of another job.
\<close>

theorem scheduler_limits:
  fixes ev :: cron_env and db :: store and xs :: "cron_op list"
  defines "s \<equiv> cron_run_ops ev db xs (new_scheduler empty_cron)"
  shows "count_active_runs (sc_db s) \<le> ce_max_parallel ev
    \<and> distinct (map rn_job (filter active (cron_runs (sc_db s))))
    \<and> distinct (map (\<lambda>r. (rn_job r, rn_at r)) (filter (\<lambda>r. rn_source r = ScheduledSource) (cron_runs (sc_db s))))
    \<and> distinct (map (\<lambda>r. sql_lower (jb_name r)) (filter live_job (cron_jobs (sc_db s))))
    \<and> list_all job_ok (cron_jobs (sc_db s)) \<and> list_all (\<lambda>r. job_of (sc_db s) (rn_job r) \<noteq> None) (cron_runs (sc_db s))
    \<and> distinct (map (jb_id \<circ> fst) (sc_checks s)) \<and> length (sc_checks s) \<le> 4"
proof -
  have "sched_good s" "sched_load s \<le> ce_max_parallel ev"
    using run_ops_good [OF new_scheduler_good(1), of ev db xs] new_scheduler_good(2) by (simp_all add: s_def)
  then show ?thesis
    using cron_inv_lists [of "sc_db s"] by (auto simp: sched_good_def checks_ok_def max_concurrent_checks_def)
qed

section \<open>Settled runs\<close>

text \<open>
  C18: A run that has settled is final: after any history and one more operation of any kind it is
  the same run, up to the mark that its notification was recorded, or it has been pruned. A run
  never returns from running to claimed.
\<close>

theorem settled_run_final:
  fixes ev :: cron_env and db :: store and xs :: "cron_op list"
  defines "s \<equiv> cron_run_ops ev db xs (new_scheduler empty_cron)"
  assumes "run_of (sc_db s) k = Some r" and "run_of (sc_db (cron_exec ev db x s)) k = Some r'"
  shows "rn_job r' = rn_job r \<and> rn_at r' = rn_at r \<and> (rn_status r = Running \<longrightarrow> rn_status r' \<noteq> Claimed)
    \<and> (terminal r \<longrightarrow> r' = r \<or> r' = mark_recorded r)"
proof -
  have "run_move r r'"
    using exec_ok [of ev s db x] run_ops_good [OF new_scheduler_good(1), of ev db xs] assms(2,3) by (simp add: step_ok_def s_def)
  then show ?thesis by (auto simp: run_move_def terminal_def active_def)
qed

section \<open>Restart\<close>

text \<open>
  C19: Starting the scheduler leaves no active run: every run that was claimed or running becomes
  unknown with the restart error, every other run is as it was, its job shows the unknown
  outcome, and no job's schedule, count or state changes. Starting again changes nothing.
\<close>

theorem restart_settles_runs:
  assumes "sc_stopped s"
  shows "cron_runs (sc_db (start_scheduler now s)) = map (\<lambda>r. if active r then interrupt_run now r else r) (cron_runs (sc_db s))
    \<and> count_active_runs (sc_db (start_scheduler now s)) = 0
    \<and> map (\<lambda>j. (jb_id j, jb_schedule j, jb_fires j, jb_enabled j, jb_state j, jb_next j, jb_pending j)) (cron_jobs (sc_db (start_scheduler now s)))
        = map (\<lambda>j. (jb_id j, jb_schedule j, jb_fires j, jb_enabled j, jb_state j, jb_next j, jb_pending j)) (cron_jobs (sc_db s))
    \<and> (\<forall>j \<in> set (cron_jobs (sc_db (start_scheduler now s))).
         has_active_run (sc_db s) (jb_id j) \<longrightarrow> jb_last_status j = Some Unknown \<and> jb_last_error j = Some interrupted_error)
    \<and> start_scheduler later (start_scheduler now s) = start_scheduler now s"
proof -
  let ?s' = "start_scheduler now s"
  have runs: "cron_runs (sc_db ?s') = map (\<lambda>r. if active r then interrupt_run now r else r) (cron_runs (sc_db s))"
    using assms by (simp add: start_scheduler_def reconcile_interrupted_runs_def Let_def update_where_def)
  have "jb_last_status j = Some Unknown \<and> jb_last_error j = Some interrupted_error"
    if j: "j \<in> set (cron_jobs (sc_db ?s'))" and busy: "has_active_run (sc_db s) (jb_id j)" for j
  proof -
    obtain r where r: "r \<in> set (cron_runs (sc_db s))" "rn_job r = jb_id j" "active r"
      using busy active_run_of_None [of "sc_db s" "jb_id j"] by (auto simp: has_active_run_def)
    then have "list_ex (\<lambda>x. rn_job x = jb_id j \<and> rn_status x = Unknown \<and> rn_completed x = Some now)
        (update_where active (interrupt_run now) (cron_runs (sc_db s)))"
      unfolding list_ex_iff set_update_where by (intro bexI [of _ "interrupt_run now r"] image_eqI [of _ _ r]) auto
    with j assms show ?thesis
      by (auto simp: start_scheduler_def reconcile_interrupted_runs_def Let_def set_update_where)
  qed
  moreover have "count_active_runs (sc_db ?s') = 0"
    by (auto simp: count_active_runs_def runs filter_empty_conv active_def)
  moreover have "start_scheduler later ?s' = ?s'" using assms by (simp add: start_scheduler_def)
  moreover have "map f (cron_jobs (sc_db ?s')) = map f (cron_jobs (sc_db s))"
    if "\<And>j st e. f (j\<lparr>jb_last_status := st, jb_last_error := e, jb_updated := now\<rparr>) = f j" for f :: "job_row \<Rightarrow> string \<times> schedule \<times> int \<times> bool \<times> job_state \<times> int option \<times> pending_check option"
    using assms that by (simp add: start_scheduler_def reconcile_interrupted_runs_def Let_def update_where_def)
  ultimately show ?thesis using runs by (intro conjI ballI impI) simp_all
qed

section \<open>Pruning\<close>

lemma drop_descending:
  assumes "sorted_wrt (\<lambda>a b. f b < f a) ys"
  shows "r \<in> set (drop n ys) \<longleftrightarrow> r \<in> set ys \<and> n \<le> length (filter (\<lambda>x. (f r :: 'k :: linorder) < f x) ys)"
  using assms
proof (induction ys arbitrary: n)
  case (Cons y ys)
  show ?case
  proof (cases n)
    case (Suc m)
    have above: "x \<in> set ys \<Longrightarrow> f x < f y" for x using Cons.prems by simp
    have none: "filter (\<lambda>x. f y < f x) ys = []" by (rule filter_False) (meson above less_asym)
    have "r \<in> set ys \<Longrightarrow> r \<noteq> y" using above by auto
    then show ?thesis using Suc Cons.IH [of m] Cons.prems above none by (cases "r = y") auto
  qed simp
qed simp

lemma length_filter_sort: "length (filter p (rev (sort_key f xs))) = length (filter p xs)"
  by (simp add: rev_filter [symmetric] filter_sort)

lemma pruned_iff:
  assumes "cron_inv db" "r \<in> set (cron_runs db)"
  shows "rn_id r \<in> set (map rn_id (drop keep (runs_of db (rn_job r)))) \<longleftrightarrow> keep \<le> length (filter (newer r) (cron_runs db))"
proof -
  let ?own = "filter (\<lambda>x. rn_job x = rn_job r) (cron_runs db)" and ?f = "\<lambda>x. (rn_claimed x, rn_id x)"
  have ids: "distinct (map rn_id (cron_runs db))" using assms(1) by (simp add: cron_inv_def runs_inv_def unique_key_def)
  have same: "x = r" if "x \<in> set (cron_runs db)" "rn_id x = rn_id r" for x
    using ids that assms(2) by (simp add: distinct_map inj_on_def)
  have "distinct (map ?f ?own)" using distinct_map_filter [OF ids] by (auto simp: distinct_map inj_on_def)
  then have "distinct (map ?f (sort_key ?f ?own))" by (simp add: distinct_map)
  then have "sorted_wrt (<) (map ?f (sort_key ?f ?own))" by (simp add: strict_sorted_iff)
  then have "sorted_wrt (\<lambda>a b. ?f b < ?f a) (runs_of db (rn_job r))"
    by (simp add: runs_of_def newest_first_def sorted_wrt_map sorted_wrt_rev)
  from drop_descending [OF this, of r keep]
  have "r \<in> set (drop keep (runs_of db (rn_job r))) \<longleftrightarrow> keep \<le> length (filter (\<lambda>x. ?f r < ?f x) (runs_of db (rn_job r)))"
    using assms(2) by (simp add: runs_of_def newest_first_def)
  also have "length (filter (\<lambda>x. ?f r < ?f x) (runs_of db (rn_job r))) = length (filter (\<lambda>x. ?f r < ?f x) ?own)"
    unfolding runs_of_def newest_first_def by (rule length_filter_sort)
  also have "filter (\<lambda>x. ?f r < ?f x) ?own = filter (newer r) (cron_runs db)"
    unfolding filter_filter newer_def by (rule filter_cong) auto
  finally have "r \<in> set (drop keep (runs_of db (rn_job r))) \<longleftrightarrow> keep \<le> length (filter (newer r) (cron_runs db))" .
  moreover have "x = r" if x: "x \<in> set (drop keep (runs_of db (rn_job r)))" "rn_id x = rn_id r" for x
  proof -
    have "x \<in> set (runs_of db (rn_job r))" using x(1) by (rule in_set_dropD)
    then show ?thesis using same x(2) by (simp add: runs_of_def newest_first_def)
  qed
  ultimately show ?thesis by (metis (no_types, lifting) image_iff set_map)
qed

definition kept_run :: "nat \<Rightarrow> cron_db \<Rightarrow> run_row \<Rightarrow> bool" where
  "kept_run keep d r \<longleftrightarrow> rn_status r \<in> {Claimed, Running} \<or> rn_intent r \<noteq> None \<and> \<not> rn_recorded r \<or> length (filter (newer r) (cron_runs d)) < keep"

text \<open>
  C20: Pruning removes exactly the settled runs whose notification needs no more work and that
  are not among the newest \<open>keep\<close> of their job; every other run stays, in the same order.
\<close>

theorem prune_keeps_exactly:
  fixes ev :: cron_env and db :: store and xs :: "cron_op list"
  defines "d \<equiv> sc_db (cron_run_ops ev db xs (new_scheduler empty_cron))"
  shows "cron_runs (fst (prune_runs keep d)) = filter (kept_run keep d) (cron_runs d)
    \<and> snd (prune_runs keep d) = length (cron_runs d) - length (cron_runs (fst (prune_runs keep d)))"
proof -
  have inv: "cron_inv d" using run_ops_good [OF new_scheduler_good(1), of ev db xs] by (simp add: d_def sched_good_def)
  have "cron_runs (fst (prune_runs keep d)) = filter (kept_run keep d) (cron_runs d)"
  proof -
    have "(\<not> (prunable r \<and> rn_id r \<in> set (map rn_id (drop keep (runs_of d (rn_job r)))))) = kept_run keep d r"
      if "r \<in> set (cron_runs d)" for r
      unfolding pruned_iff [OF inv that] kept_run_def prunable_def terminal_def by (cases "rn_status r") auto
    then show ?thesis unfolding prune_runs_def Let_def by (simp cong: filter_cong)
  qed
  moreover have "snd (prune_runs keep d) = length (cron_runs d) - length (cron_runs (fst (prune_runs keep d)))"
    using sum_length_filter_compl [of "\<lambda>r. prunable r \<and> rn_id r \<in> set (map rn_id (drop keep (runs_of d (rn_job r))))" "cron_runs d"]
    by (simp add: prune_runs_def Let_def changes_def)
  ultimately show ?thesis by blast
qed

section \<open>Failing checks\<close>

fun failed :: "check_result \<Rightarrow> bool" where
  "failed (CheckOk _) = False"
| "failed (CheckFailed _) = True"

text \<open>The results of a job's checks recorded one after another, and which of them woke the agent with a failure.\<close>

fun feed_checks :: "job \<Rightarrow> int \<Rightarrow> check_result list \<Rightarrow> cron_db \<Rightarrow> cron_db \<times> bool list" where
  "feed_checks j now [] db = (db, [])"
| "feed_checks j now (r # rs) db = (case record_result j now r now db of
     (db1, pending) \<Rightarrow> (case feed_checks j now rs db1 of
       (db2, alerts) \<Rightarrow> (db2, (case pending of Some p \<Rightarrow> pc_kind p = FailureKind | None \<Rightarrow> False) # alerts)))"

text \<open>The length of the failing streak at the end of a list of results that follows \<open>n\<close> failures.\<close>

definition streak :: "nat \<Rightarrow> check_result list \<Rightarrow> nat" where
  "streak n rs = fold (\<lambda>r k. if failed r then Suc k else 0) rs n"

lemma job_of_upd_job: "(\<And>r. jb_id (f r) = jb_id r) \<Longrightarrow>
    job_of (upd_job j f db) k = (if k = j then map_option f (job_of db j) else job_of db k)"
  by (simp add: job_of_def cron_job_tbl.lookup_modify)

lemma record_result_row:
  assumes "job_of db (jb_id j) = Some row" and "jb_alerted row = (3 \<le> jb_failures row)" and "record_result j m r now db = (db', p)"
  shows "\<exists>row'. job_of db' (jb_id j) = Some row' \<and> jb_failures row' = streak (jb_failures row) [r] \<and> jb_alerted row' = (3 \<le> jb_failures row')
    \<and> (case p of Some x \<Rightarrow> pc_kind x = FailureKind | None \<Rightarrow> False) = (failed r \<and> streak (jb_failures row) [r] = 3)"
proof (cases r)
  case (CheckOk out)
  then show ?thesis
    using assms by (auto simp: record_result_def record_check_success_def job_of_upd_job streak_def)
next
  case (CheckFailed why)
  then show ?thesis
    using assms
    by (auto simp: record_result_def record_check_failure_def Let_def job_of_def cron_job_tbl.lookup_modify streak_def
        cron_check_failure_alert_threshold_def split: if_splits)
qed

lemma feed_checks_alerts:
  assumes "job_of db (jb_id j) = Some row" and "jb_alerted row = (3 \<le> jb_failures row)"
  shows "snd (feed_checks j now rs db) = map (\<lambda>i. failed (rs ! i) \<and> streak (jb_failures row) (take (Suc i) rs) = 3) [0..<length rs]"
  using assms
proof (induction rs arbitrary: db row)
  case (Cons r rs)
  obtain db1 p where r: "record_result j now r now db = (db1, p)" by fastforce
  obtain db2 as where rest: "feed_checks j now rs db1 = (db2, as)" by fastforce
  obtain row' where row': "job_of db1 (jb_id j) = Some row'" "jb_failures row' = streak (jb_failures row) [r]" "jb_alerted row' = (3 \<le> jb_failures row')"
      "(case p of Some x \<Rightarrow> pc_kind x = FailureKind | None \<Rightarrow> False) = (failed r \<and> streak (jb_failures row) [r] = 3)"
    using record_result_row [OF Cons.prems r] by blast
  have "as = map (\<lambda>i. failed (rs ! i) \<and> streak (jb_failures row) (r # take (Suc i) rs) = 3) [0..<length rs]"
    using Cons.IH [OF row'(1,3)] rest row'(2) by (simp add: streak_def)
  then have "as = map (\<lambda>i. failed ((r # rs) ! i) \<and> streak (jb_failures row) (take (Suc i) (r # rs)) = 3) (map Suc [0..<length rs])"
    by (simp add: o_def)
  then show ?case using row'(4) by (simp add: r rest map_Suc_upt upt_conv_Cons streak_def del: upt_Suc)
qed simp

text \<open>
  C22: A job whose checks fail wakes the agent once per failing streak, at its third failure:
  over any sequence of results for a job without recorded failures, the i-th result raises the
  alert exactly when it is a failure and the failures ending with it number three.
\<close>

theorem alert_once_per_streak:
  assumes "job_of db (jb_id j) = Some row" and "jb_failures row = 0" and "\<not> jb_alerted row"
  shows "snd (feed_checks j now rs db) = map (\<lambda>i. failed (rs ! i) \<and> streak 0 (take (Suc i) rs) = 3) [0..<length rs]"
  using feed_checks_alerts [OF assms(1)] assms(2,3) by simp

section \<open>Changing a completed job\<close>

text \<open>
  C25: Changing only the repeat count of a completed job does not bring it back: the update
  succeeds and shows the job as scheduled and enabled, but it has no next run, and at no later
  time is it among the due jobs.
\<close>

theorem repeat_update_strands_job:
  assumes "cron_inv db" and "resolve_job db selector False = Inr j" and "jb_state j = JobCompleted" and "jb_next j = None"
    and "pt_schedule p = Undef" and "pt_repeat p \<noteq> Undef" and "update_cron_job ev selector p now db = Inr (db', x)"
  shows "\<exists>row. job_of db' (jb_id j) = Some row \<and> jb_state row = Scheduled \<and> jb_enabled row \<and> jb_next row = None
    \<and> list_all (\<lambda>y. jb_id y \<noteq> jb_id j) (list_due_jobs db' later n)"
proof -
  obtain input where upd: "replace_job (jb_id j) input 0 True Scheduled now db = Inr (db', x)" and nxt: "ji_next input = None"
    using assms(2-7) by (auto simp: update_cron_job_def patched_schedule_def Let_def split: sum.splits if_splits prod.splits)
  then obtain r where r: "job_of db (jb_id j) = Some r" and db': "db' = upd_job (jb_id j) (replaced_row input 0 True Scheduled now) db"
    by (auto simp: replace_job_def Let_def split: option.splits if_splits)
  let ?row = "replaced_row input 0 True Scheduled now r"
  have row: "job_of db' (jb_id j) = Some ?row" by (simp add: db' job_of_upd_job r)
  have "quiet db db'" using replace_job_quiet [OF upd] by simp
  then have "cron_inv db'" using assms(1) unfolding quiet_def by blast
  then have uniq: "unique_key jb_id (cron_jobs db')" unfolding cron_inv_def jobs_inv_def by blast
  have "y = ?row" if "y \<in> set (cron_jobs db')" "jb_id y = jb_id j" for y
  proof -
    have "job_of db' (jb_id j) = Some y" using find_row_unique [OF uniq that(1)] unfolding that(2) job_of_def .
    then show ?thesis using row by simp
  qed
  then have "\<not> due later y" if "y \<in> set (cron_jobs db')" "jb_id y = jb_id j" for y
    using that nxt unfolding due_def by (metis option.simps(4) replaced_row_simps(6))
  moreover have "\<exists>z \<in> set (cron_jobs db'). due later z \<and> jb_id y = jb_id z" if "y \<in> set (list_due_jobs db' later n)" for y
    using that by (auto simp: list_due_jobs_def map_job_def job.truncate_def dest!: in_set_takeD)
  ultimately have "list_all (\<lambda>y. jb_id y \<noteq> jb_id j) (list_due_jobs db' later n)"
    unfolding list_all_iff by metis
  with row nxt show ?thesis by (intro exI [of _ ?row]) simp
qed

section \<open>Creation\<close>

text \<open>A one-shot request names its instant: its time carries an explicit UTC offset.\<close>

definition instant_request :: "js \<Rightarrow> bool" where
  "instant_request v \<longleftrightarrow> (\<not> is_at_request v) \<or> (case jget ''at'' v of JStr s \<Rightarrow> explicit_offset s | _ \<Rightarrow> False)"

lemma normalize_allow_past:
  assumes "normalize_cron_schedule cal v now dz ap mi = Inr n" and "instant_request v"
  shows "normalize_cron_schedule cal v now dz True mi = Inr n"
proof (cases "is_at_request v")
  case False
  then have "jget ''kind'' v \<noteq> JStr ''at''" by (simp add: is_at_request_def)
  then have "normalize_cron_schedule cal v now dz True mi = normalize_cron_schedule cal v now dz ap mi"
    unfolding normalize_cron_schedule_def by (simp only: if_False simp_thms)
  then show ?thesis using assms(1) by simp
next
  case True
  then obtain t where "jget ''at'' v = JStr t" "explicit_offset t" using assms(2) by (auto simp: instant_request_def split: js.splits)
  moreover have "iso_at cal (JStr t) z now True = Inr m" if "iso_at cal (JStr t) z now ap = Inr m" "explicit_offset t" for z m
    using that by (auto simp: iso_at_def split: if_splits option.splits)
  ultimately show ?thesis
    using assms(1) True by (auto simp: normalize_cron_schedule_def is_at_request_def split: if_splits sum.splits)
qed

lemma creation_params_allow_past:
  assumes "creation_params ev db origin p now ap k = Inr input" and "instant_request (pr_schedule p)"
  shows "creation_params ev db origin p now True k = Inr input"
  using assms normalize_allow_past [OF _ assms(2)]
  by (auto simp: creation_params_def split: option.splits if_splits sum.splits)

lemma creation_launch: "creation_params ev db origin p now ap k = Inr input \<Longrightarrow> launch_ok (ji_launch input) \<and> ji_id input = k"
  by (auto simp: creation_params_def cron_launch_from_request_def normalize_launch_ok split: option.splits if_splits sum.splits)

lemma map_new_job:
  assumes "launch_ok (ji_launch p)"
  shows "jb_launch (map_job (new_job p paused now)) = ji_launch p" "jb_created (map_job (new_job p paused now)) = now"
    "jb_id (map_job (new_job p paused now)) = ji_id p" "intent_mismatch p (map_job (new_job p paused now)) = None"
  using assms by (simp_all add: map_job_def new_job_def job.truncate_def normalize_launch_js intent_mismatch_def)


end
