(* ===== verification/CronExamples.thy ===== *)
theory CronExamples
  imports CronPromises
begin

text \<open>
  A concrete scheduler with one root session: the theorems about the scheduler at concrete
  histories, and the history in which a job with a repeat count of one fires twice.
\<close>

definition demo_cron_env :: cron_env where
  "demo_cron_env = \<lparr>ce_calendar = demo_calendar, ce_sha256 = id, ce_max_parallel = 2, ce_default_zone = ''UTC''\<rparr>"

definition demo_root :: session_row where
  "demo_root = \<lparr>s_id = ''r'', s_short_id = ''r'', s_session_file = None, s_cwd = ''/w'', s_repository_root = None, s_display_name = ''Root'',
     s_kind = Root, s_family_id = ''r'', s_parent = None, s_depth = 0, s_activity = Idle, s_streaming = False, s_lifecycle = Resident,
     s_actor_token = ''t'', s_generation = 1, s_pid = None, s_identity = None, s_launch = None, s_scratch = None, s_quiet_since = None,
     s_last_error = None, s_created_at = 0, s_updated_at = 0, s_last_activity_at = None, s_started_at = None, s_stopped_at = None, s_deleted_at = None\<rparr>"

definition demo_sessions :: store where
  "demo_sessions = empty_store\<lparr>sessions := [demo_root]\<rparr>"

lemma demo_session: "session demo_sessions ''r'' = Some demo_root"
  by (simp add: demo_sessions_def session_def find_row_def demo_root_def empty_store_def)

definition every_five_minutes :: js where
  "every_five_minutes = JObj [(''kind'', JStr ''every''), (''intervalSeconds'', jint 300)]"

definition demo_params :: "js \<Rightarrow> js \<Rightarrow> cron_params" where
  "demo_params reps check = \<lparr>pr_name = ''mail'', pr_prompt = ''Read it.'', pr_schedule = every_five_minutes, pr_timezone = None, pr_mode = None,
     pr_intent = None, pr_launch = JObj [], pr_repeat = reps, pr_check = check\<rparr>"

definition demo_check :: js where
  "demo_check = JObj [(''command'', JStr ''mailcheck'')]"

definition demo_patch :: "js \<Rightarrow> js \<Rightarrow> cron_patch" where
  "demo_patch reps check = \<lparr>pt_name = None, pt_prompt = None, pt_schedule = Undef, pt_timezone = None, pt_mode = None, pt_intent = None,
     pt_launch = JObj [], pt_repeat = reps, pt_check = check\<rparr>"

text \<open>The stored job, by its count, state, next run, last run, check and pending result.\<close>

definition demo_job :: "int \<Rightarrow> job_state \<Rightarrow> int option \<Rightarrow> cron_check option \<Rightarrow> job_row" where
  "demo_job fires st nxt check = \<lparr>jb_id = ''job'', jb_name = ''mail'', jb_prompt = ''Read it.'', jb_schedule = SEvery 300 ''UTC'',
     jb_display = ''every 300 seconds'', jb_timezone = ''UTC'', jb_mode = Fresh, jb_intent = None, jb_origin = Some ''r'', jb_cwd = ''/w'',
     jb_repo = None, jb_launch = \<lparr>ln_model = SettingsModel, ln_thinking = SettingsThinking\<rparr>, jb_repeat = Some 1, jb_fires = fires,
     jb_enabled = (st = Scheduled), jb_state = st, jb_next = nxt, jb_last_run = None, jb_last_status = None, jb_last_error = None,
     jb_created = 0, jb_updated = 0, jb_check = check, jb_failures = 0, jb_pending = None, jb_alerted = False\<rparr>"

lemma demo_normalized: "normalize_cron_schedule demo_calendar every_five_minutes 0 (JStr ''UTC'') False 300
   = Inr \<lparr>nz_schedule = SEvery 300 ''UTC'', nz_display = ''every 300 seconds'', nz_next = 300000, nz_recurring = True\<rparr>"
  by code_simp

lemma demo_launch: "cron_launch_from_request (JObj []) = \<lparr>ln_model = SettingsModel, ln_thinking = SettingsThinking\<rparr>"
  by code_simp

lemma demo_launch_stored: "normalize_cron_launch (launch_js \<lparr>ln_model = SettingsModel, ln_thinking = SettingsThinking\<rparr>)
  = \<lparr>ln_model = SettingsModel, ln_thinking = SettingsThinking\<rparr>"
  by (rule normalize_launch_js) (simp add: launch_ok_def)

lemma demo_params_ok: "creation_params demo_cron_env demo_sessions ''r'' (demo_params (JNum (Fin 1)) Null) 0 False ''job''
  = Inr \<lparr>ji_id = ''job'', ji_name = ''mail'', ji_prompt = ''Read it.'', ji_schedule = SEvery 300 ''UTC'', ji_display = ''every 300 seconds'',
      ji_timezone = ''UTC'', ji_mode = Fresh, ji_intent = None, ji_origin = Some ''r'', ji_cwd = ''/w'', ji_repo = None,
      ji_launch = \<lparr>ln_model = SettingsModel, ln_thinking = SettingsThinking\<rparr>, ji_repeat = Some 1, ji_next = Some 300000, ji_check = None\<rparr>"
  by (simp add: creation_params_def demo_params_def demo_session demo_root_def
      normalize_cron_check_def nullish_def demo_cron_env_def or_else_def interval_floor_def min_cron_interval_seconds_def demo_normalized
      require_repeat_def js_int_def demo_launch)

lemma demo_job_id: "valid_job_id ''job''" by code_simp

lemma created: "create_cron_job demo_cron_env demo_sessions id ''r'' (demo_params (JNum (Fin 1)) Null) 0 (Some ''job'') False [] empty_cron
   = Inr (\<lparr>cron_jobs = [demo_job 0 Scheduled (Some 300000) None], cron_runs = []\<rparr>, Some (map_job (demo_job 0 Scheduled (Some 300000) None)))"
  by (simp add: create_cron_job_def demo_job_id bind_def get_job_def job_of_def empty_cron_def or_else_def demo_params_ok create_job_def
      insert_job_def job_error_def name_taken_def new_job_def demo_job_def find_row_def add_row_def demo_session demo_launch_stored)

lemma demo_instant: "instant_request (pr_schedule (demo_params a b))"
  by (simp add: instant_request_def is_at_request_def demo_params_def every_five_minutes_def jget_def)


text \<open>The job run by hand, and the run finished.\<close>

definition demo_run :: "run_status \<Rightarrow> int option \<Rightarrow> run_row" where
  "demo_run st done = (new_run (manual_run_id demo_cron_env ''job'' 5 ''x'') (demo_job 0 Scheduled None None) ManualSource 5 5)\<lparr>rn_status := st, rn_completed := done\<rparr>"

definition demo_running :: sched where
  "demo_running = new_scheduler \<lparr>cron_jobs = [demo_job 0 Scheduled (Some 300000) None], cron_runs = [demo_run Claimed None]\<rparr>"

lemma restart_settles_runs_witness:
  "count_active_runs (sc_db (start_scheduler 7 demo_running)) = 0 \<and> count_active_runs (sc_db demo_running) = 1
   \<and> map rn_status (cron_runs (sc_db (start_scheduler 7 demo_running))) = [Unknown]"
proof -
  have stopped: "sc_stopped demo_running" by (simp add: demo_running_def new_scheduler_def)
  show ?thesis
    using restart_settles_runs [OF stopped, of 7 8]
    by (simp add: demo_running_def new_scheduler_def demo_run_def active_def count_active_runs_def)
qed

lemma demo_created: "cron_exec demo_cron_env demo_sessions (CreateOp ''r'' (demo_params (JNum (Fin 1)) Null) 0 (Some ''job'') False []) (new_scheduler empty_cron)
   = new_scheduler \<lparr>cron_jobs = [demo_job 0 Scheduled (Some 300000) None], cron_runs = []\<rparr>"
proof -
  have "sc_db (new_scheduler empty_cron) = empty_cron" by (simp add: new_scheduler_def)
  then show ?thesis by (simp add: cron_exec_def on_db_def created) (simp add: new_scheduler_def)
qed

definition demo_key :: string where
  "demo_key = manual_run_id demo_cron_env ''job'' 5 ''x''"

lemma demo_hand_run:
  "\<exists>s r. cron_exec demo_cron_env demo_sessions (RunNowOp ''job'' 5 ''x'') (new_scheduler \<lparr>cron_jobs = [demo_job 0 Scheduled (Some 300000) None], cron_runs = []\<rparr>) = s
     \<and> run_of (sc_db s) demo_key = Some r \<and> rn_status r = Claimed \<and> rn_job r = ''job''"
  by (simp add: cron_exec_def run_now_def new_scheduler_def count_active_runs_def demo_cron_env_def resolve_job_def demo_job_def live_job_def
      map_job_def job.truncate_def claim_manual_run_def job_of_def find_row_def active_run_of_def insert_run_def run_of_def active_def add_row_def
      launch_run_def new_run_def demo_key_def list_ex_iff modify_row_def update_where_def)

lemma settled_run_final_witness:
  "\<exists>r r'. run_of (sc_db (cron_run_ops demo_cron_env demo_sessions [CreateOp ''r'' (demo_params (JNum (Fin 1)) Null) 0 (Some ''job'') False [], RunNowOp ''job'' 5 ''x'']
       (new_scheduler empty_cron))) demo_key = Some r
     \<and> run_of (sc_db (cron_exec demo_cron_env demo_sessions (RecordedOp demo_key) (cron_run_ops demo_cron_env demo_sessions
       [CreateOp ''r'' (demo_params (JNum (Fin 1)) Null) 0 (Some ''job'') False [], RunNowOp ''job'' 5 ''x''] (new_scheduler empty_cron)))) demo_key = Some r'
     \<and> rn_job r' = rn_job r"
proof -
  let ?xs = "[CreateOp ''r'' (demo_params (JNum (Fin 1)) Null) 0 (Some ''job'') False [], RunNowOp ''job'' 5 ''x'']"
  let ?s = "cron_run_ops demo_cron_env demo_sessions ?xs (new_scheduler empty_cron)"
  obtain r where r: "run_of (sc_db ?s) demo_key = Some r"
    using demo_hand_run by (auto simp: cron_run_ops_def demo_created)
  have r': "run_of (sc_db (cron_exec demo_cron_env demo_sessions (RecordedOp demo_key) ?s)) demo_key = Some (mark_recorded r)"
    using r by (simp add: cron_exec_def notification_recorded_def run_of_def cron_run_tbl.lookup_modify)
  show ?thesis using settled_run_final [OF r r'] r r' by blast
qed

lemma alert_once_per_streak_witness:
  "snd (feed_checks (map_job (demo_job 0 Scheduled None None)) 9 [CheckFailed ''a'', CheckFailed ''b'', CheckFailed ''c'', CheckFailed ''d'', CheckOk [], CheckFailed ''e'']
     \<lparr>cron_jobs = [demo_job 0 Scheduled None None], cron_runs = []\<rparr>) = [False, False, True, False, False, False]"
proof -
  have row: "job_of \<lparr>cron_jobs = [demo_job 0 Scheduled None None], cron_runs = []\<rparr> (jb_id (map_job (demo_job 0 Scheduled None None)))
    = Some (demo_job 0 Scheduled None None)"
    by (simp add: job_of_def find_row_def demo_job_def map_job_def job.truncate_def)
  show ?thesis
    by (subst alert_once_per_streak [OF row]) (simp_all add: demo_job_def streak_def upt_rec)
qed

lemma repeat_update_strands_job_witness:
  "\<exists>db' x. update_cron_job demo_cron_env ''job'' (demo_patch (JNum (Fin 3)) Undef) 20 \<lparr>cron_jobs = [demo_job 1 JobCompleted None None], cron_runs = []\<rparr> = Inr (db', x)
     \<and> list_all (\<lambda>y. jb_id y \<noteq> ''job'') (list_due_jobs db' 1000000 64)"
proof -
  let ?db = "\<lparr>cron_jobs = [demo_job 1 JobCompleted None None], cron_runs = []\<rparr>" and ?j = "map_job (demo_job 1 JobCompleted None None)"
  have j: "jb_id ?j = ''job''" "jb_state ?j = JobCompleted" "jb_next ?j = None" "jb_check ?j = None" "jb_schedule ?j = SEvery 300 ''UTC''"
    by (simp_all add: map_job_def job.truncate_def demo_job_def)
  have inv: "cron_inv ?db"
    by (simp add: cron_inv_def jobs_inv_def runs_inv_def unique_key_def job_ok_def demo_job_def launch_ok_def)
  have res: "resolve_job ?db ''job'' False = Inr ?j"
    by (simp add: resolve_job_def demo_job_def live_job_def)
  have p: "pt_schedule (demo_patch (JNum (Fin 3)) Undef) = Undef" "pt_repeat (demo_patch (JNum (Fin 3)) Undef) \<noteq> Undef"
    by (simp_all add: demo_patch_def)
  have "\<exists>input. update_cron_job demo_cron_env ''job'' (demo_patch (JNum (Fin 3)) Undef) 20 ?db = replace_job ''job'' input 0 True Scheduled 20 ?db
      \<and> ji_repeat input = Some 3"
    by (simp add: update_cron_job_def res demo_patch_def patched_schedule_def too_short_def min_cron_interval_seconds_def j require_repeat_def
        nullish_def js_int_def Let_def)
      (intro exI conjI, rule refl, simp)
  moreover have "ok (replace_job ''job'' input 0 True Scheduled 20 ?db)" if "ji_repeat input = Some 3" for input
    using that by (simp add: replace_job_def job_of_def find_row_def demo_job_def live_job_def job_error_def name_taken_def replaced_row_def Let_def)
  ultimately have "ok (update_cron_job demo_cron_env ''job'' (demo_patch (JNum (Fin 3)) Undef) 20 ?db)" by metis
  then obtain db' x where upd: "update_cron_job demo_cron_env ''job'' (demo_patch (JNum (Fin 3)) Undef) 20 ?db = Inr (db', x)"
    by (auto simp: ok_def split: sum.splits)
  show ?thesis using repeat_update_strands_job [OF inv res j(2,3) p upd, of 1000000 64] upd j(1) by auto
qed

end
