(* ===== verification/InputImages.thy ===== *)
theory InputImages
  imports Prelude "HOL-Library.Word"
begin

text \<open>
  Images attached to user input (src/input-images.mjs): the base64 test and the canonical
  encoding, the dimensions of PNG and JPEG containers, and the limits. A byte is an
  \<open>8 word\<close>; the JPEG scan walks the bytes that are left from the current offset.
\<close>

section \<open>Base64\<close>

definition base64_char :: "char \<Rightarrow> bool" where
  "base64_char c \<longleftrightarrow> (let n = of_char c :: nat in
     (65 \<le> n \<and> n \<le> 90) \<or> (97 \<le> n \<and> n \<le> 122) \<or> (48 \<le> n \<and> n \<le> 57) \<or> n = 43 \<or> n = 47)"

definition base64_padding :: "string \<Rightarrow> nat" where
  "base64_padding s = (if suffix ''=='' s then 2 else if suffix ''='' s then 1 else 0)"

definition is_base64 :: "string \<Rightarrow> bool" where
  "is_base64 s \<longleftrightarrow> length s mod 4 = 0 \<and> list_all base64_char (take (length s - base64_padding s) s)"

text \<open>Node's encoder, and its decoder on text that \<open>is_base64\<close> accepts.\<close>

definition b64_char :: "nat \<Rightarrow> char" where
  "b64_char i = (if i < 26 then char_of (65 + i) else if i < 52 then char_of (71 + i) else if i < 62 then char_of (i - 4)
     else if i = 62 then CHR ''+'' else CHR ''/'')"

definition b64_val :: "char \<Rightarrow> nat" where
  "b64_val c = (let n = of_char c in if 65 \<le> n \<and> n \<le> 90 then n - 65 else if 97 \<le> n \<and> n \<le> 122 then n - 71
     else if 48 \<le> n \<and> n \<le> 57 then n + 4 else if n = 43 then 62 else 63)"

fun base64_encode :: "8 word list \<Rightarrow> string" where
  "base64_encode [] = []"
| "base64_encode [x] = [b64_char (unat x div 4), b64_char (unat x mod 4 * 16), CHR ''='', CHR ''='']"
| "base64_encode [x, y] = [b64_char (unat x div 4), b64_char (unat x mod 4 * 16 + unat y div 16), b64_char (unat y mod 16 * 4), CHR ''='']"
| "base64_encode (x # y # z # bs) = [b64_char (unat x div 4), b64_char (unat x mod 4 * 16 + unat y div 16),
     b64_char (unat y mod 16 * 4 + unat z div 64), b64_char (unat z mod 64)] @ base64_encode bs"

fun base64_decode :: "string \<Rightarrow> 8 word list" where
  "base64_decode (a # b # c # d # s) = (let
      x = of_nat (b64_val a * 4 + b64_val b div 16);
      y = of_nat (b64_val b mod 16 * 16 + b64_val c div 4);
      z = of_nat (b64_val c mod 4 * 64 + b64_val d)
    in if c = CHR ''='' then [x] else if d = CHR ''='' then [x, y] else [x, y, z] @ base64_decode s)"
| "base64_decode _ = []"

definition canonical_base64 :: "string \<Rightarrow> bool" where
  "canonical_base64 s \<longleftrightarrow> is_base64 s \<and> base64_encode (base64_decode s) = s"

section \<open>Containers\<close>

fun be :: "8 word list \<Rightarrow> nat" where
  "be [] = 0"
| "be (x # xs) = unat x * 256 ^ length xs + be xs"

definition be16 :: "nat \<Rightarrow> 8 word list \<Rightarrow> nat" where
  "be16 i bs = be (take 2 (drop i bs))"

definition be32 :: "nat \<Rightarrow> 8 word list \<Rightarrow> nat" where
  "be32 i bs = be (take 4 (drop i bs))"

text \<open>Width, height, and the size once decoded when the container tells it.\<close>

record dimensions =
  dm_width :: nat
  dm_height :: nat
  dm_decoded :: "nat option"

definition png_signature :: "8 word list" where
  "png_signature = [0x89, 0x50, 0x4e, 0x47, 0x0d, 0x0a, 0x1a, 0x0a]"

definition png_ihdr :: "8 word list" where
  "png_ihdr = [0x49, 0x48, 0x44, 0x52]"

definition png_samples :: "nat \<Rightarrow> nat option" where
  "png_samples color = map_of [(0, 1), (2, 3), (3, 1), (4, 2), (6, 4)] color"

definition png_depths :: "nat \<Rightarrow> nat list" where
  "png_depths color = (case map_of [(0, [1, 2, 4, 8, 16]), (2, [8, 16]), (3, [1, 2, 4, 8]), (4, [8, 16]), (6, [8, 16])] color of
     Some ds \<Rightarrow> ds | None \<Rightarrow> [])"

definition png_dimensions :: "8 word list \<Rightarrow> dimensions option" where
  "png_dimensions bs =
     (if length bs < 26 \<or> take 8 bs \<noteq> png_signature \<or> take 4 (drop 12 bs) \<noteq> png_ihdr then None
      else (let color = unat (bs ! 25); depth = unat (bs ! 24); w = be32 16 bs; h = be32 20 bs in
        case png_samples color of
          None \<Rightarrow> None
        | Some samples \<Rightarrow> if depth \<notin> set (png_depths color) then None
            else Some \<lparr>dm_width = w, dm_height = h, dm_decoded = Some (((w * samples * depth + 7) div 8 + 1) * h)\<rparr>))"

definition start_of_frame :: "8 word \<Rightarrow> bool" where
  "start_of_frame m \<longleftrightarrow> m \<in> {0xc0, 0xc1, 0xc2, 0xc3, 0xc5, 0xc6, 0xc7, 0xc9, 0xca, 0xcb, 0xcd, 0xce, 0xcf}"

lemma after_marker: "dropWhile p rest = m # body \<Longrightarrow> length body < length rest"
  using length_dropWhile_le [of p rest] by simp

text \<open>
  The scan from the current offset. At the end of the bytes the marker is \<open>undefined\<close>, which
  ends the loop with the test of the remaining length.
\<close>

function (sequential) jpeg_scan :: "8 word list \<Rightarrow> dimensions option" where
  "jpeg_scan rest =
     (if length rest \<le> 3 then None
      else if hd rest \<noteq> 0xff then jpeg_scan (tl rest)
      else (case dropWhile (\<lambda>b. b = 0xff) rest of
          [] \<Rightarrow> None
        | m # body \<Rightarrow>
            if m = 0xd9 \<or> m = 0xda \<or> length body \<le> 1 then None
            else if m = 0x01 \<or> 0xd0 \<le> m \<and> m \<le> 0xd7 then jpeg_scan body
            else (let n = be16 0 body in
              if n < 2 \<or> length body < n then None
              else if start_of_frame m \<and> 7 \<le> n then Some \<lparr>dm_width = be16 5 body, dm_height = be16 3 body, dm_decoded = None\<rparr>
              else jpeg_scan (drop n body))))"
  by pat_completeness auto

termination
  by (relation "measure length") (auto dest: after_marker)

definition jpeg_dimensions :: "8 word list \<Rightarrow> dimensions option" where
  "jpeg_dimensions bs = (case bs of b0 # b1 # rest \<Rightarrow> if length bs < 4 \<or> b0 \<noteq> 0xff \<or> b1 \<noteq> 0xd8 then None else jpeg_scan rest | _ \<Rightarrow> None)"

datatype image_type = Png | Jpeg

definition mime_name :: "image_type \<Rightarrow> string" where
  "mime_name t = (case t of Png \<Rightarrow> ''image/png'' | Jpeg \<Rightarrow> ''image/jpeg'')"

definition mime_type :: "string \<Rightarrow> image_type option" where
  "mime_type s = (if s = ''image/png'' then Some Png else if s = ''image/jpeg'' then Some Jpeg else None)"

definition image_dimensions :: "8 word list \<Rightarrow> image_type \<Rightarrow> dimensions option" where
  "image_dimensions bs t = (case t of Png \<Rightarrow> png_dimensions bs | Jpeg \<Rightarrow> jpeg_dimensions bs)"

section \<open>Limits\<close>

definition max_input_image_count :: nat where
  "max_input_image_count = 4"

definition max_input_image_bytes :: nat where
  "max_input_image_bytes = 3 * 1024 * 1024"

definition max_input_image_dimension :: nat where
  "max_input_image_dimension = 8192"

definition max_input_image_pixels :: nat where
  "max_input_image_pixels = 16000000"

definition max_decoded_image_bytes :: nat where
  "max_decoded_image_bytes = 64 * 1024 * 1024"

definition max_base64_characters :: nat where
  "max_base64_characters = 4 * ((max_input_image_bytes + 2) div 3)"

definition dimensions_ok :: "dimensions \<Rightarrow> bool" where
  "dimensions_ok d \<longleftrightarrow> 1 \<le> dm_width d \<and> 1 \<le> dm_height d \<and> dm_width d \<le> max_input_image_dimension
     \<and> dm_height d \<le> max_input_image_dimension \<and> dm_width d * dm_height d \<le> max_input_image_pixels
     \<and> (case dm_decoded d of Some n \<Rightarrow> n | None \<Rightarrow> dm_width d * dm_height d * 4) \<le> max_decoded_image_bytes"

record input_image =
  im_data :: string
  im_type :: image_type
  im_meta :: "(string \<times> nat) option"   \<comment> \<open>name and size, with \<open>allowMetadata\<close>\<close>

definition image_name :: "js \<Rightarrow> nat \<Rightarrow> string" where
  "image_name v index = (case v of
      JStr s \<Rightarrow> if js_trim s \<noteq> [] then take 256 (js_trim s) else ''Pasted image '' @ show_nat (index + 1)
    | _ \<Rightarrow> ''Pasted image '' @ show_nat (index + 1))"

definition at_image :: "nat \<Rightarrow> string \<Rightarrow> 'a result" where
  "at_image index what = Inl (Thrown (''images['' @ show_nat index @ '']'' @ what))"

definition image_mime :: "js \<Rightarrow> image_type option" where
  "image_mime v = (case v of JStr s \<Rightarrow> mime_type s | _ \<Rightarrow> None)"

text \<open>One item of the array: the image and its size in bytes.\<close>

definition normalize_image :: "bool \<Rightarrow> nat \<Rightarrow> nat \<Rightarrow> js \<Rightarrow> (input_image \<times> nat) result" where
  "normalize_image meta index sofar raw = (case raw of
      JObj ps \<Rightarrow>
        (case find (\<lambda>p. fst p \<notin> set ([''type'', ''data'', ''mimeType''] @ (if meta then [''name'', ''size''] else []))) ps of
          Some p \<Rightarrow> at_image index (''.'' @ fst p @ '' is not supported'')
        | None \<Rightarrow>
          if jget ''type'' raw \<noteq> JStr ''image'' then at_image index ''.type must be image''
          else (case image_mime (jget ''mimeType'' raw) of
              None \<Rightarrow> at_image index ''.mimeType must be image/png or image/jpeg''
            | Some t \<Rightarrow> (case jget ''data'' raw of
                JStr d \<Rightarrow>
                  if d = [] \<or> length d > max_base64_characters \<or> \<not> is_base64 d then at_image index ''.data must be bounded canonical base64''
                  else (let bytes = base64_decode d in
                    if base64_encode bytes \<noteq> d then at_image index ''.data must be canonical base64''
                    else if sofar + length bytes > max_input_image_bytes then Inl (Thrown ''images exceed the 3145728 byte total limit'')
                    else (case image_dimensions bytes t of
                        None \<Rightarrow> at_image index ('' has an invalid or oversized '' @ mime_name t @ '' container'')
                      | Some dims \<Rightarrow> if \<not> dimensions_ok dims then at_image index ('' has an invalid or oversized '' @ mime_name t @ '' container'')
                          else Inr (\<lparr>im_data = d, im_type = t, im_meta = (if meta then Some (image_name (jget ''name'' raw) index, length bytes) else None)\<rparr>,
                            length bytes)))
              | _ \<Rightarrow> at_image index ''.data must be bounded canonical base64'')))
    | _ \<Rightarrow> at_image index '' must be an object'')"

fun normalize_images_from :: "bool \<Rightarrow> nat \<Rightarrow> nat \<Rightarrow> js list \<Rightarrow> input_image list result" where
  "normalize_images_from meta index sofar [] = Inr []"
| "normalize_images_from meta index sofar (raw # raws) = (case normalize_image meta index sofar raw of
      Inl e \<Rightarrow> Inl e
    | Inr (im, n) \<Rightarrow> (case normalize_images_from meta (index + 1) (sofar + n) raws of
        Inl e \<Rightarrow> Inl e
      | Inr ims \<Rightarrow> Inr (im # ims)))"

definition normalize_input_images :: "bool \<Rightarrow> js \<Rightarrow> input_image list result" where
  "normalize_input_images meta v = (if nullish v then Inr [] else (case v of
      JArr raws \<Rightarrow> if length raws > max_input_image_count then Inl (Thrown ''images must be an array of at most 4 items'')
        else normalize_images_from meta 0 0 raws
    | _ \<Rightarrow> Inl (Thrown ''images must be an array of at most 4 items'')))"

definition image_js :: "input_image \<Rightarrow> js" where
  "image_js im = JObj ([(''type'', JStr ''image''), (''data'', JStr (im_data im)), (''mimeType'', JStr (mime_name (im_type im)))]
     @ (case im_meta im of None \<Rightarrow> [] | Some (name, n) \<Rightarrow> [(''name'', JStr name), (''size'', jint (int n))]))"

section \<open>Lemmas\<close>

lemma b64_val_char: "i < 64 \<Longrightarrow> b64_val (b64_char i) = i"
  by (auto simp: b64_val_def b64_char_def Let_def)

lemma b64_char_ok: "i < 64 \<Longrightarrow> base64_char (b64_char i)"
  by (auto simp: base64_char_def b64_char_def Let_def)

lemma base64_char_not_pad: "base64_char c \<Longrightarrow> c \<noteq> CHR ''=''"
  by (auto simp: base64_char_def)

lemma b64_char_not_pad: "i < 64 \<Longrightarrow> b64_char i \<noteq> CHR ''=''"
  by (rule base64_char_not_pad) (rule b64_char_ok)

lemma byte: "unat (x :: 8 word) < 256"
  using unsigned_less [of x, where ?'a = nat] by simp

lemma six_bits: "unat (x :: 8 word) div 4 < 64" "unat x mod 4 * 16 + unat (y :: 8 word) div 16 < 64" "unat x mod 4 * 16 < 64"
  "unat y mod 16 * 4 + unat (z :: 8 word) div 64 < 64" "unat y mod 16 * 4 < 64" "unat z mod 64 < 64"
  using byte [of x] byte [of y] byte [of z] by auto

lemmas b64_group = b64_val_char [OF six_bits(1)] b64_val_char [OF six_bits(2)] b64_val_char [OF six_bits(3)]
  b64_val_char [OF six_bits(4)] b64_val_char [OF six_bits(5)] b64_val_char [OF six_bits(6)]
  b64_char_not_pad [OF six_bits(4)] b64_char_not_pad [OF six_bits(5)] b64_char_not_pad [OF six_bits(6)]

lemma word_unat_back: "of_nat (unat (x :: 8 word)) = x"
  by simp

lemma group_bytes:
  fixes x y z :: nat
  assumes "y < 256" "z < 256"
  shows "x div 4 * 4 + (x mod 4 * 16 + y div 16) div 16 = x" "x div 4 * 4 + (x mod 4 * 16) div 16 = x"
    "(x mod 4 * 16 + y div 16) mod 16 * 16 + (y mod 16 * 4 + z div 64) div 4 = y"
    "(x mod 4 * 16 + y div 16) mod 16 * 16 + (y mod 16 * 4) div 4 = y"
    "(y mod 16 * 4 + z div 64) mod 4 * 64 + z mod 64 = z"
proof -
  have "y div 16 < 16" "z div 64 < 4" using assms by auto
  then have "(x mod 4 * 16 + y div 16) div 16 = x mod 4" "(x mod 4 * 16 + y div 16) mod 16 = y div 16"
    "(y mod 16 * 4 + z div 64) div 4 = y mod 16" "(y mod 16 * 4 + z div 64) mod 4 = z div 64"
    by simp_all
  then show "x div 4 * 4 + (x mod 4 * 16 + y div 16) div 16 = x" "x div 4 * 4 + (x mod 4 * 16) div 16 = x"
    "(x mod 4 * 16 + y div 16) mod 16 * 16 + (y mod 16 * 4 + z div 64) div 4 = y"
    "(x mod 4 * 16 + y div 16) mod 16 * 16 + (y mod 16 * 4) div 4 = y"
    "(y mod 16 * 4 + z div 64) mod 4 * 64 + z mod 64 = z"
    by simp_all
qed

lemma decode_encode: "base64_decode (base64_encode bs) = bs"
proof (induction bs rule: base64_encode.induct)
  case (2 x)
  show ?case by (simp add: b64_group Let_def)
next
  case (3 x y)
  show ?case
    by (simp only: base64_encode.simps base64_decode.simps Let_def b64_group simp_thms if_True if_False group_bytes [OF byte byte] word_unat_back)
next
  case (4 x y z bs)
  show ?case
    by (simp only: base64_encode.simps base64_decode.simps Let_def b64_group if_False group_bytes [OF byte byte] append.simps 4 word_unat_back)
qed simp

declare jpeg_scan.simps [simp del]

definition pad_text :: "nat \<Rightarrow> string" where
  "pad_text k = replicate k (CHR ''='')"

lemma encode_shape: "\<exists>body k. base64_encode bs = body @ pad_text k \<and> list_all base64_char body \<and> k \<le> 2 \<and> (length body + k) mod 4 = 0"
proof (induction bs rule: base64_encode.induct)
  case 1
  show ?case by (intro exI [of _ "[]"] exI [of _ 0]) (simp add: pad_text_def)
next
  case (2 x)
  show ?case by (intro exI [of _ "[b64_char (unat x div 4), b64_char (unat x mod 4 * 16)]"] exI [of _ 2])
      (simp add: b64_char_ok six_bits pad_text_def numeral_2_eq_2)
next
  case (3 x y)
  show ?case
    by (intro exI [of _ "[b64_char (unat x div 4), b64_char (unat x mod 4 * 16 + unat y div 16), b64_char (unat y mod 16 * 4)]"] exI [of _ 1])
      (simp add: b64_char_ok six_bits pad_text_def)
next
  case (4 x y z bs)
  let ?q = "[b64_char (unat x div 4), b64_char (unat x mod 4 * 16 + unat y div 16),
        b64_char (unat y mod 16 * 4 + unat z div 64), b64_char (unat z mod 64)]"
  from 4 obtain body k where parts: "base64_encode bs = body @ pad_text k" "list_all base64_char body" "k \<le> 2" "(length body + k) mod 4 = 0"
    by (elim exE conjE) (rule that)
  have "length (?q @ body) + k = 4 + (length body + k)" by simp
  then have "(length (?q @ body) + k) mod 4 = 0" using parts(4) by (metis mod_add_self1)
  moreover have "list_all base64_char (?q @ body)" using parts(2) by (simp add: b64_char_ok six_bits)
  moreover have "base64_encode (x # y # z # bs) = (?q @ body) @ pad_text k" using parts(1) by simp
  ultimately show ?case using parts(3) by (intro exI [of _ "?q @ body"] exI [of _ k] conjI)
qed

lemma base64_last: "list_all base64_char body \<Longrightarrow> body = zs @ [c] \<Longrightarrow> c \<noteq> CHR ''=''"
  by (auto simp: base64_char_def)

lemma padding_of_body: "list_all base64_char body \<Longrightarrow> k \<le> 2 \<Longrightarrow> base64_padding (body @ pad_text k) = k"
proof -
  assume body: "list_all base64_char body" and k: "k \<le> 2"
  have no: "\<not> suffix ''='' body" using base64_last [OF body] by (auto simp: suffix_def)
  then have no2: "\<not> suffix ''=='' body" by (metis append_Cons append_Nil suffix_appendD)
  consider "k = 0" | "k = Suc 0" | "k = Suc (Suc 0)" using k by linarith
  then show "base64_padding (body @ pad_text k) = k"
  proof cases
    case 2
    have "suffix ''=='' (body @ ''='') \<longleftrightarrow> suffix ''='' body"
      using same_suffix_suffix [of "''=''" "''=''" body] by simp
    with no 2 show ?thesis by (simp add: base64_padding_def pad_text_def suffix_def)
  qed (use no no2 in \<open>simp_all add: base64_padding_def pad_text_def suffix_def\<close>)
qed

lemma encode_is_base64: "is_base64 (base64_encode bs)"
proof -
  obtain body k where e: "base64_encode bs = body @ pad_text k" "list_all base64_char body" "k \<le> 2" "(length body + k) mod 4 = 0"
    using encode_shape [of bs] by (elim exE conjE) (rule that)
  have "length (pad_text k) = k" by (simp add: pad_text_def)
  then show ?thesis using e(2,4) padding_of_body [OF e(2,3)] by (simp add: is_base64_def e(1))
qed

text \<open>
  The two tests on image data, the linear base64 test and the comparison with the decoded
  bytes encoded again, accept exactly the canonical encodings of byte strings, and decoding gives
  the encoded bytes back.
\<close>

theorem canonical_base64_iff:
  "(canonical_base64 s \<longleftrightarrow> (\<exists>bs. s = base64_encode bs)) \<and> base64_decode (base64_encode bytes) = bytes"
  unfolding canonical_base64_def using encode_is_base64 decode_encode by metis

section \<open>Accepted images\<close>

definition image_ok :: "input_image \<Rightarrow> bool" where
  "image_ok im \<longleftrightarrow> canonical_base64 (im_data im) \<and> length (im_data im) \<le> max_base64_characters
     \<and> (case image_dimensions (base64_decode (im_data im)) (im_type im) of Some d \<Rightarrow> dimensions_ok d | None \<Rightarrow> False)"

definition image_bytes :: "input_image list \<Rightarrow> nat" where
  "image_bytes ims = sum_list (map (\<lambda>im. length (base64_decode (im_data im))) ims)"

lemma at_image_error [simp]: "at_image i w \<noteq> Inr x"
  by (simp add: at_image_def)

lemma normalize_imageD:
  assumes "normalize_image meta index sofar raw = Inr (im, n)"
  shows "image_ok im \<and> n = length (base64_decode (im_data im)) \<and> sofar + n \<le> max_input_image_bytes \<and> im_data im \<noteq> [] \<and> (im_meta im = None) = (\<not> meta)"
proof -
  obtain ps where raw: "raw = JObj ps" using assms by (cases raw) (simp_all add: normalize_image_def)
  obtain t where t: "image_mime (jget ''mimeType'' raw) = Some t"
    using assms by (auto simp: raw normalize_image_def split: option.splits if_splits)
  obtain d where d: "jget ''data'' raw = JStr d"
    using assms t by (cases "jget ''data'' raw") (auto simp: raw normalize_image_def split: option.splits if_splits)
  show ?thesis
    using assms t d
    by (auto simp: raw normalize_image_def Let_def image_ok_def canonical_base64_def split: option.splits if_splits)
qed

lemma normalize_images_fromD:
  "normalize_images_from meta index sofar raws = Inr ims \<Longrightarrow>
   length ims = length raws \<and> list_all image_ok ims \<and> (raws \<noteq> [] \<longrightarrow> sofar + image_bytes ims \<le> max_input_image_bytes)"
proof (induction raws arbitrary: index sofar ims)
  case (Cons raw raws)
  then obtain im n rest where im: "normalize_image meta index sofar raw = Inr (im, n)"
    and rest: "normalize_images_from meta (index + 1) (sofar + n) raws = Inr rest" and ims: "ims = im # rest"
    by (auto split: sum.splits prod.splits)
  show ?case
    using Cons.IH [OF rest] normalize_imageD [OF im] rest by (cases raws) (auto simp: ims image_bytes_def)
qed (simp add: image_bytes_def)

text \<open>
  Accepted images are at most four, together at most 3 MiB of decoded bytes, each canonical
  base64 of a PNG or JPEG container whose dimensions, pixel count and decoded size are within the
  limits.
\<close>

theorem accepted_images_within_limits:
  assumes "normalize_input_images meta v = Inr ims"
  shows "length ims \<le> 4 \<and> image_bytes ims \<le> 3145728 \<and> list_all image_ok ims"
proof (cases "nullish v")
  case True
  then show ?thesis using assms by (simp add: normalize_input_images_def image_bytes_def)
next
  case False
  then obtain raws where raws: "length raws \<le> 4" "normalize_images_from meta 0 0 raws = Inr ims"
    using assms by (auto simp: normalize_input_images_def max_input_image_count_def not_less split: js.splits if_splits)
  from normalize_images_fromD [OF this(2)] raws(1) show ?thesis
    by (cases "raws = []") (simp_all add: max_input_image_bytes_def image_bytes_def)
qed

lemma map_of_image_js: "im_meta im = None \<Longrightarrow>
   jget ''type'' (image_js im) = JStr ''image'' \<and> jget ''data'' (image_js im) = JStr (im_data im) \<and> jget ''mimeType'' (image_js im) = JStr (mime_name (im_type im))
   \<and> image_js im = JObj [(''type'', JStr ''image''), (''data'', JStr (im_data im)), (''mimeType'', JStr (mime_name (im_type im)))]"
  by (simp add: image_js_def jget_def)

lemma image_mime_name [simp]: "image_mime (JStr (mime_name t)) = Some t"
  by (cases t) (simp_all add: image_mime_def mime_type_def mime_name_def)

lemma normalize_image_again:
  assumes "image_ok im" "im_data im \<noteq> []" "im_meta im = None" "sofar + length (base64_decode (im_data im)) \<le> max_input_image_bytes"
  shows "normalize_image False index sofar (image_js im) = Inr (im, length (base64_decode (im_data im)))"
proof -
  note js = map_of_image_js [OF assms(3)]
  have "find (\<lambda>p. fst p \<notin> set [''type'', ''data'', ''mimeType''])
      [(''type'', JStr ''image''), (''data'', JStr (im_data im)), (''mimeType'', JStr (mime_name (im_type im)))] = None"
    by simp
  then show ?thesis
    using assms js by (cases im) (auto simp: normalize_image_def image_ok_def canonical_base64_def Let_def not_less split: option.splits)
qed

lemma normalize_images_again:
  "normalize_images_from False index sofar raws = Inr ims \<Longrightarrow> normalize_images_from False index sofar (map image_js ims) = Inr ims"
proof (induction raws arbitrary: index sofar ims)
  case (Cons raw raws)
  then obtain im n rest where im: "normalize_image False index sofar raw = Inr (im, n)"
    and rest: "normalize_images_from False (index + 1) (sofar + n) raws = Inr rest" and ims: "ims = im # rest"
    by (auto split: sum.splits prod.splits)
  from normalize_imageD [OF im] have n: "normalize_image False index sofar (image_js im) = Inr (im, n)"
    using normalize_image_again [of im sofar index] by auto
  show ?case using Cons.IH [OF rest] n by (simp add: ims)
qed simp

text \<open>
  Normalised images are accepted again and stay as they are: the stored JSON of an input's
  images, read back for a retry, gives the same images.
\<close>

theorem normalized_images_roundtrip:
  assumes "normalize_input_images False v = Inr ims"
  shows "normalize_input_images False (JArr (map image_js ims)) = Inr ims"
proof (cases "nullish v")
  case True
  then show ?thesis using assms by (simp add: normalize_input_images_def nullish_def)
next
  case False
  then obtain raws where raws: "length raws \<le> 4" "normalize_images_from False 0 0 raws = Inr ims"
    using assms by (auto simp: normalize_input_images_def max_input_image_count_def not_less split: js.splits if_splits)
  have "length ims \<le> 4" using normalize_images_fromD [OF raws(2)] raws(1) by simp
  then show ?thesis
    using normalize_images_again [OF raws(2)] by (simp add: normalize_input_images_def nullish_def max_input_image_count_def)
qed

definition tiny_png :: "8 word list" where
  "tiny_png = png_signature @ [0, 0, 0, 13] @ png_ihdr @ [0, 0, 0, 1, 0, 0, 0, 1, 8, 2]"

definition tiny_image :: input_image where
  "tiny_image = \<lparr>im_data = base64_encode tiny_png, im_type = Png, im_meta = None\<rparr>"

lemma length_encode: "length (base64_encode bs) = 4 * ((length bs + 2) div 3)"
proof (induction bs rule: base64_encode.induct)
  case (4 x y z bs)
  have "(length (x # y # z # bs) + 2) div 3 = Suc ((length bs + 2) div 3)"
    using div_add_self2 [of 3 "length bs + 2"] by simp
  then have "4 * ((length (x # y # z # bs) + 2) div 3) = 4 + 4 * ((length bs + 2) div 3)" by linarith
  moreover have "length (base64_encode (x # y # z # bs)) = 4 + length (base64_encode bs)" by simp
  ultimately show ?case using 4 by linarith
qed simp_all

lemma tiny_length: "length tiny_png = 26"
  by (simp add: tiny_png_def png_signature_def png_ihdr_def)

lemma tiny_dimensions: "png_dimensions tiny_png = Some \<lparr>dm_width = 1, dm_height = 1, dm_decoded = Some 4\<rparr>"
  by (simp add: png_dimensions_def tiny_length) (simp add: tiny_png_def png_signature_def png_ihdr_def be32_def png_samples_def png_depths_def Let_def)

lemma tiny_ok: "image_ok tiny_image" "im_data tiny_image \<noteq> []" "im_meta tiny_image = None" "length (base64_decode (im_data tiny_image)) = 26"
proof -
  have len: "length (base64_encode tiny_png) = 36" by (simp add: length_encode tiny_length)
  show "image_ok tiny_image"
    using len by (simp add: image_ok_def tiny_image_def canonical_base64_def encode_is_base64 decode_encode image_dimensions_def tiny_dimensions
      max_base64_characters_def max_input_image_bytes_def dimensions_ok_def max_input_image_dimension_def max_input_image_pixels_def max_decoded_image_bytes_def)
  show "im_data tiny_image \<noteq> []" using len by (auto simp: tiny_image_def)
  show "im_meta tiny_image = None" "length (base64_decode (im_data tiny_image)) = 26"
    by (simp_all add: tiny_image_def decode_encode tiny_length)
qed

lemma tiny_accepted: "normalize_input_images False (JArr (map image_js [tiny_image])) = Inr [tiny_image]"
  using normalize_image_again [OF tiny_ok(1-3), of 0 0] tiny_ok(4)
  by (simp add: normalize_input_images_def nullish_def max_input_image_count_def max_input_image_bytes_def)

lemma accepted_images_within_limits_witness: "image_bytes [tiny_image] \<le> 3145728 \<and> image_bytes [tiny_image] = 26"
  using accepted_images_within_limits [OF tiny_accepted] tiny_ok(4) by (simp add: image_bytes_def)

lemma normalized_images_roundtrip_witness: "normalize_input_images False (JArr (map image_js [tiny_image])) = Inr [tiny_image]"
  by (rule normalized_images_roundtrip [OF tiny_accepted])

section \<open>JPEG segments\<close>

text \<open>A marker segment: two bytes of length, which count themselves, and the payload.\<close>

definition segment :: "8 word \<times> 8 word list \<Rightarrow> 8 word list" where
  "segment s = [0xff, fst s, of_nat ((length (snd s) + 2) div 256), of_nat ((length (snd s) + 2) mod 256)] @ snd s"

definition skippable :: "8 word \<times> 8 word list \<Rightarrow> bool" where
  "skippable s \<longleftrightarrow> length (snd s) + 2 < 65536 \<and> fst s \<notin> {0xff, 0xd9, 0xda, 0x01} \<and> \<not> (0xd0 \<le> fst s \<and> fst s \<le> 0xd7) \<and> \<not> start_of_frame (fst s)"

lemma be16_two: "be16 0 (x # y # r) = unat x * 256 + unat y"
  by (simp add: be16_def)

lemma unat_of_byte: "n < 256 \<Longrightarrow> unat (of_nat n :: 8 word) = n"
  by (simp add: unat_of_nat take_bit_nat_eq_self)

lemma scan_segment: "skippable s \<Longrightarrow> jpeg_scan (segment s @ rest) = jpeg_scan rest"
proof -
  assume s: "skippable s"
  let ?n = "length (snd s) + 2"
  let ?body = "of_nat (?n div 256) # of_nat (?n mod 256) # snd s @ rest"
  have "?n div 256 < 256" "?n mod 256 < 256" using s by (auto simp: skippable_def)
  then have n: "be16 0 ?body = ?n"
    by (simp only: be16_two unat_of_byte) (rule div_mult_mod_eq)
  show ?thesis
    using s n by (subst jpeg_scan.simps) (auto simp: segment_def skippable_def Let_def)
qed

text \<open>
  The dimensions of a JPEG are found behind any sequence of other segments: when the file is
  the start marker, segments that are not frame headers, and a frame header, the scan returns the
  header's height and width.
\<close>

theorem jpeg_frame_found:
  assumes "list_all skippable segs" and "start_of_frame m" and "7 \<le> be16 0 frame" and "be16 0 frame \<le> length frame"
  shows "jpeg_dimensions ([0xff, 0xd8] @ concat (map segment segs) @ 0xff # m # frame)
     = Some \<lparr>dm_width = be16 5 frame, dm_height = be16 3 frame, dm_decoded = None\<rparr>"
proof -
  have "jpeg_scan (concat (map segment segs) @ 0xff # m # frame) = jpeg_scan (0xff # m # frame)"
    using assms(1) by (induction segs) (simp_all add: scan_segment)
  moreover have "m \<notin> {0xff, 0xd9, 0xda, 0x01}" "\<not> (0xd0 \<le> m \<and> m \<le> 0xd7)"
    using assms(2) by (auto simp: start_of_frame_def)
  then have "jpeg_scan (0xff # m # frame) = Some \<lparr>dm_width = be16 5 frame, dm_height = be16 3 frame, dm_decoded = None\<rparr>"
    using assms(2-4) by (subst jpeg_scan.simps) (auto simp: Let_def)
  ultimately show ?thesis using assms(3,4) by (simp add: jpeg_dimensions_def)
qed

lemma jpeg_frame_found_witness:
  "jpeg_dimensions ([0xff, 0xd8] @ concat (map segment [(0xe0, [1, 2, 3])]) @ 0xff # 0xc0 # [0, 8, 8, 0, 16, 0, 32, 1])
     = Some \<lparr>dm_width = 32, dm_height = 16, dm_decoded = None\<rparr>"
proof -
  have f: "be16 0 [0, 8, 8, 0, 16, 0, 32, 1] = 8" "be16 3 [0, 8, 8, 0, 16, 0, 32, 1] = 16" "be16 5 [0, 8, 8, 0, 16, 0, 32, 1] = 32"
    by (simp_all add: be16_def)
  show ?thesis
    using jpeg_frame_found [of "[(0xe0, [1, 2, 3])]" "0xc0" "[0, 8, 8, 0, 16, 0, 32, 1]"] by (simp add: f skippable_def start_of_frame_def)
qed

end
