(* ===== verification/ConversationBirth.thy ===== *)
theory ConversationBirth
  imports Prelude
begin

text \<open>
  The birth of a conversation entry (src/conversation-birth.mjs): validation of the metadata, the
  clock that allocates it, and the order that keeps the first published identity of an entry.
  \<open>Date.parse\<close> is a parameter; warnings on the console are not modelled.
\<close>

record birth =
  bi_created :: string
  bi_sequence :: int

definition conversation_birth :: "(string \<Rightarrow> int option) \<Rightarrow> js \<Rightarrow> birth option" where
  "conversation_birth parse v = (case v of
      JObj ps \<Rightarrow>
        if length ps \<noteq> 3 \<or> jget ''version'' v \<noteq> JNum (Fin 1) then None
        else (case (js_safe_int (jget ''sequence'' v), jget ''createdAt'' v) of
            (Some n, JStr s) \<Rightarrow>
              if n < 1 \<or> length s > 32 then None
              else (case parse s of
                  Some t \<Rightarrow> if iso_string t = Inr s then Some \<lparr>bi_created = s, bi_sequence = n\<rparr> else None
                | None \<Rightarrow> None)
          | _ \<Rightarrow> None)
    | _ \<Rightarrow> None)"

definition birth_js :: "birth \<Rightarrow> js" where
  "birth_js b = JObj [(''version'', JNum (Fin 1)), (''createdAt'', JStr (bi_created b)), (''sequence'', jint (bi_sequence b))]"

text \<open>\<open>birthOrder\<close> spreads these two properties, or none.\<close>

definition birth_order :: "(string \<Rightarrow> int option) \<Rightarrow> js \<Rightarrow> (string \<times> js) list" where
  "birth_order parse v = (case conversation_birth parse v of
      Some b \<Rightarrow> [(''createdAt'', JStr (bi_created b)), (''timelineSequence'', jint (bi_sequence b))]
    | None \<Rightarrow> [])"

definition timeline_sequence :: "js \<Rightarrow> int" where
  "timeline_sequence v = (case js_safe_int v of Some n \<Rightarrow> if 0 < n then n else 0 | None \<Rightarrow> 0)"

section \<open>The clock\<close>

definition js_items :: "js \<Rightarrow> js list" where
  "js_items v = (case v of JArr xs \<Rightarrow> xs | _ \<Rightarrow> [])"

text \<open>The birth values an entry of the active ancestry carries.\<close>

definition entry_births :: "js \<Rightarrow> js list" where
  "entry_births e =
     (if jget ''type'' e = JStr ''message'' \<and> jget ''role'' (jget ''message'' e) = JStr ''assistant''
      then map (jget ''harnessBirth'') (filter (\<lambda>part. jget ''type'' part = JStr ''text'') (js_items (jget ''content'' (jget ''message'' e))))
      else if jget ''type'' e = JStr ''custom'' \<and> jget ''customType'' e = JStr ''persistent-harness.progress-v1''
      then [jget ''harnessBirth'' (jget ''data'' e)]
      else [])"

definition birth_sequence :: "(string \<Rightarrow> int option) \<Rightarrow> js \<Rightarrow> int" where
  "birth_sequence parse v = (case conversation_birth parse v of Some b \<Rightarrow> bi_sequence b | None \<Rightarrow> 0)"

text \<open>The clock is its last sequence.\<close>

definition clock_reset :: "(string \<Rightarrow> int option) \<Rightarrow> js list \<Rightarrow> int" where
  "clock_reset parse entries = fold (\<lambda>e n. fold (\<lambda>v k. max k (birth_sequence parse v)) (entry_births e) n) entries 0"

definition clock_next :: "(string \<Rightarrow> int option) \<Rightarrow> string \<Rightarrow> int \<Rightarrow> int \<times> birth option" where
  "clock_next parse now n = (case conversation_birth parse (birth_js \<lparr>bi_created = now, bi_sequence = n + 1\<rparr>) of
      Some b \<Rightarrow> (bi_sequence b, Some b)
    | None \<Rightarrow> (n, None))"

section \<open>The order\<close>

record order_row =
  or_created :: string
  or_sequence :: int      \<comment> \<open>0 is none\<close>
  or_visible :: bool
  or_reported :: bool

text \<open>An incoming row; \<open>in_rest\<close> are the properties that are passed through.\<close>

record 'a incoming =
  in_id :: string
  in_created :: string
  in_timeline :: js
  in_rest :: 'a

text \<open>The map in insertion order.\<close>

type_synonym order = "(string \<times> order_row) list"

definition max_order_rows :: nat where
  "max_order_rows = 512"

definition order_row_of :: "order \<Rightarrow> string \<Rightarrow> order_row option" where
  "order_row_of rows k = map_of rows k"

definition order_put :: "string \<Rightarrow> order_row \<Rightarrow> order \<Rightarrow> order" where
  "order_put k r rows = map (\<lambda>p. if fst p = k then (k, r) else p) rows"

definition order_insert :: "string \<Rightarrow> order_row \<Rightarrow> order \<Rightarrow> order" where
  "order_insert k r rows = (let all = rows @ [(k, r)] in drop (length all - max_order_rows) all)"

definition known_row :: "order_row \<Rightarrow> string \<Rightarrow> int \<Rightarrow> order_row" where
  "known_row row created sequence =
     (if sequence \<noteq> 0 \<and> or_sequence row = 0 \<and> \<not> or_visible row then row\<lparr>or_created := created, or_sequence := sequence\<rparr>
      else if sequence \<noteq> 0 \<and> (sequence \<noteq> or_sequence row \<or> created \<noteq> or_created row) \<and> \<not> or_reported row then row\<lparr>or_reported := True\<rparr>
      else row)"

definition order_keep :: "'a incoming \<Rightarrow> bool \<Rightarrow> order \<Rightarrow> order \<times> string \<times> int option \<times> 'a" where
  "order_keep x visible rows = (let
      sequence = timeline_sequence (in_timeline x);
      old = order_row_of rows (in_id x);
      row = (case old of None \<Rightarrow> \<lparr>or_created = in_created x, or_sequence = sequence, or_visible = False, or_reported = False\<rparr>
             | Some r \<Rightarrow> known_row r (in_created x) sequence);
      row = row\<lparr>or_visible := (or_visible row \<or> visible)\<rparr>;
      rows' = (case old of None \<Rightarrow> order_insert (in_id x) row rows | Some _ \<Rightarrow> order_put (in_id x) row rows)
    in (rows', or_created row, (if or_sequence row \<noteq> 0 then Some (or_sequence row) else None), in_rest x))"

section \<open>Lemmas\<close>

lemma conversation_birthD:
  assumes "conversation_birth parse v = Some b"
  shows "1 \<le> bi_sequence b" and "bi_sequence b \<le> max_safe" and "length (bi_created b) \<le> 32"
    and "\<exists>t. parse (bi_created b) = Some t \<and> iso_string t = Inr (bi_created b)"
  using assms by (auto simp: conversation_birth_def split: js.splits if_splits option.splits dest: js_safe_int_bound)

lemma birth_of_js: "conversation_birth parse (birth_js b) = Some b' \<Longrightarrow> b' = b"
  by (cases b) (auto simp: conversation_birth_def birth_js_def jget_def split: if_splits option.splits)

lemma birth_roundtrip: "conversation_birth parse v = Some b \<Longrightarrow> conversation_birth parse (birth_js b) = Some b"
  using conversation_birthD [of parse v b] by (auto simp: conversation_birth_def birth_js_def jget_def)

lemma fold_max_ge: "k \<le> fold (\<lambda>v k. max k (f v)) vs (k :: int)"
proof (induction vs arbitrary: k)
  case (Cons x xs)
  show ?case using Cons.IH [of "max k (f x)"] by simp
qed simp

lemma fold_max_mem: "v \<in> set vs \<Longrightarrow> f v \<le> fold (\<lambda>v k. max k (f v)) vs (k :: int)"
proof (induction vs arbitrary: k)
  case (Cons x xs)
  then show ?case using fold_max_ge [of "max k (f x)" f xs] by auto
qed simp

lemma fold_fold_concat: "fold (\<lambda>e n. fold g (h e) n) es k = fold g (concat (map h es)) k"
  by (induction es arbitrary: k) auto

text \<open>
  A clock reset on an ancestry allocates the next birth above every valid birth in it, and
  each further allocation above the one before: the sequence numbers of a conversation never repeat.
\<close>

theorem clock_next_fresh:
  assumes "clock_next parse now (clock_reset parse entries) = (n1, Some b1)" and "clock_next parse now' n1 = (n2, Some b2)"
  shows "list_all (\<lambda>e. list_all (\<lambda>v. birth_sequence parse v < bi_sequence b1) (entry_births e)) entries \<and> bi_sequence b1 < bi_sequence b2
    \<and> conversation_birth parse (birth_js b2) = Some b2"
proof -
  have nb: "bi_sequence b = n + 1 \<and> m = n + 1 \<and> conversation_birth parse (birth_js b) = Some b" if "clock_next parse t n = (m, Some b)" for t n m b
  proof -
    have c: "conversation_birth parse (birth_js \<lparr>bi_created = t, bi_sequence = n + 1\<rparr>) = Some b" "m = bi_sequence b"
      using that by (auto simp: clock_next_def split: option.splits)
    then have "bi_sequence b = n + 1" using birth_of_js by force
    then show ?thesis using c birth_roundtrip [OF c(1)] by simp
  qed
  have "birth_sequence parse v \<le> clock_reset parse entries" if "e \<in> set entries" "v \<in> set (entry_births e)" for e v
    unfolding clock_reset_def fold_fold_concat by (rule fold_max_mem) (use that in auto)
  then show ?thesis
    using nb [OF assms(1)] nb [OF assms(2)] by (force simp: list_all_iff)
qed

section \<open>Published identity\<close>

text \<open>The rows kept one after another; the results are the created time and sequence shown for each.\<close>

fun keep_all :: "('a incoming \<times> bool) list \<Rightarrow> order \<Rightarrow> order \<times> (string \<times> string \<times> int option) list" where
  "keep_all [] rows = (rows, [])"
| "keep_all ((x, vis) # xs) rows = (case order_keep x vis rows of
     (rows1, created, seq, _) \<Rightarrow> (case keep_all xs rows1 of (rows2, shown) \<Rightarrow> (rows2, (in_id x, created, seq) # shown)))"

definition published :: "order \<Rightarrow> string \<Rightarrow> order_row \<Rightarrow> bool" where
  "published rows k r \<longleftrightarrow> order_row_of rows k = Some r \<and> or_visible r"

definition same_identity :: "order_row \<Rightarrow> order_row \<Rightarrow> bool" where
  "same_identity r r' \<longleftrightarrow> or_created r' = or_created r \<and> or_sequence r' = or_sequence r"

lemma order_row_of_put: "order_row_of (order_put k r rows) k' = (if k' = k \<and> order_row_of rows k \<noteq> None then Some r else order_row_of rows k')"
  by (induction rows) (auto simp: order_row_of_def order_put_def)

lemma order_row_of_insert:
  "length rows < max_order_rows \<Longrightarrow> order_row_of rows k = None \<Longrightarrow> order_row_of (order_insert k r rows) k' = (if k' = k then Some r else order_row_of rows k')"
  by (auto simp: order_row_of_def order_insert_def Let_def map_add_def split: option.split)

lemma known_row_visible: "or_visible r \<Longrightarrow> same_identity r (known_row r c s) \<and> or_visible (known_row r c s)"
  by (auto simp: known_row_def same_identity_def)

definition row_count :: "order \<Rightarrow> nat" where
  "row_count rows = length rows"

lemma keep_published:
  assumes "order_keep x vis rows = (rows', created, seq, rest)" and pub: "published rows k r" and room: "length rows' \<le> max_order_rows" "length rows < max_order_rows"
  shows "\<exists>r'. published rows' k r' \<and> same_identity r r'"
    and "in_id x = k \<Longrightarrow> created = or_created r \<and> seq = (if or_sequence r \<noteq> 0 then Some (or_sequence r) else None)"
proof -
  let ?s = "timeline_sequence (in_timeline x)"
  have r: "order_row_of rows k = Some r" "or_visible r" using pub by (auto simp: published_def)
  show "\<exists>r'. published rows' k r' \<and> same_identity r r'"
  proof (cases "in_id x = k")
    case True
    have "order_row_of rows' k = Some ((known_row r (in_created x) ?s)\<lparr>or_visible := True\<rparr>)"
      using assms(1) True r known_row_visible [OF r(2), of "in_created x" ?s] by (auto simp: order_keep_def Let_def order_row_of_put)
    then show ?thesis using known_row_visible [OF r(2), of "in_created x" ?s] by (auto simp: published_def same_identity_def)
  next
    case False
    then have "order_row_of rows' k = Some r"
      using assms(1) r room by (auto simp: order_keep_def Let_def order_row_of_put order_row_of_insert split: option.splits)
    then show ?thesis using r(2) by (auto simp: published_def same_identity_def)
  qed
  show "created = or_created r \<and> seq = (if or_sequence r \<noteq> 0 then Some (or_sequence r) else None)" if "in_id x = k"
    using assms(1) that r known_row_visible [OF r(2), of "in_created x" ?s] by (auto simp: order_keep_def Let_def same_identity_def)
qed

lemma keep_all_length: "length (fst (keep_all xs rows)) < max_order_rows \<Longrightarrow> length rows \<le> length (fst (keep_all xs rows))"
proof (induction xs rows rule: keep_all.induct)
  case (2 x vis xs rows)
  obtain rows1 c q r where k: "order_keep x vis rows = (rows1, c, q, r)" by (metis prod_cases4)
  have le: "length rows1 \<le> length (fst (keep_all xs rows1))" "length rows1 < max_order_rows"
    using 2(1) [OF k [symmetric] refl refl] 2(2) k by (auto split: prod.splits)
  have "length rows \<le> length rows1"
    using k le(2) by (auto simp: order_keep_def Let_def order_put_def order_insert_def split: option.splits)
  then show ?case using le k by (auto split: prod.splits)
qed simp

definition shown_as :: "string \<Rightarrow> order_row \<Rightarrow> string \<times> string \<times> int option \<Rightarrow> bool" where
  "shown_as k r x \<longleftrightarrow> (fst x = k \<longrightarrow> fst (snd x) = or_created r \<and> snd (snd x) = (if or_sequence r \<noteq> 0 then Some (or_sequence r) else None))"

lemma shown_as_same: "same_identity r r' \<Longrightarrow> shown_as k r' = shown_as k r"
  by (simp add: shown_as_def same_identity_def fun_eq_iff)



definition demo_parse :: "string \<Rightarrow> int option" where
  "demo_parse s = (if s = ''1970-01-01T00:00:00.000Z'' then Some 0 else None)"

lemma clock_next_fresh_witness:
  "\<exists>n1 b1 n2 b2. clock_next demo_parse ''1970-01-01T00:00:00.000Z'' (clock_reset demo_parse [JObj [(''type'', JStr ''custom''),
       (''customType'', JStr ''persistent-harness.progress-v1''),
       (''data'', JObj [(''harnessBirth'', birth_js \<lparr>bi_created = ''1970-01-01T00:00:00.000Z'', bi_sequence = 6\<rparr>)])]]) = (n1, Some b1)
     \<and> clock_next demo_parse ''1970-01-01T00:00:00.000Z'' n1 = (n2, Some b2) \<and> bi_sequence b1 < bi_sequence b2 \<and> bi_sequence b1 = 7"
proof -
  let ?es = "[JObj [(''type'', JStr ''custom''), (''customType'', JStr ''persistent-harness.progress-v1''),
       (''data'', JObj [(''harnessBirth'', birth_js \<lparr>bi_created = ''1970-01-01T00:00:00.000Z'', bi_sequence = 6\<rparr>)])]]"
  have a: "clock_next demo_parse ''1970-01-01T00:00:00.000Z'' (clock_reset demo_parse ?es) = (7, Some \<lparr>bi_created = ''1970-01-01T00:00:00.000Z'', bi_sequence = 7\<rparr>)"
    by code_simp
  have b: "clock_next demo_parse ''1970-01-01T00:00:00.000Z'' 7 = (8, Some \<lparr>bi_created = ''1970-01-01T00:00:00.000Z'', bi_sequence = 8\<rparr>)"
    by code_simp
  show ?thesis using clock_next_fresh [OF a b] a b by auto
qed

end
