(* ===== verification/Protocol.thy ===== *)
theory Protocol
  imports Inputs InputImages ConversationBirth
begin

text \<open>
  The request protocol (src/protocol.mjs): the validator of every request type, which turns the
  parameters of a frame into the object the handlers receive or throws a \<open>ProtocolError\<close> with a
  code, and the frames the server sends. \<open>Date.parse\<close> is the parameter \<open>parse\<close>.
\<close>

section \<open>Primitive validators\<close>

definition protocol_version :: int where
  "protocol_version = 2"

definition invalid :: "string \<Rightarrow> 'a result" where
  "invalid why = Inl (Coded ''invalid_request'' why)"

definition and_then :: "'a result \<Rightarrow> ('a \<Rightarrow> 'b result) \<Rightarrow> 'b result" where
  "and_then r f = (case r of Inl e \<Rightarrow> Inl e | Inr x \<Rightarrow> f x)"

definition require :: "bool \<Rightarrow> string \<Rightarrow> 'a result \<Rightarrow> 'a result" where
  "require c why r = (if c then r else invalid why)"

text \<open>An object literal: the fields are evaluated in order, absent ones are spread from nothing.\<close>

fun literal :: "(string \<times> js result) list \<Rightarrow> (string \<times> js) list result" where
  "literal [] = Inr []"
| "literal ((k, r) # fs) = and_then r (\<lambda>v. and_then (literal fs) (\<lambda>ps. Inr ((k, v) # ps)))"

definition object_of :: "(string \<times> js result) list \<Rightarrow> js result" where
  "object_of fs = and_then (literal fs) (\<lambda>ps. Inr (JObj ps))"

definition keys :: "js \<Rightarrow> string list" where
  "keys v = (case v of JObj ps \<Rightarrow> map fst ps | _ \<Rightarrow> [])"

definition p_record :: "js \<Rightarrow> string \<Rightarrow> 'a result \<Rightarrow> 'a result" where
  "p_record v path r = require (is_plain_object v) (path @ '' must be an object'') r"

definition p_exact :: "js \<Rightarrow> string list \<Rightarrow> string \<Rightarrow> 'a result \<Rightarrow> 'a result" where
  "p_exact v ks path r = (case find (\<lambda>k. k \<notin> set ks) (keys v) of
      Some k \<Rightarrow> invalid (path @ ''.'' @ k @ '' is not supported'')
    | None \<Rightarrow> r)"

definition p_params :: "js \<Rightarrow> string list \<Rightarrow> 'a result \<Rightarrow> 'a result" where
  "p_params v ks r = p_record v ''params'' (p_exact v ks ''params'' r)"

definition p_string :: "js \<Rightarrow> string \<Rightarrow> nat \<Rightarrow> js result" where
  "p_string v path mx = (case v of
      JStr s \<Rightarrow> if s \<noteq> [] \<and> length s \<le> mx then Inr (JStr s)
        else invalid (path @ '' must be a non-empty string of at most '' @ show_nat mx @ '' characters'')
    | _ \<Rightarrow> invalid (path @ '' must be a non-empty string of at most '' @ show_nat mx @ '' characters''))"

definition p_nullable :: "js \<Rightarrow> string \<Rightarrow> nat \<Rightarrow> js result" where
  "p_nullable v path mx = (if v = Null then Inr Null else p_string v path mx)"

text \<open>\<open>value == null ? null : string(value, ...)\<close>\<close>

definition p_or_null :: "js \<Rightarrow> string \<Rightarrow> nat \<Rightarrow> js result" where
  "p_or_null v path mx = (if nullish v then Inr Null else p_string v path mx)"

definition p_utf8 :: "js \<Rightarrow> string \<Rightarrow> nat \<Rightarrow> js result" where
  "p_utf8 v path mx = and_then (p_string v path mx) (\<lambda>x.
     require (utf8_len (case x of JStr s \<Rightarrow> s | _ \<Rightarrow> []) \<le> mx) (path @ '' must be at most '' @ show_nat mx @ '' UTF-8 bytes'') (Inr x))"

definition p_bool :: "js \<Rightarrow> string \<Rightarrow> js result" where
  "p_bool v path = (case v of JBool b \<Rightarrow> Inr (JBool b) | _ \<Rightarrow> invalid (path @ '' must be boolean''))"

definition p_integer :: "js \<Rightarrow> string \<Rightarrow> int \<Rightarrow> int \<Rightarrow> js result" where
  "p_integer v path lo hi = (case js_int v of
      Some i \<Rightarrow> if lo \<le> i \<and> i \<le> hi then Inr (jint i) else invalid (path @ '' must be an integer from '' @ show_int lo @ '' through '' @ show_int hi)
    | None \<Rightarrow> invalid (path @ '' must be an integer from '' @ show_int lo @ '' through '' @ show_int hi))"

definition p_finite :: "js \<Rightarrow> string \<Rightarrow> int \<Rightarrow> int \<Rightarrow> js result" where
  "p_finite v path lo hi = (case finite_in (of_int lo) (of_int hi) v of
      Some q \<Rightarrow> Inr (JNum (Fin q))
    | None \<Rightarrow> invalid (path @ '' must be a finite number from '' @ show_int lo @ '' through '' @ show_int hi))"

text \<open>\<open>array(value, path, max).map((item, index) => f(item, ...))\<close>\<close>

fun p_items :: "(js \<Rightarrow> nat \<Rightarrow> js result) \<Rightarrow> nat \<Rightarrow> js list \<Rightarrow> js list result" where
  "p_items f i [] = Inr []"
| "p_items f i (x # xs) = and_then (f x i) (\<lambda>y. and_then (p_items f (i + 1) xs) (\<lambda>ys. Inr (y # ys)))"

definition p_array :: "js \<Rightarrow> string \<Rightarrow> nat \<Rightarrow> (js \<Rightarrow> nat \<Rightarrow> js result) \<Rightarrow> js result" where
  "p_array v path mx f = (case v of
      JArr xs \<Rightarrow> require (length xs \<le> mx) (path @ '' must be an array of at most '' @ show_nat mx @ '' items'')
        (and_then (p_items f 0 xs) (\<lambda>ys. Inr (JArr ys)))
    | _ \<Rightarrow> invalid (path @ '' must be an array of at most '' @ show_nat mx @ '' items''))"

definition item_path :: "string \<Rightarrow> nat \<Rightarrow> string" where
  "item_path path i = path @ ''['' @ show_nat i @ '']''"

text \<open>\<open>value === undefined ? default : check(value)\<close>, and one of a set of strings.\<close>

definition default_to :: "js \<Rightarrow> js \<Rightarrow> (js \<Rightarrow> js result) \<Rightarrow> js result" where
  "default_to d v f = (if v = Undef then Inr d else f v)"

definition one_of :: "js \<Rightarrow> string list \<Rightarrow> string \<Rightarrow> js result" where
  "one_of v choices why = require (\<exists>s \<in> set choices. v = JStr s) why (Inr v)"

definition p_empty :: "js \<Rightarrow> js result" where
  "p_empty v = p_params v [] (Inr v)"

section \<open>Sessions, actors and children\<close>

definition actor_registration :: "js \<Rightarrow> js result" where
  "actor_registration v = p_params v [''sessionId'', ''sessionFile'', ''cwd'', ''repositoryRoot'', ''actorToken'', ''actorGeneration''] (object_of [
     (''sessionId'', p_string (jget ''sessionId'' v) ''params.sessionId'' 128),
     (''sessionFile'', p_string (jget ''sessionFile'' v) ''params.sessionFile'' 4096),
     (''cwd'', p_string (jget ''cwd'' v) ''params.cwd'' 4096),
     (''repositoryRoot'', p_nullable (jget ''repositoryRoot'' v) ''params.repositoryRoot'' 4096),
     (''actorToken'', p_string (jget ''actorToken'' v) ''params.actorToken'' 128),
     (''actorGeneration'', p_integer (jget ''actorGeneration'' v) ''params.actorGeneration'' 1 1000000000)])"

definition client_registration :: "js \<Rightarrow> js result" where
  "client_registration v = p_params v [''clientInstanceId''] (object_of [
     (''clientInstanceId'', p_string (jget ''clientInstanceId'' v) ''params.clientInstanceId'' 128)])"

text \<open>\<open>sessionIdParam\<close>: the session id, checked before the other fields.\<close>

definition session_id_param :: "js \<Rightarrow> string list \<Rightarrow> (js \<Rightarrow> js result) \<Rightarrow> js result" where
  "session_id_param v extra f = p_params v (''sessionId'' # extra) (and_then (p_string (jget ''sessionId'' v) ''params.sessionId'' 128) f)"

definition session_only :: "js \<Rightarrow> js result" where
  "session_only v = session_id_param v [] (\<lambda>sid. Inr (JObj [(''value'', v), (''sessionId'', sid)]))"

definition session_plain :: "js \<Rightarrow> js result" where
  "session_plain v = session_id_param v [] (\<lambda>sid. Inr (JObj [(''sessionId'', sid)]))"

definition child_selector :: "js \<Rightarrow> js result" where
  "child_selector v = p_params v [''selector''] (object_of [(''selector'', p_string (jget ''selector'' v) ''params.selector'' 256)])"

definition p_skill :: "js \<Rightarrow> string \<Rightarrow> js result" where
  "p_skill v path = p_record v path (p_exact v [''id'', ''version'', ''contentHash'', ''skillPath'', ''pythonBacked''] path (object_of [
     (''id'', p_string (jget ''id'' v) (path @ ''.id'') 64), (''version'', p_string (jget ''version'' v) (path @ ''.version'') 256),
     (''contentHash'', p_string (jget ''contentHash'' v) (path @ ''.contentHash'') 128),
     (''skillPath'', p_string (jget ''skillPath'' v) (path @ ''.skillPath'') 4096),
     (''pythonBacked'', p_bool (jget ''pythonBacked'' v) (path @ ''.pythonBacked''))]))"

definition p_model :: "js \<Rightarrow> string \<Rightarrow> js result" where
  "p_model v path = p_record v path (p_exact v [''provider'', ''id'', ''name'', ''reasoning'', ''thinkingLevels''] path (object_of [
     (''provider'', p_string (jget ''provider'' v) (path @ ''.provider'') 128), (''id'', p_string (jget ''id'' v) (path @ ''.id'') 256),
     (''name'', default_to (jget ''id'' v) (jget ''name'' v) (\<lambda>x. p_string x (path @ ''.name'') 256)),
     (''reasoning'', default_to (JBool False) (jget ''reasoning'' v) (\<lambda>x. p_bool x (path @ ''.reasoning''))),
     (''thinkingLevels'', p_array (jget ''thinkingLevels'' v) (path @ ''.thinkingLevels'') 7
        (\<lambda>x i. p_string x (item_path (path @ ''.thinkingLevels'') i) 16))]))"

definition spawn_child :: "js \<Rightarrow> js result" where
  "spawn_child v = p_params v [''prompt'', ''name'', ''model'', ''thinkingLevel'', ''parentModel'', ''parentThinkingLevel'', ''availableModels'', ''forkContext'', ''forkLeafId'']
     (and_then (default_to (JBool False) (jget ''forkContext'' v) (\<lambda>x. p_bool x ''params.forkContext'')) (\<lambda>fork.
       require (fork = JBool True \<or> jget ''forkLeafId'' v = Undef) ''params.forkLeafId requires forkContext''
       (and_then (if fork = JBool True then p_nullable (jget ''forkLeafId'' v) ''params.forkLeafId'' 128 else Inr Undef) (\<lambda>leaf.
         object_of ([(''prompt'', p_utf8 (jget ''prompt'' v) ''params.prompt'' 32768),
           (''name'', p_or_null (jget ''name'' v) ''params.name'' 64),
           (''model'', p_or_null (jget ''model'' v) ''params.model'' 384),
           (''thinkingLevel'', p_or_null (jget ''thinkingLevel'' v) ''params.thinkingLevel'' 16),
           (''parentModel'', p_model (jget ''parentModel'' v) ''params.parentModel''),
           (''parentThinkingLevel'', p_string (jget ''parentThinkingLevel'' v) ''params.parentThinkingLevel'' 16),
           (''availableModels'', p_array (jget ''availableModels'' v) ''params.availableModels'' 512 (\<lambda>x i. p_model x (item_path ''params.availableModels'' i))),
           (''forkContext'', Inr fork)] @ (if fork = JBool True then [(''forkLeafId'', Inr leaf)] else []))))))"

definition create_root_params :: "js \<Rightarrow> js result" where
  "create_root_params v = p_params v [''cwd'', ''repositoryRoot'', ''name'', ''provider'', ''model'', ''thinkingLevel'']
     (and_then (p_or_null (jget ''provider'' v) ''params.provider'' 128) (\<lambda>provider.
      and_then (p_or_null (jget ''model'' v) ''params.model'' 256) (\<lambda>model.
      require ((provider = Null) = (model = Null)) ''params.provider and params.model must be supplied together''
       (object_of [(''cwd'', p_string (jget ''cwd'' v) ''params.cwd'' 4096),
         (''repositoryRoot'', p_or_null (jget ''repositoryRoot'' v) ''params.repositoryRoot'' 4096),
         (''name'', p_or_null (jget ''name'' v) ''params.name'' 256), (''provider'', Inr provider), (''model'', Inr model),
         (''thinkingLevel'', p_or_null (jget ''thinkingLevel'' v) ''params.thinkingLevel'' 16)]))))"

definition rename_session :: "js \<Rightarrow> js result" where
  "rename_session v = session_id_param v [''name''] (\<lambda>sid. object_of [(''sessionId'', Inr sid), (''name'', p_string (jget ''name'' v) ''params.name'' 256)])"

definition subscribe_params :: "js \<Rightarrow> js result" where
  "subscribe_params v = p_params v [''selector'', ''passive''] (object_of [(''selector'', p_string (jget ''selector'' v) ''params.selector'' 256),
     (''passive'', default_to (JBool False) (jget ''passive'' v) (\<lambda>x. p_bool x ''params.passive''))])"

text \<open>\<open>/^[A-Za-z0-9][A-Za-z0-9._-]{0,127}$/\<close> and the other character classes of this file.\<close>

definition alnum :: "char \<Rightarrow> bool" where
  "alnum c \<longleftrightarrow> (let n = of_char c :: nat in (48 \<le> n \<and> n \<le> 57) \<or> (65 \<le> n \<and> n \<le> 90) \<or> (97 \<le> n \<and> n \<le> 122))"

definition matches :: "(char \<Rightarrow> bool) \<Rightarrow> nat \<Rightarrow> nat \<Rightarrow> string \<Rightarrow> bool" where
  "matches p lo hi s \<longleftrightarrow> lo \<le> length s \<and> length s \<le> hi \<and> list_all p s"

definition text_of :: "js \<Rightarrow> string" where
  "text_of v = (case v of JStr s \<Rightarrow> s | _ \<Rightarrow> [])"

definition generation_shape :: "string \<Rightarrow> bool" where
  "generation_shape s \<longleftrightarrow> (case s of [] \<Rightarrow> False | c # r \<Rightarrow> alnum c \<and> matches (\<lambda>x. alnum x \<or> x \<in> set ''._-'') 0 127 r)"

definition subscribe_root_output :: "js \<Rightarrow> js result" where
  "subscribe_root_output v = p_params v [''generation'', ''afterSeq'', ''invalidCursor'']
     (and_then (default_to Null (jget ''generation'' v) (\<lambda>x. p_string x ''params.generation'' 128)) (\<lambda>generation.
      and_then (default_to Null (jget ''afterSeq'' v) (\<lambda>x. p_integer x ''params.afterSeq'' 0 max_safe)) (\<lambda>after.
      and_then (default_to (JBool False) (jget ''invalidCursor'' v) (\<lambda>x. p_bool x ''params.invalidCursor'')) (\<lambda>bad.
      require (generation = Null \<or> generation_shape (text_of generation)) ''params.generation has an invalid shape''
      (require (bad = JBool True \<or> (generation = Null) = (after = Null)) ''params.generation and params.afterSeq must be supplied together''
      (require (bad \<noteq> JBool True \<or> generation = Null \<and> after = Null) ''invalid cursor must not include generation or afterSeq''
        (Inr (if bad = JBool True then JObj [(''invalid'', JBool True)] else if generation = Null then Null
          else JObj [(''generation'', generation), (''afterSeq'', after)]))))))))"

section \<open>Messages, usage and progress\<close>

definition send_message :: "js \<Rightarrow> js result" where
  "send_message v = p_params v [''target'', ''body'', ''deliveryMode'']
     (and_then (one_of (coalesce (jget ''deliveryMode'' v) (JStr ''auto'')) [''auto'', ''follow_up''] ''params.deliveryMode must be auto or follow_up'') (\<lambda>_.
      object_of [(''target'', p_string (jget ''target'' v) ''params.target'' 256), (''body'', p_utf8 (jget ''body'' v) ''params.body'' 16384),
        (''deliveryMode'', Inr (JStr ''auto''))]))"

definition count_field :: "js \<Rightarrow> string \<Rightarrow> string \<times> js result" where
  "count_field v k = (k, p_integer (jget k v) (''params.'' @ k) 0 max_safe)"

definition usage_params :: "js \<Rightarrow> js result" where
  "usage_params v = p_params v [''entryId'', ''provider'', ''model'', ''input'', ''output'', ''cacheRead'', ''cacheWrite'', ''reasoning'', ''totalTokens'', ''costTotal'']
     (and_then (object_of [(''entryId'', p_string (jget ''entryId'' v) ''params.entryId'' 128), (''provider'', p_string (jget ''provider'' v) ''params.provider'' 128),
        (''model'', p_string (jget ''model'' v) ''params.model'' 256), count_field v ''input'', count_field v ''output'', count_field v ''cacheRead'',
        count_field v ''cacheWrite'', (''reasoning'', default_to Null (jget ''reasoning'' v) (\<lambda>x. p_integer x ''params.reasoning'' 0 max_safe)),
        count_field v ''totalTokens'', (''costTotal'', p_finite (jget ''costTotal'' v) ''params.costTotal'' 0 1000000000)]) (\<lambda>r.
      require (jget ''reasoning'' r = Null \<or> (case (js_int (jget ''reasoning'' r), js_int (jget ''output'' r)) of (Some a, Some b) \<Rightarrow> a \<le> b | _ \<Rightarrow> False))
        ''params.reasoning must not exceed params.output'' (Inr r)))"

definition usage_window :: "js \<Rightarrow> js result" where
  "usage_window v = p_params v [''windowMinutes''] (object_of [(''windowMinutes'', p_integer (jget ''windowMinutes'' v) ''params.windowMinutes'' 1 10080)])"

definition context_usage :: "js \<Rightarrow> js result" where
  "context_usage v = p_params v [''tokens'', ''contextWindow'', ''percent'']
     (and_then (p_integer (jget ''contextWindow'' v) ''params.contextWindow'' 1 10000000) (\<lambda>window.
      and_then (if jget ''tokens'' v = Null then Inr Null else p_integer (jget ''tokens'' v) ''params.tokens'' 0 10000000) (\<lambda>tokens.
      and_then (if jget ''percent'' v = Null then Inr Null else p_finite (jget ''percent'' v) ''params.percent'' 0 10000) (\<lambda>percent.
      require ((tokens = Null) = (percent = Null)) ''params.tokens and params.percent must both be known or null''
        (Inr (JObj [(''tokens'', tokens), (''contextWindow'', window), (''percent'', percent)]))))))"

definition progress_heading :: "js \<Rightarrow> js result" where
  "progress_heading v = p_params v [''phase'', ''turnId'', ''summary'']
     (and_then (p_string (jget ''phase'' v) ''params.phase'' 16) (\<lambda>phase.
      and_then (one_of phase [''start'', ''heading'', ''settled''] ''params.phase must be start, heading, or settled'') (\<lambda>_.
      require (phase \<noteq> JStr ''heading'' \<or> jget ''summary'' v \<noteq> Undef) ''heading progress requires params.summary''
      (require (phase = JStr ''heading'' \<or> jget ''summary'' v = Undef) (text_of phase @ '' progress must not include params.summary'')
        (object_of ([(''phase'', Inr phase), (''turnId'', p_string (jget ''turnId'' v) ''params.turnId'' 128)]
          @ (if phase = JStr ''heading'' then [(''summary'', p_utf8 (jget ''summary'' v) ''params.summary'' 512)] else [])))))))"

text \<open>\<open>string(value.createdAt, ..., 64)\<close> that \<open>Date.parse\<close> understands.\<close>

definition p_time :: "(string \<Rightarrow> int option) \<Rightarrow> js \<Rightarrow> string \<Rightarrow> js result" where
  "p_time parse v path = and_then (p_string v path 64) (\<lambda>x. require (parse (text_of x) \<noteq> None) (path @ '' must be an ISO timestamp'') (Inr x))"

definition progress_entry :: "(string \<Rightarrow> int option) \<Rightarrow> js \<Rightarrow> js result" where
  "progress_entry parse v = p_params v [''entryId'', ''summary'', ''createdAt'', ''harnessBirth'']
     (and_then (p_time parse (jget ''createdAt'' v) ''params.createdAt'') (\<lambda>created.
      require (jget ''harnessBirth'' v = Undef \<or> conversation_birth parse (jget ''harnessBirth'' v) \<noteq> None) ''params.harnessBirth must be a bounded conversation birth''
       (object_of ([(''entryId'', p_string (jget ''entryId'' v) ''params.entryId'' 128), (''summary'', p_utf8 (jget ''summary'' v) ''params.summary'' 512),
          (''createdAt'', Inr created)]
          @ (case conversation_birth parse (jget ''harnessBirth'' v) of Some b \<Rightarrow> [(''harnessBirth'', Inr (birth_js b))] | None \<Rightarrow> [])))))"

definition agent_message_entry :: "(string \<Rightarrow> int option) \<Rightarrow> js \<Rightarrow> js result" where
  "agent_message_entry parse v = p_params v [''entryId'', ''messageId'', ''direction'', ''peerId'', ''peerName'', ''relationship'', ''body'', ''createdAt'']
     (and_then (p_string (jget ''direction'' v) ''params.direction'' 4) (\<lambda>direction.
      and_then (one_of direction [''from'', ''to''] ''params.direction must be from or to'') (\<lambda>_.
      and_then (p_string (jget ''relationship'' v) ''params.relationship'' 16) (\<lambda>relationship.
      and_then (one_of relationship [''parent'', ''child'', ''sibling''] ''params.relationship must be parent, child, or sibling'') (\<lambda>_.
      and_then (p_time parse (jget ''createdAt'' v) ''params.createdAt'') (\<lambda>created.
        object_of [(''entryId'', p_string (jget ''entryId'' v) ''params.entryId'' 128), (''messageId'', p_string (jget ''messageId'' v) ''params.messageId'' 128),
          (''direction'', Inr direction), (''peerId'', p_string (jget ''peerId'' v) ''params.peerId'' 128),
          (''peerName'', p_utf8 (jget ''peerName'' v) ''params.peerName'' 1024), (''relationship'', Inr relationship),
          (''body'', p_utf8 (jget ''body'' v) ''params.body'' 16384), (''createdAt'', Inr created)]))))))"

definition child_creation_entry :: "(string \<Rightarrow> int option) \<Rightarrow> js \<Rightarrow> js result" where
  "child_creation_entry parse v = p_params v [''entryId'', ''taskId'', ''childId'', ''childName'', ''relationship'', ''body'', ''createdAt'']
     (and_then (p_string (jget ''relationship'' v) ''params.relationship'' 16) (\<lambda>relationship.
      and_then (one_of relationship [''child''] ''params.relationship must be child'') (\<lambda>_.
      and_then (p_time parse (jget ''createdAt'' v) ''params.createdAt'') (\<lambda>created.
        object_of [(''entryId'', p_string (jget ''entryId'' v) ''params.entryId'' 128), (''taskId'', p_string (jget ''taskId'' v) ''params.taskId'' 128),
          (''childId'', p_string (jget ''childId'' v) ''params.childId'' 128), (''childName'', p_utf8 (jget ''childName'' v) ''params.childName'' 1024),
          (''relationship'', Inr relationship), (''body'', p_utf8 (jget ''body'' v) ''params.body'' 32768), (''createdAt'', Inr created)]))))"

definition visible_image :: "js \<Rightarrow> js result" where
  "visible_image v = session_id_param v [''entryId'', ''index''] (\<lambda>sid. object_of [(''sessionId'', Inr sid),
     (''entryId'', p_string (jget ''entryId'' v) ''params.entryId'' 128), (''index'', p_integer (jget ''index'' v) ''params.index'' 0 3)])"

section \<open>Input\<close>

text \<open>An error of the image or location checks becomes a \<open>ProtocolError\<close> with its message.\<close>

definition as_invalid :: "'a result \<Rightarrow> 'a result" where
  "as_invalid r = (case r of Inr x \<Rightarrow> Inr x | Inl (Thrown m) \<Rightarrow> invalid m | Inl (TypeErr m) \<Rightarrow> invalid m | Inl (Coded c m) \<Rightarrow> invalid m | Inl e \<Rightarrow> invalid [])"

definition submit_content :: "js \<Rightarrow> bool \<Rightarrow> js \<Rightarrow> js \<Rightarrow> (string \<times> js result) list result" where
  "submit_content v original retry_of request =
     (if original then
        require (retry_of \<noteq> Null) ''original retry requires params.retryOf''
        (require (request \<noteq> Null) ''original retry requires params.clientRequestId''
        (require (\<not> jhas ''message'' v \<and> \<not> jhas ''images'' v \<and> \<not> jhas ''location'' v) ''params.retryOriginal requires message, images, and location to be omitted''
          (Inr [])))
      else and_then (as_invalid (normalize_input_images False (jget ''images'' v))) (\<lambda>images.
        and_then (as_invalid (normalize_input_location (jget ''location'' v))) (\<lambda>location.
        require (case jget ''message'' v of JStr m \<Rightarrow> utf8_len m \<le> 32768 \<and> (m \<noteq> [] \<or> images \<noteq> []) | _ \<Rightarrow> False)
          ''params.message must be at most 32768 UTF-8 bytes and may be empty only with images''
          (Inr ([(''message'', Inr (jget ''message'' v)), (''images'', Inr (JArr (map image_js images)))]
            @ (case location of Some l \<Rightarrow> [(''location'', Inr l)] | None \<Rightarrow> []))))))"

definition submit_input :: "js \<Rightarrow> js result" where
  "submit_input v = session_id_param v [''message'', ''images'', ''location'', ''behavior'', ''clientRequestId'', ''clientMessageId'', ''retryOf'', ''retryOriginal''] (\<lambda>sid.
     and_then (default_to Null (jget ''retryOf'' v) (\<lambda>x. p_string x ''params.retryOf'' 128)) (\<lambda>retry_of.
     and_then (default_to Null (jget ''clientRequestId'' v) (\<lambda>x. p_string x ''params.clientRequestId'' 128)) (\<lambda>request.
     and_then (default_to (JBool False) (jget ''retryOriginal'' v) (\<lambda>x. p_bool x ''params.retryOriginal'')) (\<lambda>original.
     and_then (submit_content v (original = JBool True) retry_of request) (\<lambda>content.
     and_then (one_of (coalesce (jget ''behavior'' v) (JStr ''auto'')) [''auto'', ''steer'', ''follow_up''] ''params.behavior must be auto, steer, or follow_up'') (\<lambda>behavior.
     require (retry_of = Null \<or> behavior = JStr ''auto'') ''params.retryOf requires params.behavior auto''
       (object_of ([(''sessionId'', Inr sid)] @ content @ [(''behavior'', Inr behavior), (''clientRequestId'', Inr request)]
         @ (if jget ''retryOriginal'' v = Undef then [] else [(''retryOriginal'', Inr original)])
         @ (if jget ''clientMessageId'' v = Undef then [] else [(''clientMessageId'', p_string (jget ''clientMessageId'' v) ''params.clientMessageId'' 128)])
         @ [(''retryOf'', Inr retry_of)]))))))))"

definition actor_input_id :: "js \<Rightarrow> js result" where
  "actor_input_id v = p_params v [''inputId''] (object_of [(''inputId'', p_string (jget ''inputId'' v) ''params.inputId'' 128)])"

definition actor_input_delivery :: "(string \<Rightarrow> int option) \<Rightarrow> js \<Rightarrow> js result" where
  "actor_input_delivery parse v = p_params v [''inputId'', ''entryId'', ''deliveredAt'']
     (and_then (p_time parse (jget ''deliveredAt'' v) ''params.deliveredAt'') (\<lambda>delivered.
      object_of [(''inputId'', p_string (jget ''inputId'' v) ''params.inputId'' 128), (''entryId'', p_string (jget ''entryId'' v) ''params.entryId'' 128),
        (''deliveredAt'', Inr delivered)]))"

definition extension_ui_response :: "js \<Rightarrow> js result" where
  "extension_ui_response v = session_id_param v [''uiRequestId'', ''value'', ''confirmed'', ''cancelled''] (\<lambda>sid.
     and_then (object_of ([(''sessionId'', Inr sid), (''uiRequestId'', p_string (jget ''uiRequestId'' v) ''params.uiRequestId'' 128)]
       @ (if jget ''value'' v = Undef then [] else [(''value'', require (case jget ''value'' v of JStr s \<Rightarrow> utf8_len s \<le> 32768 | _ \<Rightarrow> False)
            ''params.value must be at most 32768 UTF-8 bytes'' (Inr (jget ''value'' v)))])
       @ (if jget ''confirmed'' v = Undef then [] else [(''confirmed'', p_bool (jget ''confirmed'' v) ''params.confirmed'')])
       @ (if jget ''cancelled'' v = Undef then [] else [(''cancelled'', p_bool (jget ''cancelled'' v) ''params.cancelled'')]))) (\<lambda>r.
     require (jget ''value'' r \<noteq> Undef \<or> jget ''confirmed'' r \<noteq> Undef \<or> jget ''cancelled'' r \<noteq> Undef)
       ''extension UI response requires value, confirmed, or cancelled'' (Inr r)))"

section \<open>Inference\<close>

definition thinking_level :: "js \<Rightarrow> string \<Rightarrow> js result" where
  "thinking_level v path = and_then (p_string v path 16) (\<lambda>x.
     one_of x [''off'', ''minimal'', ''low'', ''medium'', ''high'', ''xhigh'', ''max''] (path @ '' is unsupported''))"

definition inference_selection :: "js \<Rightarrow> string \<Rightarrow> js result" where
  "inference_selection v path = p_record v path (p_exact v [''provider'', ''model'', ''thinkingLevel'', ''fastMode''] path (object_of (
     (if jget ''fastMode'' v = Undef then [] else [(''fastMode'', p_bool (jget ''fastMode'' v) (path @ ''.fastMode''))])
     @ [(''provider'', p_string (jget ''provider'' v) (path @ ''.provider'') 128), (''model'', p_string (jget ''model'' v) (path @ ''.model'') 256),
        (''thinkingLevel'', thinking_level (jget ''thinkingLevel'' v) (path @ ''.thinkingLevel''))])))"

definition set_inference :: "js \<Rightarrow> js result" where
  "set_inference v = session_id_param v [''provider'', ''model'', ''thinkingLevel'', ''expected''] (\<lambda>sid. object_of [(''sessionId'', Inr sid),
     (''provider'', p_string (jget ''provider'' v) ''params.provider'' 128), (''model'', p_string (jget ''model'' v) ''params.model'' 256),
     (''thinkingLevel'', thinking_level (jget ''thinkingLevel'' v) ''params.thinkingLevel''),
     (''expected'', inference_selection (jget ''expected'' v) ''params.expected'')])"

definition set_default_inference :: "js \<Rightarrow> js result" where
  "set_default_inference v = p_params v [''target'', ''apply''] (object_of [(''target'', p_string (jget ''target'' v) ''params.target'' 256),
     (''apply'', p_bool (jget ''apply'' v) ''params.apply'')])"

definition set_fast_mode :: "js \<Rightarrow> js result" where
  "set_fast_mode v = session_id_param v [''fastMode'', ''expected''] (\<lambda>sid.
     and_then (inference_selection (jget ''expected'' v) ''params.expected'') (\<lambda>expected.
     and_then (p_bool (jget ''fastMode'' expected) ''params.expected.fastMode'') (\<lambda>_.
     object_of [(''sessionId'', Inr sid), (''fastMode'', p_bool (jget ''fastMode'' v) ''params.fastMode''), (''expected'', Inr expected)])))"

section \<open>Reading a session\<close>

definition url_char :: "char \<Rightarrow> bool" where
  "url_char c \<longleftrightarrow> alnum c \<or> c = CHR ''_'' \<or> c = CHR ''-''"

definition visible_messages :: "js \<Rightarrow> js result" where
  "visible_messages v = session_id_param v [''before'', ''limit''] (\<lambda>sid.
     and_then (default_to Undef (jget ''before'' v) (\<lambda>x. p_string x ''params.before'' 2048)) (\<lambda>before.
     require (before = Undef \<or> list_all url_char (text_of before)) ''params.before is invalid''
       (object_of ([(''sessionId'', Inr sid)] @ (if before = Undef then [] else [(''before'', Inr before)])
         @ (if jget ''limit'' v = Undef then [] else [(''limit'', p_integer (jget ''limit'' v) ''params.limit'' 1 100)])))))"

definition actor_entries :: "js \<Rightarrow> js result" where
  "actor_entries v = session_id_param v [''since''] (\<lambda>sid. object_of [(''sessionId'', Inr sid), (''since'', p_or_null (jget ''since'' v) ''params.since'' 128)])"

definition provision_skill_runtime :: "js \<Rightarrow> js result" where
  "provision_skill_runtime v = p_params v [''fingerprint''] (and_then (p_string (jget ''fingerprint'' v) ''params.fingerprint'' 64) (\<lambda>x.
     require (matches (\<lambda>c. alnum c \<and> c \<notin> set ''ABCDEFGHIJKLMNOPQRSTUVWXYZghijklmnopqrstuvwxyz'') 64 64 (text_of x)) ''params.fingerprint must be a lowercase SHA-256 digest''
       (Inr (JObj [(''fingerprint'', x)]))))"

definition history_keys :: "js \<Rightarrow> string list" where
  "history_keys operation =
     (if operation = JStr ''list'' then [''operation'', ''sessionId'', ''kind'', ''includeDeleted'', ''includeCurrent'', ''limit'']
      else if operation = JStr ''search'' then [''operation'', ''sessionId'', ''kind'', ''includeDeleted'', ''includeCurrent'', ''query'', ''roles'', ''limit'', ''sort'', ''snippetChars'', ''refresh'']
      else [''operation'', ''sessionId'', ''entryId'', ''includeDeleted'', ''includeCurrent'', ''before'', ''after'', ''maxChars'', ''refresh''])"

definition bool_flag :: "js \<Rightarrow> string \<Rightarrow> js result" where
  "bool_flag v k = default_to (JBool False) (jget k v) (\<lambda>x. p_bool x (''params.'' @ k))"

definition int_default :: "int \<Rightarrow> js \<Rightarrow> string \<Rightarrow> int \<Rightarrow> int \<Rightarrow> js result" where
  "int_default d v k lo hi = default_to (jint d) (jget k v) (\<lambda>x. p_integer x (''params.'' @ k) lo hi)"

text \<open>C0 and C1 control characters.\<close>

definition control_code :: "char \<Rightarrow> bool" where
  "control_code c \<longleftrightarrow> (let n = of_char c :: nat in n \<le> 31 \<or> (127 \<le> n \<and> n \<le> 159))"

definition history_search :: "js \<Rightarrow> js \<Rightarrow> js \<Rightarrow> js \<Rightarrow> js \<Rightarrow> js \<Rightarrow> js \<Rightarrow> js \<Rightarrow> js result" where
  "history_search v operation deleted current refresh kind sid limit =
     (and_then (if jget ''roles'' v = Undef then Inr (JArr [JStr ''user'', JStr ''assistant''])
        else p_array (jget ''roles'' v) ''params.roles'' 2 (\<lambda>x i. p_string x (item_path ''params.roles'' i) 16)) (\<lambda>roles.
      require (js_items roles \<noteq> [] \<and> distinct (js_items roles) \<and> list_all (\<lambda>r. r = JStr ''user'' \<or> r = JStr ''assistant'') (js_items roles))
        ''params.roles must contain unique user and/or assistant roles''
      (and_then (one_of (coalesce (jget ''sort'' v) (JStr ''relevance'')) [''relevance'', ''newest'', ''oldest''] ''params.sort must be relevance, newest, or oldest'') (\<lambda>order.
       and_then (p_utf8 (jget ''query'' v) ''params.query'' 512) (\<lambda>query.
       require (\<not> list_ex control_code (text_of query)) ''params.query must not contain control characters''
         (object_of [(''operation'', Inr operation), (''refresh'', Inr refresh), (''query'', Inr query), (''sessionId'', Inr sid), (''kind'', Inr kind),
           (''includeDeleted'', Inr deleted), (''includeCurrent'', Inr current), (''roles'', Inr roles), (''limit'', Inr limit), (''sort'', Inr order),
           (''snippetChars'', int_default 320 v ''snippetChars'' 80 800)]))))))"

definition session_history_params :: "js \<Rightarrow> js result" where
  "session_history_params v = p_record v ''params''
     (and_then (p_string (jget ''operation'' v) ''params.operation'' 16) (\<lambda>operation.
      and_then (one_of operation [''list'', ''search'', ''open''] ''params.operation must be list, search, or open'') (\<lambda>_.
      p_exact v (history_keys operation) ''params''
      (and_then (bool_flag v ''includeDeleted'') (\<lambda>deleted.
       and_then (bool_flag v ''includeCurrent'') (\<lambda>current.
       and_then (bool_flag v ''refresh'') (\<lambda>refresh.
       if operation = JStr ''open'' then
         object_of [(''operation'', Inr operation), (''refresh'', Inr refresh), (''sessionId'', p_string (jget ''sessionId'' v) ''params.sessionId'' 128),
           (''entryId'', p_string (jget ''entryId'' v) ''params.entryId'' 128), (''includeDeleted'', Inr deleted), (''includeCurrent'', Inr current),
           (''before'', int_default 2 v ''before'' 0 8), (''after'', int_default 2 v ''after'' 0 8), (''maxChars'', int_default 8000 v ''maxChars'' 256 16000)]
       else
        and_then (one_of (coalesce (jget ''kind'' v) (JStr ''any'')) [''any'', ''root'', ''child''] ''params.kind must be any, root, or child'') (\<lambda>kind.
        and_then (default_to Null (jget ''sessionId'' v) (\<lambda>x. p_string x ''params.sessionId'' 128)) (\<lambda>sid.
        and_then (int_default (if operation = JStr ''list'' then 20 else 8) v ''limit'' 1 20) (\<lambda>limit.
        if operation = JStr ''list'' then
          Inr (JObj [(''operation'', operation), (''sessionId'', sid), (''kind'', kind), (''includeDeleted'', deleted), (''includeCurrent'', current), (''limit'', limit)])
        else history_search v operation deleted current refresh kind sid limit))))))))))"

section \<open>Jobs\<close>

definition cron_schedule_params :: "js \<Rightarrow> string \<Rightarrow> js result" where
  "cron_schedule_params v path = p_record v path
     (and_then (p_string (jget ''kind'' v) (path @ ''.kind'') 16) (\<lambda>kind.
      and_then (default_to Undef (jget ''timezone'' v) (\<lambda>x. p_string x (path @ ''.timezone'') 128)) (\<lambda>zone.
      let tz = (if zone = Undef then [] else [(''timezone'', Inr zone)]) in
      if kind = JStr ''at'' then p_exact v [''kind'', ''at'', ''timezone''] path
        (object_of ([(''kind'', Inr kind), (''at'', p_string (jget ''at'' v) (path @ ''.at'') 128)] @ tz))
      else if kind = JStr ''every'' then p_exact v [''kind'', ''intervalSeconds'', ''timezone''] path
        (object_of ([(''kind'', Inr kind), (''intervalSeconds'', p_integer (jget ''intervalSeconds'' v) (path @ ''.intervalSeconds'') 1 31622400)] @ tz))
      else if kind = JStr ''cron'' then p_exact v [''kind'', ''expression'', ''timezone''] path
        (object_of ([(''kind'', Inr kind), (''expression'', p_string (jget ''expression'' v) (path @ ''.expression'') 256)] @ tz))
      else invalid (path @ ''.kind must be at, every, or cron''))))"

definition optional_provider_model :: "js \<Rightarrow> (string \<times> js result) list result" where
  "optional_provider_model v =
     require (jhas ''provider'' v = jhas ''model'' v) ''params.provider and params.model must be supplied together''
      (if \<not> jhas ''provider'' v then Inr []
       else and_then (p_or_null (jget ''provider'' v) ''params.provider'' 128) (\<lambda>provider.
        and_then (p_or_null (jget ''model'' v) ''params.model'' 256) (\<lambda>model.
        require ((provider = Null) = (model = Null)) ''params.provider and params.model must be supplied together''
          (Inr [(''provider'', Inr provider), (''model'', Inr model)]))))"

definition optional_thinking_level :: "js \<Rightarrow> (string \<times> js result) list" where
  "optional_thinking_level v =
     (if \<not> jhas ''thinkingLevel'' v then []
      else if nullish (jget ''thinkingLevel'' v) then [(''thinkingLevel'', Inr Null)]
      else [(''thinkingLevel'', thinking_level (jget ''thinkingLevel'' v) ''params.thinkingLevel'')])"

definition cron_check_params :: "js \<Rightarrow> (string \<times> js result) list" where
  "cron_check_params v =
     (if \<not> jhas ''check'' v then []
      else if jget ''check'' v = Null then [(''check'', Inr Null)]
      else (let item = jget ''check'' v in [(''check'', p_record item ''params.check'' (p_exact item [''command'', ''timeoutSeconds''] ''params.check''
        (object_of ([(''command'', p_utf8 (jget ''command'' item) ''params.check.command'' 4096)]
          @ (if jget ''timeoutSeconds'' item = Undef then [] else [(''timeoutSeconds'', p_integer (jget ''timeoutSeconds'' item) ''params.check.timeoutSeconds'' 1 120)])))))]))"

definition cron_report :: "js \<Rightarrow> js \<Rightarrow> js result" where
  "cron_report v action = p_exact v [''action'', ''runId'', ''disposition'', ''body''] ''params''
     (and_then (one_of (jget ''disposition'' v) [''deliver'', ''no_finding''] ''invalid cron disposition'') (\<lambda>d.
      require (d \<noteq> JStr ''no_finding'' \<or> jget ''body'' v = Undef) ''no_finding does not accept a body''
      (and_then (if d = JStr ''deliver'' then p_string (jget ''body'' v) ''params.body'' 1000 else Inr Null) (\<lambda>body.
       require (body = Null \<or> js_trim (text_of body) \<noteq> [] \<and> \<not> list_ex control_char (text_of body)) ''cron body must be plain nonblank text without control characters''
         (object_of [(''action'', Inr action), (''runId'', p_string (jget ''runId'' v) ''params.runId'' 128), (''disposition'', Inr d), (''body'', Inr body)])))))"

definition job_keys :: "string list" where
  "job_keys = [''action'', ''name'', ''prompt'', ''schedule'', ''executionMode'', ''repeat'', ''provider'', ''model'', ''thinkingLevel'', ''notificationIntent'', ''check'']"

definition exec_modes :: "string list" where
  "exec_modes = [''fresh'', ''origin'']"

definition cron_create :: "js \<Rightarrow> js \<Rightarrow> js result" where
  "cron_create v action = p_exact v job_keys ''params''
     (and_then (one_of (coalesce (jget ''executionMode'' v) (JStr ''fresh'')) exec_modes ''params.executionMode must be fresh or origin'') (\<lambda>mode.
      and_then (literal [(''action'', Inr action), (''name'', p_utf8 (jget ''name'' v) ''params.name'' 128), (''prompt'', p_utf8 (jget ''prompt'' v) ''params.prompt'' 32768),
        (''schedule'', cron_schedule_params (jget ''schedule'' v) ''params.schedule''), (''executionMode'', Inr mode),
        (''notificationIntent'', Inr (coalesce (jget ''notificationIntent'' v) Null)),
        (''repeat'', if nullish (jget ''repeat'' v) then Inr Null else p_integer (jget ''repeat'' v) ''params.repeat'' 1 1000000)]) (\<lambda>base.
      and_then (optional_provider_model v) (\<lambda>pin.
      and_then (literal (pin @ optional_thinking_level v @ cron_check_params v)) (\<lambda>more. Inr (JObj (base @ more)))))))"

definition given :: "js \<Rightarrow> string \<Rightarrow> js result \<Rightarrow> (string \<times> js result) list" where
  "given v k r = (if jget k v = Undef then [] else [(k, r)])"

definition cron_update :: "js \<Rightarrow> js \<Rightarrow> js \<Rightarrow> js result" where
  "cron_update v action selector = p_exact v (''selector'' # job_keys) ''params''
     (require (jget ''executionMode'' v = Undef \<or> (\<exists>s \<in> set exec_modes. jget ''executionMode'' v = JStr s)) ''params.executionMode must be fresh or origin''
     (and_then (optional_provider_model v) (\<lambda>pin.
      and_then (literal (optional_thinking_level v)) (\<lambda>thinking.
      require (\<exists>k \<in> {''name'', ''prompt'', ''schedule'', ''executionMode'', ''repeat'', ''notificationIntent'', ''check''}. jget k v \<noteq> Undef \<or> pin \<noteq> [] \<or> thinking \<noteq> [])
        ''cron update requires at least one changed field''
        (object_of ([(''action'', Inr action), (''selector'', Inr selector)]
          @ given v ''name'' (p_utf8 (jget ''name'' v) ''params.name'' 128) @ given v ''prompt'' (p_utf8 (jget ''prompt'' v) ''params.prompt'' 32768)
          @ given v ''schedule'' (cron_schedule_params (jget ''schedule'' v) ''params.schedule'')
          @ given v ''executionMode'' (Inr (jget ''executionMode'' v)) @ given v ''notificationIntent'' (Inr (jget ''notificationIntent'' v))
          @ given v ''repeat'' (if jget ''repeat'' v = Null then Inr Null else p_integer (jget ''repeat'' v) ''params.repeat'' 1 1000000)
          @ pin @ map (\<lambda>(k, x). (k, Inr x)) thinking @ cron_check_params v))))))"

definition cron_job_params :: "js \<Rightarrow> js result" where
  "cron_job_params v = p_record v ''params''
     (and_then (p_string (jget ''action'' v) ''params.action'' 16) (\<lambda>action.
      and_then (one_of action [''create'', ''list'', ''update'', ''pause'', ''resume'', ''run'', ''remove'', ''history'', ''report''] ''params.action is unsupported'') (\<lambda>_.
      if action = JStr ''report'' then cron_report v action
      else require (jget ''notificationIntent'' v = Undef \<or> (\<exists>s \<in> {''result'', ''conditional'', ''silent''}. jget ''notificationIntent'' v = JStr s)) ''invalid cron notification intent''
       (if action = JStr ''list'' then p_exact v [''action'', ''includeRemoved''] ''params''
          (object_of [(''action'', Inr action), (''includeRemoved'', bool_flag v ''includeRemoved'')])
        else if action = JStr ''create'' then cron_create v action
        else and_then (p_string (jget ''selector'' v) ''params.selector'' 256) (\<lambda>selector.
          if action = JStr ''update'' then cron_update v action selector
          else if action = JStr ''history'' then p_exact v [''action'', ''selector'', ''limit''] ''params''
            (object_of [(''action'', Inr action), (''selector'', Inr selector), (''limit'', int_default 20 v ''limit'' 1 50)])
          else p_exact v [''action'', ''selector''] ''params'' (Inr (JObj [(''action'', action), (''selector'', selector)])))))))"

section \<open>Notifications\<close>

definition lower_hex :: "char \<Rightarrow> bool" where
  "lower_hex c \<longleftrightarrow> c \<in> set ''0123456789abcdef''"

definition notification_identity :: "js \<Rightarrow> string \<Rightarrow> js result" where
  "notification_identity v label = and_then (p_string v label 64) (\<lambda>x.
     require (matches lower_hex 64 64 (text_of x)) (label @ '' must be a notification identity'') (Inr x))"

definition attention_key :: "string \<Rightarrow> bool" where
  "attention_key s \<longleftrightarrow> (case s of [] \<Rightarrow> False | c # r \<Rightarrow> alnum c \<and> list_all (\<lambda>x. alnum x \<or> x \<in> set ''._:-'') r)"

definition attention_request :: "bool \<Rightarrow> js \<Rightarrow> js result" where
  "attention_request resolve v = p_params v (if resolve then [''key''] else [''key'', ''title'', ''body'', ''expiresIn''])
     (and_then (p_string (jget ''key'' v) ''params.key'' 128) (\<lambda>key.
      require (attention_key (text_of key)) ''params.key must be a stable identifier''
      (if resolve then Inr (JObj [(''key'', key)])
       else and_then (p_string (jget ''title'' v) ''params.title'' 120) (\<lambda>title.
        and_then (p_string (jget ''body'' v) ''params.body'' 1000) (\<lambda>body.
        require (list_all (\<lambda>x. js_trim (text_of x) \<noteq> [] \<and> \<not> list_ex control_char (text_of x)) [title, body])
          ''attention text must be plain nonblank text without control characters''
          (object_of [(''key'', Inr key), (''title'', Inr title), (''body'', Inr body), (''expiresIn'', int_default 86400 v ''expiresIn'' 1 604800)]))))))"

definition notification_param :: "js \<Rightarrow> js result" where
  "notification_param v = p_params v [''id''] (object_of [(''id'', notification_identity (jget ''id'' v) ''params.id'')])"

definition list_notifications_params :: "js \<Rightarrow> js result" where
  "list_notifications_params v = p_params v [''limit'', ''before'', ''view'']
     (and_then (one_of (if jget ''view'' v = Undef then JStr ''all'' else jget ''view'' v) [''all'', ''inbox'', ''history''] ''params.view must be all, inbox, or history'') (\<lambda>view.
      object_of [(''limit'', int_default 100 v ''limit'' 1 100), (''before'', int_default max_safe v ''before'' 1 max_safe), (''view'', Inr view)]))"

definition claim_delivery_params :: "js \<Rightarrow> js result" where
  "claim_delivery_params v = p_params v [''endpointIds'']
     (and_then (p_array (jget ''endpointIds'' v) ''params.endpointIds'' 8 (\<lambda>x i. notification_identity x ''params.endpointIds[]'')) (\<lambda>ids.
      Inr (JObj [(''endpointIds'', JArr (rev (remdups (rev (js_items ids)))))])))"

definition record_delivery_params :: "js \<Rightarrow> js result" where
  "record_delivery_params v = p_params v [''id'', ''endpointId'', ''leaseId'', ''status'']
     (and_then (one_of (jget ''status'' v) [''accepted'', ''retry'', ''gone'', ''failed'', ''suppressed''] ''invalid delivery status'') (\<lambda>status.
      object_of [(''id'', notification_identity (jget ''id'' v) ''params.id''), (''endpointId'', notification_identity (jget ''endpointId'' v) ''params.endpointId''),
        (''leaseId'', p_string (jget ''leaseId'' v) ''params.leaseId'' 128), (''status'', Inr status)]))"

section \<open>Turn failures\<close>

definition failure_classes :: "string list" where
  "failure_classes = [''prompt_preparation'', ''request_preparation'', ''compaction_failed'', ''turn_failed'']"

definition dispatch_boundaries :: "string list" where
  "dispatch_boundaries = [''before_provider_dispatch'', ''provider_dispatch_unknown'', ''tool_effects_possible'']"

definition normalize_turn_failure :: "js \<Rightarrow> js result" where
  "normalize_turn_failure v =
     (if is_plain_object v \<and> list_all (\<lambda>k. k \<in> {''version'', ''turnId'', ''failureClass'', ''dispatchBoundary''}) (keys v)
         \<and> jget ''version'' v = JNum (Fin 1) \<and> (case jget ''turnId'' v of JStr s \<Rightarrow> matches (\<lambda>c. alnum c \<or> c = CHR ''-'') 1 128 s | _ \<Rightarrow> False)
         \<and> (\<exists>s \<in> set failure_classes. jget ''failureClass'' v = JStr s) \<and> (\<exists>s \<in> set dispatch_boundaries. jget ''dispatchBoundary'' v = JStr s)
      then Inr (JObj [(''version'', JNum (Fin 1)), (''turnId'', jget ''turnId'' v), (''failureClass'', jget ''failureClass'' v), (''dispatchBoundary'', jget ''dispatchBoundary'' v)])
      else Inl (Thrown ''invalid actor turn failure receipt''))"

end
