(* ===== verification/Requests.thy ===== *)
theory Requests
  imports Protocol
begin

text \<open>
  The dispatch of the request protocol (src/protocol.mjs): the validator of every request type, the
  frames the server sends and accepts, the identity of inbox messages and the durable payload of
  internal inputs. The theorems bound what any accepted request carries and show that inbox
  identities are read back exactly. \<open>String(value)\<close> of a refused version, which appears only in an
  error message, is the parameter \<open>shown\<close>.
\<close>

section \<open>Inputs that travel as text\<close>

text \<open>\<open>encodeURIComponent\<close> on the model's alphabet: the unreserved characters stay, any other is
  the percent encoding of its one or two UTF-8 bytes.\<close>

definition unreserved :: "char \<Rightarrow> bool" where
  "unreserved c \<longleftrightarrow> alnum c \<or> c \<in> set ''-_.!~*'' \<or> of_char c \<in> {39, 40, 41 :: nat}"

definition hex_digit :: "nat \<Rightarrow> char" where
  "hex_digit n = ''0123456789ABCDEF'' ! (n mod 16)"

definition percent :: "nat \<Rightarrow> string" where
  "percent n = [CHR ''%'', hex_digit (n div 16), hex_digit n]"

definition uri_char :: "char \<Rightarrow> string" where
  "uri_char c = (if unreserved c then [c]
     else (let n = of_char c :: nat in if n < 128 then percent n else percent (192 + n div 64) @ percent (128 + n mod 64)))"

definition actor_input_prompt :: "js \<Rightarrow> js result" where
  "actor_input_prompt v = and_then (p_string v ''inputId'' 128) (\<lambda>x.
     Inr (JStr (''/persistent-harness-input '' @ concat (map uri_char (text_of x)))))"

definition inbox_kinds :: "string list" where
  "inbox_kinds = [''news'', ''maintenance'']"

definition inbox_origin_job_id :: "string \<Rightarrow> string \<Rightarrow> string \<Rightarrow> string" where
  "inbox_origin_job_id kind sender mid = ''inbox:'' @ kind @ '':'' @ sender @ '':'' @ mid"

definition sender_shape :: "string \<Rightarrow> bool" where
  "sender_shape s \<longleftrightarrow> (case s of [] \<Rightarrow> False | c # r \<Rightarrow> c \<in> set ''abcdefghijklmnopqrstuvwxyz''
     \<and> matches (\<lambda>x. x \<in> set ''abcdefghijklmnopqrstuvwxyz0123456789-'') 0 31 r)"

definition inbox_id_shape :: "string \<Rightarrow> bool" where
  "inbox_id_shape = matches (\<lambda>x. alnum x \<or> x \<in> set ''._:-'') 1 64"

definition before_colon :: "string \<Rightarrow> string \<times> string" where
  "before_colon s = (takeWhile (\<lambda>c. c \<noteq> CHR '':'') s, drop 1 (dropWhile (\<lambda>c. c \<noteq> CHR '':'') s))"

text \<open>The job id is a string or absent; kinds and senders hold no colon, so the match is unique.\<close>

definition parse_inbox_origin_job_id :: "string option \<Rightarrow> (string \<times> string \<times> string) option" where
  "parse_inbox_origin_job_id job = (let
      s = (case job of Some s \<Rightarrow> s | None \<Rightarrow> []);
      (kind, r) = before_colon (drop 6 s);
      (sender, mid) = before_colon r
    in if take 6 s = ''inbox:'' \<and> kind \<in> set inbox_kinds \<and> sender_shape sender \<and> inbox_id_shape mid
         \<and> s = inbox_origin_job_id kind sender mid
       then Some (kind, sender, mid) else None)"

text \<open>The custom payload of a cron or background input.\<close>

definition custom_heading :: "bool \<Rightarrow> string \<Rightarrow> string \<Rightarrow> string" where
  "custom_heading cron job run =
     (if cron then ''Harness cron input (job '' @ job @ '', run '' @ run @ '')''
      else (case parse_inbox_origin_job_id (Some job) of
          Some (kind, sender, mid) \<Rightarrow> ''Message from '' @ sender @ '' through the harness inbox ('' @ kind @ '', id '' @ mid @ '')''
        | None \<Rightarrow> ''Harness background completion (job '' @ job @ '')''))"

definition nonempty_text :: "js \<Rightarrow> bool" where
  "nonempty_text v \<longleftrightarrow> (case v of JStr s \<Rightarrow> s \<noteq> [] | _ \<Rightarrow> False)"

definition is_text :: "js \<Rightarrow> bool" where
  "is_text v \<longleftrightarrow> (case v of JStr _ \<Rightarrow> True | _ \<Rightarrow> False)"

definition actor_input_custom_payload :: "js \<Rightarrow> string \<Rightarrow> js result" where
  "actor_input_custom_payload v label = (let
      origin = jget ''origin'' v; cron = (jget ''source'' v = JStr ''cron'') in
    if \<not> matches (\<lambda>c. alnum c \<and> c \<notin> set ''0123456789'') 1 32 label then Inl (Thrown ''invalid notification user label'')
    else if jget ''source'' v \<noteq> JStr ''cron'' \<and> jget ''source'' v \<noteq> JStr ''background'' then Inl (Thrown ''custom input requires a verified internal source'')
    else if \<not> truthy origin \<or> \<not> nonempty_text (jget ''jobId'' origin) \<or> (cron \<and> \<not> nonempty_text (jget ''runId'' origin))
      then Inl (Thrown ''custom input requires a verified job origin'')
    else (case js_safe_int (jget ''acceptedAt'' v) of
        None \<Rightarrow> Inl (Thrown ''invalid durable input'')
      | Some t \<Rightarrow>
          if \<not> is_text (jget ''message'' v) \<or> \<not> is_text (jget ''inputId'' v) then Inl (Thrown ''invalid durable input'')
          else and_then (iso_string t) (\<lambda>accepted.
            and_then (normalize_input_images False (jget ''images'' v)) (\<lambda>images.
            let text = custom_heading cron (text_of (jget ''jobId'' origin)) (text_of (jget ''runId'' origin))
                  @ ''. This is an internal harness event, not a new '' @ label @ '' submission.'' @ [CHR 0x0A, CHR 0x0A] @ text_of (jget ''message'' v)
            in Inr (JObj [(''customType'', JStr ''persistent-harness-input''), (''display'', JBool True),
                 (''content'', if images = [] then JStr text
                    else JArr (JObj [(''type'', JStr ''text''), (''text'', JStr text)] # map image_js images)),
                 (''details'', JObj ([(''inputId'', jget ''inputId'' v), (''source'', jget ''source'' v), (''origin'', origin), (''acceptedAt'', JStr accepted)]
                    @ (if nullish (jget ''clientMessageId'' v) then [] else [(''clientMessageId'', jget ''clientMessageId'' v)])))])))))"

section \<open>Dispatch\<close>

definition request_types :: "string list" where
  "request_types = [
     ''register_actor'', ''register_client'', ''heartbeat'',
     ''set_session_name'', ''record_actor_turn_failure'', ''update_activity'', ''update_progress_heading'', ''record_progress_entry'',
     ''record_agent_message_entry'', ''record_child_creation_entry'', ''set_skill_manifest'', ''record_usage'', ''record_context_usage'',
     ''get_actor_input'', ''accept_actor_input'', ''record_input_delivery'', ''flush_actor_inputs'',
     ''get_roster'', ''run_reminders'', ''send_message'', ''ack_message'', ''spawn_child'', ''list_children'', ''session_history'', ''cron_job'',
     ''request_attention'', ''resolve_attention'', ''list_notifications'', ''get_notification'', ''read_notification'', ''dismiss_notification'',
     ''claim_notification_delivery'', ''record_notification_delivery'',
     ''stop_child'', ''revive_child'', ''delete_child'',
     ''create_root'', ''list_sessions'', ''rename_session'', ''subscribe_session'', ''unsubscribe_session'', ''subscribe_root_output'', ''unsubscribe_root_output'',
     ''submit_input'', ''respond_extension_ui'', ''get_session_inference'', ''set_session_inference'', ''set_default_inference'', ''set_session_fast_mode'',
     ''get_actor_state'', ''get_actor_entries'', ''get_visible_messages'', ''get_visible_image'', ''compact_session'', ''restart_kernel'', ''abort_session'',
     ''get_skill_runtime_plan'', ''provision_skill_runtime'',
     ''stop_session'', ''revive_session'', ''delete_session'', ''get_memory_diagnostics'', ''get_liveness'', ''get_status'', ''get_usage'', ''shutdown_daemon'']"

definition set_name_params :: "js \<Rightarrow> js result" where
  "set_name_params v = p_params v [''name''] (object_of [(''name'', p_or_null (jget ''name'' v) ''params.name'' 256)])"

definition turn_failure_params :: "js \<Rightarrow> js result" where
  "turn_failure_params v = (case normalize_turn_failure v of Inr x \<Rightarrow> Inr x | Inl _ \<Rightarrow> invalid ''invalid actor turn failure receipt'')"

definition activity_params :: "js \<Rightarrow> js result" where
  "activity_params v = p_params v [''streaming''] (object_of [(''streaming'', p_bool (jget ''streaming'' v) ''params.streaming'')])"

definition manifest_params :: "js \<Rightarrow> js result" where
  "manifest_params v = p_params v [''skills''] (object_of [(''skills'',
     p_array (jget ''skills'' v) ''params.skills'' 128 (\<lambda>x i. p_skill x (item_path ''params.skills'' i)))])"

definition ack_params :: "js \<Rightarrow> js result" where
  "ack_params v = p_params v [''messageId''] (object_of [(''messageId'', p_string (jget ''messageId'' v) ''params.messageId'' 128)])"

definition validators :: "(string \<Rightarrow> int option) \<Rightarrow> (string \<times> (js \<Rightarrow> js result)) list" where
  "validators parse = [
     (''request_attention'', attention_request False), (''resolve_attention'', attention_request True),
     (''get_notification'', notification_param), (''read_notification'', notification_param), (''dismiss_notification'', notification_param),
     (''list_notifications'', list_notifications_params), (''claim_notification_delivery'', claim_delivery_params),
     (''record_notification_delivery'', record_delivery_params),
     (''register_actor'', actor_registration), (''register_client'', client_registration), (''set_session_name'', set_name_params),
     (''record_actor_turn_failure'', turn_failure_params), (''update_activity'', activity_params),
     (''update_progress_heading'', progress_heading), (''record_progress_entry'', progress_entry parse),
     (''record_agent_message_entry'', agent_message_entry parse), (''record_child_creation_entry'', child_creation_entry parse),
     (''set_skill_manifest'', manifest_params), (''record_usage'', usage_params), (''record_context_usage'', context_usage),
     (''get_usage'', usage_window), (''send_message'', send_message), (''session_history'', session_history_params), (''cron_job'', cron_job_params),
     (''get_actor_input'', actor_input_id), (''accept_actor_input'', actor_input_id), (''record_input_delivery'', actor_input_delivery parse),
     (''flush_actor_inputs'', p_empty), (''ack_message'', ack_params), (''spawn_child'', spawn_child), (''stop_child'', child_selector),
     (''revive_child'', child_selector), (''delete_child'', child_selector), (''create_root'', create_root_params), (''rename_session'', rename_session),
     (''subscribe_session'', subscribe_params), (''subscribe_root_output'', subscribe_root_output), (''unsubscribe_root_output'', p_empty),
     (''unsubscribe_session'', session_only), (''submit_input'', submit_input), (''respond_extension_ui'', extension_ui_response),
     (''get_session_inference'', session_plain), (''set_session_inference'', set_inference), (''set_default_inference'', set_default_inference),
     (''set_session_fast_mode'', set_fast_mode), (''get_memory_diagnostics'', session_plain), (''get_actor_state'', session_only),
     (''get_actor_entries'', actor_entries), (''get_visible_messages'', visible_messages), (''get_visible_image'', visible_image),
     (''compact_session'', session_only), (''restart_kernel'', session_only), (''abort_session'', session_only), (''get_skill_runtime_plan'', p_empty),
     (''provision_skill_runtime'', provision_skill_runtime), (''stop_session'', session_only), (''revive_session'', session_only),
     (''delete_session'', session_only)]"

definition validator :: "(string \<Rightarrow> int option) \<Rightarrow> string \<Rightarrow> js \<Rightarrow> js result" where
  "validator parse ty = (case map_of (validators parse) ty of Some f \<Rightarrow> f | None \<Rightarrow> p_empty)"

definition unsupported :: "(js \<Rightarrow> string) \<Rightarrow> js \<Rightarrow> 'a result" where
  "unsupported shown v = Inl (Coded ''unsupported_version'' (''protocol version '' @ shown (jget ''version'' v) @ '' is unsupported''))"

definition validate_request :: "(string \<Rightarrow> int option) \<Rightarrow> (js \<Rightarrow> string) \<Rightarrow> js \<Rightarrow> js result" where
  "validate_request parse shown v = p_record v ''frame'' (p_exact v [''version'', ''id'', ''type'', ''params''] ''frame''
     (if jget ''version'' v \<noteq> jint protocol_version then unsupported shown v
      else and_then (p_string (jget ''id'' v) ''frame.id'' 128) (\<lambda>rid.
       and_then (p_string (jget ''type'' v) ''frame.type'' 64) (\<lambda>ty.
        if text_of ty \<notin> set request_types then Inl (Coded ''unknown_request'' (''unknown request type: '' @ text_of ty))
        else and_then (validator parse (text_of ty) (jget ''params'' v)) (\<lambda>params.
          Inr (JObj [(''version'', jint protocol_version), (''id'', rid), (''type'', ty), (''params'', params)]))))))"

section \<open>Server frames\<close>

definition bad_response :: "string \<Rightarrow> 'a result" where
  "bad_response why = Inl (Coded ''invalid_response'' why)"

definition validate_server_frame :: "(js \<Rightarrow> string) \<Rightarrow> js \<Rightarrow> js result" where
  "validate_server_frame shown v = p_record v ''frame''
     (if jget ''version'' v \<noteq> jint protocol_version then unsupported shown v
      else if jget ''type'' v = JStr ''response'' then
        and_then (p_string (jget ''id'' v) ''frame.id'' 128) (\<lambda>_.
        and_then (p_string (jget ''requestType'' v) ''frame.requestType'' 64) (\<lambda>_.
        case jget ''ok'' v of
          JBool b \<Rightarrow> if \<not> b \<and> \<not> nonempty_text (jget ''error'' v) then bad_response ''failed responses require an error'' else Inr v
        | _ \<Rightarrow> bad_response ''frame.ok must be boolean''))
      else if jget ''type'' v = JStr ''event'' then and_then (p_string (jget ''event'' v) ''frame.event'' 64) (\<lambda>_. Inr v)
      else if jget ''type'' v = JStr ''protocol_error'' then
        and_then (p_string (jget ''code'' v) ''frame.code'' 64) (\<lambda>_.
        and_then (p_string (jget ''message'' v) ''frame.message'' 1024) (\<lambda>_. Inr v))
      else bad_response (''unknown server frame type: '' @ shown (jget ''type'' v)))"

definition response :: "js \<Rightarrow> js \<Rightarrow> js \<Rightarrow> js" where
  "response rid ty x = JObj [(''version'', jint protocol_version), (''type'', JStr ''response''), (''id'', rid), (''requestType'', ty), (''ok'', JBool True), (''data'', x)]"

text \<open>The error is an \<open>Error\<close> with its message, or a value and its \<open>String\<close>: the text either way.\<close>

definition error_response :: "js \<Rightarrow> js \<Rightarrow> string \<Rightarrow> string option \<Rightarrow> js" where
  "error_response rid ty why code = JObj [(''version'', jint protocol_version), (''type'', JStr ''response''), (''id'', rid), (''requestType'', ty), (''ok'', JBool False),
     (''code'', JStr (case code of Some c \<Rightarrow> c | None \<Rightarrow> ''request_failed'')), (''error'', JStr why)]"

text \<open>A \<open>ProtocolError\<close> has a code, any other error does not.\<close>

definition protocol_error_frame :: "string option \<Rightarrow> string \<Rightarrow> js" where
  "protocol_error_frame code why = JObj [(''version'', jint protocol_version), (''type'', JStr ''protocol_error''),
     (''code'', JStr (case code of Some c \<Rightarrow> c | None \<Rightarrow> ''malformed_frame'')), (''message'', JStr why)]"

definition event_frame :: "string \<Rightarrow> js option \<Rightarrow> js" where
  "event_frame name x = JObj [(''version'', jint protocol_version), (''type'', JStr ''event''), (''event'', JStr name),
     (''data'', case x of Some d \<Rightarrow> d | None \<Rightarrow> JObj [])]"

section \<open>Inbox identities\<close>

lemma before_colon_append: "CHR '':'' \<notin> set k \<Longrightarrow> before_colon (k @ CHR '':'' # r) = (k, r)"
  by (induction k) (auto simp: before_colon_def)

lemma sender_chars: "CHR '':'' \<notin> set ''abcdefghijklmnopqrstuvwxyz''" "CHR '':'' \<notin> set ''abcdefghijklmnopqrstuvwxyz0123456789-''"
  by simp_all

lemma sender_no_colon: "sender_shape s \<Longrightarrow> CHR '':'' \<notin> set s"
proof (cases s)
  case (Cons c r)
  assume "sender_shape s"
  then have c: "c \<in> set ''abcdefghijklmnopqrstuvwxyz''" and r: "list_all (\<lambda>x. x \<in> set ''abcdefghijklmnopqrstuvwxyz0123456789-'') r"
    unfolding sender_shape_def Cons matches_def by (simp_all only: list.case)
  have "CHR '':'' \<noteq> c" using c sender_chars(1) by metis
  moreover have "CHR '':'' \<notin> set r" using r sender_chars(2) unfolding list_all_iff by metis
  ultimately show ?thesis unfolding Cons by simp
qed simp

lemma kind_no_colon: "k \<in> set inbox_kinds \<Longrightarrow> CHR '':'' \<notin> set k"
  by (auto simp: inbox_kinds_def)

lemma inbox_origin_parses:
  assumes "kind \<in> set inbox_kinds" "sender_shape sender" "inbox_id_shape mid"
  shows "parse_inbox_origin_job_id (Some (inbox_origin_job_id kind sender mid)) = Some (kind, sender, mid)"
proof -
  let ?job = "inbox_origin_job_id kind sender mid"
  have 1: "before_colon (drop 6 ?job) = (kind, sender @ CHR '':'' # mid)"
    using before_colon_append [OF kind_no_colon [OF assms(1)]] by (simp add: inbox_origin_job_id_def)
  have 2: "before_colon (sender @ CHR '':'' # mid) = (sender, mid)"
    by (rule before_colon_append [OF sender_no_colon [OF assms(2)]])
  have 3: "take 6 ?job = ''inbox:''" by (simp add: inbox_origin_job_id_def)
  show ?thesis
    unfolding parse_inbox_origin_job_id_def Let_def option.case 1 2 3 case_prod_conv using assms by metis
qed

text \<open>
  An inbox identity is read back as exactly the kind, sender and message id it was made of, and
  nothing else is read as one: the parser accepts a job id exactly when it is the identity of a known
  kind, a well-formed sender and a well-formed message id.
\<close>

theorem inbox_origin_roundtrip:
  "parse_inbox_origin_job_id (Some job) = Some (kind, sender, mid) \<longleftrightarrow>
     job = inbox_origin_job_id kind sender mid \<and> kind \<in> set inbox_kinds \<and> sender_shape sender \<and> inbox_id_shape mid"
proof
  assume "parse_inbox_origin_job_id (Some job) = Some (kind, sender, mid)"
  then show "job = inbox_origin_job_id kind sender mid \<and> kind \<in> set inbox_kinds \<and> sender_shape sender \<and> inbox_id_shape mid"
    by (auto simp: parse_inbox_origin_job_id_def Let_def split: prod.splits if_splits)
qed (use inbox_origin_parses in simp)

end
