(* ===== verification/RequestBounds.thy ===== *)
theory RequestBounds
  imports Requests
begin

text \<open>
  What the request protocol guarantees to the handlers: every frame is refused with a code of the
  protocol or becomes data whose strings and arrays are bounded and whose numbers are finite. The
  rules in \<open>checks\<close> derive it for each validator from the shape of its definition.
\<close>

named_theorems checks \<open>a result is bounded data or a refusal with the code \<open>invalid_request\<close>\<close>

definition max_text :: nat where
  "max_text = 4194304"

fun bounded :: "js \<Rightarrow> bool" where
  "bounded (JStr s) \<longleftrightarrow> length s \<le> max_text"
| "bounded (JNum n) \<longleftrightarrow> (case n of Fin _ \<Rightarrow> True | _ \<Rightarrow> False)"
| "bounded (JArr xs) \<longleftrightarrow> length xs \<le> 512 \<and> list_all bounded xs"
| "bounded (JObj ps) \<longleftrightarrow> list_all (\<lambda>p. bounded (snd p)) ps"
| "bounded JFun \<longleftrightarrow> False"
| "bounded v \<longleftrightarrow> True"

text \<open>An object whose property names differ, as any parsed frame has at every level.\<close>

fun names_distinct :: "js \<Rightarrow> bool" where
  "names_distinct (JArr xs) \<longleftrightarrow> list_all names_distinct xs"
| "names_distinct (JObj ps) \<longleftrightarrow> distinct (map fst ps) \<and> list_all (\<lambda>p. names_distinct (snd p)) ps"
| "names_distinct v \<longleftrightarrow> True"

definition checked :: "('a \<Rightarrow> bool) \<Rightarrow> 'a result \<Rightarrow> bool" where
  "checked P r \<longleftrightarrow> (case r of Inr x \<Rightarrow> P x | Inl e \<Rightarrow> \<exists>m. e = Coded ''invalid_request'' m)"

section \<open>Rules\<close>

lemma checked_simps [simp]: "checked P (Inr x) = P x" "checked P (invalid w)"
  by (simp_all add: checked_def invalid_def)

lemma checked_bind: "checked Q r \<Longrightarrow> (\<And>x. Q x \<Longrightarrow> checked P (f x)) \<Longrightarrow> checked P (and_then r f)"
  by (cases r) (simp_all add: checked_def and_then_def)

lemmas checked_then [checks] = checked_bind [where Q = bounded]

lemma checked_require [checks]: "(c \<Longrightarrow> checked P r) \<Longrightarrow> checked P (require c w r)"
  by (simp add: require_def)

lemma checked_record [checks]: "checked P r \<Longrightarrow> checked P (p_record v path r)"
  by (simp add: p_record_def require_def)

lemma checked_exact [checks]: "checked P r \<Longrightarrow> checked P (p_exact v ks path r)"
  by (simp add: p_exact_def split: option.split)

lemma checked_params [checks]: "checked P r \<Longrightarrow> checked P (p_params v ks r)"
  by (simp add: p_params_def checks)

lemma checked_if [checks]: "(c \<Longrightarrow> checked P a) \<Longrightarrow> (\<not> c \<Longrightarrow> checked P b) \<Longrightarrow> checked P (if c then a else b)"
  by simp

lemma checked_string [simp]: "mx \<le> max_text \<Longrightarrow> checked bounded (p_string v path mx)"
  by (simp add: p_string_def split: js.split)

lemma checked_nullable [simp]: "mx \<le> max_text \<Longrightarrow> checked bounded (p_nullable v path mx)"
  by (simp add: p_nullable_def)

lemma checked_or_null [simp]: "mx \<le> max_text \<Longrightarrow> checked bounded (p_or_null v path mx)"
  by (simp add: p_or_null_def)

lemma checked_utf8 [simp]: "mx \<le> max_text \<Longrightarrow> checked bounded (p_utf8 v path mx)"
  unfolding p_utf8_def by (rule checked_then) (simp_all add: checks)

lemma checked_bool [simp]: "checked bounded (p_bool v path)"
  by (simp add: p_bool_def split: js.split)

lemma checked_integer [simp]: "checked bounded (p_integer v path lo hi)"
  by (simp add: p_integer_def split: option.split)

lemma checked_finite [simp]: "checked bounded (p_finite v path lo hi)"
  by (simp add: p_finite_def split: option.split)

lemma checked_default: "bounded d \<Longrightarrow> checked bounded (f v) \<Longrightarrow> checked bounded (default_to d v f)"
  by (simp add: default_to_def)

lemma checked_flag [simp]: "checked bounded (bool_flag v k)"
  by (simp add: bool_flag_def checked_default)

lemma checked_int_default [simp]: "checked bounded (int_default d v k lo hi)"
  by (simp add: int_default_def checked_default)

lemma checked_one_of [simp]: "list_all (\<lambda>s. length s \<le> max_text) cs \<Longrightarrow> checked bounded (one_of v cs why)"
  by (auto simp: one_of_def require_def list_all_iff)

lemma checked_items: "(\<And>x i. checked bounded (f x i)) \<Longrightarrow> checked (\<lambda>ys. length ys = length xs \<and> list_all bounded ys) (p_items f i xs)"
proof (induction xs arbitrary: i)
  case (Cons x xs)
  show ?case
    unfolding p_items.simps
    by (rule checked_then [OF Cons.prems], rule checked_bind [OF Cons.IH [OF Cons.prems]]) simp
qed simp

lemma checked_array: "mx \<le> 512 \<Longrightarrow> (\<And>x i. checked bounded (f x i)) \<Longrightarrow> checked bounded (p_array v path mx f)"
proof -
  assume mx: "mx \<le> 512" and f: "\<And>x i. checked bounded (f x i)"
  show ?thesis
    using mx by (cases v) (auto simp: p_array_def intro!: checked_require checked_bind [OF checked_items [OF f]])
qed

lemma checked_literal: "list_all (\<lambda>f. checked bounded (snd f)) fs \<Longrightarrow> checked (\<lambda>ps. list_all (\<lambda>p. bounded (snd p)) ps) (literal fs)"
proof (induction fs)
  case (Cons f fs)
  obtain k r where f: "f = (k, r)" by (cases f)
  have r: "checked bounded r" and fs: "list_all (\<lambda>f. checked bounded (snd f)) fs" using Cons.prems by (simp_all add: f)
  show ?case
    unfolding f literal.simps by (rule checked_then [OF r], rule checked_bind [OF Cons.IH [OF fs]]) simp
qed simp

lemma checked_object [checks]: "list_all (\<lambda>f. checked bounded (snd f)) fs \<Longrightarrow> checked bounded (object_of fs)"
  unfolding object_of_def by (rule checked_bind [OF checked_literal]) simp_all

lemma checked_session_id: "(\<And>x. bounded x \<Longrightarrow> checked P (f x)) \<Longrightarrow> checked P (session_id_param v extra f)"
  unfolding session_id_param_def by (intro checks) (simp_all add: max_text_def)

lemma list_all_if: "list_all P (if c then xs else ys) \<longleftrightarrow> (c \<longrightarrow> list_all P xs) \<and> (\<not> c \<longrightarrow> list_all P ys)"
  by simp

lemmas check_simps = max_text_def checked_default checked_array list_all_if

section \<open>The validators\<close>

lemma checked_skill [simp]: "checked bounded (p_skill v path)"
  by (auto simp: p_skill_def check_simps intro!: checks)

lemma checked_model [simp]: "checked bounded (p_model v path)"
proof (cases "p_string (jget ''id'' v) (path @ ''.id'') 256")
  case (Inr x)
  then have "bounded (jget ''id'' v)" by (auto simp: p_string_def max_text_def invalid_def split: js.splits if_splits)
  then show ?thesis by (auto simp: p_model_def check_simps intro!: checks)
next
  case (Inl e)
  obtain m where e: "e = Coded ''invalid_request'' m"
    using checked_string [of 256 "jget ''id'' v" "path @ ''.id''"] Inl by (auto simp: checked_def max_text_def)
  moreover have "checked bounded (p_string (jget ''provider'' v) (path @ ''.provider'') 128)" by (simp add: max_text_def)
  ultimately show ?thesis
    unfolding p_model_def using Inl e
    by (intro checked_record checked_exact) (auto simp: object_of_def and_then_def checked_def split: sum.splits)
qed

lemma checked_actor_registration [simp]: "checked bounded (actor_registration v)"
  by (auto simp: actor_registration_def check_simps intro!: checks checked_session_id)

lemma checked_client_registration [simp]: "checked bounded (client_registration v)"
  by (auto simp: client_registration_def check_simps intro!: checks checked_session_id)

lemma checked_session_plain [simp]: "checked bounded (session_plain v)"
  by (auto simp: session_plain_def check_simps intro!: checks checked_session_id)

lemma checked_child_selector [simp]: "checked bounded (child_selector v)"
  by (auto simp: child_selector_def check_simps intro!: checks checked_session_id)

lemma checked_create_root_params [simp]: "checked bounded (create_root_params v)"
  by (auto simp: create_root_params_def check_simps intro!: checks checked_session_id)

lemma checked_rename_session [simp]: "checked bounded (rename_session v)"
  by (auto simp: rename_session_def check_simps intro!: checks checked_session_id)

lemma checked_subscribe_params [simp]: "checked bounded (subscribe_params v)"
  by (auto simp: subscribe_params_def check_simps intro!: checks checked_session_id)

lemma checked_subscribe_root_output [simp]: "checked bounded (subscribe_root_output v)"
  by (auto simp: subscribe_root_output_def check_simps intro!: checks checked_session_id)

lemma checked_send_message [simp]: "checked bounded (send_message v)"
  by (auto simp: send_message_def check_simps intro!: checks checked_session_id)

lemma checked_usage_window [simp]: "checked bounded (usage_window v)"
  by (auto simp: usage_window_def check_simps intro!: checks checked_session_id)

lemma checked_context_usage [simp]: "checked bounded (context_usage v)"
  by (auto simp: context_usage_def check_simps intro!: checks checked_session_id)

lemma checked_progress_heading [simp]: "checked bounded (progress_heading v)"
  by (auto simp: progress_heading_def check_simps intro!: checks checked_session_id)

lemma checked_visible_image [simp]: "checked bounded (visible_image v)"
  by (auto simp: visible_image_def check_simps intro!: checks checked_session_id)

lemma checked_actor_input_id [simp]: "checked bounded (actor_input_id v)"
  by (auto simp: actor_input_id_def check_simps intro!: checks checked_session_id)

lemma checked_set_default_inference [simp]: "checked bounded (set_default_inference v)"
  by (auto simp: set_default_inference_def check_simps intro!: checks checked_session_id)

lemma checked_visible_messages [simp]: "checked bounded (visible_messages v)"
  by (auto simp: visible_messages_def check_simps intro!: checks checked_session_id)

lemma checked_actor_entries [simp]: "checked bounded (actor_entries v)"
  by (auto simp: actor_entries_def check_simps intro!: checks checked_session_id)

lemma checked_provision_skill_runtime [simp]: "checked bounded (provision_skill_runtime v)"
  by (auto simp: provision_skill_runtime_def check_simps intro!: checks checked_session_id)

lemma checked_identity [simp]: "checked bounded (notification_identity v label)"
  by (auto simp: notification_identity_def check_simps intro!: checks)

lemma checked_notification_param [simp]: "checked bounded (notification_param v)"
  by (auto simp: notification_param_def check_simps intro!: checks checked_session_id)

lemma checked_list_notifications_params [simp]: "checked bounded (list_notifications_params v)"
  by (auto simp: list_notifications_params_def check_simps intro!: checks checked_session_id)

lemma checked_set_name_params [simp]: "checked bounded (set_name_params v)"
  by (auto simp: set_name_params_def check_simps intro!: checks checked_session_id)

lemma checked_activity_params [simp]: "checked bounded (activity_params v)"
  by (auto simp: activity_params_def check_simps intro!: checks checked_session_id)

lemma checked_ack_params [simp]: "checked bounded (ack_params v)"
  by (auto simp: ack_params_def check_simps intro!: checks checked_session_id)

lemma checked_time [simp]: "checked bounded (p_time parse v path)"
  by (auto simp: p_time_def check_simps intro!: checks)

lemma checked_level [simp]: "checked bounded (thinking_level v path)"
  by (auto simp: thinking_level_def check_simps intro!: checks)

lemma checked_selection [simp]: "checked bounded (inference_selection v path)"
  by (auto simp: inference_selection_def check_simps intro!: checks)

lemma bounded_birth [simp]: "conversation_birth parse v = Some b \<Longrightarrow> bounded (birth_js b)"
  by (auto simp: conversation_birth_def birth_js_def max_text_def split: js.splits option.splits if_splits)

lemma length_utf8: "length s \<le> utf8_len s"
  by (induction s) (auto simp: utf8_len_def)

lemma bounded_string: "utf8_len s \<le> 32768 \<Longrightarrow> bounded (JStr s)"
  using length_utf8 [of s] by (simp add: max_text_def)

lemma bounded_text: "(case v of JStr s \<Rightarrow> utf8_len s \<le> 32768 \<and> P s | _ \<Rightarrow> False) \<Longrightarrow> bounded v"
  using bounded_string by (cases v) simp_all

lemma bounded_plain_text: "(case v of JStr s \<Rightarrow> utf8_len s \<le> 32768 | _ \<Rightarrow> False) \<Longrightarrow> bounded v"
  using bounded_string by (cases v) simp_all

lemma bounded_items: "bounded x \<Longrightarrow> length (js_items x) \<le> 512 \<and> list_all bounded (js_items x)"
  by (cases x) (simp_all add: js_items_def)

lemma bounded_unique: "bounded x \<Longrightarrow> checked bounded (Inr (JObj [(k, JArr (rev (remdups (rev (js_items x)))))]))"
  using bounded_items [of x] length_remdups_leq [of "rev (js_items x)"] by (auto simp: list_all_iff)

lemma checked_set_inference [simp]: "checked bounded (set_inference v)"
  by (auto simp: set_inference_def check_simps intro!: checks checked_session_id split: option.split)

lemma checked_set_fast_mode [simp]: "checked bounded (set_fast_mode v)"
  by (auto simp: set_fast_mode_def check_simps intro!: checks checked_session_id split: option.split)

lemma checked_manifest_params [simp]: "checked bounded (manifest_params v)"
  by (auto simp: manifest_params_def check_simps intro!: checks checked_session_id split: option.split)

lemma checked_progress_entry [simp]: "checked bounded (progress_entry parse v)"
  by (auto simp: progress_entry_def check_simps intro!: checks checked_session_id split: option.split)

lemma checked_agent_message_entry [simp]: "checked bounded (agent_message_entry parse v)"
  by (auto simp: agent_message_entry_def check_simps intro!: checks checked_session_id split: option.split)

lemma checked_child_creation_entry [simp]: "checked bounded (child_creation_entry parse v)"
  by (auto simp: child_creation_entry_def check_simps intro!: checks checked_session_id split: option.split)

lemma checked_actor_input_delivery [simp]: "checked bounded (actor_input_delivery parse v)"
  by (auto simp: actor_input_delivery_def check_simps intro!: checks checked_session_id split: option.split)

lemma checked_spawn_child [simp]: "checked bounded (spawn_child v)"
  by (auto simp: spawn_child_def check_simps intro!: checks checked_session_id split: option.split)

lemma checked_record_delivery_params [simp]: "checked bounded (record_delivery_params v)"
  by (auto simp: record_delivery_params_def check_simps intro!: checks checked_session_id split: option.split)

lemma checked_attention_request [simp]: "checked bounded (attention_request resolve v)"
  by (auto simp: attention_request_def check_simps intro!: checks checked_session_id split: option.split)

lemma checked_history_search: "list_all bounded [a, b, c, d, e, f, g] \<Longrightarrow> checked bounded (history_search v a b c d e f g)"
  by (auto simp: history_search_def check_simps intro!: checks)

lemma checked_session_history [simp]: "checked bounded (session_history_params v)"
  by (auto simp: session_history_params_def check_simps checked_history_search intro!: checks)

lemma checked_usage_params [simp]: "checked bounded (usage_params v)"
  by (auto simp: usage_params_def count_field_def check_simps intro!: checks checked_session_id split: option.split)

lemma checked_extension_ui_response [simp]: "checked bounded (extension_ui_response v)"
  by (auto simp: extension_ui_response_def check_simps bounded_plain_text intro!: checks checked_session_id split: option.split)

lemma checked_claim_delivery_params [simp]: "checked bounded (claim_delivery_params v)"
  unfolding claim_delivery_params_def
  by (rule checked_params, rule checked_then [OF checked_array]) (rule order_refl [THEN order_trans], simp, rule checked_identity, rule bounded_unique)

section \<open>Jobs and submissions\<close>

lemma bounded_member: "(\<exists>s \<in> S. v = JStr s) \<Longrightarrow> (\<And>s. s \<in> S \<Longrightarrow> length s \<le> max_text) \<Longrightarrow> bounded v"
  by auto

lemma checked_cron_schedule [simp]: "checked bounded (cron_schedule_params v path)"
  by (auto simp: cron_schedule_params_def check_simps Let_def intro!: checks)

lemma checked_cron_report [simp]: "bounded action \<Longrightarrow> checked bounded (cron_report v action)"
  by (auto simp: cron_report_def check_simps intro!: checks)

lemma checked_thinking: "list_all (\<lambda>f. checked bounded (snd f)) (optional_thinking_level v)"
  by (simp add: optional_thinking_level_def)

lemma checked_check: "list_all (\<lambda>f. checked bounded (snd f)) (cron_check_params v)"
  by (auto simp: cron_check_params_def check_simps Let_def intro!: checks)

lemma checked_values: "list_all (\<lambda>p. bounded (snd p)) ps \<Longrightarrow> list_all (\<lambda>f. checked bounded (snd f)) (map (\<lambda>(k, x). (k, Inr x)) ps)"
  by (induction ps) auto

lemma checked_given: "(jget k v \<noteq> Undef \<Longrightarrow> checked bounded r) \<Longrightarrow> list_all (\<lambda>f. checked bounded (snd f)) (given v k r)"
  by (simp add: given_def)

lemma checked_pin: "checked (list_all (\<lambda>f. checked bounded (snd f))) (optional_provider_model v)"
  by (auto simp: optional_provider_model_def check_simps intro!: checks)

lemma bounded_intent: "jget k v = Undef \<or> (\<exists>s \<in> {''result'', ''conditional'', ''silent''}. jget k v = JStr s) \<Longrightarrow> bounded (jget k v) \<and> bounded (coalesce (jget k v) Null)"
  by (auto simp: max_text_def coalesce_def nullish_def)

lemma bounded_mode: "jget k v = Undef \<or> (\<exists>s \<in> set exec_modes. jget k v = JStr s) \<Longrightarrow> bounded (jget k v)"
  by (auto simp: max_text_def exec_modes_def)

lemma checked_cron_create [simp]:
  assumes "bounded action" "bounded (coalesce (jget ''notificationIntent'' v) Null)"
  shows "checked bounded (cron_create v action)"
  unfolding cron_create_def
  by (rule checked_exact, rule checked_then, simp add: max_text_def exec_modes_def,
      rule checked_bind [OF checked_literal], insert assms, simp add: check_simps,
      rule checked_bind [OF checked_pin], rule checked_bind [OF checked_literal])
    (simp_all add: checked_thinking checked_check)

lemma checked_cron_update [simp]:
  assumes "bounded action" "bounded selector" "bounded (jget ''notificationIntent'' v)"
  shows "checked bounded (cron_update v action selector)"
  unfolding cron_update_def
  by (rule checked_exact, rule checked_require, drule bounded_mode, rule checked_bind [OF checked_pin],
      rule checked_bind [OF checked_literal [OF checked_thinking]], rule checked_require, rule checked_object)
    (use assms in \<open>simp add: checked_given checked_values checked_check max_text_def\<close>)

lemma checked_cron_job [simp]: "checked bounded (cron_job_params v)"
  unfolding cron_job_params_def
  apply (rule checked_record, rule checked_then, simp add: max_text_def, rule checked_then, simp add: max_text_def)
  apply (rule checked_if, simp, rule checked_require, drule bounded_intent, rule checked_if)
   apply (rule checked_exact, rule checked_object, simp)
  apply (rule checked_if, simp, rule checked_then, simp add: max_text_def)
  apply (rule checked_if, simp, rule checked_if)
   apply (rule checked_exact, rule checked_object, simp)
  apply (rule checked_exact, simp)
  done

lemma images_plain: "normalize_images_from False i n raws = Inr ims \<Longrightarrow> list_all (\<lambda>im. im_meta im = None) ims"
proof (induction raws arbitrary: i n ims)
  case (Cons raw raws)
  then show ?case using normalize_imageD [of False i n raw] by (auto split: sum.splits prod.splits)
qed simp

lemma bounded_images:
  assumes "normalize_input_images False v = Inr ims"
  shows "bounded (JArr (map image_js ims))"
proof (cases "nullish v")
  case False
  then obtain raws where raws: "length raws \<le> 4" "normalize_images_from False 0 0 raws = Inr ims"
    using assms by (auto simp: normalize_input_images_def max_input_image_count_def not_less split: js.splits if_splits)
  have "bounded (image_js im)" if "im \<in> set ims" for im
    using that normalize_images_fromD [OF raws(2)] images_plain [OF raws(2)] map_of_image_js [of im]
    by (cases "im_type im") (auto simp: list_all_iff image_ok_def max_text_def max_base64_characters_def max_input_image_bytes_def mime_name_def)
  then show ?thesis using normalize_images_fromD [OF raws(2)] raws(1) by (simp add: list_all_iff)
qed (use assms in \<open>simp add: normalize_input_images_def\<close>)

lemma bounded_location: "normalize_input_location v = Inr (Some l) \<Longrightarrow> bounded l"
  by (auto simp: normalize_input_location_def split: js.splits option.splits if_splits)

lemma checked_as_invalid: "(\<And>x. r = Inr x \<Longrightarrow> P x) \<Longrightarrow> checked P (as_invalid r)"
  by (auto simp: as_invalid_def split: sum.split error.split)

lemma checked_content: "checked (list_all (\<lambda>f. checked bounded (snd f))) (submit_content v original retry_of request)"
proof -
  have "checked (list_all (\<lambda>f. checked bounded (snd f))) (and_then (as_invalid (normalize_input_images False (jget ''images'' v))) (\<lambda>images.
        and_then (as_invalid (normalize_input_location (jget ''location'' v))) (\<lambda>location.
        require (case jget ''message'' v of JStr m \<Rightarrow> utf8_len m \<le> 32768 \<and> (m \<noteq> [] \<or> images \<noteq> []) | _ \<Rightarrow> False) w
          (Inr ([(''message'', Inr (jget ''message'' v)), (''images'', Inr (JArr (map image_js images)))]
            @ (case location of Some l \<Rightarrow> [(''location'', Inr l)] | None \<Rightarrow> []))))))" for w
    by (rule checked_bind [where Q = "\<lambda>ims. bounded (JArr (map image_js ims))", OF checked_as_invalid [OF bounded_images]], assumption,
        rule checked_bind [where Q = "\<lambda>l. case l of Some x \<Rightarrow> bounded x | None \<Rightarrow> True", OF checked_as_invalid])
      (auto dest: bounded_location bounded_text intro!: checked_require split: option.splits)
  then show ?thesis by (simp add: submit_content_def checked_require)
qed

lemma checked_submit [simp]: "checked bounded (submit_input v)"
  unfolding submit_input_def
  by (intro checked_session_id checked_then checked_bind [OF checked_content] checked_require checked_object)
    (auto simp: check_simps)

section \<open>The guarantee\<close>

lemma names_distinct_get: "names_distinct v \<Longrightarrow> names_distinct (jget k v)"
  by (cases v) (auto simp: jget_def list_all_iff split: option.split dest!: map_of_SomeD bspec)

lemma only_key:
  assumes "names_distinct v" "list_all (\<lambda>k'. k' = k) (keys v)" "is_plain_object v" "bounded (jget k v)"
  shows "bounded v"
proof -
  obtain ps where v: "v = JObj ps" using assms(3) by (cases v) (simp_all add: is_plain_object_def)
  have d: "distinct (map fst ps)" using assms(1) by (simp add: v)
  have "bounded (snd p)" if "p \<in> set ps" for p
  proof -
    have "fst p = k" using assms(2) that by (auto simp: v keys_def list_all_iff)
    then have "map_of ps k = Some (snd p)" using d that by (metis map_of_is_SomeI prod.collapse)
    then show ?thesis using assms(4) by (simp add: v jget_def)
  qed
  then show ?thesis by (simp add: v list_all_iff)
qed

lemma checked_keys: "(is_plain_object v \<Longrightarrow> list_all (\<lambda>k. k \<in> set ks) (keys v) \<Longrightarrow> checked P r) \<Longrightarrow> checked P (p_params v ks r)"
  by (auto simp: p_params_def p_record_def p_exact_def require_def list_all_iff find_None_iff split: option.split)

lemma checked_same: "mx \<le> max_text \<Longrightarrow> checked (\<lambda>x. bounded x \<and> x = v) (p_string v path mx)"
  by (simp add: p_string_def split: js.split)

lemma checked_session_only: "names_distinct v \<Longrightarrow> checked bounded (session_only v)"
  unfolding session_only_def session_id_param_def
  by (rule checked_keys, rule checked_bind [OF checked_same]) (auto simp: max_text_def intro: only_key)

lemma checked_empty: "checked bounded (p_empty v)"
  unfolding p_empty_def
proof (rule checked_keys)
  assume "is_plain_object v" "list_all (\<lambda>k. k \<in> set []) (keys v)"
  then have "v = JObj []" by (cases v) (auto simp: keys_def is_plain_object_def list_all_iff)
  then show "checked bounded (Inr v)" by simp
qed

lemma checked_turn_failure [simp]: "checked bounded (turn_failure_params v)"
  by (auto simp: turn_failure_params_def normalize_turn_failure_def max_text_def matches_def failure_classes_def dispatch_boundaries_def split: js.splits if_splits)

lemma checked_validator: "names_distinct v \<Longrightarrow> checked bounded (validator parse ty v)"
proof -
  assume v: "names_distinct v"
  have "list_all (\<lambda>f. checked bounded (snd f v)) (validators parse)"
    by (simp add: validators_def checked_session_only [OF v] checked_empty)
  then show ?thesis by (auto simp: validator_def checked_empty list_all_iff split: option.split dest!: map_of_SomeD)
qed



end
