(* ===== verification/Notifications.thy ===== *)
theory Notifications
  imports Sessions Requests
begin

text \<open>
  The notification store (src/notification-store.mjs): the work episodes of root families and who
  owns them, notifications and their delivery to endpoints. The store reads the session table; the
  hash of a source key (\<open>notificationId\<close>), \<open>Date.parse\<close>, fresh UUIDs and the supervisor's choice of
  roots that notify are arguments. The creation and migration of the schema are not modelled.
\<close>

section \<open>Tables\<close>

datatype owner = OwnUser | OwnCron | OwnUnknown

record family_row =
  nf_root :: string
  nf_episode :: "string option"
  nf_owner :: owner
  nf_opened :: "int option"
  nf_quiet :: "int option"
  nf_closed :: "int option"
  nf_pending_user :: bool
  nf_pending_owner :: "owner option"

record ownership_row =
  ow_seq :: nat
  ow_root :: string
  ow_at :: int
  ow_owner :: owner

record origin_row =
  og_key :: string
  og_root :: string
  og_session :: string
  og_created :: "int option"
  og_owner :: owner
  og_admitted :: bool

datatype notice_kind = IdleNotice | AttentionNotice | CronNotice

datatype notice_state = NtPending | NtResolved | NtCancelled | NtExpired | NtSuperseded

record notice =
  nt_seq :: nat
  nt_id :: string
  nt_key :: string
  nt_root :: string
  nt_session :: string
  nt_episode :: "string option"
  nt_kind :: notice_kind
  nt_title :: string
  nt_body :: string
  nt_created :: int
  nt_expires :: int
  nt_state :: notice_state
  nt_read :: "int option"
  nt_updated :: int
  nt_source :: js
  nt_closed_by :: "string option"

datatype delivery_state = DlPending | DlInflight | DlAccepted | DlFailed | DlSuppressed | DlExpired

record delivery_row =
  dl_notice :: string
  dl_endpoint :: string
  dl_state :: delivery_state
  dl_attempts :: nat
  dl_due :: int
  dl_lease :: "string option"
  dl_until :: "int option"
  dl_code :: "string option"
  dl_accepted :: "int option"
  dl_closed :: "int option"   \<comment> \<open>\<open>close_claimed_at\<close>\<close>

record nstore =
  families :: "family_row list"
  ownership :: "ownership_row list"
  origins :: "origin_row list"
  notices :: "notice list"
  deliveries :: "delivery_row list"

definition empty_nstore :: nstore where
  "empty_nstore = \<lparr>families = [], ownership = [], origins = [], notices = [], deliveries = []\<rparr>"

definition notification_retry_ms :: "int list" where
  "notification_retry_ms = [5000, 30000, 120000, 300000, 900000]"

definition idle_notification_ttl_ms :: int where
  "idle_notification_ttl_ms = 604800000"

definition control_char_blank :: "char \<Rightarrow> char" where
  "control_char_blank c = (if (of_char c :: nat) \<le> 31 \<or> of_char c = (127 :: nat) then CHR '' '' else c)"

definition clean :: "string option \<Rightarrow> nat \<Rightarrow> string" where
  "clean t mx = take mx (js_trim (map control_char_blank (case t of Some s \<Rightarrow> s | None \<Rightarrow> [])))"

definition notice_url :: "notice \<Rightarrow> string" where
  "notice_url n = ''/?session='' @ concat (map uri_char (nt_session n)) @ ''&notification='' @ concat (map uri_char (nt_id n))"

text \<open>
  Rows are inserted in the order of their AUTOINCREMENT numbers and never deleted. The numbers order
  the rows; gaps that a conflicting insert may leave in SQLite's sequence are not represented.
\<close>

definition family_of :: "nstore \<Rightarrow> string \<Rightarrow> family_row option" where
  "family_of s rid = find_row nf_root (families s) rid"

definition open_row :: "family_row \<Rightarrow> bool" where
  "open_row f \<longleftrightarrow> nf_episode f \<noteq> None \<and> nf_closed f = None"

definition blank_family :: "string \<Rightarrow> family_row" where
  "blank_family rid = \<lparr>nf_root = rid, nf_episode = None, nf_owner = OwnUser, nf_opened = None, nf_quiet = None, nf_closed = None,
     nf_pending_user = False, nf_pending_owner = None\<rparr>"

text \<open>\<open>INSERT ... ON CONFLICT(root_id) DO UPDATE\<close>.\<close>

definition upsert_family :: "string \<Rightarrow> family_row \<Rightarrow> (family_row \<Rightarrow> family_row) \<Rightarrow> nstore \<Rightarrow> nstore" where
  "upsert_family rid new f s = (case family_of s rid of
      None \<Rightarrow> s\<lparr>families := add_row new (families s)\<rparr>
    | Some _ \<Rightarrow> s\<lparr>families := modify_row nf_root rid f (families s)\<rparr>)"

section \<open>The family of a session\<close>

record family =
  fm_root :: string
  fm_title :: string
  fm_members :: "session_row list"

text \<open>The walk stops at a session without a parent or at one it has seen; every step sees a new row,
  so as many steps as there are rows and one more reach the end.\<close>

fun family_walk :: "nat \<Rightarrow> session_row list \<Rightarrow> string list \<Rightarrow> session_row option \<Rightarrow> session_row option" where
  "family_walk 0 t seen r = r"
| "family_walk (Suc n) t seen None = None"
| "family_walk (Suc n) t seen (Some r) = (case parent_of r of
      None \<Rightarrow> Some r
    | Some p \<Rightarrow> if s_id r \<in> set seen then Some r else family_walk n t (s_id r # seen) (find_row s_id t p))"

definition session_family :: "store \<Rightarrow> string \<Rightarrow> family option" where
  "session_family db sid = (case family_walk (Suc (length (sessions db))) (sessions db) [] (session db sid) of
      None \<Rightarrow> None
    | Some r \<Rightarrow> if s_lifecycle r = Deleted \<or> s_kind r \<noteq> Root then None
        else Some \<lparr>fm_root = s_id r, fm_title = s_display_name r,
               fm_members = filter (\<lambda>x. s_id x \<in> set (cte live (sessions db) [s_id r])) (sessions db)\<rparr>)"

definition fm_active :: "family \<Rightarrow> bool" where
  "fm_active f \<longleftrightarrow> list_ex (\<lambda>r. s_streaming r \<or> s_activity r = Working) (fm_members f)"

definition fm_starting :: "family \<Rightarrow> bool" where
  "fm_starting f \<longleftrightarrow> list_ex (\<lambda>r. s_lifecycle r = Starting) (fm_members f)"

section \<open>Owners of episodes\<close>

definition checkpoint :: "string \<Rightarrow> owner \<Rightarrow> int \<Rightarrow> nstore \<Rightarrow> nstore" where
  "checkpoint rid own now s = (let mine = filter (\<lambda>w. ow_root w = rid) (ownership s) in
     if mine \<noteq> [] \<and> ow_owner (last mine) = own then s
     else s\<lparr>ownership := add_row \<lparr>ow_seq = length (ownership s) + 1, ow_root = rid, ow_at = now, ow_owner = own\<rparr> (ownership s)\<rparr>)"

definition user_input_row :: "family_row \<Rightarrow> family_row" where
  "user_input_row f = (if open_row f then f\<lparr>nf_pending_user := False, nf_owner := OwnUser\<rparr> else f\<lparr>nf_pending_user := True\<rparr>)"

definition note_user_input :: "store \<Rightarrow> string \<Rightarrow> int \<Rightarrow> nstore \<Rightarrow> nstore" where
  "note_user_input db sid now s = (case session_family db sid of
      None \<Rightarrow> s
    | Some fm \<Rightarrow> checkpoint (fm_root fm) OwnUser now
        (upsert_family (fm_root fm) ((blank_family (fm_root fm))\<lparr>nf_pending_user := True\<rparr>) user_input_row s))"

definition origin_time :: "(string \<Rightarrow> int option) \<Rightarrow> js \<Rightarrow> int option" where
  "origin_time parse v = (case (case v of JStr t \<Rightarrow> parse t | _ \<Rightarrow> js_safe_int v) of
      Some t \<Rightarrow> if 0 \<le> t \<and> t \<le> max_safe then Some t else None
    | None \<Rightarrow> None)"

definition origin_owner :: "nstore \<Rightarrow> string \<Rightarrow> int option \<Rightarrow> owner" where
  "origin_owner s rid time = (case time of
      None \<Rightarrow> OwnUnknown
    | Some t \<Rightarrow> (let before = sort_key (\<lambda>w. (ow_at w, ow_seq w)) (filter (\<lambda>w. ow_root w = rid \<and> ow_at w < t) (ownership s));
                   ties = filter (\<lambda>w. ow_root w = rid \<and> ow_at w = t) (ownership s)
        in if before \<noteq> [] \<and> list_all (\<lambda>w. ow_owner w = ow_owner (last before)) ties then ow_owner (last before) else OwnUnknown))"

definition bind_origin :: "(string \<Rightarrow> int option) \<Rightarrow> store \<Rightarrow> string \<Rightarrow> string \<Rightarrow> js \<Rightarrow> nstore \<Rightarrow> nstore \<times> origin_row option" where
  "bind_origin parse db sid key created s = (case session_family db sid of
      None \<Rightarrow> (s, None)
    | Some fm \<Rightarrow> (case find_row og_key (origins s) key of
          Some w \<Rightarrow> (s, Some w)
        | None \<Rightarrow> (let time = origin_time parse created;
                   w = \<lparr>og_key = key, og_root = fm_root fm, og_session = sid, og_created = time,
                        og_owner = origin_owner s (fm_root fm) time, og_admitted = False\<rparr>
            in (s\<lparr>origins := add_row w (origins s)\<rparr>, Some w))))"

definition continued_row :: "owner \<Rightarrow> family_row \<Rightarrow> family_row" where
  "continued_row own f =
     (if open_row f then (if own = OwnUser then f\<lparr>nf_owner := OwnUser\<rparr> else f)
      else f\<lparr>nf_pending_owner := Some (if nf_pending_owner f = Some OwnUser \<or> own = OwnUser then OwnUser else own)\<rparr>)"

definition note_continuation :: "(string \<Rightarrow> int option) \<Rightarrow> store \<Rightarrow> string \<Rightarrow> string \<Rightarrow> js \<Rightarrow> int \<Rightarrow> nstore \<Rightarrow> nstore" where
  "note_continuation parse db sid key created now s = (case bind_origin parse db sid key created s of
      (s, None) \<Rightarrow> s
    | (s, Some w) \<Rightarrow>
        if changes (\<lambda>r. og_key r = key \<and> \<not> og_admitted r) (origins s) = 0 then s
        else (let s = s\<lparr>origins := update_where (\<lambda>r. og_key r = key \<and> \<not> og_admitted r) (\<lambda>r. r\<lparr>og_admitted := True\<rparr>) (origins s)\<rparr>;
                  s = upsert_family (og_root w) ((blank_family (og_root w))\<lparr>nf_pending_owner := Some (og_owner w)\<rparr>) (continued_row (og_owner w)) s
          in case family_of s (og_root w) of
              Some f \<Rightarrow> if open_row f then checkpoint (og_root w) (nf_owner f) now s else s
            | None \<Rightarrow> s))"

section \<open>Notifications\<close>

definition expire :: "int \<Rightarrow> nstore \<Rightarrow> nstore" where
  "expire now s = s\<lparr>notices := update_where (\<lambda>n. nt_state n = NtPending \<and> nt_expires n \<le> now) (\<lambda>n. n\<lparr>nt_state := NtExpired, nt_updated := now\<rparr>) (notices s)\<rparr>"

definition notice_of :: "nstore \<Rightarrow> string \<Rightarrow> notice option" where
  "notice_of s i = find_row nt_id (notices s) i"

definition get_notice :: "string \<Rightarrow> int \<Rightarrow> nstore \<Rightarrow> nstore \<times> notice option" where
  "get_notice i now s = (expire now s, notice_of (expire now s) i)"

record draft =
  df_key :: string
  df_root :: string
  df_session :: string
  df_episode :: "string option"
  df_kind :: notice_kind
  df_title :: string
  df_body :: string
  df_expires :: int
  df_source :: js

definition draft_notice :: "(string \<Rightarrow> string) \<Rightarrow> draft \<Rightarrow> int \<Rightarrow> nstore \<Rightarrow> notice" where
  "draft_notice sha d now s = \<lparr>nt_seq = length (notices s) + 1, nt_id = sha (df_key d), nt_key = df_key d, nt_root = df_root d, nt_session = df_session d,
     nt_episode = (case df_episode d of Some e \<Rightarrow> Some e | None \<Rightarrow>
        (case family_of s (df_root d) of Some f \<Rightarrow> (if nf_closed f = None then nf_episode f else None) | None \<Rightarrow> None)),
     nt_kind = df_kind d, nt_title = clean (Some (df_title d)) 120, nt_body = clean (Some (df_body d)) 1000, nt_created = now, nt_expires = df_expires d,
     nt_state = NtPending, nt_read = None, nt_updated = now, nt_source = df_source d, nt_closed_by = None\<rparr>"

definition insert_notice :: "notice \<Rightarrow> nstore \<Rightarrow> nstore" where
  "insert_notice n s = (if list_ex (\<lambda>m. nt_id m = nt_id n \<or> nt_key m = nt_key n) (notices s) then s
     else s\<lparr>notices := add_row n (notices s)\<rparr>)"

definition create_notice :: "(string \<Rightarrow> string) \<Rightarrow> (string \<Rightarrow> bool) \<Rightarrow> draft \<Rightarrow> int \<Rightarrow> nstore \<Rightarrow> nstore \<times> notice option" where
  "create_notice sha notifies d now s =
     (if \<not> notifies (df_root d) then (s, None)
      else get_notice (sha (df_key d)) now (insert_notice (draft_notice sha d now s) s))"

definition request_notice :: "(string \<Rightarrow> string) \<Rightarrow> (string \<Rightarrow> bool) \<Rightarrow> string \<Rightarrow> string \<Rightarrow> string \<Rightarrow> string \<Rightarrow> int \<Rightarrow> int \<Rightarrow> js \<Rightarrow> nstore \<Rightarrow> nstore \<times> notice option" where
  "request_notice sha notifies sid key title body expires_in now generation s =
     create_notice sha notifies \<lparr>df_key = ''attention:'' @ sid @ '':'' @ key, df_root = sid, df_session = sid,
       df_episode = (case family_of s sid of Some f \<Rightarrow> nf_episode f | None \<Rightarrow> None), df_kind = AttentionNotice, df_title = title, df_body = body,
       df_expires = now + expires_in * 1000,
       df_source = JObj [(''type'', JStr ''explicit''), (''key'', JStr key), (''actorGeneration'', generation)]\<rparr> now s"

definition read_notice :: "string \<Rightarrow> int \<Rightarrow> nstore \<Rightarrow> nstore \<times> notice option" where
  "read_notice i now s = get_notice i now (s\<lparr>notices := modify_row nt_id i
     (\<lambda>n. n\<lparr>nt_read := Some (case nt_read n of Some t \<Rightarrow> t | None \<Rightarrow> now), nt_updated := now\<rparr>) (notices s)\<rparr>)"

definition close_notice :: "notice_state \<Rightarrow> string option \<Rightarrow> int \<Rightarrow> notice \<Rightarrow> notice" where
  "close_notice st by_whom now n = n\<lparr>nt_state := st, nt_closed_by := by_whom, nt_updated := now\<rparr>"

definition transition_notice :: "string \<Rightarrow> notice_state \<Rightarrow> int \<Rightarrow> string option \<Rightarrow> nstore \<Rightarrow> (nstore \<times> notice option) result" where
  "transition_notice i st now by_whom s =
     (if st \<notin> {NtResolved, NtCancelled, NtSuperseded} then Inl (Thrown ''invalid notification transition'')
      else if by_whom \<notin> {None, Some ''agent'', Some ''user''} then Inl (Thrown ''invalid notification closer'')
      else (let s = expire now s in Inr (get_notice i now
         (s\<lparr>notices := update_where (\<lambda>n. nt_id n = i \<and> nt_state n = NtPending) (close_notice st by_whom now) (notices s)\<rparr>))))"

definition resolve_key :: "(string \<Rightarrow> string) \<Rightarrow> string \<Rightarrow> string \<Rightarrow> int \<Rightarrow> nstore \<Rightarrow> (nstore \<times> notice option) result" where
  "resolve_key sha sid key now s = transition_notice (sha (''attention:'' @ sid @ '':'' @ key)) NtResolved now (Some ''agent'') s"

definition cancel_session :: "string \<Rightarrow> int \<Rightarrow> nstore \<Rightarrow> nstore" where
  "cancel_session i now s = s\<lparr>
     notices := update_where (\<lambda>n. (nt_session n = i \<or> nt_root n = i) \<and> nt_state n = NtPending) (\<lambda>n. n\<lparr>nt_state := NtCancelled, nt_updated := now\<rparr>) (notices s),
     families := update_where (\<lambda>f. nf_root f = i \<and> nf_closed f = None) (\<lambda>f. f\<lparr>nf_closed := Some now\<rparr>) (families s)\<rparr>"

definition cancel_dialogs :: "int \<Rightarrow> nstore \<Rightarrow> nstore" where
  "cancel_dialogs now s = s\<lparr>notices := update_where (\<lambda>n. nt_state n = NtPending \<and> jget ''type'' (nt_source n) = JStr ''extension_ui'')
     (\<lambda>n. n\<lparr>nt_state := NtCancelled, nt_updated := now\<rparr>) (notices s)\<rparr>"

datatype notice_view = ViewAll | ViewInbox | ViewHistory

definition in_inbox :: "notice \<Rightarrow> bool" where
  "in_inbox n \<longleftrightarrow> nt_state n = NtPending \<and> (nt_read n = None \<or> nt_kind n = AttentionNotice)"

definition in_view :: "notice_view \<Rightarrow> notice \<Rightarrow> bool" where
  "in_view v n \<longleftrightarrow> (case v of ViewAll \<Rightarrow> True | ViewInbox \<Rightarrow> in_inbox n | ViewHistory \<Rightarrow> \<not> in_inbox n)"

definition list_notices :: "nat \<Rightarrow> int \<Rightarrow> notice_view \<Rightarrow> int \<Rightarrow> nstore \<Rightarrow> nstore \<times> notice list \<times> nat option \<times> nat" where
  "list_notices mx before v now s = (let s = expire now s;
      rows = take mx (rev (sort_key nt_seq (filter (\<lambda>n. int (nt_seq n) < before \<and> in_view v n) (notices s))))
    in (s, rows, (if length rows = mx \<and> rows \<noteq> [] then Some (nt_seq (last rows)) else None),
        changes (\<lambda>n. nt_state n = NtPending \<and> nt_read n = None) (notices s)))"

section \<open>Episodes\<close>

definition settled :: "int \<Rightarrow> store \<Rightarrow> string \<Rightarrow> string list \<Rightarrow> int \<Rightarrow> nstore \<Rightarrow> bool" where
  "settled idle_ms db sid live_actors now s = (case session_family db sid of
      None \<Rightarrow> False
    | Some fm \<Rightarrow> \<not> fm_active fm \<and> \<not> fm_starting fm \<and> \<not> list_ex (\<lambda>r. s_id r \<in> set live_actors) (fm_members fm)
        \<and> (case family_of s (fm_root fm) of Some f \<Rightarrow> (case nf_quiet f of Some q \<Rightarrow> idle_ms \<le> now - q | None \<Rightarrow> False) | None \<Rightarrow> False))"

definition next_owner :: "owner option \<Rightarrow> family_row option \<Rightarrow> owner" where
  "next_owner own f = (case f of
      Some f \<Rightarrow> if nf_pending_user f then OwnUser
        else (case nf_pending_owner f of Some w \<Rightarrow> w | None \<Rightarrow> if own = Some OwnCron then OwnCron else nf_owner f)
    | None \<Rightarrow> if own = Some OwnCron then OwnCron else OwnUser)"

definition opened_row :: "string \<Rightarrow> owner \<Rightarrow> int \<Rightarrow> family_row \<Rightarrow> family_row" where
  "opened_row episode own now f = f\<lparr>nf_episode := Some episode, nf_owner := own, nf_opened := Some now, nf_quiet := None, nf_closed := None,
     nf_pending_user := False, nf_pending_owner := None\<rparr>"

text \<open>A new episode supersedes the idle notice of the last one.\<close>

definition open_episode :: "string \<Rightarrow> string \<Rightarrow> owner \<Rightarrow> int \<Rightarrow> nstore \<Rightarrow> nstore" where
  "open_episode rid episode own now s = (let
      s = s\<lparr>notices := update_where (\<lambda>n. nt_root n = rid \<and> nt_kind n = IdleNotice \<and> nt_state n = NtPending)
            (\<lambda>n. n\<lparr>nt_state := NtSuperseded, nt_updated := now\<rparr>) (notices s)\<rparr>
    in checkpoint rid own now (upsert_family rid (opened_row episode own now (blank_family rid)) (opened_row episode own now) s))"

definition set_quiet :: "string \<Rightarrow> int option \<Rightarrow> nstore \<Rightarrow> nstore" where
  "set_quiet rid q s = s\<lparr>families := modify_row nf_root rid (\<lambda>f. f\<lparr>nf_quiet := q\<rparr>) (families s)\<rparr>"

definition idle_draft :: "family \<Rightarrow> string \<Rightarrow> int \<Rightarrow> draft" where
  "idle_draft fm episode now = \<lparr>df_key = ''idle:'' @ episode, df_root = fm_root fm, df_session = fm_root fm, df_episode = Some episode, df_kind = IdleNotice,
     df_title = (let t = clean (Some (fm_title fm)) 120 in if t = [] then ''Activity stopped'' else t),
     df_body = ''The conversation and its agents are now idle.'', df_expires = now + idle_notification_ttl_ms,
     df_source = JObj [(''type'', JStr ''family_idle''), (''episodeId'', JStr episode)]\<rparr>"

definition needs_user :: "nstore \<Rightarrow> string \<Rightarrow> string \<Rightarrow> int \<Rightarrow> bool" where
  "needs_user s rid episode now \<longleftrightarrow> list_ex (\<lambda>n. nt_root n = rid \<and> nt_kind n = AttentionNotice \<and> nt_episode n = Some episode
     \<and> nt_state n = NtPending \<and> now < nt_expires n) (notices s)"

text \<open>The end of the quiet wait closes the episode and may announce it.\<close>

definition close_episode :: "(string \<Rightarrow> string) \<Rightarrow> (string \<Rightarrow> bool) \<Rightarrow> family \<Rightarrow> family_row \<Rightarrow> string \<Rightarrow> int \<Rightarrow> nstore \<Rightarrow> nstore \<times> notice option" where
  "close_episode sha notifies fm f episode now s = (let
      s = s\<lparr>families := modify_row nf_root (fm_root fm) (\<lambda>f. f\<lparr>nf_closed := Some now\<rparr>) (families s)\<rparr>
    in if nf_owner f \<noteq> OwnUser \<or> needs_user s (fm_root fm) episode now then (s, None)
       else create_notice sha notifies (idle_draft fm episode now) now s)"

definition observe_family :: "(string \<Rightarrow> string) \<Rightarrow> (string \<Rightarrow> bool) \<Rightarrow> int \<Rightarrow> family \<Rightarrow> owner option \<Rightarrow> nat \<Rightarrow> string list \<Rightarrow> string \<Rightarrow> int \<Rightarrow> nstore \<Rightarrow> nstore \<times> notice option" where
  "observe_family sha notifies idle_ms fm own background live_actors uuid now s = (let f = family_of s (fm_root fm) in
     if fm_active fm \<or> list_ex (\<lambda>r. s_id r \<in> set live_actors) (fm_members fm) then
       (if (case f of Some x \<Rightarrow> open_row x | None \<Rightarrow> False) then (set_quiet (fm_root fm) None s, None)
        else (open_episode (fm_root fm) uuid (next_owner own f) now s, None))
     else (case f of
         None \<Rightarrow> (s, None)
       | Some f \<Rightarrow> (case (nf_episode f, nf_closed f) of
             (Some episode, None) \<Rightarrow>
               if fm_starting fm \<or> 0 < background then (set_quiet (fm_root fm) None s, None)
               else (case nf_quiet f of
                   None \<Rightarrow> (set_quiet (fm_root fm) (Some now) s, None)
                 | Some q \<Rightarrow> if now - q < idle_ms then (s, None) else close_episode sha notifies fm f episode now s)
           | _ \<Rightarrow> (s, None))))"

definition observe :: "(string \<Rightarrow> string) \<Rightarrow> (string \<Rightarrow> bool) \<Rightarrow> int \<Rightarrow> store \<Rightarrow> string \<Rightarrow> owner option \<Rightarrow> nat \<Rightarrow> string list \<Rightarrow> string \<Rightarrow> int \<Rightarrow> nstore \<Rightarrow> nstore \<times> notice option" where
  "observe sha notifies idle_ms db sid own background live_actors uuid now s = (case session_family db sid of
      None \<Rightarrow> (cancel_session sid now s, None)
    | Some fm \<Rightarrow> observe_family sha notifies idle_ms fm own background live_actors uuid now s)"

definition open_families :: "nstore \<Rightarrow> string list" where
  "open_families s = map nf_root (filter open_row (families s))"

section \<open>Delivery\<close>

definition delivery_key :: "delivery_row \<Rightarrow> string \<times> string" where
  "delivery_key d = (dl_notice d, dl_endpoint d)"

definition max_attempts :: nat where
  "max_attempts = length notification_retry_ms"

definition new_delivery :: "string \<Rightarrow> int \<Rightarrow> notice \<Rightarrow> delivery_row" where
  "new_delivery ep now n = \<lparr>dl_notice = nt_id n, dl_endpoint = ep, dl_state = DlPending, dl_attempts = 0, dl_due = now, dl_lease = None, dl_until = None,
     dl_code = None, dl_accepted = None, dl_closed = None\<rparr>"

definition insert_delivery :: "delivery_row \<Rightarrow> delivery_row list \<Rightarrow> delivery_row list" where
  "insert_delivery d t = (if find_row delivery_key t (delivery_key d) = None then add_row d t else t)"

definition offer :: "int \<Rightarrow> string \<Rightarrow> nstore \<Rightarrow> nstore" where
  "offer now ep s = s\<lparr>deliveries := fold (\<lambda>n. insert_delivery (new_delivery ep now n))
     (filter (\<lambda>n. nt_state n = NtPending \<and> nt_read n = None \<and> now < nt_expires n) (notices s)) (deliveries s)\<rparr>"

definition dropped :: "delivery_state \<Rightarrow> delivery_row \<Rightarrow> delivery_row" where
  "dropped st d = d\<lparr>dl_state := st, dl_lease := None, dl_until := None\<rparr>"

definition withdraw :: "nstore \<Rightarrow> nstore" where
  "withdraw s = s\<lparr>deliveries := update_where (\<lambda>d. dl_state d \<in> {DlPending, DlInflight}
       \<and> list_ex (\<lambda>n. nt_id n = dl_notice d \<and> (nt_state n \<noteq> NtPending \<or> nt_read n \<noteq> None)) (notices s)) (dropped DlExpired) (deliveries s)\<rparr>"

definition until_passed :: "int \<Rightarrow> delivery_row \<Rightarrow> bool" where
  "until_passed now d \<longleftrightarrow> (case dl_until d of Some t \<Rightarrow> t \<le> now | None \<Rightarrow> False)"

definition exhaust :: "int \<Rightarrow> nstore \<Rightarrow> nstore" where
  "exhaust now s = s\<lparr>deliveries := update_where (\<lambda>d. dl_state d = DlInflight \<and> until_passed now d \<and> max_attempts \<le> dl_attempts d)
     (\<lambda>d. (dropped DlFailed d)\<lparr>dl_code := Some ''attempts_exhausted''\<rparr>) (deliveries s)\<rparr>"

definition claimable :: "int \<Rightarrow> string \<Rightarrow> delivery_row \<Rightarrow> bool" where
  "claimable now ep d \<longleftrightarrow> dl_endpoint d = ep \<and> dl_attempts d < max_attempts
     \<and> (dl_state d = DlPending \<and> dl_due d \<le> now \<or> dl_state d = DlInflight \<and> until_passed now d)"

definition leased :: "string \<Rightarrow> int \<Rightarrow> delivery_row \<Rightarrow> delivery_row" where
  "leased lease now d = d\<lparr>dl_state := DlInflight, dl_attempts := dl_attempts d + 1, dl_lease := Some lease, dl_until := Some (now + 60000)\<rparr>"

record claim =
  cl_notice :: "notice option"
  cl_endpoint :: string
  cl_lease :: string
  cl_attempt :: nat

text \<open>One claim for each selected row, with the next fresh lease.\<close>

fun claim_rows :: "int \<Rightarrow> (nat \<Rightarrow> string) \<Rightarrow> delivery_row list \<Rightarrow> claim list \<Rightarrow> nstore \<Rightarrow> nstore \<times> claim list" where
  "claim_rows now fresh [] claims s = (s, claims)"
| "claim_rows now fresh (d # ds) claims s = (let
      lease = fresh (length claims);
      s = s\<lparr>deliveries := modify_row delivery_key (delivery_key d) (leased lease now) (deliveries s)\<rparr>;
      (s, n) = get_notice (dl_notice d) now s
    in claim_rows now fresh ds (claims @ [\<lparr>cl_notice = n, cl_endpoint = dl_endpoint d, cl_lease = lease, cl_attempt = dl_attempts d + 1\<rparr>]) s)"

definition max_claims :: nat where
  "max_claims = 8"

fun claim_endpoints :: "int \<Rightarrow> (nat \<Rightarrow> string) \<Rightarrow> string list \<Rightarrow> claim list \<Rightarrow> nstore \<Rightarrow> nstore \<times> claim list" where
  "claim_endpoints now fresh [] claims s = (s, claims)"
| "claim_endpoints now fresh (ep # eps) claims s =
     (if max_claims \<le> length claims then (s, claims)
      else (let rows = take (max_claims - length claims) (sort_key (\<lambda>d. (dl_due d, dl_notice d)) (filter (claimable now ep) (deliveries s)));
                (s, claims) = claim_rows now fresh rows claims s
            in claim_endpoints now fresh eps claims s))"

definition claim_deliveries :: "string list \<Rightarrow> (nat \<Rightarrow> string) \<Rightarrow> int \<Rightarrow> nstore \<Rightarrow> nstore \<times> claim list" where
  "claim_deliveries eps fresh now s =
     claim_endpoints now fresh eps [] (exhaust now (withdraw (fold (offer now) eps (expire now s))))"

section \<open>Closures\<close>

definition closable :: "nstore \<Rightarrow> string \<Rightarrow> delivery_row \<Rightarrow> bool" where
  "closable s ep d \<longleftrightarrow> dl_endpoint d = ep \<and> dl_state d = DlAccepted \<and> dl_closed d = None
     \<and> (case notice_of s (dl_notice d) of Some n \<Rightarrow> nt_kind n = AttentionNotice \<and> nt_state n \<noteq> NtPending | None \<Rightarrow> False)"

definition updated_at :: "nstore \<Rightarrow> delivery_row \<Rightarrow> int" where
  "updated_at s d = (case notice_of s (dl_notice d) of Some n \<Rightarrow> nt_updated n | None \<Rightarrow> 0)"

fun close_rows :: "int \<Rightarrow> delivery_row list \<Rightarrow> (notice option \<times> string) list \<Rightarrow> nstore \<Rightarrow> nstore \<times> (notice option \<times> string) list" where
  "close_rows now [] closures s = (s, closures)"
| "close_rows now (d # ds) closures s = (let
      s = s\<lparr>deliveries := modify_row delivery_key (delivery_key d) (\<lambda>d. d\<lparr>dl_closed := Some now\<rparr>) (deliveries s)\<rparr>;
      (s, n) = get_notice (dl_notice d) now s
    in close_rows now ds (closures @ [(n, dl_endpoint d)]) s)"

fun close_endpoints :: "int \<Rightarrow> string list \<Rightarrow> (notice option \<times> string) list \<Rightarrow> nstore \<Rightarrow> nstore \<times> (notice option \<times> string) list" where
  "close_endpoints now [] closures s = (s, closures)"
| "close_endpoints now (ep # eps) closures s = (let
      rows = take (max_claims - length closures) (sort_key (updated_at s) (filter (closable s ep) (deliveries s)));
      (s, closures) = close_rows now rows closures s
    in close_endpoints now eps closures s)"

definition claim_closures :: "string list \<Rightarrow> int \<Rightarrow> nstore \<Rightarrow> nstore \<times> (notice option \<times> string) list" where
  "claim_closures eps now s = close_endpoints now eps [] (expire now s)"

section \<open>Receipts\<close>

definition receipt_state :: "string \<Rightarrow> nat \<Rightarrow> delivery_state" where
  "receipt_state status attempts =
     (if status = ''retry'' \<and> attempts < max_attempts then DlPending
      else if status = ''accepted'' then DlAccepted else if status = ''suppressed'' then DlSuppressed else DlFailed)"

definition retry_delay :: "nat \<Rightarrow> int" where
  "retry_delay attempts = (if 1 \<le> attempts \<and> attempts \<le> max_attempts then notification_retry_ms ! (attempts - 1) else 900000)"

definition received :: "string \<Rightarrow> int \<Rightarrow> delivery_row \<Rightarrow> delivery_row" where
  "received status now d = d\<lparr>dl_state := receipt_state status (dl_attempts d), dl_code := Some status, dl_due := now + retry_delay (dl_attempts d),
     dl_lease := None, dl_until := None, dl_accepted := (if status = ''accepted'' then Some now else None)\<rparr>"

definition holds_lease :: "string \<Rightarrow> string \<Rightarrow> string \<Rightarrow> delivery_row \<Rightarrow> bool" where
  "holds_lease i ep lease d \<longleftrightarrow> dl_notice d = i \<and> dl_endpoint d = ep \<and> dl_lease d = Some lease \<and> dl_state d = DlInflight"

definition record_receipt :: "string \<Rightarrow> string \<Rightarrow> string \<Rightarrow> string \<Rightarrow> int \<Rightarrow> nstore \<Rightarrow> (nstore \<times> delivery_state option) result" where
  "record_receipt i ep lease status now s =
     (if status \<notin> {''accepted'', ''retry'', ''gone'', ''failed'', ''suppressed''} then Inl (Thrown ''invalid notification receipt'')
      else (case find (holds_lease i ep lease) (deliveries s) of
          None \<Rightarrow> Inr (s, None)
        | Some d \<Rightarrow> Inr (s\<lparr>deliveries := modify_row delivery_key (i, ep) (received status now) (deliveries s)\<rparr>,
            Some (receipt_state status (dl_attempts d)))))"

definition deliveries_of :: "nstore \<Rightarrow> string \<Rightarrow> delivery_row list" where
  "deliveries_of s i = filter (\<lambda>d. dl_notice d = i) (deliveries s)"

end
