(* ===== verification/NotificationHistory.thy ===== *)
theory NotificationHistory
  imports Notifications
begin

text \<open>
  The notification store over every sequence of its operations: at most one idle notice of a
  family is pending and none while an episode is open, closed notices stay closed, and every
  delivery to an endpoint moves forward within its attempts. The session table is an argument of
  each operation, so the laws hold whatever happens to sessions in between.
\<close>

section \<open>Operations\<close>

record notify_env =
  ne_sha :: "string \<Rightarrow> string"
  ne_parse :: "string \<Rightarrow> int option"   \<comment> \<open>\<open>Date.parse\<close>\<close>
  ne_idle_ms :: int

text \<open>The supervisor creates notices of cron results and of dialogs; idle notices come from \<open>observe\<close>.\<close>

datatype creator = ByCron | ByDialog

fun created_kind :: "creator \<Rightarrow> notice_kind" where
  "created_kind ByCron = CronNotice"
| "created_kind ByDialog = AttentionNotice"

datatype notice_op =
    UserInput store string int
  | BindOrigin store string string js
  | Continuation store string string js int
  | CreateNotice creator "string \<Rightarrow> bool" draft int
  | RequestNotice "string \<Rightarrow> bool" string string string string int int js
  | ResolveKey string string int
  | Transition string notice_state int "string option"
  | ReadNotice string int
  | GetNotice string int
  | ListNotices nat int notice_view int
  | CancelSession string int
  | CancelDialogs int
  | Observe "string \<Rightarrow> bool" store string "owner option" nat "string list" string int
  | Claim "string list" "nat \<Rightarrow> string" int
  | Closures "string list" int
  | Receipt string string string string int

definition kept :: "nstore \<Rightarrow> (nstore \<times> 'a) result \<Rightarrow> nstore" where
  "kept s r = (case r of Inl e \<Rightarrow> s | Inr (s', _) \<Rightarrow> s')"

definition nexec :: "notify_env \<Rightarrow> notice_op \<Rightarrow> nstore \<Rightarrow> nstore" where
  "nexec e x s = (case x of
      UserInput db sid now \<Rightarrow> note_user_input db sid now s
    | BindOrigin db sid key created \<Rightarrow> fst (bind_origin (ne_parse e) db sid key created s)
    | Continuation db sid key created now \<Rightarrow> note_continuation (ne_parse e) db sid key created now s
    | CreateNotice c notifies d now \<Rightarrow> fst (create_notice (ne_sha e) notifies (d\<lparr>df_kind := created_kind c\<rparr>) now s)
    | RequestNotice notifies sid key title body expires now generation \<Rightarrow>
        fst (request_notice (ne_sha e) notifies sid key title body expires now generation s)
    | ResolveKey sid key now \<Rightarrow> kept s (resolve_key (ne_sha e) sid key now s)
    | Transition i st now by_whom \<Rightarrow> kept s (transition_notice i st now by_whom s)
    | ReadNotice i now \<Rightarrow> fst (read_notice i now s)
    | GetNotice i now \<Rightarrow> fst (get_notice i now s)
    | ListNotices mx before v now \<Rightarrow> fst (list_notices mx before v now s)
    | CancelSession i now \<Rightarrow> cancel_session i now s
    | CancelDialogs now \<Rightarrow> cancel_dialogs now s
    | Observe notifies db sid own background live_actors uuid now \<Rightarrow>
        fst (observe (ne_sha e) notifies (ne_idle_ms e) db sid own background live_actors uuid now s)
    | Claim eps fresh now \<Rightarrow> fst (claim_deliveries eps fresh now s)
    | Closures eps now \<Rightarrow> fst (claim_closures eps now s)
    | Receipt i ep lease status now \<Rightarrow> kept s (record_receipt i ep lease status now s))"

definition nrun :: "notify_env \<Rightarrow> notice_op list \<Rightarrow> nstore \<Rightarrow> nstore" where
  "nrun e xs s = fold (nexec e) xs s"

section \<open>Notices only close\<close>

definition settles :: "notice \<Rightarrow> notice \<Rightarrow> bool" where
  "settles n n' \<longleftrightarrow> nt_seq n' = nt_seq n \<and> nt_id n' = nt_id n \<and> nt_key n' = nt_key n \<and> nt_root n' = nt_root n \<and> nt_session n' = nt_session n
     \<and> nt_episode n' = nt_episode n \<and> nt_kind n' = nt_kind n \<and> nt_title n' = nt_title n \<and> nt_body n' = nt_body n
     \<and> nt_created n' = nt_created n \<and> nt_expires n' = nt_expires n \<and> nt_source n' = nt_source n
     \<and> (nt_state n \<noteq> NtPending \<longrightarrow> nt_state n' = nt_state n) \<and> (nt_read n \<noteq> None \<longrightarrow> nt_read n' = nt_read n)"

definition episode_open :: "nstore \<Rightarrow> string \<Rightarrow> bool" where
  "episode_open s rid \<longleftrightarrow> (case family_of s rid of Some f \<Rightarrow> open_row f | None \<Rightarrow> False)"

text \<open>A calm step creates no notice, opens no episode and leaves the deliveries alone.\<close>

definition calm :: "nstore \<Rightarrow> nstore \<Rightarrow> bool" where
  "calm s s' \<longleftrightarrow> list_all2 settles (notices s) (notices s') \<and> (\<forall>rid. episode_open s' rid \<longrightarrow> episode_open s rid)
     \<and> (unique_key nf_root (families s) \<longrightarrow> unique_key nf_root (families s'))"

lemma settles_refl [simp]: "settles n n"
  by (simp add: settles_def)

lemma settles_trans: "settles a b \<Longrightarrow> settles b c \<Longrightarrow> settles a c"
  by (auto simp: settles_def)

lemma settles_update: "(\<And>n. p n \<Longrightarrow> settles n (f n)) \<Longrightarrow> list_all2 settles t (update_where p f t)"
  by (induction t) (auto simp: update_where_def)

lemma settles_all_refl [simp]: "list_all2 settles t t"
  by (simp add: list_all2_same)

lemma calm_refl [simp]: "calm s s"
  by (simp add: calm_def)

lemma calm_trans: "calm a b \<Longrightarrow> calm b c \<Longrightarrow> calm a c"
  unfolding calm_def by (auto intro: list_all2_trans [OF settles_trans])

named_theorems calm_steps \<open>operations that are calm\<close>

lemma calm_notices: "list_all2 settles (notices s) t \<Longrightarrow> calm s (s\<lparr>notices := t\<rparr>)"
  by (simp add: calm_def episode_open_def family_of_def)

lemma calm_families:
  assumes "notices s' = notices s" "\<And>rid. episode_open s' rid \<Longrightarrow> episode_open s rid" "unique_key nf_root (families s) \<Longrightarrow> unique_key nf_root (families s')"
  shows "calm s s'"
  using assms by (auto simp: calm_def)

lemma calm_frame: "notices s' = notices s \<Longrightarrow> families s' = families s \<Longrightarrow> calm s s'"
  by (rule calm_families) (simp_all add: episode_open_def family_of_def)

lemma expire_calm [calm_steps]: "calm s (expire now s)"
  unfolding expire_def by (rule calm_notices, rule settles_update) (simp add: settles_def)

lemma get_notice_calm [calm_steps]: "calm s (fst (get_notice i now s))"
  by (simp add: get_notice_def calm_steps)

lemma checkpoint_frame: "notices (checkpoint rid own now s) = notices s" "families (checkpoint rid own now s) = families s"
    "deliveries (checkpoint rid own now s) = deliveries s"
  by (simp_all add: checkpoint_def Let_def)

lemma checkpoint_calm [calm_steps]: "calm s (checkpoint rid own now s)"
  by (rule calm_frame) (simp_all add: checkpoint_frame)

lemma family_of_upsert:
  assumes "nf_root new = rid" "\<And>x. nf_root (f x) = nf_root x"
  shows "family_of (upsert_family rid new f s) r = (if r = rid then Some (case family_of s rid of None \<Rightarrow> new | Some x \<Rightarrow> f x) else family_of s r)"
  using assms by (auto simp: upsert_family_def family_of_def find_row_add_row find_row_modify split: option.split)

lemma upsert_frame: "notices (upsert_family rid new f s) = notices s" "deliveries (upsert_family rid new f s) = deliveries s"
  by (simp_all add: upsert_family_def split: option.split)

lemma upsert_unique:
  assumes "nf_root new = rid" "\<And>x. nf_root (f x) = nf_root x" "unique_key nf_root (families s)"
  shows "unique_key nf_root (families (upsert_family rid new f s))"
  using assms by (auto simp: upsert_family_def family_of_def unique_key_modify_row unique_key_add_row split: option.split)

lemma upsert_calm:
  assumes "nf_root new = rid" "\<not> open_row new" "\<And>x. nf_root (f x) = nf_root x" "\<And>x. open_row (f x) = open_row x"
  shows "calm s (upsert_family rid new f s)"
proof (rule calm_families)
  show "episode_open (upsert_family rid new f s) r \<Longrightarrow> episode_open s r" for r
    using assms by (auto simp: episode_open_def family_of_upsert [OF assms(1,3)] split: if_splits option.splits)
qed (simp_all add: upsert_frame upsert_unique assms)

lemma user_input_calm [calm_steps]: "calm s (note_user_input db sid now s)"
proof (cases "session_family db sid")
  case (Some fm)
  have "calm s (upsert_family (fm_root fm) ((blank_family (fm_root fm))\<lparr>nf_pending_user := True\<rparr>) user_input_row s)"
    by (rule upsert_calm) (simp_all add: blank_family_def user_input_row_def open_row_def)
  with Some show ?thesis by (simp add: note_user_input_def calm_trans [OF _ checkpoint_calm])
qed (simp add: note_user_input_def)

lemma bind_origin_frame: "notices (fst (bind_origin parse db sid key created s)) = notices s"
    "families (fst (bind_origin parse db sid key created s)) = families s" "deliveries (fst (bind_origin parse db sid key created s)) = deliveries s"
  by (auto simp: bind_origin_def Let_def split: option.split)

lemma bind_origin_calm [calm_steps]: "calm s (fst (bind_origin parse db sid key created s))"
  by (rule calm_frame) (simp_all add: bind_origin_frame)

lemma continuation_upsert: "calm s (upsert_family rid ((blank_family rid)\<lparr>nf_pending_owner := Some own\<rparr>) (continued_row own) s)"
  by (rule upsert_calm) (simp_all add: blank_family_def continued_row_def open_row_def)

lemma continuation_calm [calm_steps]: "calm s (note_continuation parse db sid key created now s)"
proof -
  obtain s1 w where b: "bind_origin parse db sid key created s = (s1, w)" by fastforce
  have s1: "calm s s1" using bind_origin_calm [of s parse db sid key created] b by simp
  have o: "calm s1 (s1\<lparr>origins := x\<rparr>)" for x by (rule calm_frame) simp_all
  show ?thesis
    unfolding note_continuation_def b Let_def
    by (auto split: option.split intro: calm_trans [OF s1] calm_trans [OF o continuation_upsert] calm_trans [OF calm_trans [OF o continuation_upsert] checkpoint_calm] s1)
qed

lemma read_calm [calm_steps]: "calm s (fst (read_notice i now s))"
  unfolding read_notice_def modify_row_def
  by (rule calm_trans [OF calm_notices get_notice_calm], rule settles_update) (auto simp: settles_def)

lemma kept_cases: "(\<And>s' x. r = Inr (s', x) \<Longrightarrow> P s') \<Longrightarrow> P s \<Longrightarrow> P (kept s r)"
  by (cases r) (auto simp: kept_def)

lemma transition_notices: "calm s (s\<lparr>notices := update_where (\<lambda>n. nt_id n = i \<and> nt_state n = NtPending) (close_notice st who now) (notices s)\<rparr>)"
  by (rule calm_notices, rule settles_update) (auto simp: settles_def close_notice_def)

lemma transition_calm [calm_steps]: "calm s (kept s (transition_notice i st now who s))"
  by (auto simp: kept_def transition_notice_def Let_def get_notice_def
      intro: calm_trans [OF calm_trans [OF expire_calm transition_notices] expire_calm])

lemma resolve_key_calm [calm_steps]: "calm s (kept s (resolve_key sha sid key now s))"
  by (simp add: resolve_key_def transition_calm)

lemma list_notices_calm [calm_steps]: "calm s (fst (list_notices mx before v now s))"
  by (simp add: list_notices_def Let_def expire_calm)

lemma cancel_session_calm [calm_steps]: "calm s (cancel_session i now s)"
  unfolding cancel_session_def
proof (rule calm_trans [OF calm_notices calm_families])
  show "list_all2 settles (notices s) (update_where (\<lambda>n. (nt_session n = i \<or> nt_root n = i) \<and> nt_state n = NtPending)
      (\<lambda>n. n\<lparr>nt_state := NtCancelled, nt_updated := now\<rparr>) (notices s))"
    by (rule settles_update) (simp add: settles_def)
qed (auto simp: episode_open_def family_of_def find_row_update unique_key_update_where open_row_def split: option.splits if_splits)

lemma cancel_dialogs_calm [calm_steps]: "calm s (cancel_dialogs now s)"
  unfolding cancel_dialogs_def by (rule calm_notices, rule settles_update) (simp add: settles_def)

lemma set_quiet_calm [calm_steps]: "calm s (set_quiet rid q s)"
  by (rule calm_families)
    (auto simp: set_quiet_def episode_open_def family_of_def find_row_modify unique_key_modify_row open_row_def split: option.splits if_splits)

lemma closes_family_calm: "calm s (s\<lparr>families := modify_row nf_root rid (\<lambda>f. f\<lparr>nf_closed := Some now\<rparr>) (families s)\<rparr>)"
  by (rule calm_families)
    (auto simp: episode_open_def family_of_def find_row_modify unique_key_modify_row open_row_def split: option.splits if_splits)

section \<open>Deliveries leave notices alone\<close>

lemma offer_frame: "notices (offer now ep s) = notices s" "families (offer now ep s) = families s"
  by (simp_all add: offer_def)

lemma offers_frame: "notices (fold (offer now) eps s) = notices s" "families (fold (offer now) eps s) = families s"
  by (induction eps arbitrary: s) (simp_all add: offer_frame)

lemma claim_rows_calm: "calm s (fst (claim_rows now fresh ds claims s))"
proof (induction ds arbitrary: claims s)
  case (Cons d ds)
  have "calm s (s\<lparr>deliveries := x\<rparr>)" for x by (rule calm_frame) simp_all
  with Cons.IH show ?case
    by (auto simp: Let_def get_notice_def intro: calm_trans [OF calm_trans [OF _ expire_calm]])
qed simp

lemma claim_endpoints_calm: "calm s (fst (claim_endpoints now fresh eps claims s))"
proof (induction eps arbitrary: claims s)
  case (Cons ep eps)
  obtain s1 c1 where r: "claim_rows now fresh (take (max_claims - length claims) (sort_key (\<lambda>d. (dl_due d, dl_notice d)) (filter (claimable now ep) (deliveries s)))) claims s = (s1, c1)"
    by fastforce
  have "calm s s1" using claim_rows_calm [of s now fresh _ claims] r by (metis fst_conv)
  then show ?case using calm_trans [OF _ Cons.IH] by (simp add: r)
qed simp

lemma claim_calm [calm_steps]: "calm s (fst (claim_deliveries eps fresh now s))"
proof -
  have "calm (expire now s) (exhaust now (withdraw (fold (offer now) eps (expire now s))))"
    by (rule calm_frame) (simp_all add: exhaust_def withdraw_def offers_frame)
  then show ?thesis unfolding claim_deliveries_def by (rule calm_trans [OF calm_trans [OF expire_calm] claim_endpoints_calm])
qed

lemma close_rows_calm: "calm s (fst (close_rows now ds closures s))"
proof (induction ds arbitrary: closures s)
  case (Cons d ds)
  have "calm s (s\<lparr>deliveries := x\<rparr>)" for x by (rule calm_frame) simp_all
  with Cons.IH show ?case
    by (auto simp: Let_def get_notice_def intro: calm_trans [OF calm_trans [OF _ expire_calm]])
qed simp

lemma close_endpoints_calm: "calm s (fst (close_endpoints now eps closures s))"
proof (induction eps arbitrary: closures s)
  case (Cons ep eps)
  obtain s1 c1 where r: "close_rows now (take (max_claims - length closures) (sort_key (updated_at s) (filter (closable s ep) (deliveries s)))) closures s = (s1, c1)"
    by fastforce
  have "calm s s1" using close_rows_calm [of s now _ closures] r by (metis fst_conv)
  then show ?case using calm_trans [OF _ Cons.IH] by (simp add: r)
qed simp

lemma closures_calm [calm_steps]: "calm s (fst (claim_closures eps now s))"
  unfolding claim_closures_def by (rule calm_trans [OF expire_calm close_endpoints_calm])

lemma receipt_calm [calm_steps]: "calm s (kept s (record_receipt i ep lease status now s))"
  by (auto simp: kept_def record_receipt_def split: option.split intro!: calm_frame)

section \<open>Idle notices\<close>

definition pending_idle :: "string \<Rightarrow> notice \<Rightarrow> bool" where
  "pending_idle rid n \<longleftrightarrow> nt_root n = rid \<and> nt_kind n = IdleNotice \<and> nt_state n = NtPending"

definition idle_count :: "nstore \<Rightarrow> string \<Rightarrow> nat" where
  "idle_count s rid = length (filter (pending_idle rid) (notices s))"

definition notices_inv :: "nstore \<Rightarrow> bool" where
  "notices_inv s \<longleftrightarrow> unique_key nt_id (notices s) \<and> unique_key nt_key (notices s) \<and> unique_key nf_root (families s)
     \<and> (\<forall>rid. idle_count s rid \<le> (if episode_open s rid then 0 else 1))"

lemma settles_count: "list_all2 settles t t' \<Longrightarrow> length (filter (pending_idle rid) t') \<le> length (filter (pending_idle rid) t)"
  by (induction rule: list_all2_induct) (auto simp: settles_def pending_idle_def)

lemma settles_keys: "list_all2 settles t t' \<Longrightarrow> map nt_id t' = map nt_id t \<and> map nt_key t' = map nt_key t"
  by (induction rule: list_all2_induct) (auto simp: settles_def)

lemma calm_count: "calm s s' \<Longrightarrow> idle_count s' rid \<le> idle_count s rid"
  by (simp add: calm_def idle_count_def settles_count)

lemma inv_count: "notices_inv s \<Longrightarrow> idle_count s rid \<le> (if episode_open s rid then 0 else 1)"
  unfolding notices_inv_def by blast

lemma calm_inv:
  assumes "calm s s'" "notices_inv s"
  shows "notices_inv s'"
proof -
  have "idle_count s' rid \<le> (if episode_open s' rid then 0 else 1)" for rid
    using calm_count [OF assms(1), of rid] inv_count [OF assms(2), of rid] assms(1)
    by (cases "episode_open s rid"; cases "episode_open s' rid") (auto simp: calm_def)
  then show ?thesis
    using assms settles_keys [of "notices s" "notices s'"] by (simp add: notices_inv_def calm_def unique_key_def)
qed

lemma insert_unique: "unique_key nt_id (notices s) \<Longrightarrow> unique_key nt_key (notices s) \<Longrightarrow>
    unique_key nt_id (notices (insert_notice n s)) \<and> unique_key nt_key (notices (insert_notice n s))"
  by (auto simp: insert_notice_def unique_key_add_row find_row_None_iff list_ex_iff)

lemma insert_count: "idle_count (insert_notice n s) rid \<le> idle_count s rid + (if pending_idle rid n then 1 else 0)"
  by (simp add: insert_notice_def idle_count_def add_row_def)

lemma insert_open: "episode_open (insert_notice n s) rid = episode_open s rid" "families (insert_notice n s) = families s"
    "deliveries (insert_notice n s) = deliveries s"
  by (simp_all add: insert_notice_def episode_open_def family_of_def)

lemma insert_inv:
  assumes "notices_inv s" "\<And>rid. pending_idle rid n \<Longrightarrow> \<not> episode_open s rid \<and> idle_count s rid = 0"
  shows "notices_inv (insert_notice n s)"
proof -
  have "idle_count (insert_notice n s) rid \<le> (if episode_open s rid then 0 else 1)" for rid
    using insert_count [of n s rid] inv_count [OF assms(1), of rid] assms(2) [of rid] by (cases "pending_idle rid n"; cases "episode_open s rid") simp_all
  then show ?thesis using assms(1) insert_unique [of s n] by (simp add: notices_inv_def insert_open)
qed

lemma create_inv:
  assumes "notices_inv s" "df_kind d = IdleNotice \<Longrightarrow> \<not> episode_open s (df_root d) \<and> idle_count s (df_root d) = 0"
  shows "notices_inv (fst (create_notice sha notifies d now s))"
proof -
  have "notices_inv (insert_notice (draft_notice sha d now s) s)"
    by (rule insert_inv) (use assms in \<open>auto simp: pending_idle_def draft_notice_def\<close>)
  then show ?thesis
    using calm_inv [OF get_notice_calm] assms(1) by (simp add: create_notice_def)
qed

lemma open_episode_inv:
  assumes "notices_inv s"
  shows "notices_inv (open_episode rid episode own now s)"
proof -
  let ?n = "update_where (\<lambda>n. nt_root n = rid \<and> nt_kind n = IdleNotice \<and> nt_state n = NtPending) (\<lambda>n. n\<lparr>nt_state := NtSuperseded, nt_updated := now\<rparr>) (notices s)"
  let ?s1 = "s\<lparr>notices := ?n\<rparr>"
  let ?s2 = "upsert_family rid (opened_row episode own now (blank_family rid)) (opened_row episode own now) ?s1"
  have "calm s ?s1" by (rule calm_notices, rule settles_update) (simp add: settles_def)
  then have s1: "notices_inv ?s1" using assms by (rule calm_inv)
  have "\<not> pending_idle rid (if nt_root n = rid \<and> nt_kind n = IdleNotice \<and> nt_state n = NtPending then n\<lparr>nt_state := NtSuperseded, nt_updated := now\<rparr> else n)" for n
    by (simp add: pending_idle_def)
  then have none: "idle_count ?s1 rid = 0" by (simp add: idle_count_def update_where_def filter_map o_def)
  have row: "nf_root (opened_row episode own now (blank_family rid)) = rid" "nf_root (opened_row episode own now x) = nf_root x"
      "open_row (opened_row episode own now x)" for x
    by (simp_all add: opened_row_def blank_family_def open_row_def)
  have "episode_open ?s2 r = (r = rid \<or> episode_open ?s1 r)" for r
    using family_of_upsert [OF row(1,2), of ?s1 r] row(3) by (cases "family_of ?s1 rid") (simp_all add: episode_open_def)
  moreover have "unique_key nf_root (families ?s2)"
    using upsert_unique [OF row(1,2)] s1 unfolding notices_inv_def by blast
  moreover have "notices ?s2 = notices ?s1" by (simp add: upsert_frame)
  moreover have "idle_count ?s2 r \<le> (if r = rid \<or> episode_open ?s1 r then 0 else 1)" for r
    using inv_count [OF s1, of r] none by (cases "r = rid") (simp_all add: idle_count_def upsert_frame)
  ultimately have "notices_inv ?s2"
    using s1 by (simp add: notices_inv_def)
  then show ?thesis
    using calm_inv [OF checkpoint_calm, of ?s2 rid own now] by (simp add: open_episode_def Let_def)
qed

lemma close_episode_inv:
  assumes "notices_inv s" "episode_open s (fm_root fm)"
  shows "notices_inv (fst (close_episode sha notifies fm f episode now s))"
proof -
  let ?s1 = "s\<lparr>families := modify_row nf_root (fm_root fm) (\<lambda>f. f\<lparr>nf_closed := Some now\<rparr>) (families s)\<rparr>"
  have s1: "notices_inv ?s1" using closes_family_calm assms(1) by (rule calm_inv)
  have "\<not> episode_open ?s1 (fm_root fm)"
    by (auto simp: episode_open_def family_of_def find_row_modify open_row_def split: option.splits)
  moreover have "idle_count ?s1 (fm_root fm) = 0"
    using inv_count [OF assms(1), of "fm_root fm"] assms(2) by (simp add: idle_count_def)
  ultimately show ?thesis
    using s1 create_inv [OF s1, of "idle_draft fm episode now" sha notifies now]
    by (simp add: close_episode_def Let_def idle_draft_def)
qed

lemma observe_family_inv:
  assumes "notices_inv s"
  shows "notices_inv (fst (observe_family sha notifies idle_ms fm own background live_actors uuid now s))"
proof (cases "fm_active fm \<or> list_ex (\<lambda>r. s_id r \<in> set live_actors) (fm_members fm)")
  case True
  then show ?thesis
    using open_episode_inv [OF assms] calm_inv [OF set_quiet_calm assms] by (simp add: observe_family_def Let_def)
next
  case False
  show ?thesis
  proof (cases "\<exists>f e. family_of s (fm_root fm) = Some f \<and> nf_episode f = Some e \<and> nf_closed f = None")
    case True
    then obtain f e where f: "family_of s (fm_root fm) = Some f" "nf_episode f = Some e" "nf_closed f = None" by blast
    have "notices_inv (fst (close_episode sha notifies fm f e now s))"
      by (rule close_episode_inv [OF assms]) (simp add: episode_open_def f open_row_def)
    with False f show ?thesis
      using calm_inv [OF set_quiet_calm assms] assms by (simp add: observe_family_def Let_def split: option.split)
  next
    case none: False
    have "fst (observe_family sha notifies idle_ms fm own background live_actors uuid now s) = s"
      using False none by (auto simp: observe_family_def Let_def split: option.splits)
    then show ?thesis using assms by simp
  qed
qed

lemma observe_inv: "notices_inv s \<Longrightarrow> notices_inv (fst (observe sha notifies idle_ms db sid own background live_actors uuid now s))"
  using observe_family_inv calm_inv [OF cancel_session_calm] by (simp add: observe_def split: option.split)

lemma nexec_inv: "notices_inv s \<Longrightarrow> notices_inv (nexec e x s)"
proof (cases x)
  case (CreateNotice c notifies d now)
  have "created_kind c \<noteq> IdleNotice" by (cases c) simp_all
  with CreateNotice show "notices_inv s \<Longrightarrow> notices_inv (nexec e x s)" by (auto simp: nexec_def intro: create_inv)
next
  case (RequestNotice notifies sid key title body expires now generation)
  then show "notices_inv s \<Longrightarrow> notices_inv (nexec e x s)" by (auto simp: nexec_def request_notice_def intro: create_inv)
next
  case (Observe notifies db sid own background live_actors uuid now)
  then show "notices_inv s \<Longrightarrow> notices_inv (nexec e x s)" by (simp add: nexec_def observe_inv)
qed (simp_all add: nexec_def calm_inv [OF user_input_calm] calm_inv [OF bind_origin_calm] calm_inv [OF continuation_calm] calm_inv [OF resolve_key_calm]
    calm_inv [OF transition_calm] calm_inv [OF read_calm] calm_inv [OF get_notice_calm] calm_inv [OF list_notices_calm] calm_inv [OF cancel_session_calm]
    calm_inv [OF cancel_dialogs_calm] calm_inv [OF claim_calm] calm_inv [OF closures_calm] calm_inv [OF receipt_calm])

lemma empty_notices_inv: "notices_inv empty_nstore"
  by (simp add: notices_inv_def empty_nstore_def unique_key_def idle_count_def)

lemma nrun_inv: "notices_inv s \<Longrightarrow> notices_inv (nrun e xs s)"
  unfolding nrun_def by (induction xs arbitrary: s) (simp_all add: nexec_inv)

text \<open>
  C33: In every history of the notification store a family has at most one pending idle notice, and none
  while an episode of its work is open; notice ids and source keys never repeat, so an episode is announced at most once.
\<close>

theorem idle_notice_laws:
  "length (filter (\<lambda>n. nt_root n = rid \<and> nt_kind n = IdleNotice \<and> nt_state n = NtPending) (notices (nrun e xs empty_nstore)))
     \<le> (case family_of (nrun e xs empty_nstore) rid of Some f \<Rightarrow> (if open_row f then 0 else 1) | None \<Rightarrow> 1)
   \<and> distinct (map nt_id (notices (nrun e xs empty_nstore))) \<and> distinct (map nt_key (notices (nrun e xs empty_nstore)))"
proof -
  have inv: "notices_inv (nrun e xs empty_nstore)" by (rule nrun_inv [OF empty_notices_inv])
  show ?thesis
    using inv_count [OF inv, of rid] inv
    by (cases "family_of (nrun e xs empty_nstore) rid") (simp_all add: notices_inv_def idle_count_def pending_idle_def [abs_def] episode_open_def unique_key_def)
qed

end
