(* ===== verification/DeliveryHistory.thy ===== *)
theory DeliveryHistory
  imports NotificationHistory
begin

text \<open>
  Deliveries of notices to endpoints: the moves of one delivery, the proof that every operation of
  the store makes only such moves, and what follows for histories: bounded attempts, final outcomes,
  and at most one order to close a notice on an endpoint.
\<close>

section \<open>Moves of a delivery\<close>

type_synonym delivery_status = "delivery_state \<times> nat \<times> int option"

definition delivery_status :: "delivery_row \<Rightarrow> delivery_status" where
  "delivery_status d = (dl_state d, dl_attempts d, dl_closed d)"

inductive delivery_move :: "delivery_status \<Rightarrow> delivery_status \<Rightarrow> bool" where
  dm_claim: "st \<in> {DlPending, DlInflight} \<Longrightarrow> a < max_attempts \<Longrightarrow> delivery_move (st, a, c) (DlInflight, a + 1, c)"
| dm_withdraw: "st \<in> {DlPending, DlInflight} \<Longrightarrow> delivery_move (st, a, c) (DlExpired, a, c)"
| dm_exhaust: "max_attempts \<le> a \<Longrightarrow> delivery_move (DlInflight, a, c) (DlFailed, a, c)"
| dm_retry: "a < max_attempts \<Longrightarrow> delivery_move (DlInflight, a, c) (DlPending, a, c)"
| dm_settle: "st \<in> {DlAccepted, DlSuppressed, DlFailed} \<Longrightarrow> delivery_move (DlInflight, a, c) (st, a, c)"
| dm_close: "delivery_move (DlAccepted, a, None) (DlAccepted, a, Some t)"

inductive_simps delivery_move_final: "delivery_move (DlAccepted, a, c) s" "delivery_move (DlFailed, a, c) s"
  "delivery_move (DlSuppressed, a, c) s" "delivery_move (DlExpired, a, c) s"

lemma move_attempts: "delivery_move\<^sup>*\<^sup>* x y \<Longrightarrow> fst (snd x) \<le> max_attempts \<Longrightarrow> fst (snd x) \<le> fst (snd y) \<and> fst (snd y) \<le> max_attempts"
  by (induction rule: rtranclp_induct) (auto elim!: delivery_move.cases)

lemma move_final: "delivery_move\<^sup>*\<^sup>* x y \<Longrightarrow> fst x \<in> {DlAccepted, DlFailed, DlSuppressed, DlExpired} \<Longrightarrow> fst y = fst x \<and> fst (snd y) = fst (snd x)"
  by (induction rule: rtranclp_induct) (auto simp: delivery_move_final)

lemma move_closed: "delivery_move\<^sup>*\<^sup>* x y \<Longrightarrow> snd (snd x) = Some t \<Longrightarrow> snd (snd y) = Some t"
  by (induction rule: rtranclp_induct) (auto elim!: delivery_move.cases)

definition moves_on :: "delivery_row \<Rightarrow> delivery_row \<Rightarrow> bool" where
  "moves_on d d' \<longleftrightarrow> delivery_key d' = delivery_key d \<and> delivery_move\<^sup>*\<^sup>* (delivery_status d) (delivery_status d')"

lemma moves_on_refl [simp]: "moves_on d d"
  by (simp add: moves_on_def)

lemma moves_on_trans: "moves_on a b \<Longrightarrow> moves_on b c \<Longrightarrow> moves_on a c"
  by (auto simp: moves_on_def)

lemma moves_onI: "delivery_key d' = delivery_key d \<Longrightarrow> delivery_move (delivery_status d) (delivery_status d') \<Longrightarrow> moves_on d d'"
  by (simp add: moves_on_def)

definition delivery_of :: "nstore \<Rightarrow> string \<times> string \<Rightarrow> delivery_row option" where
  "delivery_of s k = find_row delivery_key (deliveries s) k"

definition deliveries_ok :: "delivery_row list \<Rightarrow> bool" where
  "deliveries_ok t \<longleftrightarrow> unique_key delivery_key t \<and> list_all (\<lambda>d. dl_attempts d \<le> max_attempts) t"

definition deliveries_advance :: "delivery_row list \<Rightarrow> delivery_row list \<Rightarrow> bool" where
  "deliveries_advance t t' \<longleftrightarrow> (deliveries_ok t \<longrightarrow> deliveries_ok t' \<and>
     (\<forall>k d. find_row delivery_key t k = Some d \<longrightarrow> (\<exists>d'. find_row delivery_key t' k = Some d' \<and> moves_on d d')))"

lemma deliveries_advance_refl [simp]: "deliveries_advance t t"
  by (simp add: deliveries_advance_def)

lemma deliveries_advance_trans: "deliveries_advance a b \<Longrightarrow> deliveries_advance b c \<Longrightarrow> deliveries_advance a c"
  unfolding deliveries_advance_def by (meson moves_on_trans)

lemma moves_on_attempts: "moves_on d d' \<Longrightarrow> dl_attempts d \<le> max_attempts \<Longrightarrow> dl_attempts d' \<le> max_attempts"
  using move_attempts [of "delivery_status d" "delivery_status d'"] by (simp add: moves_on_def delivery_status_def)

lemma advance_update:
  assumes "\<And>d. delivery_key (f d) = delivery_key d" "\<And>d. d \<in> set t \<Longrightarrow> p d \<Longrightarrow> moves_on d (f d)"
  shows "deliveries_advance t (update_where p f t)"
proof -
  have "deliveries_ok (update_where p f t)" if "deliveries_ok t"
    using that assms(2) moves_on_attempts unique_key_update_where [of delivery_key f p t, OF assms(1)]
    by (auto simp: deliveries_ok_def list_all_iff set_update_where)
  moreover have "\<exists>d'. find_row delivery_key (update_where p f t) k = Some d' \<and> moves_on d d'" if "find_row delivery_key t k = Some d" for k d
    using that assms(2) [of d] find_row_SomeD [OF that] by (auto simp: find_row_update [where key = delivery_key, OF assms(1)])
  ultimately show ?thesis by (simp add: deliveries_advance_def)
qed

lemma advance_modify:
  assumes "find_row delivery_key t k = Some d" "\<And>d. delivery_key (f d) = delivery_key d" "moves_on d (f d)"
  shows "deliveries_advance t (modify_row delivery_key k f t)"
proof (cases "deliveries_ok t")
  case True
  have "x = d" if "x \<in> set t" "delivery_key x = k" for x
    using that assms(1) True find_row_unique [of delivery_key t x] by (auto simp: deliveries_ok_def)
  then show ?thesis unfolding modify_row_def by (intro advance_update) (use assms in auto)
qed (simp add: deliveries_advance_def)

lemma advance_insert:
  assumes "dl_attempts d = 0"
  shows "deliveries_advance t (insert_delivery d t)"
proof (cases "find_row delivery_key t (delivery_key d)")
  case None
  have "deliveries_ok t \<Longrightarrow> deliveries_ok (add_row d t)"
    using assms None unfolding deliveries_ok_def unique_key_add_row by (simp add: add_row_def)
  moreover have "find_row delivery_key (add_row d t) k = Some x" if "find_row delivery_key t k = Some x" for k x
    using that by (simp add: find_row_add_row)
  ultimately show ?thesis using None by (auto simp: deliveries_advance_def insert_delivery_def)
qed (simp add: insert_delivery_def)

section \<open>Every operation\<close>

lemma expire_deliveries [simp]: "deliveries (expire now s) = deliveries s"
  by (simp add: expire_def)

lemma get_notice_deliveries [simp]: "deliveries (fst (get_notice i now s)) = deliveries s"
  by (simp add: get_notice_def)

lemma offer_advance: "deliveries_advance (deliveries s) (deliveries (offer now ep s))"
proof -
  have "deliveries_advance t (fold (\<lambda>n. insert_delivery (new_delivery ep now n)) ns t)" for ns t
  proof (induction ns arbitrary: t)
    case (Cons n ns)
    show ?case using deliveries_advance_trans [OF advance_insert Cons.IH] by (simp add: new_delivery_def)
  qed simp
  then show ?thesis by (simp add: offer_def)
qed

lemma offers_advance: "deliveries_advance (deliveries s) (deliveries (fold (offer now) eps s))"
  by (induction eps arbitrary: s) (auto intro: deliveries_advance_trans [OF offer_advance])

lemma withdrawn_moves: "dl_state d \<in> {DlPending, DlInflight} \<Longrightarrow> moves_on d (dropped DlExpired d)"
  by (rule moves_onI) (simp_all add: dropped_def delivery_key_def delivery_status_def dm_withdraw)

lemma withdraw_advance: "deliveries_advance (deliveries s) (deliveries (withdraw s))"
proof -
  have "deliveries_advance t (update_where (\<lambda>d. dl_state d \<in> {DlPending, DlInflight} \<and> q d) (dropped DlExpired) t)" for t q
    by (rule advance_update) (use withdrawn_moves in \<open>auto simp: dropped_def delivery_key_def\<close>)
  then show ?thesis by (simp add: withdraw_def)
qed

lemma exhaust_advance: "deliveries_advance (deliveries s) (deliveries (exhaust now s))"
  unfolding exhaust_def
  by (auto simp: dropped_def delivery_key_def delivery_status_def intro!: advance_update moves_onI delivery_move.intros)

lemma leased_moves: "claimable now ep d \<Longrightarrow> moves_on d (leased lease now d)"
  by (rule moves_onI) (auto simp: claimable_def leased_def delivery_key_def delivery_status_def intro: dm_claim [simplified])

lemma find_others: "k \<noteq> k' \<Longrightarrow> (\<And>d. delivery_key (f d) = delivery_key d) \<Longrightarrow>
    find_row delivery_key (modify_row delivery_key k' f t) k = find_row delivery_key t k"
  by (simp add: find_row_modify)

lemma claim_rows_advance:
  assumes "distinct (map delivery_key ds)" "\<And>d. d \<in> set ds \<Longrightarrow> delivery_of s (delivery_key d) = Some d \<and> claimable now ep d"
  shows "deliveries_advance (deliveries s) (deliveries (fst (claim_rows now fresh ds claims s)))"
  using assms
proof (induction ds arbitrary: claims s)
  case (Cons d ds)
  let ?f = "leased (fresh (length claims)) now"
  let ?t = "modify_row delivery_key (delivery_key d) ?f (deliveries s)"
  let ?s1 = "fst (get_notice (dl_notice d) now (s\<lparr>deliveries := ?t\<rparr>))"
  have key: "delivery_key (?f x) = delivery_key x" for x by (simp add: leased_def delivery_key_def)
  have d: "find_row delivery_key (deliveries s) (delivery_key d) = Some d" "claimable now ep d"
    using Cons.prems(2) [of d] by (simp_all add: delivery_of_def)
  have step: "deliveries_advance (deliveries s) (deliveries ?s1)"
    using advance_modify [OF d(1) key leased_moves [OF d(2)]] by simp
  have rest: "delivery_of ?s1 (delivery_key x) = Some x \<and> claimable now ep x" if "x \<in> set ds" for x
    using that Cons.prems by (auto simp: delivery_of_def find_others [OF _ key] image_iff)
  have tail: "deliveries_advance (deliveries ?s1) (deliveries (fst (claim_rows now fresh ds c ?s1)))" for c
    by (rule Cons.IH) (use Cons.prems(1) rest in auto)
  show ?case using deliveries_advance_trans [OF step tail] by (simp add: Let_def get_notice_def)
qed simp

lemma selected_rows:
  assumes "deliveries_ok (deliveries s)"
  shows "distinct (map delivery_key (take m (sort_key g (filter p (deliveries s)))))"
    and "d \<in> set (take m (sort_key g (filter p (deliveries s)))) \<Longrightarrow> delivery_of s (delivery_key d) = Some d \<and> p d"
proof -
  have "distinct (map delivery_key (filter p (deliveries s)))"
    using assms by (simp add: deliveries_ok_def unique_key_def distinct_map_filter)
  then have "distinct (map delivery_key (sort_key g (filter p (deliveries s))))"
    by (simp add: distinct_map)
  then show "distinct (map delivery_key (take m (sort_key g (filter p (deliveries s)))))"
    by (simp add: distinct_take flip: take_map)
  show "d \<in> set (take m (sort_key g (filter p (deliveries s)))) \<Longrightarrow> delivery_of s (delivery_key d) = Some d \<and> p d"
    using assms by (auto simp: delivery_of_def deliveries_ok_def dest!: in_set_takeD intro: find_row_unique)
qed

lemma claim_endpoints_advance: "deliveries_advance (deliveries s) (deliveries (fst (claim_endpoints now fresh eps claims s)))"
proof (cases "deliveries_ok (deliveries s)")
  case True
  then show ?thesis
  proof (induction eps arbitrary: claims s)
    case (Cons ep eps)
    let ?rows = "take (max_claims - length claims) (sort_key (\<lambda>d. (dl_due d, dl_notice d)) (filter (claimable now ep) (deliveries s)))"
    obtain s1 c1 where r: "claim_rows now fresh ?rows claims s = (s1, c1)" by fastforce
    have "deliveries_advance (deliveries s) (deliveries (fst (claim_rows now fresh ?rows claims s)))"
      by (rule claim_rows_advance) (rule selected_rows [OF Cons.prems], rule selected_rows(2) [OF Cons.prems])
    then have step: "deliveries_advance (deliveries s) (deliveries s1)" by (simp only: r fst_conv)
    then have "deliveries_ok (deliveries s1)" using Cons.prems by (simp add: deliveries_advance_def)
    from deliveries_advance_trans [OF step Cons.IH [OF this]] show ?case by (simp add: r)
  qed simp
qed (simp add: deliveries_advance_def)

lemma claim_advance: "deliveries_advance (deliveries s) (deliveries (fst (claim_deliveries eps fresh now s)))"
proof -
  let ?s1 = "fold (offer now) eps (expire now s)"
  have "deliveries_advance (deliveries s) (deliveries ?s1)" using offers_advance [of "expire now s" now eps] by simp
  also note [trans] = deliveries_advance_trans
  have "deliveries_advance (deliveries ?s1) (deliveries (withdraw ?s1))" by (rule withdraw_advance)
  also have "deliveries_advance (deliveries (withdraw ?s1)) (deliveries (exhaust now (withdraw ?s1)))" by (rule exhaust_advance)
  also have "deliveries_advance \<dots> (deliveries (fst (claim_endpoints now fresh eps [] (exhaust now (withdraw ?s1)))))"
    by (rule claim_endpoints_advance)
  finally show ?thesis by (simp add: claim_deliveries_def)
qed

lemma receipt_state_moves: "dl_state d = DlInflight \<Longrightarrow> moves_on d (received status now d)"
  by (rule moves_onI) (auto simp: received_def receipt_state_def delivery_key_def delivery_status_def intro: dm_settle dm_retry)

lemma received_key: "delivery_key (received status now d) = delivery_key d"
  by (simp add: received_def delivery_key_def)

lemma receipt_advance: "deliveries_advance (deliveries s) (deliveries (kept s (record_receipt i ep lease status now s)))"
proof (cases "deliveries_ok (deliveries s)")
  case True
  show ?thesis
  proof (cases "find (holds_lease i ep lease) (deliveries s)")
    case (Some d)
    then have d: "d \<in> set (deliveries s)" "holds_lease i ep lease d" by (auto simp: find_Some_iff)
    then have row: "find_row delivery_key (deliveries s) (i, ep) = Some d"
      using True find_row_unique [of delivery_key "deliveries s" d] by (auto simp: deliveries_ok_def holds_lease_def delivery_key_def)
    have "deliveries_advance (deliveries s) (modify_row delivery_key (i, ep) (received status now) (deliveries s))"
      by (rule advance_modify [OF row]) (use d(2) receipt_state_moves in \<open>simp_all add: received_key holds_lease_def\<close>)
    then show ?thesis using Some by (simp add: record_receipt_def kept_def)
  qed (simp add: record_receipt_def kept_def)
qed (simp add: deliveries_advance_def)

section \<open>Closures\<close>

definition closure_keys :: "(notice option \<times> string) list \<Rightarrow> (string \<times> string) list" where
  "closure_keys cs = map (\<lambda>(n, ep). (case n of Some x \<Rightarrow> nt_id x | None \<Rightarrow> [], ep)) cs"

definition is_closed :: "nstore \<Rightarrow> string \<times> string \<Rightarrow> bool" where
  "is_closed s k \<longleftrightarrow> (case delivery_of s k of Some d \<Rightarrow> dl_closed d \<noteq> None | None \<Rightarrow> False)"

lemma closed_stays:
  assumes "deliveries_advance (deliveries s) (deliveries s')" "deliveries_ok (deliveries s)" "is_closed s k"
  shows "is_closed s' k"
proof -
  obtain d t where d: "delivery_of s k = Some d" "dl_closed d = Some t" using assms(3) by (auto simp: is_closed_def split: option.splits)
  then obtain d' where d': "delivery_of s' k = Some d'" "moves_on d d'"
    using assms(1,2) unfolding deliveries_advance_def delivery_of_def by blast
  then have "dl_closed d' = Some t"
    using move_closed [of "delivery_status d" "delivery_status d'" t] d(2) by (simp add: moves_on_def delivery_status_def)
  with d' show ?thesis by (simp add: is_closed_def)
qed

lemma expire_notice_id: "notice_of s i = Some n \<Longrightarrow> \<exists>n'. notice_of (expire now s) i = Some n' \<and> nt_id n' = i"
  using find_row_update [where key = nt_id and p = "\<lambda>n. nt_state n = NtPending \<and> nt_expires n \<le> now" and f = "\<lambda>n. n\<lparr>nt_state := NtExpired, nt_updated := now\<rparr>"
      and t = "notices s" and k = i] find_row_SomeD [of nt_id "notices s" i n]
  by (auto simp: notice_of_def expire_def)

definition open_row_of :: "nstore \<Rightarrow> delivery_row \<Rightarrow> bool" where
  "open_row_of s d \<longleftrightarrow> delivery_of s (delivery_key d) = Some d \<and> dl_state d = DlAccepted \<and> dl_closed d = None \<and> (\<exists>n. notice_of s (dl_notice d) = Some n)"

lemma close_rows_effect:
  assumes "distinct (map delivery_key ds)" "\<And>d. d \<in> set ds \<Longrightarrow> open_row_of s d" "close_rows now ds closures s = (s', cs)"
  shows "deliveries_advance (deliveries s) (deliveries s') \<and> closure_keys cs = closure_keys closures @ map delivery_key ds
    \<and> (deliveries_ok (deliveries s) \<longrightarrow> (\<forall>d\<in>set ds. is_closed s' (delivery_key d)))"
  using assms
proof (induction ds arbitrary: closures s)
  case (Cons d ds)
  let ?f = "\<lambda>d. d\<lparr>dl_closed := Some now\<rparr>"
  let ?t = "modify_row delivery_key (delivery_key d) ?f (deliveries s)"
  let ?s1 = "fst (get_notice (dl_notice d) now (s\<lparr>deliveries := ?t\<rparr>))"
  let ?n = "snd (get_notice (dl_notice d) now (s\<lparr>deliveries := ?t\<rparr>))"
  have key: "delivery_key (?f x) = delivery_key x" for x by (simp add: delivery_key_def)
  have d: "find_row delivery_key (deliveries s) (delivery_key d) = Some d" "dl_state d = DlAccepted" "dl_closed d = None"
    using Cons.prems(2) [of d] by (simp_all add: open_row_of_def delivery_of_def)
  have "moves_on d (?f d)" by (rule moves_onI) (simp_all add: delivery_key_def delivery_status_def d dm_close)
  then have step: "deliveries_advance (deliveries s) (deliveries ?s1)" using advance_modify [OF d(1) key] by simp
  have shut: "is_closed ?s1 (delivery_key d)" by (simp add: is_closed_def delivery_of_def find_row_modify key d(1))
  have found: "\<exists>n'. notice_of ?s1 i = Some n' \<and> nt_id n' = i" if "notice_of s i = Some n" for i n
    using expire_notice_id [of "s\<lparr>deliveries := ?t\<rparr>" i n now] that by (simp add: get_notice_def notice_of_def)
  have rest: "open_row_of ?s1 x" if "x \<in> set ds" for x
  proof -
    have "delivery_key x \<in> set (map delivery_key ds)" using that by simp
    then have x: "delivery_key x \<noteq> delivery_key d" "open_row_of s x"
      using that Cons.prems(1,2) by (metis distinct.simps(2) list.simps(9), simp)
    then show ?thesis using found by (fastforce simp: open_row_of_def delivery_of_def find_others [OF _ key])
  qed
  obtain n where n: "?n = Some n" "nt_id n = dl_notice d"
    using Cons.prems(2) [of d] found [of "dl_notice d"] by (auto simp: open_row_of_def get_notice_def)
  have run: "close_rows now ds (closures @ [(?n, dl_endpoint d)]) ?s1 = (s', cs)"
    using Cons.prems(3) by (simp add: Let_def split: prod.splits)
  have tail: "deliveries_advance (deliveries ?s1) (deliveries s') \<and> closure_keys cs = closure_keys (closures @ [(?n, dl_endpoint d)]) @ map delivery_key ds
    \<and> (deliveries_ok (deliveries ?s1) \<longrightarrow> (\<forall>d\<in>set ds. is_closed s' (delivery_key d)))"
    by (rule Cons.IH [OF _ rest run]) (use Cons.prems(1) in auto)
  have "deliveries_ok (deliveries ?s1)" if "deliveries_ok (deliveries s)" using step that unfolding deliveries_advance_def by blast
  then show ?case
    using tail deliveries_advance_trans [OF step] closed_stays [OF _ _ shut, of s'] n by (auto simp: closure_keys_def delivery_key_def)
qed simp

lemma close_endpoints_effect:
  assumes "deliveries_ok (deliveries s)" "close_endpoints now eps closures s = (s', cs)"
  shows "deliveries_advance (deliveries s) (deliveries s')
    \<and> (\<exists>new. closure_keys cs = closure_keys closures @ new \<and> distinct new \<and> (\<forall>k\<in>set new. \<not> is_closed s k \<and> is_closed s' k))"
  using assms
proof (induction eps arbitrary: closures s)
  case (Cons ep eps)
  let ?rows = "take (max_claims - length closures) (sort_key (updated_at s) (filter (closable s ep) (deliveries s)))"
  obtain s1 c1 where r: "close_rows now ?rows closures s = (s1, c1)" by fastforce
  have "open_row_of s d" if "d \<in> set ?rows" for d
    using selected_rows(2) [OF Cons.prems(1) that] by (auto simp: open_row_of_def closable_def split: option.splits)
  then have one: "deliveries_advance (deliveries s) (deliveries s1)" "closure_keys c1 = closure_keys closures @ map delivery_key ?rows"
      "\<forall>d\<in>set ?rows. is_closed s1 (delivery_key d) \<and> \<not> is_closed s (delivery_key d)"
    using close_rows_effect [OF selected_rows(1) [OF Cons.prems(1)] _ r] Cons.prems(1)
    by (auto simp: open_row_of_def is_closed_def)
  have ok: "deliveries_ok (deliveries s1)" using one(1) Cons.prems(1) by (simp add: deliveries_advance_def)
  have "close_endpoints now eps c1 s1 = (s', cs)" using Cons.prems(2) r by simp
  from Cons.IH [OF ok this] obtain new where new: "deliveries_advance (deliveries s1) (deliveries s')" "closure_keys cs = closure_keys c1 @ new"
      "distinct new" "\<forall>k\<in>set new. \<not> is_closed s1 k \<and> is_closed s' k" by blast
  have "distinct (map delivery_key ?rows @ new)"
    using selected_rows(1) [OF Cons.prems(1)] new(3,4) one(3) by auto
  moreover have "\<forall>k\<in>set (map delivery_key ?rows @ new). \<not> is_closed s k \<and> is_closed s' k"
  proof -
    have keys: "is_closed s1 k \<and> \<not> is_closed s k" if "k \<in> set (map delivery_key ?rows)" for k
      using one(3) that by auto
    show ?thesis
      unfolding set_append ball_Un using keys new(4) closed_stays [OF new(1) ok] closed_stays [OF one(1) Cons.prems(1)] by blast
  qed
  ultimately show ?case
    using deliveries_advance_trans [OF one(1) new(1)] one(2) new(2) by (intro conjI exI [of _ "map delivery_key ?rows @ new"]) simp_all
qed (simp add: closure_keys_def)

lemma closures_effect:
  assumes "deliveries_ok (deliveries s)" "claim_closures eps now s = (s', cs)"
  shows "deliveries_advance (deliveries s) (deliveries s') \<and> distinct (closure_keys cs)
    \<and> (\<forall>k\<in>set (closure_keys cs). \<not> is_closed s k \<and> is_closed s' k)"
  using close_endpoints_effect [of "expire now s" now eps "[]" s' cs] assms
  by (auto simp: claim_closures_def closure_keys_def is_closed_def delivery_of_def)

section \<open>Histories\<close>

lemma user_input_deliveries: "deliveries (note_user_input db sid now s) = deliveries s"
  by (simp add: note_user_input_def checkpoint_frame upsert_frame split: option.split)

lemma continuation_deliveries: "deliveries (note_continuation parse db sid key created now s) = deliveries s"
  using bind_origin_frame(3) [of parse db sid key created s]
  by (cases "bind_origin parse db sid key created s")
    (auto simp: note_continuation_def Let_def checkpoint_frame upsert_frame split: option.split)

lemma transition_deliveries: "deliveries (kept s (transition_notice i st now who s)) = deliveries s"
  by (simp add: transition_notice_def kept_def Let_def get_notice_def)

lemma create_deliveries: "deliveries (fst (create_notice sha notifies d now s)) = deliveries s"
  by (simp add: create_notice_def insert_open)

lemma observe_deliveries: "deliveries (fst (observe sha notifies idle_ms db sid own background live_actors uuid now s)) = deliveries s"
  by (auto simp: observe_def observe_family_def Let_def cancel_session_def set_quiet_def open_episode_def checkpoint_frame upsert_frame
      close_episode_def create_deliveries split: option.split)

lemma nexec_deliveries: "deliveries_advance (deliveries s) (deliveries (nexec e x s))"
proof (cases x)
  case (Closures eps now)
  show ?thesis
  proof (cases "deliveries_ok (deliveries s)")
    case True
    then show ?thesis using closures_effect [OF True, of eps now] Closures by (simp add: nexec_def) (metis prod.collapse)
  qed (simp add: deliveries_advance_def)
qed (simp_all add: nexec_def user_input_deliveries bind_origin_frame continuation_deliveries create_deliveries request_notice_def resolve_key_def
    transition_deliveries read_notice_def list_notices_def Let_def cancel_session_def cancel_dialogs_def observe_deliveries claim_advance receipt_advance)

lemma nrun_deliveries: "deliveries_advance (deliveries s) (deliveries (nrun e xs s))"
  unfolding nrun_def by (induction xs arbitrary: s) (auto intro: deliveries_advance_trans [OF nexec_deliveries])

lemma reachable_deliveries: "deliveries_ok (deliveries (nrun e xs empty_nstore))"
  using nrun_deliveries [of empty_nstore e xs] by (simp add: deliveries_advance_def deliveries_ok_def empty_nstore_def unique_key_def)

text \<open>
  C34: A delivery of a notice to an endpoint is never lost; it is attempted at most five times, its attempts are
  never taken back, and once it is accepted, suppressed, failed or expired it stays so and is not attempted again.
\<close>

theorem delivery_history:
  assumes "find_row delivery_key (deliveries (nrun e xs empty_nstore)) k = Some d"
  shows "\<exists>d'. find_row delivery_key (deliveries (nrun e ys (nrun e xs empty_nstore))) k = Some d'
    \<and> dl_attempts d \<le> dl_attempts d' \<and> dl_attempts d' \<le> 5
    \<and> (dl_state d \<in> {DlAccepted, DlSuppressed, DlFailed, DlExpired} \<longrightarrow> dl_state d' = dl_state d \<and> dl_attempts d' = dl_attempts d)"
proof -
  obtain d' where d': "find_row delivery_key (deliveries (nrun e ys (nrun e xs empty_nstore))) k = Some d'" "moves_on d d'"
    using nrun_deliveries [of "nrun e xs empty_nstore" e ys] reachable_deliveries assms unfolding deliveries_advance_def by blast
  have "dl_attempts d \<le> max_attempts"
    using reachable_deliveries [of e xs] find_row_SomeD [OF assms] by (auto simp: deliveries_ok_def list_all_iff)
  then show ?thesis
    using d' move_attempts [of "delivery_status d" "delivery_status d'"] move_final [of "delivery_status d" "delivery_status d'"]
    by (auto simp: moves_on_def delivery_status_def max_attempts_def notification_retry_ms_def)
qed

text \<open>An endpoint is told at most once to close a notice, however the calls repeat endpoints or interleave with other operations.\<close>

lemma closures_once:
  assumes "claim_closures eps now (nrun e xs empty_nstore) = (s1, cs)" "claim_closures eps' now' (nrun e ys s1) = (s2, cs')"
  shows "distinct (closure_keys cs @ closure_keys cs')"
proof -
  have first: "deliveries_advance (deliveries (nrun e xs empty_nstore)) (deliveries s1)" "distinct (closure_keys cs)" "\<forall>k\<in>set (closure_keys cs). is_closed s1 k"
    using closures_effect [OF reachable_deliveries assms(1)] by blast+
  have ok: "deliveries_ok (deliveries s1)" using first(1) reachable_deliveries by (simp add: deliveries_advance_def)
  then have ok': "deliveries_ok (deliveries (nrun e ys s1))" using nrun_deliveries unfolding deliveries_advance_def by blast
  show ?thesis
    using closures_effect [OF ok' assms(2)] first(2,3) closed_stays [OF nrun_deliveries ok, of _ e ys] by auto
qed

definition demo_notify :: notify_env where
  "demo_notify = \<lparr>ne_sha = id, ne_parse = (\<lambda>_. None), ne_idle_ms = 15000\<rparr>"

definition demo_draft :: draft where
  "demo_draft = \<lparr>df_key = ''k'', df_root = ''r'', df_session = ''r'', df_episode = None, df_kind = AttentionNotice, df_title = ''t'', df_body = ''b'',
     df_expires = 100, df_source = JObj []\<rparr>"

definition demo_deliver :: "notice_op list" where
  "demo_deliver = [CreateNotice ByDialog (\<lambda>_. True) demo_draft 1, Claim [''p''] (\<lambda>_. ''l'') 2, Receipt ''k'' ''p'' ''l'' ''accepted'' 3]"

lemma delivery_history_witness:
  "\<exists>d'. find_row delivery_key (deliveries (nrun demo_notify [Claim [''p''] (\<lambda>_. ''m'') 9] (nrun demo_notify demo_deliver empty_nstore))) (''k'', ''p'') = Some d'
     \<and> dl_state d' = DlAccepted \<and> dl_attempts d' = 1"
proof -
  have "map_option (\<lambda>d. (dl_state d, dl_attempts d)) (find_row delivery_key (deliveries (nrun demo_notify demo_deliver empty_nstore)) (''k'', ''p''))
      = Some (DlAccepted, 1)"
    by code_simp
  then obtain d where d: "find_row delivery_key (deliveries (nrun demo_notify demo_deliver empty_nstore)) (''k'', ''p'') = Some d"
    "dl_state d = DlAccepted" "dl_attempts d = 1" by auto
  show ?thesis using delivery_history [OF d(1), of "[Claim [''p''] (\<lambda>_. ''m'') 9]"] d(2,3) by auto
qed

end
