(* ===== verification/Inbox.thy ===== *)
theory Inbox
  imports Requests Tables
begin

text \<open>
  The inbox for registered programs (src/inbox.mjs): senders with hashed keys and rates, routes,
  remembered messages, and the decisions of the HTTP handler. Random keys and the SHA-256 hash are
  arguments; the delivery itself happens between \<open>admit_message\<close> and \<open>record_message\<close>. Reading the
  socket and writing the reply are not modelled.
\<close>

section \<open>The store\<close>

record sender_row =
  sn_name :: string
  sn_hash :: string
  sn_kind :: string
  sn_rate :: int
  sn_created :: int
  sn_updated :: int

record route_row =
  rt_route :: string
  rt_target :: js
  rt_updated :: int

record inbox_row =
  ib_sender :: string
  ib_message :: string
  ib_route :: string
  ib_received :: int
  ib_delivered :: "string list"

record inbox =
  senders :: "sender_row list"
  routes :: "route_row list"
  inbox_messages :: "inbox_row list"

definition max_inbox_text_bytes :: nat where
  "max_inbox_text_bytes = 8192"

definition default_inbox_rate_per_hour :: int where
  "default_inbox_rate_per_hour = 60"

definition hour_ms :: int where
  "hour_ms = 3600000"

definition message_retention_ms :: int where
  "message_retention_ms = 30 * 24 * hour_ms"

definition require_name :: "js \<Rightarrow> string \<Rightarrow> string result" where
  "require_name v label = (case v of
      JStr s \<Rightarrow> if sender_shape s then Inr s
        else Inl (TypeErr (label @ '' must be 1-32 lowercase letters, digits, or hyphens, starting with a letter''))
    | _ \<Rightarrow> Inl (TypeErr (label @ '' must be 1-32 lowercase letters, digits, or hyphens, starting with a letter'')))"

definition sender_named :: "inbox \<Rightarrow> string \<Rightarrow> sender_row option" where
  "sender_named ib n = find_row sn_name (senders ib) n"

text \<open>\<open>INSERT ... ON CONFLICT(name) DO UPDATE\<close>; the hash of the key is UNIQUE.\<close>

definition put_sender :: "string \<Rightarrow> string \<Rightarrow> string \<Rightarrow> int \<Rightarrow> int \<Rightarrow> inbox \<Rightarrow> inbox result" where
  "put_sender n hash kind rate now ib =
     (if list_ex (\<lambda>r. sn_hash r = hash \<and> sn_name r \<noteq> n) (senders ib) then Inl (UniqueViolation ''inbox_senders'')
      else Inr (case sender_named ib n of
          None \<Rightarrow> ib\<lparr>senders := add_row \<lparr>sn_name = n, sn_hash = hash, sn_kind = kind, sn_rate = rate, sn_created = now, sn_updated = now\<rparr> (senders ib)\<rparr>
        | Some _ \<Rightarrow> ib\<lparr>senders := modify_row sn_name n (\<lambda>r. r\<lparr>sn_hash := hash, sn_kind := kind, sn_rate := rate, sn_updated := now\<rparr>) (senders ib)\<rparr>))"

definition add_sender :: "(string \<Rightarrow> string) \<Rightarrow> string \<Rightarrow> js \<Rightarrow> js \<Rightarrow> js \<Rightarrow> int \<Rightarrow> inbox \<Rightarrow> (inbox \<times> string) result" where
  "add_sender sha key v kind rate now ib = (case require_name v ''sender'' of
      Inl e \<Rightarrow> Inl e
    | Inr n \<Rightarrow> (let kind = (if kind = Undef then JStr ''news'' else kind); rate = (if rate = Undef then jint default_inbox_rate_per_hour else rate) in
        if \<not> (\<exists>k \<in> set inbox_kinds. kind = JStr k) then Inl (TypeErr ''kind must be news or maintenance'')
        else (case js_int rate of
            Some i \<Rightarrow> if 1 \<le> i \<and> i \<le> 3600
              then (case put_sender n (sha key) (text_of kind) i now ib of Inl e \<Rightarrow> Inl e | Inr ib' \<Rightarrow> Inr (ib', key))
              else Inl (TypeErr ''ratePerHour must be from 1 through 3600'')
          | None \<Rightarrow> Inl (TypeErr ''ratePerHour must be from 1 through 3600''))))"

definition remove_sender :: "string \<Rightarrow> inbox \<Rightarrow> inbox result" where
  "remove_sender n ib = (if sender_named ib n = None then Inl (Thrown (''no such sender: '' @ n))
     else Inr (ib\<lparr>senders := filter (\<lambda>r. sn_name r \<noteq> n) (senders ib)\<rparr>))"

definition authenticate :: "(string \<Rightarrow> string) \<Rightarrow> string option \<Rightarrow> inbox \<Rightarrow> sender_row option" where
  "authenticate sha key ib = (case key of
      None \<Rightarrow> None
    | Some k \<Rightarrow> if length k < 16 \<or> 256 < length k then None else find_row sn_hash (senders ib) (sha k))"

definition valid_target :: "js \<Rightarrow> bool" where
  "valid_target t \<longleftrightarrow> is_plain_object t \<and> length (keys t) = 1
     \<and> ((case jget ''sessionId'' t of JStr s \<Rightarrow> matches (\<lambda>c. alnum c \<or> c = CHR ''-'') 1 128 s | _ \<Rightarrow> False) \<or> jget ''workingRoots'' t = JBool True)"

definition set_route :: "js \<Rightarrow> js \<Rightarrow> int \<Rightarrow> inbox \<Rightarrow> inbox result" where
  "set_route v target now ib = (case require_name v ''route'' of
      Inl e \<Rightarrow> Inl e
    | Inr r \<Rightarrow> if \<not> valid_target target then Inl (TypeErr ''route target must be { sessionId } or { workingRoots: true }'')
        else Inr (case find_row rt_route (routes ib) r of
            None \<Rightarrow> ib\<lparr>routes := add_row \<lparr>rt_route = r, rt_target = target, rt_updated = now\<rparr> (routes ib)\<rparr>
          | Some _ \<Rightarrow> ib\<lparr>routes := modify_row rt_route r (\<lambda>x. x\<lparr>rt_target := target, rt_updated := now\<rparr>) (routes ib)\<rparr>))"

definition remove_route :: "string \<Rightarrow> inbox \<Rightarrow> inbox result" where
  "remove_route r ib = (if find_row rt_route (routes ib) r = None then Inl (Thrown (''no such route: '' @ r))
     else Inr (ib\<lparr>routes := filter (\<lambda>x. rt_route x \<noteq> r) (routes ib)\<rparr>))"

definition get_route :: "string \<Rightarrow> inbox \<Rightarrow> js option" where
  "get_route r ib = map_option rt_target (find_row rt_route (routes ib) r)"

definition last_received :: "string \<Rightarrow> inbox \<Rightarrow> int option" where
  "last_received n ib = (case filter (\<lambda>m. ib_sender m = n) (inbox_messages ib) of
      [] \<Rightarrow> None | m # ms \<Rightarrow> Some (fold max (map ib_received ms) (ib_received m)))"

definition inbox_list :: "inbox \<Rightarrow> (string \<times> string \<times> int \<times> int option) list \<times> (string \<times> js) list" where
  "inbox_list ib = (map (\<lambda>r. (sn_name r, sn_kind r, sn_rate r, last_received (sn_name r) ib)) (sort_key sn_name (senders ib)),
     map (\<lambda>r. (rt_route r, rt_target r)) (sort_key rt_route (routes ib)))"

definition recent_count :: "string \<Rightarrow> int \<Rightarrow> inbox \<Rightarrow> nat" where
  "recent_count n now ib = changes (\<lambda>m. ib_sender m = n \<and> now - hour_ms < ib_received m) (inbox_messages ib)"

definition inbox_key :: "inbox_row \<Rightarrow> string \<times> string" where
  "inbox_key m = (ib_sender m, ib_message m)"

definition previous_delivery :: "string \<Rightarrow> string \<Rightarrow> inbox \<Rightarrow> string list option" where
  "previous_delivery n i ib = map_option ib_delivered (find_row inbox_key (inbox_messages ib) (n, i))"

definition insert_inbox :: "inbox_row \<Rightarrow> inbox_row list \<Rightarrow> inbox_row list" where
  "insert_inbox m t = (if find_row inbox_key t (inbox_key m) = None then add_row m t else t)"

definition record_message :: "string \<Rightarrow> string \<Rightarrow> string \<Rightarrow> string list \<Rightarrow> int \<Rightarrow> inbox \<Rightarrow> inbox" where
  "record_message n i route delivered now ib = ib\<lparr>inbox_messages := filter (\<lambda>m. now - message_retention_ms \<le> ib_received m)
     (insert_inbox \<lparr>ib_sender = n, ib_message = i, ib_route = route, ib_received = now, ib_delivered = delivered\<rparr> (inbox_messages ib))\<rparr>"

section \<open>The handler\<close>

text \<open>A body that is too large, is not JSON, or its value.\<close>

datatype body = TooLarge | NotJson | Body js

record http_request =
  hr_method :: string
  hr_path :: string
  hr_authorization :: "string option"
  hr_body :: body

text \<open>A reply with its status, or the message that is handed to \<open>deliver\<close>.\<close>

datatype inbox_step = Reply nat js | Hand sender_row string js string string

definition reply_error :: "nat \<Rightarrow> string \<Rightarrow> inbox_step" where
  "reply_error status why = Reply status (JObj [(''error'', JStr why)])"

text \<open>\<open>/^Bearer (\\S+)$/\<close>.\<close>

definition bearer_key :: "string option \<Rightarrow> string option" where
  "bearer_key h = (case h of
      None \<Rightarrow> None
    | Some s \<Rightarrow> (let k = drop 7 s in if take 7 s = ''Bearer '' \<and> k \<noteq> [] \<and> \<not> list_ex js_space k then Some k else None))"

definition forbidden_char :: "char \<Rightarrow> bool" where
  "forbidden_char c \<longleftrightarrow> (let n = of_char c :: nat in n \<le> 8 \<or> n = 11 \<or> n = 12 \<or> (14 \<le> n \<and> n \<le> 31) \<or> n = 127)"

definition text_allowed :: "js \<Rightarrow> bool" where
  "text_allowed v \<longleftrightarrow> (case v of JStr t \<Rightarrow> js_trim t \<noteq> [] \<and> utf8_len t \<le> max_inbox_text_bytes \<and> \<not> list_ex forbidden_char t | _ \<Rightarrow> False)"

definition accept_body :: "sender_row \<Rightarrow> js \<Rightarrow> int \<Rightarrow> inbox \<Rightarrow> inbox_step" where
  "accept_body s v now ib =
     (if \<not> is_plain_object v \<or> \<not> list_all (\<lambda>k. k \<in> {''route'', ''id'', ''text''}) (keys v) then reply_error 400 ''body must be { route, id, text }''
      else (case jget ''id'' v of
          JStr i \<Rightarrow>
            if \<not> inbox_id_shape i then reply_error 400 ''id must be 1-64 letters, digits, or . _ : -''
            else if \<not> text_allowed (jget ''text'' v) then reply_error 400 (''text must be nonblank plain text of at most '' @ show_nat max_inbox_text_bytes @ '' bytes'')
            else (case previous_delivery (sn_name s) i ib of
                Some before \<Rightarrow> Reply 200 (JObj [(''duplicate'', JBool True), (''deliveredTo'', JArr (map JStr before))])
              | None \<Rightarrow> (case (case jget ''route'' v of JStr r \<Rightarrow> get_route r ib | _ \<Rightarrow> None) of
                    None \<Rightarrow> reply_error 404 ''unknown route''
                  | Some target \<Rightarrow>
                      if sn_rate s \<le> int (recent_count (sn_name s) now ib) then reply_error 429 ''rate limit reached''
                      else Hand s (text_of (jget ''route'' v)) target i (text_of (jget ''text'' v))))
        | _ \<Rightarrow> reply_error 400 ''id must be 1-64 letters, digits, or . _ : -''))"

definition admit_message :: "(string \<Rightarrow> string) \<Rightarrow> http_request \<Rightarrow> int \<Rightarrow> inbox \<Rightarrow> inbox_step" where
  "admit_message sha r now ib =
     (if hr_method r = ''GET'' \<and> hr_path r = ''/v1/health'' then Reply 200 (JObj [(''ok'', JBool True)])
      else if hr_method r \<noteq> ''POST'' \<or> hr_path r \<noteq> ''/v1/messages'' then reply_error 404 ''unknown endpoint''
      else (case authenticate sha (bearer_key (hr_authorization r)) ib of
          None \<Rightarrow> reply_error 401 ''unknown sender key''
        | Some s \<Rightarrow> (case hr_body r of
              TooLarge \<Rightarrow> reply_error 413 ''message too large''
            | NotJson \<Rightarrow> reply_error 400 ''body must be JSON''
            | Body v \<Rightarrow> accept_body s v now ib)))"

text \<open>After the delivery: the sessions it reached, or its failure.\<close>

definition finish_message :: "sender_row \<Rightarrow> string \<Rightarrow> string \<Rightarrow> string list option \<Rightarrow> int \<Rightarrow> inbox \<Rightarrow> inbox \<times> inbox_step" where
  "finish_message s route i delivered now ib = (case delivered of
      None \<Rightarrow> (ib, reply_error 500 ''delivery failed'')
    | Some ids \<Rightarrow> (record_message (sn_name s) i route ids now ib, Reply 202 (JObj [(''deliveredTo'', JArr (map JStr ids))])))"

section \<open>Histories of the inbox\<close>

definition empty_inbox :: inbox where
  "empty_inbox = \<lparr>senders = [], routes = [], inbox_messages = []\<rparr>"

datatype inbox_op =
    AddSender string js js js int
  | RemoveSender string
  | SetRoute js js int
  | RemoveRoute string
  | Finish sender_row string string "string list option" int

definition kept :: "'s \<Rightarrow> 's result \<Rightarrow> 's" where
  "kept s r = (case r of Inl _ \<Rightarrow> s | Inr s' \<Rightarrow> s')"

fun inbox_exec :: "(string \<Rightarrow> string) \<Rightarrow> inbox_op \<Rightarrow> inbox \<Rightarrow> inbox" where
  "inbox_exec sha (AddSender key v kind rate now) ib = committed ib (add_sender sha key v kind rate now ib)"
| "inbox_exec sha (RemoveSender n) ib = kept ib (remove_sender n ib)"
| "inbox_exec sha (SetRoute v target now) ib = kept ib (set_route v target now ib)"
| "inbox_exec sha (RemoveRoute r) ib = kept ib (remove_route r ib)"
| "inbox_exec sha (Finish s route i delivered now) ib = fst (finish_message s route i delivered now ib)"

definition inbox_run :: "(string \<Rightarrow> string) \<Rightarrow> inbox_op list \<Rightarrow> inbox \<Rightarrow> inbox" where
  "inbox_run sha = fold (inbox_exec sha)"

definition sender_ok :: "sender_row \<Rightarrow> bool" where
  "sender_ok r \<longleftrightarrow> sender_shape (sn_name r) \<and> sn_kind r \<in> set inbox_kinds \<and> 1 \<le> sn_rate r \<and> sn_rate r \<le> 3600"

definition inbox_inv :: "inbox \<Rightarrow> bool" where
  "inbox_inv ib \<longleftrightarrow> list_all sender_ok (senders ib) \<and> unique_key inbox_key (inbox_messages ib)"

lemma sender_ok_update: "sender_ok r \<Longrightarrow> k \<in> set inbox_kinds \<Longrightarrow> 1 \<le> i \<Longrightarrow> i \<le> 3600 \<Longrightarrow>
    sender_ok (r\<lparr>sn_hash := h, sn_kind := k, sn_rate := i, sn_updated := t\<rparr>)"
  by (simp add: sender_ok_def)

lemma put_sender_inv:
  assumes "put_sender n h k i t ib = Inr ib'" "inbox_inv ib" "sender_shape n" "k \<in> set inbox_kinds" "1 \<le> i" "i \<le> 3600"
  shows "inbox_inv ib'"
  using assms by (auto simp: put_sender_def inbox_inv_def list_all_iff modify_row_def set_update_where sender_ok_def
    split: if_splits option.splits)

lemma add_sender_inv: "add_sender sha key v kind rate now ib = Inr (ib', k) \<Longrightarrow> inbox_inv ib \<Longrightarrow> inbox_inv ib'"
  by (auto simp: add_sender_def require_name_def Let_def text_of_def split: js.splits sum.splits if_splits option.splits
    intro: put_sender_inv)

lemma record_message_inv: "inbox_inv ib \<Longrightarrow> inbox_inv (record_message n i route ids now ib)"
  by (auto simp: inbox_inv_def record_message_def insert_inbox_def unique_key_filter unique_key_add_row)

lemma inbox_exec_inv: "inbox_inv ib \<Longrightarrow> inbox_inv (inbox_exec sha x ib)"
proof (cases x)
  case (AddSender key v kind rate now)
  assume "inbox_inv ib"
  then show ?thesis
    unfolding AddSender inbox_exec.simps by (cases "add_sender sha key v kind rate now ib") (auto intro: add_sender_inv)
qed (auto simp: kept_def remove_sender_def set_route_def remove_route_def finish_message_def inbox_inv_def list_all_iff
    record_message_inv [unfolded inbox_inv_def list_all_iff] split: sum.splits if_splits option.splits)

lemma inbox_run_inv: "inbox_inv (inbox_run sha xs empty_inbox)"
proof -
  have "inbox_inv (inbox_run sha xs ib)" if "inbox_inv ib" for ib
    using that unfolding inbox_run_def by (induction xs arbitrary: ib) (auto intro: inbox_exec_inv)
  then show ?thesis by (simp add: inbox_inv_def empty_inbox_def unique_key_def)
qed

lemma reply_error_not [simp]: "reply_error n w \<noteq> Hand s route target i text"
  by (simp add: reply_error_def)

lemma accept_bodyD:
  assumes "accept_body s' v now ib = Hand s route target i text"
  shows "s' = s \<and> inbox_id_shape i \<and> previous_delivery (sn_name s) i ib = None \<and> get_route route ib = Some target
    \<and> int (recent_count (sn_name s) now ib) < sn_rate s \<and> utf8_len text \<le> max_inbox_text_bytes \<and> js_trim text \<noteq> []"
  using assms by (auto simp: accept_body_def text_allowed_def text_of_def split: if_splits option.splits js.splits)

lemma admit_messageD:
  assumes "admit_message sha r now ib = Hand s route target i text"
  shows "s \<in> set (senders ib) \<and> inbox_id_shape i \<and> previous_delivery (sn_name s) i ib = None \<and> get_route route ib = Some target
    \<and> int (recent_count (sn_name s) now ib) < sn_rate s \<and> utf8_len text \<le> max_inbox_text_bytes \<and> js_trim text \<noteq> []"
proof (cases "authenticate sha (bearer_key (hr_authorization r)) ib")
  case (Some s')
  then obtain v where v: "accept_body s' v now ib = Hand s route target i text"
    using assms by (auto simp: admit_message_def split: if_splits body.splits)
  have "s' \<in> set (senders ib)"
    using Some by (auto simp: authenticate_def split: option.splits if_splits dest: find_row_SomeD)
  then show ?thesis using accept_bodyD [OF v] by simp
qed (use assms in \<open>simp add: admit_message_def split: if_splits\<close>)


definition demo_inbox_ops :: "inbox_op list" where
  "demo_inbox_ops = [AddSender ''0123456789abcdef'' (JStr ''bot'') Undef Undef 1,
     SetRoute (JStr ''home'') (JObj [(''workingRoots'', JBool True)]) 2]"

definition demo_http :: http_request where
  "demo_http = \<lparr>hr_method = ''POST'', hr_path = ''/v1/messages'', hr_authorization = Some (''Bearer '' @ ''0123456789abcdef''),
     hr_body = Body (JObj [(''route'', JStr ''home''), (''id'', JStr ''m1''), (''text'', JStr ''hi'')])\<rparr>"

definition demo_sender :: sender_row where
  "demo_sender = \<lparr>sn_name = ''bot'', sn_hash = ''0123456789abcdef'', sn_kind = ''news'', sn_rate = 60, sn_created = 1, sn_updated = 1\<rparr>"

lemma demo_inbox: "inbox_run id demo_inbox_ops empty_inbox = \<lparr>senders = [demo_sender],
   routes = [\<lparr>rt_route = ''home'', rt_target = JObj [(''workingRoots'', JBool True)], rt_updated = 2\<rparr>], inbox_messages = []\<rparr>"
proof -
  have n: "require_name (JStr ''bot'') w = Inr ''bot''" "require_name (JStr ''home'') w = Inr ''home''" for w
    by (simp_all add: require_name_def sender_shape_def matches_def)
  have r: "js_int (JNum (Fin 60)) = Some 60" by (simp add: js_int_def)
  have "inbox_exec id (AddSender ''0123456789abcdef'' (JStr ''bot'') Undef Undef 1) empty_inbox = empty_inbox\<lparr>senders := [demo_sender]\<rparr>"
    by (simp add: add_sender_def n r inbox_kinds_def default_inbox_rate_per_hour_def put_sender_def empty_inbox_def sender_named_def add_row_def text_of_def demo_sender_def Let_def)
  then show ?thesis
    by (simp add: inbox_run_def demo_inbox_ops_def kept_def set_route_def n valid_target_def is_plain_object_def keys_def jget_def empty_inbox_def add_row_def)
qed

lemma demo_handed: "admit_message id demo_http 3 (inbox_run id demo_inbox_ops empty_inbox) = Hand demo_sender ''home'' (JObj [(''workingRoots'', JBool True)]) ''m1'' ''hi''"
proof -
  have k: "bearer_key (hr_authorization demo_http) = Some ''0123456789abcdef''"
    by (simp add: demo_http_def bearer_key_def js_space_def Let_def)
  have i: "inbox_id_shape ''m1''" by (simp add: inbox_id_shape_def matches_def alnum_def)
  have t: "text_allowed (JStr ''hi'')"
    by (simp add: text_allowed_def js_trim_def js_space_def utf8_len_def max_inbox_text_bytes_def forbidden_char_def Let_def)
  show ?thesis
    unfolding demo_inbox admit_message_def k
    by (simp add: demo_http_def authenticate_def demo_sender_def find_row_Cons accept_body_def is_plain_object_def keys_def jget_def i t
      previous_delivery_def get_route_def recent_count_def changes_def text_of_def)
qed


end
