(* ===== verification/Framing.thy ===== *)
theory Framing
  imports Prelude "HOL-Library.Word"
begin

text \<open>
  Newline-delimited JSON on byte streams: \<open>JsonLineDecoder\<close> and \<open>encodeFrame\<close> of src/framing.mjs and
  \<open>PiRpcLineDecoder\<close> of src/session-actor.mjs. Both decoders are the same loop over the newlines of a
  chunk with their own treatment of a line and their own limit. \<open>TextDecoder\<close> and \<open>JSON.parse\<close> are the
  parameters \<open>utf8\<close> and \<open>json\<close>, \<open>JSON.stringify\<close> with the UTF-8 encoding is \<open>text\<close>. The interface
  \<open>chunk_decoder\<close> states that a decoder does not depend on how its input was cut into chunks.
\<close>

type_synonym bytes = "8 word list"

section \<open>The loop over a chunk\<close>

text \<open>The parts of an unfinished line, joined, and the number of bytes counted for it.\<close>

record line_buffer =
  lb_parts :: bytes
  lb_bytes :: nat

definition empty_buffer :: line_buffer where
  "empty_buffer = \<lparr>lb_parts = [], lb_bytes = 0\<rparr>"

definition append_part :: "nat \<Rightarrow> error \<Rightarrow> bytes \<Rightarrow> line_buffer \<Rightarrow> line_buffer \<times> error option" where
  "append_part mx too_large part d =
     (if part = [] then (d, None)
      else if mx < lb_bytes d + length part then (d\<lparr>lb_bytes := lb_bytes d + length part\<rparr>, Some too_large)
      else (\<lparr>lb_parts = lb_parts d @ part, lb_bytes = lb_bytes d + length part\<rparr>, None))"

definition add_values :: "'v list \<Rightarrow> line_buffer \<times> 'v list result \<Rightarrow> line_buffer \<times> 'v list result" where
  "add_values vs r = (case r of (d, Inr ws) \<Rightarrow> (d, Inr (vs @ ws)) | (d, Inl e) \<Rightarrow> (d, Inl e))"

definition newline :: "8 word" where
  "newline = 10"

lemma after_newline: "dropWhile (\<lambda>b. b \<noteq> newline) src = x # rest \<Longrightarrow> length rest < length src"
  using length_dropWhile_le [of "\<lambda>b. b \<noteq> newline" src] by simp

function (sequential) feed :: "nat \<Rightarrow> error \<Rightarrow> (bytes \<Rightarrow> 'v list result) \<Rightarrow> line_buffer \<Rightarrow> bytes \<Rightarrow> line_buffer \<times> 'v list result" where
  "feed mx too_large on_line d src =
     (case append_part mx too_large (takeWhile (\<lambda>b. b \<noteq> newline) src) d of
        (d', Some e) \<Rightarrow> (d', Inl e)
      | (d', None) \<Rightarrow> (case dropWhile (\<lambda>b. b \<noteq> newline) src of
            [] \<Rightarrow> (d', Inr [])
          | _ # rest \<Rightarrow> (case on_line (lb_parts d') of
                Inl e \<Rightarrow> (empty_buffer, Inl e)
              | Inr vs \<Rightarrow> add_values vs (feed mx too_large on_line empty_buffer rest))))"
  by pat_completeness auto

termination
  by (relation "measure (\<lambda>(mx, e, f, d, src). length src)") (auto dest: after_newline)

declare feed.simps [simp del]

definition carriage_return :: "8 word" where
  "carriage_return = 13"

definition trim_return :: "bytes \<Rightarrow> bytes" where
  "trim_return line = (if line \<noteq> [] \<and> last line = carriage_return then butlast line else line)"

section \<open>The two decoders\<close>

definition malformed :: "string \<Rightarrow> 'a result" where
  "malformed why = Inl (Coded ''malformed_frame'' why)"

definition json_line :: "(bytes \<Rightarrow> string option) \<Rightarrow> (string \<Rightarrow> string + 'v) \<Rightarrow> bytes \<Rightarrow> 'v list result" where
  "json_line utf8 json line =
     (if line = [] \<or> trim_return line = [] then malformed ''empty JSONL frame''
      else (case utf8 (trim_return line) of
          None \<Rightarrow> malformed ''frame is not valid UTF-8''
        | Some t \<Rightarrow> (case json t of Inl m \<Rightarrow> malformed (''invalid JSON: '' @ m) | Inr v \<Rightarrow> Inr [v])))"

definition frame_too_large :: "nat \<Rightarrow> error" where
  "frame_too_large mx = Coded ''frame_too_large'' (''frame exceeds '' @ show_nat mx @ '' bytes'')"

definition json_push :: "(bytes \<Rightarrow> string option) \<Rightarrow> (string \<Rightarrow> string + 'v) \<Rightarrow> nat \<Rightarrow> line_buffer \<Rightarrow> bytes \<Rightarrow> line_buffer \<times> 'v list result" where
  "json_push utf8 json mx = feed mx (frame_too_large mx) (json_line utf8 json)"

definition json_finish :: "line_buffer \<Rightarrow> unit result" where
  "json_finish d = (if lb_bytes d \<noteq> 0 then malformed ''connection ended with a partial frame'' else Inr ())"

definition encode_frame :: "('v \<Rightarrow> bytes) \<Rightarrow> nat \<Rightarrow> 'v \<Rightarrow> bytes result" where
  "encode_frame text mx v = (let payload = text v @ [newline] in
     if mx < length payload - 1 then Inl (frame_too_large mx) else Inr payload)"

text \<open>The decoder of the actor's output skips empty lines.\<close>

definition rpc_line :: "(bytes \<Rightarrow> string option) \<Rightarrow> (string \<Rightarrow> string + 'v) \<Rightarrow> bytes \<Rightarrow> 'v list result" where
  "rpc_line utf8 json line =
     (if trim_return line = [] then Inr []
      else (case utf8 (trim_return line) of
          None \<Rightarrow> Inl (TypeErr ''The encoded data was not valid for encoding utf-8'')
        | Some t \<Rightarrow> (case json t of Inl m \<Rightarrow> Inl (Thrown m) | Inr v \<Rightarrow> Inr [v])))"

definition max_rpc_line_bytes :: nat where
  "max_rpc_line_bytes = 268435456"

definition rpc_push :: "(bytes \<Rightarrow> string option) \<Rightarrow> (string \<Rightarrow> string + 'v) \<Rightarrow> line_buffer \<Rightarrow> bytes \<Rightarrow> line_buffer \<times> 'v list result" where
  "rpc_push utf8 json = feed max_rpc_line_bytes
     (Thrown (''Pi RPC line exceeds '' @ show_nat max_rpc_line_bytes @ '' bytes'')) (rpc_line utf8 json)"

section \<open>Chunks\<close>

text \<open>A reader that pushes chunk after chunk and stops at the first error.\<close>

fun push_all :: "(line_buffer \<Rightarrow> bytes \<Rightarrow> line_buffer \<times> 'v list result) \<Rightarrow> line_buffer \<Rightarrow> bytes list \<Rightarrow> line_buffer \<times> 'v list result" where
  "push_all push d [] = (d, Inr [])"
| "push_all push d (c # cs) = (case push d c of
      (d', Inl e) \<Rightarrow> (d', Inl e)
    | (d', Inr vs) \<Rightarrow> add_values vs (push_all push d' cs))"

lemma snd_add_values: "snd x = snd y \<Longrightarrow> snd (add_values vs x) = snd (add_values vs y)"
  by (cases x; cases y) (simp add: add_values_def split: sum.split)

locale chunk_decoder =
  fixes push :: "line_buffer \<Rightarrow> bytes \<Rightarrow> line_buffer \<times> 'v list result"
    and counted :: "line_buffer \<Rightarrow> bool"
  assumes push_nil: "push d [] = (d, Inr [])"
    and push_counted: "counted d \<Longrightarrow> push d a = (d', Inr vs) \<Longrightarrow> counted d'"
    and push_append_ok: "counted d \<Longrightarrow> push d a = (d', Inr vs) \<Longrightarrow> snd (push d (a @ b)) = snd (add_values vs (push d' b))"
    and push_append_error: "counted d \<Longrightarrow> push d a = (d', Inl e) \<Longrightarrow> snd (push d (a @ b)) = Inl e"
begin

lemma chunks: "counted d \<Longrightarrow> snd (push_all push d cs) = snd (push d (concat cs))"
proof (induction cs arbitrary: d)
  case (Cons c cs)
  obtain d' r where c: "push d c = (d', r)" by fastforce
  show ?case
  proof (cases r)
    case (Inl e)
    then show ?thesis using c push_append_error [OF Cons.prems] by simp
  next
    case (Inr vs)
    have d': "counted d'" using push_counted [OF Cons.prems] c Inr by simp
    have "snd (push d (concat (c # cs))) = snd (add_values vs (push d' (concat cs)))"
      using push_append_ok [OF Cons.prems] c Inr by simp
    then show ?thesis using snd_add_values [OF Cons.IH [OF d']] c Inr by simp
  qed
qed (simp add: push_nil)

lemma cut_anywhere: "counted d \<Longrightarrow> concat cs = concat cs' \<Longrightarrow> snd (push_all push d cs) = snd (push_all push d cs')"
  by (simp add: chunks)

end

section \<open>Both decoders are independent of the chunks\<close>

definition counted_line :: "nat \<Rightarrow> line_buffer \<Rightarrow> bool" where
  "counted_line mx d \<longleftrightarrow> lb_bytes d = length (lb_parts d) \<and> lb_bytes d \<le> mx"

lemma counted_empty [simp]: "counted_line mx empty_buffer"
  by (simp add: counted_line_def empty_buffer_def)

lemma append_part_counted: "counted_line mx d \<Longrightarrow> append_part mx e part d = (d', None) \<Longrightarrow> counted_line mx d' \<and> lb_parts d' = lb_parts d @ part"
  by (auto simp: append_part_def counted_line_def split: if_splits)

lemma append_part_append:
  assumes "append_part mx e a d = (d', None)"
  shows "append_part mx e (a @ b) d = append_part mx e b d' \<or>
    (\<exists>s s'. append_part mx e (a @ b) d = (s, Some e) \<and> append_part mx e b d' = (s', Some e))"
  using assms by (auto simp: append_part_def split: if_splits)

lemma append_part_longer:
  assumes "append_part mx e a d = (d', Some e')"
  shows "\<exists>s. append_part mx e (a @ b) d = (s, Some e')"
  using assms by (auto simp: append_part_def split: if_splits)

lemma add_values_add: "add_values vs (add_values ws r) = add_values (vs @ ws) r"
  by (cases r) (simp add: add_values_def split: sum.split)

lemma add_values_Nil [simp]: "add_values [] r = r"
  by (cases r) (simp add: add_values_def split: sum.split)

lemma add_values_Inr: "add_values vs r = (d, Inr us) \<longleftrightarrow> (\<exists>ws. r = (d, Inr ws) \<and> us = vs @ ws)"
  by (cases r) (auto simp: add_values_def split: sum.split)

lemma add_values_Inl: "add_values vs r = (d, Inl e) \<longleftrightarrow> r = (d, Inl e)"
  by (cases r) (auto simp: add_values_def split: sum.split)

text \<open>One step of the loop: without a newline the bytes are kept, with one the line is read.\<close>

lemma feed_partial: "newline \<notin> set a \<Longrightarrow> feed mx e f d a =
    (case append_part mx e a d of (d', Some e') \<Rightarrow> (d', Inl e') | (d', None) \<Rightarrow> (d', Inr []))"
proof -
  assume "newline \<notin> set a"
  then have tw: "takeWhile (\<lambda>b. b \<noteq> newline) a = a" "dropWhile (\<lambda>b. b \<noteq> newline) a = []" by auto
  show ?thesis unfolding feed.simps [of mx e f d a] tw by simp
qed

lemma feed_line: "newline \<notin> set a \<Longrightarrow> feed mx e f d (a @ newline # rest) =
    (case append_part mx e a d of (d', Some e') \<Rightarrow> (d', Inl e')
      | (d', None) \<Rightarrow> (case f (lb_parts d') of Inl e' \<Rightarrow> (empty_buffer, Inl e') | Inr vs \<Rightarrow> add_values vs (feed mx e f empty_buffer rest)))"
proof -
  assume a: "newline \<notin> set a"
  then have "takeWhile (\<lambda>b. b \<noteq> newline) (a @ newline # rest) = a" "dropWhile (\<lambda>b. b \<noteq> newline) (a @ newline # rest) = newline # rest"
    by (induction a) auto
  then show ?thesis by (simp add: feed.simps [of mx e f d "a @ newline # rest"])
qed

lemma feed_induct [case_names partial line]:
  assumes "\<And>a. newline \<notin> set a \<Longrightarrow> P a" and "\<And>a rest. newline \<notin> set a \<Longrightarrow> P rest \<Longrightarrow> P (a @ newline # rest)"
  shows "P src"
proof (induction src rule: length_induct)
  case (1 src)
  show ?case
  proof (cases "newline \<in> set src")
    case True
    then obtain a rest where "src = a @ newline # rest" "newline \<notin> set a" using split_list_first by fastforce
    then show ?thesis using 1 assms(2) by simp
  qed (rule assms(1))
qed

lemma feed_counted: "counted_line mx d \<Longrightarrow> feed mx e f d src = (d', Inr vs) \<Longrightarrow> counted_line mx d'"
proof (induction src arbitrary: d vs rule: feed_induct)
  case (partial a)
  then show ?case using append_part_counted [OF partial(2), of e a] by (auto simp: feed_partial split: prod.splits option.splits)
next
  case (line a rest)
  then show ?case using line.IH [OF counted_empty] by (auto simp: feed_line add_values_Inr split: prod.splits option.splits sum.splits)
qed

lemma feed_append_ok:
  "counted_line mx d \<Longrightarrow> feed mx e f d a = (d', Inr vs) \<Longrightarrow> snd (feed mx e f d (a @ b)) = snd (add_values vs (feed mx e f d' b))"
proof (induction a arbitrary: d vs rule: feed_induct)
  case (partial a)
  then have p: "append_part mx e a d = (d', None)" "vs = []" by (auto simp: feed_partial split: prod.splits option.splits)
  note app = append_part_append [OF p(1)]
  show ?case
  proof (cases "newline \<in> set b")
    case True
    then obtain c rest where b: "b = c @ newline # rest" "newline \<notin> set c" using split_list_first by fastforce
    have ac: "newline \<notin> set (a @ c)" using partial(1) b(2) by simp
    have "feed mx e f d (a @ b) = (case append_part mx e (a @ c) d of (d', Some e') \<Rightarrow> (d', Inl e')
      | (d', None) \<Rightarrow> (case f (lb_parts d') of Inl e' \<Rightarrow> (empty_buffer, Inl e') | Inr vs \<Rightarrow> add_values vs (feed mx e f empty_buffer rest)))"
      unfolding b(1) append_assoc [symmetric] by (rule feed_line [OF ac])
    then show ?thesis
      using app [of c] by (auto simp: feed_line [OF b(2)] b(1) p(2))
  next
    case False
    then have "newline \<notin> set (a @ b)" using partial(1) by simp
    then show ?thesis using app [of b] False by (auto simp: feed_partial p(2))
  qed
next
  case (line a rest)
  then obtain d1 vs1 ws where l: "append_part mx e a d = (d1, None)" "f (lb_parts d1) = Inr vs1" "feed mx e f empty_buffer rest = (d', Inr ws)" "vs = vs1 @ ws"
    by (auto simp: feed_line add_values_Inr split: prod.splits option.splits sum.splits)
  have "snd (feed mx e f d (a @ newline # rest @ b)) = snd (add_values vs1 (feed mx e f empty_buffer (rest @ b)))"
    using line(1) l(1,2) by (simp add: feed_line)
  also have "\<dots> = snd (add_values vs1 (add_values ws (feed mx e f d' b)))"
    by (rule snd_add_values, rule line.IH [OF counted_empty l(3)])
  finally show ?case by (simp add: add_values_add l(4))
qed

lemma feed_append_error:
  "counted_line mx d \<Longrightarrow> feed mx e f d a = (d', Inl e') \<Longrightarrow> snd (feed mx e f d (a @ b)) = Inl e'"
proof (induction a arbitrary: d rule: feed_induct)
  case (partial a)
  then have p: "append_part mx e a d = (d', Some e')" by (auto simp: feed_partial split: prod.splits option.splits)
  show ?case
  proof (cases "newline \<in> set b")
    case True
    then obtain c rest where b: "b = c @ newline # rest" "newline \<notin> set c" using split_list_first by fastforce
    have ac: "newline \<notin> set (a @ c)" using partial(1) b(2) by simp
    have "feed mx e f d (a @ b) = (case append_part mx e (a @ c) d of (d', Some e') \<Rightarrow> (d', Inl e')
      | (d', None) \<Rightarrow> (case f (lb_parts d') of Inl e' \<Rightarrow> (empty_buffer, Inl e') | Inr vs \<Rightarrow> add_values vs (feed mx e f empty_buffer rest)))"
      unfolding b(1) append_assoc [symmetric] by (rule feed_line [OF ac])
    then show ?thesis using append_part_longer [OF p, of c] by auto
  next
    case False
    then have "newline \<notin> set (a @ b)" using partial(1) by simp
    then show ?thesis using append_part_longer [OF p, of b] by (auto simp: feed_partial)
  qed
next
  case (line a rest)
  show ?case
  proof (cases "append_part mx e a d")
    case (Pair d1 r)
    show ?thesis
      using line.prems line.IH [OF counted_empty] line(1) Pair
      by (cases r; cases "f (lb_parts d1)") (auto simp: feed_line add_values_Inl, auto simp: add_values_def split: prod.splits)
  qed
qed

lemma feed_decoder: "chunk_decoder (feed mx e f) (counted_line mx)"
  by unfold_locales (auto simp: feed_partial append_part_def feed_counted feed_append_ok feed_append_error)

interpretation json: chunk_decoder "json_push utf8 json mx" "counted_line mx" for utf8 json mx
  unfolding json_push_def by (rule feed_decoder)

interpretation rpc: chunk_decoder "rpc_push utf8 json" "counted_line max_rpc_line_bytes" for utf8 json
  unfolding rpc_push_def by (rule feed_decoder)

section \<open>What the decoders promise\<close>


lemma feed_frames:
  assumes "\<And>v. v \<in> set vs \<Longrightarrow> newline \<notin> set (text v) \<and> text v \<noteq> [] \<and> length (text v) \<le> mx \<and> f (text v) = Inr [v]"
  shows "feed mx e f empty_buffer (concat (map (\<lambda>v. text v @ [newline]) vs)) = (empty_buffer, Inr vs)"
  using assms
proof (induction vs)
  case Nil
  then show ?case by (simp add: feed_partial append_part_def)
next
  case (Cons v vs)
  have v: "newline \<notin> set (text v)" "text v \<noteq> []" "length (text v) \<le> mx" "f (text v) = Inr [v]" using Cons.prems [of v] by simp_all
  have "append_part mx e (text v) empty_buffer = (\<lparr>lb_parts = text v, lb_bytes = length (text v)\<rparr>, None)"
    using v by (simp add: append_part_def empty_buffer_def)
  then show ?case using v Cons by (simp add: feed_line add_values_def)
qed

text \<open>
  C29: Frames survive the connection: the frames that \<open>encodeFrame\<close> writes, cut anywhere on the way, are
  read back as the same values in the same order, provided JSON text is one nonempty line that does not
  end in a carriage return and is parsed back to its value.
\<close>

theorem frames_roundtrip:
  assumes json: "\<And>v. v \<in> set vs \<Longrightarrow> newline \<notin> set (text v) \<and> text v \<noteq> [] \<and> last (text v) \<noteq> carriage_return"
    and parsed: "\<And>v. v \<in> set vs \<Longrightarrow> \<exists>t. utf8 (text v) = Some t \<and> parse t = Inr v"
    and encoded: "list_all2 (\<lambda>v bs. encode_frame text mx v = Inr bs) vs frames"
    and cut: "concat cs = concat frames"
  shows "snd (push_all (json_push utf8 parse mx) empty_buffer cs) = Inr vs"
proof -
  have fr: "v \<in> set vs \<Longrightarrow> length (text v) \<le> mx" "frames = map (\<lambda>v. text v @ [newline]) vs" for v
    using encoded by (induction vs frames rule: list_all2_induct) (auto simp: encode_frame_def Let_def split: if_splits)
  have "newline \<notin> set (text v) \<and> text v \<noteq> [] \<and> length (text v) \<le> mx \<and> json_line utf8 parse (text v) = Inr [v]" if v: "v \<in> set vs" for v
    using json [OF v] parsed [OF v] fr(1) [OF v] by (auto simp: json_line_def trim_return_def)
  then have "feed mx (frame_too_large mx) (json_line utf8 parse) empty_buffer (concat frames) = (empty_buffer, Inr vs)"
    unfolding fr(2) by (rule feed_frames)
  then show ?thesis by (simp add: json.chunks cut) (simp add: json_push_def)
qed

definition bit_text :: "bool \<Rightarrow> bytes" where
  "bit_text b = (if b then [49] else [48])"

definition bit_utf8 :: "bytes \<Rightarrow> string option" where
  "bit_utf8 bs = Some (if bs = [49] then ''1'' else ''0'')"

definition bit_parse :: "string \<Rightarrow> string + bool" where
  "bit_parse s = Inr (s = ''1'')"

lemma frames_roundtrip_witness:
  "snd (push_all (json_push bit_utf8 bit_parse 8) empty_buffer [[49], [10, 48], [10]]) = Inr [True, False]"
  by (rule frames_roundtrip [of _ bit_text _ _ _ "[[49, 10], [48, 10]]"])
    (auto simp: bit_text_def bit_utf8_def bit_parse_def newline_def carriage_return_def encode_frame_def)

end
