(* ===== verification/InferenceRetry.thy ===== *)
theory InferenceRetry
  imports Prelude
begin

text \<open>
  The retry policy of failed inference attempts (src/inference-retry.mjs): the projection of a
  transport report and the decision whether the attempt may be repeated, with its record. The two
  classifiers of the agent library are the parameters of the decision; each may be missing, may throw
  or answers for the error message. Getters on the input and the freezing of the result have no
  counterpart in the values of the model.
\<close>

section \<open>Fields of untrusted objects\<close>

definition max_timer_delay_ms :: rat where
  "max_timer_delay_ms = 2147483647"

definition unknown_transport_errors :: "string list" where
  "unknown_transport_errors = [''websocket_closed'', ''websocket_transport_error'', ''provider_timeout'', ''provider_response_not_successful'', ''provider_stream_incomplete'']"

definition outcomes :: "string list" where
  "outcomes = [''not_sent'', ''rejected'', ''unknown'', ''failed'', ''completed'']"

definition own_value :: "js \<Rightarrow> string \<Rightarrow> js" where
  "own_value v k = jget k v"

definition own_bool :: "js \<Rightarrow> bool option" where
  "own_bool v = (case v of JBool b \<Rightarrow> Some b | _ \<Rightarrow> None)"

definition own_count :: "js \<Rightarrow> int option" where
  "own_count v = (case js_safe_int v of Some i \<Rightarrow> if 0 \<le> i then Some i else None | None \<Rightarrow> None)"

definition own_ordinal :: "js \<Rightarrow> int option" where
  "own_ordinal v = (case js_safe_int v of Some i \<Rightarrow> if 0 < i then Some i else None | None \<Rightarrow> None)"

definition own_id :: "js \<Rightarrow> string option" where
  "own_id v = (case v of
      JStr s \<Rightarrow> if s \<noteq> [] \<and> length s \<le> 1024 \<and> list_all (\<lambda>c. 32 < (of_char c :: nat) \<and> of_char c \<noteq> (127 :: nat)) s then Some s else None
    | _ \<Rightarrow> None)"

section \<open>The transport report\<close>

record observed_call =
  oc_item :: "string option"
  oc_call :: "string option"
  oc_complete :: "bool option"
  oc_native :: "bool option"

record report =
  rp_version :: bool            \<comment> \<open>\<open>1\<close> or \<open>null\<close>\<close>
  rp_request :: "string option"
  rp_attempt :: "string option"
  rp_number :: "int option"
  rp_transport :: "string option"
  rp_outcome :: string
  rp_sent :: "bool option"
  rp_created :: "bool option"
  rp_response :: "string option"
  rp_tools :: "bool option"
  rp_retired :: "bool option"
  rp_fenced :: "bool option"
  rp_usage :: "bool option"
  rp_calls :: "observed_call list"

definition project_call :: "js \<Rightarrow> observed_call" where
  "project_call c = \<lparr>oc_item = own_id (own_value c ''itemId''), oc_call = own_id (own_value c ''callId''),
     oc_complete = own_bool (own_value c ''complete''), oc_native = own_bool (own_value c ''native'')\<rparr>"

definition valid_call :: "observed_call \<Rightarrow> bool" where
  "valid_call c \<longleftrightarrow> oc_item c \<noteq> None \<and> oc_call c \<noteq> None \<and> oc_complete c \<noteq> None \<and> oc_native c \<noteq> None
     \<and> \<not> (oc_native c = Some True \<and> oc_complete c \<noteq> Some True)"

definition report_calls :: "js \<Rightarrow> observed_call list option" where
  "report_calls v = (case v of JArr xs \<Rightarrow> if length xs \<le> 10000 then Some (map project_call xs) else None | _ \<Rightarrow> None)"

definition one_name :: "string list \<Rightarrow> js \<Rightarrow> string option" where
  "one_name names v = (case v of JStr s \<Rightarrow> if s \<in> set names then Some s else None | _ \<Rightarrow> None)"

definition project_report :: "js \<Rightarrow> report" where
  "project_report r = \<lparr>rp_version = (own_value r ''version'' = JNum (Fin 1)), rp_request = own_id (own_value r ''requestId''),
     rp_attempt = own_id (own_value r ''attemptId''), rp_number = own_ordinal (own_value r ''attemptNumber''),
     rp_transport = one_name [''sse'', ''websocket''] (own_value r ''transport''),
     rp_outcome = (case one_name outcomes (own_value r ''outcome'') of Some x \<Rightarrow> x | None \<Rightarrow> ''unproven''),
     rp_sent = own_bool (own_value r ''sent''), rp_created = own_bool (own_value r ''created''), rp_response = own_id (own_value r ''responseId''),
     rp_tools = own_bool (own_value r ''providerTools''), rp_retired = own_bool (own_value r ''retired''), rp_fenced = own_bool (own_value r ''fenced''),
     rp_usage = own_bool (own_value r ''possibleUsage''),
     rp_calls = (case report_calls (own_value r ''observedCalls'') of Some cs \<Rightarrow> cs | None \<Rightarrow> [])\<rparr>"

definition valid_report :: "js \<Rightarrow> bool" where
  "valid_report r \<longleftrightarrow> (let p = project_report r in
     rp_version p \<and> rp_request p \<noteq> None \<and> rp_attempt p \<noteq> None \<and> rp_number p \<noteq> None \<and> rp_transport p \<noteq> None
     \<and> rp_sent p \<noteq> None \<and> rp_created p \<noteq> None \<and> rp_tools p \<noteq> None \<and> rp_retired p \<noteq> None \<and> rp_fenced p \<noteq> None \<and> rp_usage p \<noteq> None
     \<and> rp_outcome p \<noteq> ''unproven''
     \<and> (case report_calls (own_value r ''observedCalls'') of Some cs \<Rightarrow> list_all valid_call cs | None \<Rightarrow> False)
     \<and> \<not> (rp_created p = Some True \<and> rp_sent p \<noteq> Some True) \<and> \<not> (rp_outcome p = ''unknown'' \<and> rp_sent p \<noteq> Some True))"

section \<open>The decision\<close>

datatype verdict = InvalidSnapshot | Aborted | UnprovenObservations | LocalAdmissions | LocalEffects | ProviderTools | UnfencedAttempt
  | InvalidTransportReport | IdentityMismatch | AdapterOwnedRetry | CompletedAttempt | PolicyDisabled | InvalidPolicy | RetryBudgetExhausted
  | UnsafeTimerDelay | NotError | UnprovenError | MissingPublicRetryApi | ContextOverflow | UnknownConditionNotProven | RetryUnknown
  | NotRetryable | RetryTransient | ClassifierFailed

record observations =
  ob_admitted :: "int option"
  ob_dispatched :: "int option"
  ob_tools :: "bool option"
  ob_aborted :: "bool option"
  ob_retired :: "bool option"
  ob_fenced :: "bool option"

text \<open>The prior attempt: the projected report with its two conclusions, or the identity alone.\<close>

datatype prior = Reported report bool bool | Unreported "string option" "string option"

record decision =
  dn_verdict :: verdict
  dn_retry :: bool
  dn_delay :: rat
  dn_request :: "string option"
  dn_attempt :: "string option"
  dn_number :: "int option"
  dn_snapshot :: "int option"
  dn_observations :: observations
  dn_prior :: prior

text \<open>A classifier is missing, or throws (\<open>None\<close>) or answers on a message.\<close>

record retry_api =
  ra_retryable :: "(string \<Rightarrow> bool option) option"
  ra_overflow :: "(string \<Rightarrow> bool option) option"

definition prior_attempt :: "js \<Rightarrow> prior" where
  "prior_attempt input = (let raw = own_value input ''transportReport''; p = project_report raw in
     if raw = Undef then Unreported (own_id (own_value input ''requestId'')) (own_id (own_value input ''attemptId''))
     else Reported p (rp_outcome p = ''unknown'' \<or> rp_sent p \<noteq> Some False)
       (rp_outcome p = ''unknown'' \<or> rp_usage p \<noteq> Some False))"

definition observed :: "js \<Rightarrow> observations" where
  "observed input = \<lparr>ob_admitted = own_count (own_value input ''admittedCount''), ob_dispatched = own_count (own_value input ''dispatchedCount''),
     ob_tools = own_bool (own_value input ''providerTools''), ob_aborted = own_bool (own_value input ''aborted''),
     ob_retired = own_bool (own_value input ''retired''), ob_fenced = own_bool (own_value input ''fenced'')\<rparr>"

text \<open>
  \<open>baseDelayMs * 2 ** (attemptNumber - 1)\<close> in doubles: the power is infinite from 1024 on, the product
  is then infinite or, for a base of 0, not a number; below, scaling by a power of two is exact unless
  it overflows, which is above the limit either way.
\<close>

definition retry_delay_ms :: "rat \<Rightarrow> int \<Rightarrow> rat option" where
  "retry_delay_ms base n = (if 1025 \<le> n then None
     else (let d = base * 2 ^ nat (n - 1) in if 0 \<le> d \<and> d \<le> max_timer_delay_ms \<and> n + 1 \<le> max_safe then Some d else None))"

text \<open>The checks of the report, of the policy and of the error, in their order.\<close>

definition report_verdict :: "js \<Rightarrow> string \<Rightarrow> string \<Rightarrow> verdict option" where
  "report_verdict raw request attempt = (let p = project_report raw in
     if raw = Undef then None
     else if \<not> valid_report raw then Some InvalidTransportReport
     else if rp_request p \<noteq> Some request \<or> rp_attempt p \<noteq> Some attempt then Some IdentityMismatch
     else if rp_tools p = Some True then Some ProviderTools
     else if rp_retired p \<noteq> Some True \<or> rp_fenced p \<noteq> Some True then Some UnfencedAttempt
     else if rp_outcome p \<in> {''not_sent'', ''rejected''} then Some AdapterOwnedRetry
     else if rp_outcome p = ''completed'' then Some CompletedAttempt
     else None)"

definition policy_delay :: "js \<Rightarrow> int \<Rightarrow> verdict + rat" where
  "policy_delay policy n =
     (if policy = Undef then Inl PolicyDisabled
      else (case (own_bool (own_value policy ''enabled''), own_count (own_value policy ''maxRetries''), own_value policy ''baseDelayMs'') of
          (Some enabled, Some max_retries, JNum (Fin base)) \<Rightarrow>
            if base < 0 then Inl InvalidPolicy
            else if \<not> enabled then Inl PolicyDisabled
            else if max_retries < n then Inl RetryBudgetExhausted
            else (case retry_delay_ms base n of Some d \<Rightarrow> Inr d | None \<Rightarrow> Inl UnsafeTimerDelay)
        | _ \<Rightarrow> Inl InvalidPolicy))"

definition error_verdict :: "retry_api \<Rightarrow> js \<Rightarrow> js \<Rightarrow> verdict" where
  "error_verdict api raw err =
     (if own_value err ''stopReason'' \<noteq> JStr ''error'' then NotError
      else (case own_value err ''errorMessage'' of
          JStr m \<Rightarrow>
            if m = [] \<or> 65536 < length m then UnprovenError
            else (case (ra_retryable api, ra_overflow api) of
                (Some retryable, Some overflow) \<Rightarrow>
                  (case overflow m of
                      None \<Rightarrow> ClassifierFailed
                    | Some True \<Rightarrow> ContextOverflow
                    | Some False \<Rightarrow>
                        if raw \<noteq> Undef \<and> rp_outcome (project_report raw) = ''unknown''
                        then (if m \<in> set unknown_transport_errors then RetryUnknown else UnknownConditionNotProven)
                        else (case retryable m of None \<Rightarrow> ClassifierFailed | Some b \<Rightarrow> if b then RetryTransient else NotRetryable))
              | _ \<Rightarrow> MissingPublicRetryApi)
        | _ \<Rightarrow> UnprovenError))"

definition attempt_verdict :: "retry_api \<Rightarrow> js \<Rightarrow> verdict \<times> rat" where
  "attempt_verdict api input = (let b = observed input; raw = own_value input ''transportReport''; err = own_value input ''error'' in
     case (own_id (own_value input ''requestId''), own_id (own_value input ''attemptId''),
           own_ordinal (own_value input ''attemptNumber''), own_count (own_value input ''snapshotVersion'')) of
       (Some request, Some attempt, Some n, Some _) \<Rightarrow>
         if ob_aborted b = Some True \<or> own_value err ''stopReason'' = JStr ''aborted'' then (Aborted, 0)
         else if ob_admitted b = None \<or> ob_dispatched b = None \<or> ob_tools b = None \<or> ob_aborted b = None \<or> ob_retired b = None \<or> ob_fenced b = None
           then (UnprovenObservations, 0)
         else if ob_admitted b \<noteq> Some 0 then (LocalAdmissions, 0)
         else if ob_dispatched b \<noteq> Some 0 then (LocalEffects, 0)
         else if ob_tools b = Some True then (ProviderTools, 0)
         else if ob_retired b \<noteq> Some True \<or> ob_fenced b \<noteq> Some True then (UnfencedAttempt, 0)
         else (case report_verdict raw request attempt of
             Some v \<Rightarrow> (v, 0)
           | None \<Rightarrow> (case policy_delay (own_value input ''policy'') n of
                 Inl v \<Rightarrow> (v, 0)
               | Inr d \<Rightarrow> (let v = error_verdict api raw err in (v, if v \<in> {RetryUnknown, RetryTransient} then d else 0))))
     | _ \<Rightarrow> (InvalidSnapshot, 0))"

definition evaluate_inference_retry :: "retry_api \<Rightarrow> js \<Rightarrow> decision" where
  "evaluate_inference_retry api input = (case attempt_verdict api input of (v, d) \<Rightarrow>
     \<lparr>dn_verdict = v, dn_retry = (v \<in> {RetryUnknown, RetryTransient}), dn_delay = d,
      dn_request = own_id (own_value input ''requestId''), dn_attempt = own_id (own_value input ''attemptId''),
      dn_number = own_ordinal (own_value input ''attemptNumber''), dn_snapshot = own_count (own_value input ''snapshotVersion''),
      dn_observations = observed input, dn_prior = prior_attempt input\<rparr>)"

section \<open>When an attempt is repeated\<close>

definition report_allows :: "js \<Rightarrow> string \<Rightarrow> string \<Rightarrow> bool" where
  "report_allows raw request attempt \<longleftrightarrow> raw = Undef \<or>
     (let p = project_report raw in valid_report raw \<and> rp_request p = Some request \<and> rp_attempt p = Some attempt
       \<and> rp_tools p = Some False \<and> rp_retired p = Some True \<and> rp_fenced p = Some True \<and> rp_outcome p \<in> {''unknown'', ''failed''})"

definition policy_allows :: "js \<Rightarrow> int \<Rightarrow> rat \<Rightarrow> bool" where
  "policy_allows policy n d \<longleftrightarrow> (\<exists>budget base. own_value policy ''enabled'' = JBool True \<and> own_count (own_value policy ''maxRetries'') = Some budget
     \<and> own_value policy ''baseDelayMs'' = JNum (Fin base) \<and> 0 \<le> base \<and> n \<le> budget \<and> n \<le> 1024 \<and> d = base * 2 ^ nat (n - 1) \<and> d \<le> 2147483647)"

definition error_allows :: "retry_api \<Rightarrow> js \<Rightarrow> js \<Rightarrow> bool" where
  "error_allows api raw err \<longleftrightarrow> (\<exists>m retryable overflow. own_value err ''stopReason'' = JStr ''error'' \<and> own_value err ''errorMessage'' = JStr m
     \<and> m \<noteq> [] \<and> length m \<le> 65536 \<and> ra_retryable api = Some retryable \<and> ra_overflow api = Some overflow \<and> overflow m = Some False
     \<and> (if raw \<noteq> Undef \<and> rp_outcome (project_report raw) = ''unknown'' then m \<in> set unknown_transport_errors else retryable m = Some True))"

definition retry_allowed :: "retry_api \<Rightarrow> js \<Rightarrow> rat \<Rightarrow> bool" where
  "retry_allowed api input d \<longleftrightarrow> (\<exists>request attempt n.
     own_id (own_value input ''requestId'') = Some request \<and> own_id (own_value input ''attemptId'') = Some attempt
     \<and> own_ordinal (own_value input ''attemptNumber'') = Some n \<and> own_count (own_value input ''snapshotVersion'') \<noteq> None
     \<and> observed input = \<lparr>ob_admitted = Some 0, ob_dispatched = Some 0, ob_tools = Some False, ob_aborted = Some False, ob_retired = Some True, ob_fenced = Some True\<rparr>
     \<and> report_allows (own_value input ''transportReport'') request attempt \<and> policy_allows (own_value input ''policy'') n d
     \<and> error_allows api (own_value input ''transportReport'') (own_value input ''error''))"

lemma valid_report_outcome: "valid_report r \<Longrightarrow> rp_outcome (project_report r) \<in> set outcomes \<and> rp_tools (project_report r) \<noteq> None"
  by (auto simp: valid_report_def Let_def project_report_def one_name_def split: js.splits option.splits if_splits)

lemma report_verdict_None: "report_verdict raw request attempt = None \<longleftrightarrow> report_allows raw request attempt"
  using valid_report_outcome [of raw]
  by (cases "rp_tools (project_report raw)") (auto simp: report_verdict_def report_allows_def Let_def outcomes_def)

lemma own_bool_True: "own_bool v = Some b \<longleftrightarrow> v = JBool b"
  by (cases v) (auto simp: own_bool_def)

lemma own_ordinal_bounds: "own_ordinal v = Some n \<Longrightarrow> 1 \<le> n \<and> n \<le> max_safe"
  using js_safe_int_bound [of v] by (auto simp: own_ordinal_def split: option.splits if_splits)

lemma retry_delay_Some:
  assumes "0 \<le> base" "1 \<le> n"
  shows "retry_delay_ms base n = Some d \<longleftrightarrow> n \<le> 1024 \<and> d = base * 2 ^ nat (n - 1) \<and> d \<le> 2147483647"
proof -
  have "0 \<le> base * 2 ^ nat (n - 1)" using assms(1) by simp
  then show ?thesis by (auto simp: retry_delay_ms_def Let_def max_timer_delay_ms_def max_safe_def)
qed

lemma policy_delay_Inr:
  assumes "1 \<le> n"
  shows "policy_delay policy n = Inr d \<longleftrightarrow> policy_allows policy n d"
proof -
  have u: "own_value Undef k = Undef" for k by (simp add: own_value_def jget_def)
  show ?thesis
  proof (cases "\<exists>b budget base. own_bool (own_value policy ''enabled'') = Some b \<and> own_count (own_value policy ''maxRetries'') = Some budget
      \<and> own_value policy ''baseDelayMs'' = JNum (Fin base)")
    case True
    then obtain b budget base where e: "own_bool (own_value policy ''enabled'') = Some b" "own_count (own_value policy ''maxRetries'') = Some budget"
      "own_value policy ''baseDelayMs'' = JNum (Fin base)" by blast
    have "policy \<noteq> Undef" using e(3) u by force
    then show ?thesis
      using e retry_delay_Some [of base n d] assms
      by (cases b) (auto simp: policy_delay_def policy_allows_def own_bool_def not_less split: option.splits js.splits)
  next
    case False
    then show ?thesis
      by (auto simp: policy_delay_def policy_allows_def own_bool_True split: option.splits js.splits jsnum.splits)
  qed
qed

lemma error_verdict_retry: "error_verdict api raw err \<in> {RetryUnknown, RetryTransient} \<longleftrightarrow> error_allows api raw err"
proof (cases "\<exists>m retryable overflow. own_value err ''errorMessage'' = JStr m \<and> ra_retryable api = Some retryable \<and> ra_overflow api = Some overflow")
  case True
  then obtain m retryable overflow where e: "own_value err ''errorMessage'' = JStr m" "ra_retryable api = Some retryable" "ra_overflow api = Some overflow" by blast
  consider "overflow m = None" | "overflow m = Some True" | "overflow m = Some False" by (metis (full_types) not_Some_eq)
  then show ?thesis
    using e by cases (simp_all add: error_verdict_def error_allows_def split: option.splits)
next
  case False
  then have "error_verdict api raw err \<notin> {RetryUnknown, RetryTransient}"
    by (auto simp: error_verdict_def split: js.splits option.splits)
  then show ?thesis using False by (auto simp: error_allows_def)
qed

text \<open>
  C30: A failed inference attempt is repeated after a delay exactly when its identity is complete, no
  local work was admitted or dispatched, no provider tool ran, it was retired and fenced and not
  aborted, a transport report confirms all this and leaves it unknown or failed, the policy allows the
  attempt with a doubled delay that fits a timer, and the error is one that may pass: every single
  doubt stops the retry.
\<close>

theorem retry_iff_allowed:
  "dn_retry (evaluate_inference_retry api input) \<and> dn_delay (evaluate_inference_retry api input) = d \<longleftrightarrow> retry_allowed api input d"
proof (cases "\<exists>request attempt n snapshot. own_id (own_value input ''requestId'') = Some request \<and> own_id (own_value input ''attemptId'') = Some attempt
    \<and> own_ordinal (own_value input ''attemptNumber'') = Some n \<and> own_count (own_value input ''snapshotVersion'') = Some snapshot")
  case True
  then obtain request attempt n snapshot where e: "own_id (own_value input ''requestId'') = Some request" "own_id (own_value input ''attemptId'') = Some attempt"
    "own_ordinal (own_value input ''attemptNumber'') = Some n" "own_count (own_value input ''snapshotVersion'') = Some snapshot" by blast
  let ?raw = "own_value input ''transportReport''" and ?err = "own_value input ''error''"
  let ?clear = "observed input = \<lparr>ob_admitted = Some 0, ob_dispatched = Some 0, ob_tools = Some False, ob_aborted = Some False, ob_retired = Some True, ob_fenced = Some True\<rparr>"
  have n: "1 \<le> n" using own_ordinal_bounds [OF e(3)] by simp
  have stop: "\<not> error_allows api ?raw ?err" if "own_value ?err ''stopReason'' = JStr ''aborted''"
    using that by (auto simp: error_allows_def)
  have rest: "attempt_verdict api input = (case report_verdict ?raw request attempt of Some v \<Rightarrow> (v, 0)
      | None \<Rightarrow> (case policy_delay (own_value input ''policy'') n of Inl v \<Rightarrow> (v, 0)
          | Inr d \<Rightarrow> (let v = error_verdict api ?raw ?err in (v, if v \<in> {RetryUnknown, RetryTransient} then d else 0))))"
    if "?clear" "own_value ?err ''stopReason'' \<noteq> JStr ''aborted''"
    using that e by (simp add: attempt_verdict_def Let_def)
  have early: "fst (attempt_verdict api input) \<notin> {RetryUnknown, RetryTransient}" if "\<not> ?clear \<or> own_value ?err ''stopReason'' = JStr ''aborted''"
    using that e by (cases "observed input") (auto simp: attempt_verdict_def Let_def)
  have quiet: "v \<notin> {RetryUnknown, RetryTransient}" if "report_verdict ?raw request attempt = Some v \<or> policy_delay (own_value input ''policy'') n = Inl v" for v
    using that by (auto simp: report_verdict_def policy_delay_def Let_def split: if_splits option.splits js.splits jsnum.splits)
  show ?thesis
  proof (cases "?clear \<and> own_value ?err ''stopReason'' \<noteq> JStr ''aborted''")
    case True
    have "dn_retry (evaluate_inference_retry api input) \<and> dn_delay (evaluate_inference_retry api input) = d \<longleftrightarrow>
        report_allows ?raw request attempt \<and> policy_allows (own_value input ''policy'') n d \<and> error_allows api ?raw ?err"
      using rest True quiet error_verdict_retry [of api ?raw ?err] report_verdict_None [of ?raw request attempt] policy_delay_Inr [OF n, of "own_value input ''policy''" d]
      by (auto simp: evaluate_inference_retry_def Let_def split: option.splits sum.splits)
    then show ?thesis using e True by (auto simp: retry_allowed_def)
  next
    case False
    then show ?thesis
      using early stop e by (auto simp: evaluate_inference_retry_def retry_allowed_def split: prod.splits)
  qed
next
  case False
  then have "attempt_verdict api input = (InvalidSnapshot, 0)"
    unfolding attempt_verdict_def Let_def
    by (cases "own_id (own_value input ''requestId'')"; cases "own_id (own_value input ''attemptId'')";
        cases "own_ordinal (own_value input ''attemptNumber'')"; cases "own_count (own_value input ''snapshotVersion'')")
      (simp_all only: option.case prod.case not_ex simp_thms, blast)
  then show ?thesis using False by (auto simp: evaluate_inference_retry_def retry_allowed_def)
qed

end
