(* ===== verification/Presentation.thy ===== *)
theory Presentation
  imports Prelude
begin

text \<open>
  The streaming filter of presentation directives (src/presentation-directive.mjs): it reads the
  text of a reply in chunks, takes the cue from an exact first line, and scrubs every line that
  uses the reserved prefix. It is proved equal to a filter of the lines of the whole text.
\<close>

section \<open>The filter\<close>

record filter_config =
  pf_namespace :: string
  pf_max :: nat

definition presentation_body_values :: "string list" where
  "presentation_body_values = [''amazed'', ''doubt'', ''emotion'', ''encourage'', ''enquire'', ''excited'', ''happy'', ''hello'',
     ''invite'', ''refuse'', ''sad'', ''satisfied'', ''shy'', ''talk-01'', ''talk-02'', ''yandere'']"

definition presentation_face_values :: "string list" where
  "presentation_face_values = [''common'', ''amazed'', ''happy'', ''helpless'', ''shame'', ''shy'', ''smile'', ''think'']"

definition namespace_ok :: "string \<Rightarrow> bool" where
  "namespace_ok s \<longleftrightarrow> (case s of [] \<Rightarrow> False
     | c # r \<Rightarrow> (let lower = (\<lambda>d. 97 \<le> (of_char d :: nat) \<and> of_char d \<le> (122 :: nat)) in
         lower c \<and> length r \<le> 31 \<and> list_all (\<lambda>d. lower d \<or> 48 \<le> (of_char d :: nat) \<and> of_char d \<le> (57 :: nat) \<or> d = CHR ''-'') r))"

definition config_ok :: "filter_config \<Rightarrow> bool" where
  "config_ok g \<longleftrightarrow> namespace_ok (pf_namespace g) \<and> 64 \<le> pf_max g \<and> pf_max g \<le> 4096"

definition newline :: char where
  "newline = CHR 0x0A"

definition reserved_prefix :: "filter_config \<Rightarrow> string" where
  "reserved_prefix g = ''<!-- '' @ pf_namespace g @ ''.presentation''"

definition directive :: "filter_config \<Rightarrow> string \<Rightarrow> string \<Rightarrow> string" where
  "directive g body face = ''<!-- '' @ pf_namespace g @ ''.presentation.v1 body='' @ body @ '' face='' @ face @ '' -->'' @ [newline]"

type_synonym cue = "string \<times> string"

definition default_cue :: cue where
  "default_cue = (''talk-01'', ''common'')"

text \<open>A line that matches the exact directive with known values is the directive of these values.\<close>

definition exact_cue :: "filter_config \<Rightarrow> string \<Rightarrow> cue option" where
  "exact_cue g line = find (\<lambda>(b, f). line = directive g b f) (List.product presentation_body_values presentation_face_values)"

datatype line_state = Candidate | Ordinary | Reserved

record filter_state =
  ps_state :: line_state
  ps_buffer :: string
  ps_overlong :: bool
  ps_first :: bool
  ps_resolved :: bool
  ps_recognized :: bool
  ps_cue :: cue

definition filter_start :: filter_state where
  "filter_start = \<lparr>ps_state = Candidate, ps_buffer = [], ps_overlong = False, ps_first = True, ps_resolved = False,
     ps_recognized = False, ps_cue = default_cue\<rparr>"

definition resolve_default :: "filter_state \<Rightarrow> filter_state" where
  "resolve_default s = (if ps_resolved s then s else s\<lparr>ps_cue := default_cue, ps_recognized := False, ps_resolved := True\<rparr>)"

definition append_reserved :: "filter_config \<Rightarrow> string \<Rightarrow> filter_state \<Rightarrow> filter_state" where
  "append_reserved g t s = (if ps_overlong s then s
     else if pf_max g < utf8_len (ps_buffer s @ t) then s\<lparr>ps_buffer := [], ps_overlong := True\<rparr>
     else s\<lparr>ps_buffer := ps_buffer s @ t\<rparr>)"

definition finish_reserved_line :: "filter_config \<Rightarrow> filter_state \<Rightarrow> filter_state" where
  "finish_reserved_line g s = (let
      s1 = (if ps_first s then
              (if \<not> ps_overlong s then
                 (case exact_cue g (ps_buffer s) of
                    Some c \<Rightarrow> s\<lparr>ps_cue := c, ps_recognized := True, ps_resolved := True\<rparr>
                  | None \<Rightarrow> resolve_default s)
               else resolve_default s)
            else s)
    in s1\<lparr>ps_buffer := [], ps_overlong := False, ps_first := False, ps_state := Candidate\<rparr>)"

definition blank :: "char \<Rightarrow> bool" where
  "blank c \<longleftrightarrow> c = CHR '' '' \<or> c = CHR 0x09"

text \<open>One character at the start of a line, as long as the line may still be a reserved one.\<close>

definition candidate_step :: "filter_config \<Rightarrow> char \<Rightarrow> filter_state \<Rightarrow> string \<times> filter_state" where
  "candidate_step g c s = (let
      buffer = ps_buffer s @ [c]; remainder = dropWhile blank buffer; p = reserved_prefix g in
     if remainder \<noteq> [] \<and> (prefix remainder p \<or> prefix p remainder)
     then ([], s\<lparr>ps_buffer := buffer, ps_state := (if prefix p remainder then Reserved else Candidate)\<rparr>)
     else if remainder = [] \<and> utf8_len buffer \<le> pf_max g then ([], s\<lparr>ps_buffer := buffer\<rparr>)
     else (let s1 = (if ps_first s then resolve_default s else s) in
       (buffer, if c = newline then s1\<lparr>ps_buffer := [], ps_first := False, ps_state := Candidate\<rparr>
                else s1\<lparr>ps_buffer := [], ps_state := Ordinary\<rparr>)))"

lemma rest_shorter: "length (dropWhile p (c # cs)) - Suc 0 < Suc (length cs)"
  using length_dropWhile_le [of p "c # cs"] by (simp del: dropWhile.simps)

function (sequential) push :: "filter_config \<Rightarrow> filter_state \<Rightarrow> string \<Rightarrow> string \<times> filter_state" where
  "push g s [] = ([], s)"
| "push g s (c # cs) = (let line = takeWhile (\<lambda>x. x \<noteq> newline) (c # cs); rest = dropWhile (\<lambda>x. x \<noteq> newline) (c # cs) in
     case ps_state s of
       Ordinary \<Rightarrow>
         if rest = [] then (line, s)
         else (let (out, s') = push g (s\<lparr>ps_first := False, ps_state := Candidate, ps_buffer := []\<rparr>) (tl rest) in (line @ [newline] @ out, s'))
     | Reserved \<Rightarrow>
         if rest = [] then ([], append_reserved g line s)
         else push g (finish_reserved_line g (append_reserved g (line @ [newline]) s)) (tl rest)
     | Candidate \<Rightarrow> (let (o1, s1) = candidate_step g c s; (out, s2) = push g s1 cs in (o1 @ out, s2)))"
  by pat_completeness auto
termination
  by (relation "measure (\<lambda>(g, s, t). length t)") (auto simp: rest_shorter simp del: dropWhile.simps)

definition finish :: "filter_config \<Rightarrow> filter_state \<Rightarrow> string \<times> filter_state" where
  "finish g s = (case ps_state s of
      Ordinary \<Rightarrow> ([], resolve_default s)
    | Reserved \<Rightarrow> (let s1 = s\<lparr>ps_buffer := [], ps_overlong := False\<rparr> in ([], if ps_first s then resolve_default s1 else s1))
    | Candidate \<Rightarrow> (let remainder = dropWhile blank (ps_buffer s); s1 = s\<lparr>ps_buffer := []\<rparr> in
        if remainder \<noteq> [] \<and> prefix remainder (reserved_prefix g) then ([], if ps_first s then resolve_default s1 else s1)
        else (ps_buffer s, resolve_default s1)))"

definition sanitize_presentation_text :: "filter_config \<Rightarrow> string \<Rightarrow> string \<times> cue \<times> bool" where
  "sanitize_presentation_text g t = (let (o1, s1) = push g filter_start t; (o2, s2) = finish g s1 in (o1 @ o2, ps_cue s2, ps_recognized s2))"

section \<open>Chunks\<close>

lemma append_reserved_append: "append_reserved g b (append_reserved g a s) = append_reserved g (a @ b) s"
  by (simp add: append_reserved_def)

lemma append_reserved_state [simp]: "ps_state (append_reserved g t s) = ps_state s"
  by (simp add: append_reserved_def)

lemma span_append:
  "newline \<in> set xs \<Longrightarrow> takeWhile (\<lambda>x. x \<noteq> newline) (xs @ ys) = takeWhile (\<lambda>x. x \<noteq> newline) xs"
  "newline \<in> set xs \<Longrightarrow> dropWhile (\<lambda>x. x \<noteq> newline) (xs @ ys) = dropWhile (\<lambda>x. x \<noteq> newline) xs @ ys"
  "newline \<notin> set xs \<Longrightarrow> takeWhile (\<lambda>x. x \<noteq> newline) (xs @ ys) = xs @ takeWhile (\<lambda>x. x \<noteq> newline) ys"
  "newline \<notin> set xs \<Longrightarrow> dropWhile (\<lambda>x. x \<noteq> newline) (xs @ ys) = dropWhile (\<lambda>x. x \<noteq> newline) ys"
  by (induction xs) auto

lemma span_none: "newline \<notin> set xs \<Longrightarrow> takeWhile (\<lambda>x. x \<noteq> newline) xs = xs \<and> dropWhile (\<lambda>x. x \<noteq> newline) xs = []"
  by (induction xs) auto

definition seq :: "string \<times> filter_state \<Rightarrow> (filter_state \<Rightarrow> string \<times> filter_state) \<Rightarrow> string \<times> filter_state" where
  "seq r f = (case r of (o1, s1) \<Rightarrow> (case f s1 of (o2, s2) \<Rightarrow> (o1 @ o2, s2)))"

text \<open>The three ways in which a nonempty chunk is read.\<close>

lemma push_ordinary:
  assumes "ps_state s = Ordinary"
  shows "newline \<notin> set t \<Longrightarrow> push g s t = (t, s)"
    and "newline \<notin> set l \<Longrightarrow> push g s (l @ newline # t) = seq (l @ [newline], s\<lparr>ps_first := False, ps_state := Candidate, ps_buffer := []\<rparr>) (\<lambda>s. push g s t)"
proof -
  show "newline \<notin> set t \<Longrightarrow> push g s t = (t, s)" using assms span_none [of t] by (cases t) (simp_all add: Let_def)
  assume l: "newline \<notin> set l"
  obtain c cs where c: "l @ newline # t = c # cs" by (cases "l @ newline # t") auto
  show "push g s (l @ newline # t) = seq (l @ [newline], s\<lparr>ps_first := False, ps_state := Candidate, ps_buffer := []\<rparr>) (\<lambda>s. push g s t)"
    unfolding c push.simps(2) unfolding c [symmetric] span_append(3,4) [OF l] by (simp add: assms seq_def)
qed

lemma push_reserved:
  assumes "ps_state s = Reserved"
  shows "newline \<notin> set t \<Longrightarrow> t \<noteq> [] \<Longrightarrow> push g s t = ([], append_reserved g t s)"
    and "newline \<notin> set l \<Longrightarrow> push g s (l @ newline # t) = push g (finish_reserved_line g (append_reserved g (l @ [newline]) s)) t"
proof -
  show "newline \<notin> set t \<Longrightarrow> t \<noteq> [] \<Longrightarrow> push g s t = ([], append_reserved g t s)" using assms span_none [of t] by (cases t) (simp_all add: Let_def)
  assume l: "newline \<notin> set l"
  obtain c cs where c: "l @ newline # t = c # cs" by (cases "l @ newline # t") auto
  show "push g s (l @ newline # t) = push g (finish_reserved_line g (append_reserved g (l @ [newline]) s)) t"
    unfolding c push.simps(2) unfolding c [symmetric] span_append(3,4) [OF l] by (simp add: assms)
qed

lemma push_candidate: "ps_state s = Candidate \<Longrightarrow> push g s (c # cs) = seq (candidate_step g c s) (\<lambda>s. push g s cs)"
  by (simp add: seq_def Let_def)

lemma seq_assoc: "seq (seq r f) h = seq r (\<lambda>s. seq (f s) h)"
  by (simp add: seq_def case_prod_unfold)

lemma seq_nil [simp]: "seq ([], s) f = f s"
  by (simp add: seq_def)

lemma split_newline: "newline \<in> set t \<Longrightarrow> \<exists>l r. t = l @ newline # r \<and> newline \<notin> set l"
  using split_list_first [of newline t] by blast

text \<open>Reading a text in two pieces is reading it at once.\<close>

lemma push_append: "push g s (xs @ ys) = seq (push g s xs) (\<lambda>s. push g s ys)"
proof (induction "length xs" arbitrary: xs s rule: less_induct)
  case less
  show ?case
  proof (cases "ps_state s")
    case Candidate
    show ?thesis
    proof (cases xs)
      case (Cons c cs)
      have "push g s1 (cs @ ys) = seq (push g s1 cs) (\<lambda>s. push g s ys)" for s1 by (rule less) (simp add: Cons)
      then show ?thesis using Candidate by (simp add: Cons push_candidate seq_assoc del: push.simps)
    qed simp
  next
    case Ordinary
    show ?thesis
    proof (cases "newline \<in> set xs")
      case True
      then obtain l r where x: "xs = l @ newline # r" "newline \<notin> set l" using split_newline by blast
      have "push g s1 (r @ ys) = seq (push g s1 r) (\<lambda>s. push g s ys)" for s1 by (rule less) (simp add: x(1))
      then show ?thesis using push_ordinary(2) [OF Ordinary x(2)] by (simp add: x(1) seq_assoc)
    next
      case False
      note none = push_ordinary(1) [OF Ordinary False]
      show ?thesis
      proof (cases "newline \<in> set ys")
        case True
        then obtain l r where y: "ys = l @ newline # r" "newline \<notin> set l" using split_newline by blast
        have "push g s ((xs @ l) @ newline # r) = seq ((xs @ l) @ [newline], s\<lparr>ps_first := False, ps_state := Candidate, ps_buffer := []\<rparr>) (\<lambda>s. push g s r)"
          by (rule push_ordinary(2) [OF Ordinary]) (use False y(2) in simp)
        then show ?thesis using push_ordinary(2) [OF Ordinary y(2)] by (simp add: none y(1) seq_def case_prod_unfold)
      qed (use False push_ordinary(1) [OF Ordinary] in \<open>simp add: seq_def\<close>)
    qed
  next
    case Reserved
    show ?thesis
    proof (cases "newline \<in> set xs")
      case True
      then obtain l r where x: "xs = l @ newline # r" "newline \<notin> set l" using split_newline by blast
      have "push g s1 (r @ ys) = seq (push g s1 r) (\<lambda>s. push g s ys)" for s1 by (rule less) (simp add: x(1))
      then show ?thesis using push_reserved(2) [OF Reserved x(2)] by (simp add: x(1))
    next
      case False
      show ?thesis
      proof (cases "xs = [] \<or> ys = []")
        case True
        then show ?thesis by (auto simp: seq_def)
      next
        case ne: False
        then have none: "push g s xs = ([], append_reserved g xs s)" using push_reserved(1) [OF Reserved False] by simp
        have st: "ps_state (append_reserved g xs s) = Reserved" using Reserved by simp
        show ?thesis
        proof (cases "newline \<in> set ys")
          case True
          then obtain l r where y: "ys = l @ newline # r" "newline \<notin> set l" using split_newline by blast
          have "push g s ((xs @ l) @ newline # r) = push g (finish_reserved_line g (append_reserved g ((xs @ l) @ [newline]) s)) r"
            by (rule push_reserved(2) [OF Reserved]) (use False y(2) in simp)
          then show ?thesis using push_reserved(2) [OF st y(2)] by (simp add: none y(1) append_reserved_append)
        next
          case nn: False
          have "push g s (xs @ ys) = ([], append_reserved g (xs @ ys) s)"
            by (rule push_reserved(1) [OF Reserved]) (use False nn ne in auto)
          then show ?thesis using push_reserved(1) [OF st nn] ne by (simp add: none append_reserved_append)
        qed
      qed
    qed
  qed
qed

section \<open>One line\<close>

text \<open>
  A line is scrubbed when, after an indentation that fits the buffer, it starts with the reserved
  prefix, or when the text ends inside that prefix.
\<close>

definition scrubbed :: "filter_config \<Rightarrow> string \<Rightarrow> bool" where
  "scrubbed g l \<longleftrightarrow> length (takeWhile blank l) \<le> pf_max g \<and> (let r = dropWhile blank l; p = reserved_prefix g in
     prefix p r \<or> (r \<noteq> [] \<and> prefix r p))"

definition kept_line :: "filter_config \<Rightarrow> string \<Rightarrow> string" where
  "kept_line g l = (if scrubbed g l then [] else l)"

definition line_cue :: "filter_config \<Rightarrow> string \<Rightarrow> cue option" where
  "line_cue g l = (if utf8_len l \<le> pf_max g then exact_cue g l else None)"

definition line_start :: "filter_state \<Rightarrow> bool" where
  "line_start s \<longleftrightarrow> ps_state s = Candidate \<and> ps_buffer s = [] \<and> \<not> ps_overlong s"

definition opened :: "filter_state \<Rightarrow> filter_state" where
  "opened s = (if ps_first s then resolve_default s else s)"

definition after_part :: "filter_config \<Rightarrow> string \<Rightarrow> filter_state \<Rightarrow> string \<times> filter_state" where
  "after_part g l s = (let r = dropWhile blank l; fits = length (takeWhile blank l) \<le> pf_max g; p = reserved_prefix g;
       head = takeWhile blank l @ p; rest = drop (length p) r in
     if fits \<and> prefix p r then ([], (if rest = [] then (\<lambda>s. s) else append_reserved g rest) (s\<lparr>ps_buffer := head, ps_state := Reserved\<rparr>))
     else if fits \<and> prefix r p then ([], s\<lparr>ps_buffer := l\<rparr>)
     else (l, (opened s)\<lparr>ps_buffer := [], ps_state := Ordinary\<rparr>))"

lemma after_reserved: "length (takeWhile blank l) \<le> pf_max g \<Longrightarrow> prefix (reserved_prefix g) (dropWhile blank l) \<Longrightarrow>
    after_part g l s = ([], (if drop (length (reserved_prefix g)) (dropWhile blank l) = [] then (\<lambda>s. s)
      else append_reserved g (drop (length (reserved_prefix g)) (dropWhile blank l)))
        (s\<lparr>ps_buffer := takeWhile blank l @ reserved_prefix g, ps_state := Reserved\<rparr>))"
  by (simp add: after_part_def Let_def)

lemma after_open: "length (takeWhile blank l) \<le> pf_max g \<Longrightarrow> \<not> prefix (reserved_prefix g) (dropWhile blank l) \<Longrightarrow>
    prefix (dropWhile blank l) (reserved_prefix g) \<Longrightarrow> after_part g l s = ([], s\<lparr>ps_buffer := l\<rparr>)"
  by (simp add: after_part_def)

lemma after_plain: "\<not> (length (takeWhile blank l) \<le> pf_max g \<and> prefix (reserved_prefix g) (dropWhile blank l)) \<Longrightarrow>
    \<not> (length (takeWhile blank l) \<le> pf_max g \<and> prefix (dropWhile blank l) (reserved_prefix g)) \<Longrightarrow>
    after_part g l s = (l, (opened s)\<lparr>ps_buffer := [], ps_state := Ordinary\<rparr>)"
  unfolding after_part_def Let_def by (simp only: if_False)

lemma prefix_head: "reserved_prefix g = CHR ''<'' # tl (reserved_prefix g)" "reserved_prefix g \<noteq> []"
  by (simp_all add: reserved_prefix_def)

lemma prefix_long: "2 \<le> length (reserved_prefix g)"
  by (simp add: reserved_prefix_def)

lemma resolve_default_buffer [simp]: "resolve_default (s\<lparr>ps_buffer := b\<rparr>) = (resolve_default s)\<lparr>ps_buffer := b\<rparr>"
  by (simp add: resolve_default_def)

lemma blank_utf8: "list_all blank l \<Longrightarrow> utf8_len l = length l"
  by (induction l) (auto simp: utf8_len_def blank_def)

lemma all_blank: "dropWhile blank l = [] \<longleftrightarrow> list_all blank l"
  by (induction l) auto

lemma all_blank_take: "list_all blank l \<Longrightarrow> takeWhile blank l = l"
  by (induction l) auto

lemma blank_snoc:
  "dropWhile blank (l @ [c]) = (if list_all blank l then (if blank c then [] else [c]) else dropWhile blank l @ [c])"
  "takeWhile blank (l @ [c]) = (if list_all blank l then (if blank c then l @ [c] else l) else takeWhile blank l)"
  by (induction l) auto

lemma push_one: "push g s [c] = (case ps_state s of
    Ordinary \<Rightarrow> if c = newline then ([newline], s\<lparr>ps_first := False, ps_state := Candidate, ps_buffer := []\<rparr>) else ([c], s)
  | Reserved \<Rightarrow> if c = newline then ([], finish_reserved_line g (append_reserved g [newline] s)) else ([], append_reserved g [c] s)
  | Candidate \<Rightarrow> candidate_step g c s)"
  by (auto simp: Let_def split: line_state.split prod.split)

declare push.simps(2) [simp del]

lemma prefix_snocI: "prefix (r @ [c]) p \<Longrightarrow> prefix r p"
  by (rule append_prefixD)

lemma strict_or_eq: "prefix (p::string) (r @ [c]) \<Longrightarrow> prefix p r \<or> p = r @ [c]"
  by simp blast

lemma part_read:
  assumes "line_start s" "newline \<notin> set l"
  shows "push g s l = after_part g l s"
  using assms(2)
proof (induction l rule: rev_induct)
  case Nil
  have "\<not> prefix (reserved_prefix g) []" using prefix_head(2) by simp
  moreover have "s\<lparr>ps_buffer := []\<rparr> = s" using assms(1) by (simp add: line_start_def)
  ultimately show ?case by (simp add: after_part_def)
next
  case (snoc c l)
  let ?p = "reserved_prefix g" and ?r = "dropWhile blank l" and ?fits = "length (takeWhile blank l) \<le> pf_max g"
  have c: "c \<noteq> newline" using snoc.prems by auto
  have step: "push g s (l @ [c]) = seq (after_part g l s) (\<lambda>s. push g s [c])" using snoc push_append by simp
  have start: "ps_state s = Candidate" "\<not> ps_overlong s" using assms(1) by (simp_all add: line_start_def)
  consider (reserved) "?fits" "prefix ?p ?r" | (open_blank) "?fits" "?r = []" | (open_part) "?fits" "?r \<noteq> []" "prefix ?r ?p" "\<not> prefix ?p ?r"
    | (plain) "\<not> (?fits \<and> prefix ?p ?r)" "\<not> (?fits \<and> prefix ?r ?p)"
    using prefix_head(2) by (metis Nil_prefix)
  then show ?case
  proof cases
    case reserved
    have nb: "\<not> list_all blank l" using reserved(2) prefix_head(2) [of g] all_blank by (metis prefix_Nil)
    have p': "prefix ?p (?r @ [c])" using reserved(2) by (auto simp: prefix_def)
    have rest: "drop (length ?p) (?r @ [c]) = drop (length ?p) ?r @ [c]" using reserved(2) by (simp add: prefix_length_le)
    have w: "after_part g (l @ [c]) s = ([], append_reserved g (drop (length ?p) ?r @ [c]) (s\<lparr>ps_buffer := takeWhile blank l @ ?p, ps_state := Reserved\<rparr>))"
      using reserved(1) p' unfolding after_part_def Let_def blank_snoc using nb by (simp only: if_False if_True rest) simp
    show ?thesis
    proof (cases "drop (length ?p) ?r = []")
      case True
      then show ?thesis unfolding step w using reserved c by (simp add: after_part_def Let_def push_one)
    next
      case False
      then show ?thesis unfolding step w using reserved c by (simp add: after_part_def Let_def push_one append_reserved_append)
    qed
  next
    case open_blank
    have b: "list_all blank l" using open_blank(2) all_blank by blast
    have inside: "after_part g l s = ([], s\<lparr>ps_buffer := l\<rparr>)" by (rule after_open) (simp_all only: open_blank prefix_Nil prefix_head(2) Nil_prefix not_False_eq_True)
    have one: "push g (s\<lparr>ps_buffer := l\<rparr>) [c] = candidate_step g c (s\<lparr>ps_buffer := l\<rparr>)" using start by (simp add: push_one)
    have len: "utf8_len l = length l" using blank_utf8 [OF b] .
    have long: "\<not> prefix ?p [c]" using prefix_long [of g] prefix_length_le [of ?p "[c]"] by auto
    show ?thesis
    proof (cases "blank c")
      case True
      have d: "dropWhile blank (l @ [c]) = []" "takeWhile blank (l @ [c]) = l @ [c]" using True b by (simp_all add: blank_snoc)
      have u: "utf8_len (l @ [c]) = length (l @ [c])" by (rule blank_utf8) (use b True in simp)
      show ?thesis
      proof (cases "length (l @ [c]) \<le> pf_max g")
        case fit: True
        have "after_part g (l @ [c]) s = ([], s\<lparr>ps_buffer := l @ [c]\<rparr>)" by (rule after_open) (use fit prefix_head(2) in \<open>simp_all add: d\<close>)
        then show ?thesis unfolding step inside using fit u True b by (simp add: one candidate_step_def d Let_def list_all_iff)
      next
        case False
        have "after_part g (l @ [c]) s = (l @ [c], (opened s)\<lparr>ps_buffer := [], ps_state := Ordinary\<rparr>)" by (rule after_plain) (use False in \<open>simp_all add: d\<close>)
        then show ?thesis unfolding step inside using False u c True b by (simp add: one candidate_step_def d opened_def Let_def list_all_iff)
      qed
    next
      case False
      have d: "dropWhile blank (l @ [c]) = [c]" "takeWhile blank (l @ [c]) = l" using False b by (simp_all add: blank_snoc)
      show ?thesis
      proof (cases "prefix [c] ?p")
        case True
        have "after_part g (l @ [c]) s = ([], s\<lparr>ps_buffer := l @ [c]\<rparr>)"
          by (rule after_open) (use True long open_blank all_blank_take [OF b] in \<open>simp_all add: d del: prefix_Cons\<close>)
        then show ?thesis unfolding step inside using True long start False by (simp add: one candidate_step_def d Let_def)
      next
        case no: False
        have "after_part g (l @ [c]) s = (l @ [c], (opened s)\<lparr>ps_buffer := [], ps_state := Ordinary\<rparr>)"
          by (rule after_plain) (use no long in \<open>simp_all only: d simp_thms\<close>)
        then show ?thesis unfolding step inside using no long c False by (simp add: one candidate_step_def d opened_def Let_def)
      qed
    qed
  next
    case open_part
    have nb: "\<not> list_all blank l" using open_part(2) all_blank by blast
    have inside: "after_part g l s = ([], s\<lparr>ps_buffer := l\<rparr>)" by (rule after_open) (use open_part in simp_all)
    have full: "prefix ?p (?r @ [c]) \<longleftrightarrow> ?p = ?r @ [c]" using open_part(4) strict_or_eq [of ?p ?r c] by auto
    have head: "takeWhile blank l @ ?r @ [c] = l @ [c]" by simp
    show ?thesis
      unfolding step inside
      using nb c start open_part full
      by (auto simp: push_one candidate_step_def Let_def blank_snoc after_part_def opened_def)
  next
    case plain
    have inside: "after_part g l s = (l, (opened s)\<lparr>ps_buffer := [], ps_state := Ordinary\<rparr>)" using plain by (rule after_plain)
    have still: "\<not> (length (takeWhile blank (l @ [c])) \<le> pf_max g \<and> prefix ?p (dropWhile blank (l @ [c])))"
        "\<not> (length (takeWhile blank (l @ [c])) \<le> pf_max g \<and> prefix (dropWhile blank (l @ [c])) ?p)"
    proof -
      have nofit: "\<not> ?fits" if "list_all blank l" using plain(2) that all_blank by (metis Nil_prefix)
      show "\<not> (length (takeWhile blank (l @ [c])) \<le> pf_max g \<and> prefix ?p (dropWhile blank (l @ [c])))"
        using nofit plain all_blank_take [of l] strict_or_eq [of ?p ?r c] unfolding blank_snoc by (auto split: if_splits)
      show "\<not> (length (takeWhile blank (l @ [c])) \<le> pf_max g \<and> prefix (dropWhile blank (l @ [c])) ?p)"
        using nofit plain all_blank_take [of l] prefix_snocI [of ?r c ?p] unfolding blank_snoc by (auto split: if_splits)
    qed
    have w: "after_part g (l @ [c]) s = (l @ [c], (opened s)\<lparr>ps_buffer := [], ps_state := Ordinary\<rparr>)" using still by (rule after_plain)
    show ?thesis unfolding step inside w using c by (simp add: push_one seq_def)
  qed
qed

section \<open>The whole text\<close>

function split_lines :: "string \<Rightarrow> string list" where
  "split_lines t = (if t = [] then []
     else if newline \<in> set t then (takeWhile (\<lambda>x. x \<noteq> newline) t @ [newline]) # split_lines (tl (dropWhile (\<lambda>x. x \<noteq> newline) t))
     else [t])"
  by pat_completeness auto
termination
  by (relation "measure length") (auto simp: neq_Nil_conv simp del: dropWhile.simps intro: rest_shorter)

declare split_lines.simps [simp del]

lemma split_lines_cons: "newline \<notin> set l \<Longrightarrow> split_lines (l @ newline # t) = (l @ [newline]) # split_lines t"
  by (subst split_lines.simps) (simp add: span_append)

lemma split_lines_last: "newline \<notin> set l \<Longrightarrow> split_lines l = (if l = [] then [] else [l])"
  by (subst split_lines.simps) simp

text \<open>The state at the start of the next line: the first line has settled the cue.\<close>

definition settled_cue :: "filter_config \<Rightarrow> string \<Rightarrow> filter_state \<Rightarrow> filter_state" where
  "settled_cue g l s = ((if ps_first s then (case line_cue g l of Some c \<Rightarrow> s\<lparr>ps_cue := c, ps_recognized := True, ps_resolved := True\<rparr>
      | None \<Rightarrow> resolve_default s) else s)\<lparr>ps_first := False\<rparr>)"

lemma exact_directive: "exact_cue g l = Some c \<Longrightarrow> \<exists>b f. l = directive g b f"
  by (auto simp: exact_cue_def find_Some_iff)

lemma directive_scrubbed: "exact_cue g l = Some c \<Longrightarrow> scrubbed g l \<and> takeWhile blank l = [] \<and> prefix (reserved_prefix g) l"
proof -
  assume "exact_cue g l = Some c"
  then obtain b f where l: "l = directive g b f" using exact_directive by blast
  have p: "prefix (reserved_prefix g) l" unfolding l directive_def reserved_prefix_def by simp
  then have h: "takeWhile blank l = []" "dropWhile blank l = l" unfolding l directive_def by (simp_all add: blank_def)
  show ?thesis using p by (simp add: scrubbed_def h)
qed

lemma no_newline_prefix: "namespace_ok (pf_namespace g) \<Longrightarrow> newline \<notin> set (reserved_prefix g)"
proof -
  assume n: "namespace_ok (pf_namespace g)"
  have "newline \<notin> set (pf_namespace g)"
  proof
    assume m: "newline \<in> set (pf_namespace g)"
    have "\<forall>d\<in>set (pf_namespace g). 45 \<le> (of_char d :: nat)"
      using n by (cases "pf_namespace g") (auto simp: namespace_ok_def Let_def list_all_iff)
    then show False using m by (auto simp: newline_def)
  qed
  then show ?thesis by (simp add: reserved_prefix_def newline_def)
qed

lemma scrubbed_line:
  assumes "newline \<notin> set l" "newline \<notin> set (reserved_prefix g)"
  shows "scrubbed g (l @ [newline]) \<longleftrightarrow> length (takeWhile blank l) \<le> pf_max g \<and> prefix (reserved_prefix g) (dropWhile blank l)"
proof -
  have nb: "\<not> blank newline" by (simp add: blank_def newline_def)
  have d: "dropWhile blank (l @ [newline]) = dropWhile blank l @ [newline]" "takeWhile blank (l @ [newline]) = takeWhile blank l"
    using nb all_blank [of l] by (auto simp: blank_snoc all_blank_take)
  have "\<not> prefix (dropWhile blank l @ [newline]) (reserved_prefix g)" using assms(2) by (auto simp: prefix_def)
  moreover have "prefix (reserved_prefix g) (dropWhile blank l @ [newline]) \<longleftrightarrow> prefix (reserved_prefix g) (dropWhile blank l)"
    using assms(2) strict_or_eq [of "reserved_prefix g" "dropWhile blank l" newline] by (auto intro: prefix_prefix)
  ultimately show ?thesis by (simp add: scrubbed_def d Let_def)
qed

lemma settled_plain: "\<not> scrubbed g l \<Longrightarrow> settled_cue g l s = (opened s)\<lparr>ps_first := False\<rparr>"
  using directive_scrubbed [of g l] by (auto simp: settled_cue_def line_cue_def opened_def split: option.split)

lemma same_start: "line_start s \<Longrightarrow> s\<lparr>ps_state := Candidate\<rparr> = s" "line_start s \<Longrightarrow> s\<lparr>ps_buffer := []\<rparr> = s" "line_start s \<Longrightarrow> s\<lparr>ps_overlong := False\<rparr> = s"
  by (simp_all add: line_start_def)

lemma opened_start: "line_start s \<Longrightarrow> line_start (opened s)"
  by (simp add: line_start_def opened_def resolve_default_def)

lemma finish_reserved_settled:
  assumes s: "line_start s" and fresh: "ps_state x = Reserved" "\<not> ps_overlong x" "x\<lparr>ps_state := Candidate, ps_buffer := []\<rparr> = s" "ps_buffer x @ t = l"
  shows "finish_reserved_line g (append_reserved g t x) = settled_cue g l s"
proof -
  have f: "ps_first x = ps_first s" "ps_resolved x = ps_resolved s" "ps_recognized x = ps_recognized s" "ps_cue x = ps_cue s"
    unfolding fresh(3) [symmetric] by simp_all
  show ?thesis
    using s fresh(1,2,4) f unfolding line_start_def
    by (cases s; cases x) (simp add: finish_reserved_line_def append_reserved_def settled_cue_def line_cue_def resolve_default_def Let_def split: option.split)
qed

lemma line_read:
  assumes s: "line_start s" and l: "newline \<notin> set l" and p: "newline \<notin> set (reserved_prefix g)"
  shows "push g s (l @ [newline]) = (kept_line g (l @ [newline]), settled_cue g (l @ [newline]) s)"
proof -
  let ?p = "reserved_prefix g" and ?r = "dropWhile blank l" and ?fits = "length (takeWhile blank l) \<le> pf_max g"
  have step: "push g s (l @ [newline]) = seq (after_part g l s) (\<lambda>s. push g s [newline])" using part_read [OF s l] push_append by simp
  note sc = scrubbed_line [OF l p]
  consider (reserved) "?fits" "prefix ?p ?r" | (open_part) "?fits" "\<not> prefix ?p ?r" "prefix ?r ?p"
    | (plain) "\<not> (?fits \<and> prefix ?p ?r)" "\<not> (?fits \<and> prefix ?r ?p)" by blast
  then show ?thesis
  proof cases
    case reserved
    let ?x = "s\<lparr>ps_buffer := takeWhile blank l @ ?p, ps_state := Reserved\<rparr>" and ?rest = "drop (length ?p) ?r"
    have "?p @ ?rest = ?r" using reserved(2) by (auto simp: prefix_def)
    then have whole: "(takeWhile blank l @ ?p) @ ?rest @ [newline] = l @ [newline]" by simp
    have "finish_reserved_line g (append_reserved g (?rest @ [newline]) ?x) = settled_cue g (l @ [newline]) s"
      by (rule finish_reserved_settled [OF s]) (use s whole in \<open>simp_all add: line_start_def\<close>)
    then show ?thesis
      unfolding step after_reserved [OF reserved] using reserved sc
      by (cases "?rest = []") (simp_all add: push_one kept_line_def append_reserved_append)
  next
    case open_part
    have ns: "\<not> scrubbed g (l @ [newline])" using sc open_part by simp
    have nb: "\<not> blank newline" by (simp add: blank_def newline_def)
    have d: "dropWhile blank (l @ [newline]) = ?r @ [newline]" using nb all_blank [of l] by (simp add: blank_snoc)
    have "?p \<noteq> ?r @ [newline]" using p by (metis in_set_conv_decomp)
    then have no: "\<not> prefix (?r @ [newline]) ?p" "\<not> prefix ?p (?r @ [newline])"
      using p strict_or_eq [of ?p ?r newline] open_part(2) by (auto simp: prefix_def)
    have "candidate_step g newline (s\<lparr>ps_buffer := l\<rparr>) = (l @ [newline], (opened s)\<lparr>ps_buffer := [], ps_first := False, ps_state := Candidate\<rparr>)"
      using no by (simp add: candidate_step_def d Let_def opened_def resolve_default_def)
    moreover have "(opened s)\<lparr>ps_buffer := [], ps_first := False, ps_state := Candidate\<rparr> = (opened s)\<lparr>ps_first := False\<rparr>"
      using opened_start [OF s] by (simp add: line_start_def)
    ultimately show ?thesis
      unfolding step after_open [OF open_part] using s ns
      by (simp add: push_one line_start_def kept_line_def settled_plain)
  next
    case plain
    have ns: "\<not> scrubbed g (l @ [newline])" using sc plain by simp
    have "(opened s)\<lparr>ps_buffer := [], ps_state := Ordinary, ps_first := False, ps_state := Candidate, ps_buffer := []\<rparr> = (opened s)\<lparr>ps_first := False\<rparr>"
      using opened_start [OF s] by (simp add: line_start_def)
    then show ?thesis
      unfolding step after_plain [OF plain] using ns by (simp add: push_one kept_line_def settled_plain seq_def)
  qed
qed

lemma settled_start: "line_start s \<Longrightarrow> line_start (settled_cue g l s)"
  by (simp add: line_start_def settled_cue_def resolve_default_def split: option.split)

lemma settled_flags: "\<not> ps_first (settled_cue g l s)" "ps_first s \<or> ps_resolved s \<Longrightarrow> ps_resolved (settled_cue g l s)"
  by (auto simp: settled_cue_def resolve_default_def split: option.split)

lemma settled_later: "\<not> ps_first s \<Longrightarrow> settled_cue g l s = s"
  by (simp add: settled_cue_def)

text \<open>What the end of the text leaves: the last line without its newline, and a cue in any case.\<close>

lemma last_read:
  assumes s: "line_start s" and l: "newline \<notin> set l" and r: "ps_first s \<or> ps_resolved s"
  shows "fst (seq (push g s l) (finish g)) = kept_line g l
    \<and> ps_cue (snd (seq (push g s l) (finish g))) = ps_cue (resolve_default s)
    \<and> ps_recognized (snd (seq (push g s l) (finish g))) = ps_recognized (resolve_default s)"
proof -
  let ?p = "reserved_prefix g" and ?r = "dropWhile blank l" and ?fits = "length (takeWhile blank l) \<le> pf_max g"
  consider (reserved) "?fits" "prefix ?p ?r" | (open_part) "?fits" "\<not> prefix ?p ?r" "prefix ?r ?p"
    | (plain) "\<not> (?fits \<and> prefix ?p ?r)" "\<not> (?fits \<and> prefix ?r ?p)" by blast
  then show ?thesis
  proof cases
    case reserved
    have "scrubbed g l" using reserved by (simp add: scrubbed_def)
    then show ?thesis
      unfolding part_read [OF s l] after_reserved [OF reserved] using r s
      by (auto simp: finish_def kept_line_def append_reserved_def resolve_default_def Let_def line_start_def)
  next
    case open_part
    have "scrubbed g l \<longleftrightarrow> ?r \<noteq> []" using open_part by (auto simp: scrubbed_def)
    then show ?thesis
      unfolding part_read [OF s l] after_open [OF open_part] using r s open_part
      by (auto simp: finish_def kept_line_def resolve_default_def Let_def line_start_def)
  next
    case plain
    have "\<not> scrubbed g l" using plain by (auto simp: scrubbed_def Let_def)
    then show ?thesis
      unfolding part_read [OF s l] after_plain [OF plain] using r s
      by (auto simp: finish_def kept_line_def opened_def resolve_default_def seq_def)
  qed
qed

lemma later_lines:
  assumes "newline \<notin> set (reserved_prefix g)" "line_start s" "\<not> ps_first s" "ps_resolved s"
  shows "fst (seq (push g s t) (finish g)) = concat (map (kept_line g) (split_lines t))
    \<and> ps_cue (snd (seq (push g s t) (finish g))) = ps_cue s \<and> ps_recognized (snd (seq (push g s t) (finish g))) = ps_recognized s"
proof (induction "length t" arbitrary: t rule: less_induct)
  case less
  show ?case
  proof (cases "newline \<in> set t")
    case True
    then obtain l u where t: "t = l @ newline # u" "newline \<notin> set l" using split_newline by blast
    have "push g s t = seq (kept_line g (l @ [newline]), s) (\<lambda>s. push g s u)"
      using push_append [of g s "l @ [newline]" u] line_read [OF assms(2) t(2) assms(1)] settled_later [OF assms(3)] by (simp add: t(1))
    then show ?thesis using less [of u] by (simp add: t split_lines_cons seq_def case_prod_unfold)
  next
    case False
    have "resolve_default s = s" using assms(4) by (simp add: resolve_default_def)
    then show ?thesis using last_read [OF assms(2) False, of g] assms(4) by (simp add: split_lines_last [OF False] kept_line_def)
  qed
qed

fun push_chunks :: "filter_config \<Rightarrow> filter_state \<Rightarrow> string list \<Rightarrow> string \<times> filter_state" where
  "push_chunks g s [] = ([], s)"
| "push_chunks g s (t # ts) = seq (push g s t) (\<lambda>s. push_chunks g s ts)"

lemma push_chunks_concat: "push_chunks g s ts = push g s (concat ts)"
  by (induction ts arbitrary: s) (simp_all add: push_append)

definition first_cue :: "filter_config \<Rightarrow> string \<Rightarrow> cue option" where
  "first_cue g t = (case split_lines t of [] \<Rightarrow> None | l # _ \<Rightarrow> line_cue g l)"

lemma exact_line_ends: "newline \<notin> set l \<Longrightarrow> exact_cue g l = None"
  using exact_directive [of g l] by (cases "exact_cue g l") (auto simp: directive_def)

text \<open>
  C36: However a reply is cut into chunks, the filter gives out the lines of the whole text that are not
  reserved, unchanged and in order, and the cue is that of an exact directive on the first line,
  or the default one.
\<close>

theorem presentation_filter_exact:
  assumes "config_ok g" and "seq (push_chunks g filter_start chunks) (finish g) = (out, s)"
  shows "out = concat (map (kept_line g) (split_lines (concat chunks)))
    \<and> ps_recognized s = (first_cue g (concat chunks) \<noteq> None)
    \<and> ps_cue s = (case first_cue g (concat chunks) of Some c \<Rightarrow> c | None \<Rightarrow> default_cue)"
proof -
  let ?t = "concat chunks" and ?s = filter_start
  have p: "newline \<notin> set (reserved_prefix g)" using assms(1) by (simp add: config_ok_def no_newline_prefix)
  have start: "line_start ?s" "ps_first ?s" "\<not> ps_resolved ?s" by (simp_all add: line_start_def filter_start_def)
  have run: "seq (push g ?s ?t) (finish g) = (out, s)" using assms(2) by (simp add: push_chunks_concat)
  show ?thesis
  proof (cases "newline \<in> set ?t")
    case True
    then obtain l u where t: "?t = l @ newline # u" "newline \<notin> set l" using split_newline by blast
    let ?s1 = "settled_cue g (l @ [newline]) ?s"
    have "push g ?s ?t = seq (kept_line g (l @ [newline]), ?s1) (\<lambda>s. push g s u)"
      using push_append [of g ?s "l @ [newline]" u] line_read [OF start(1) t(2) p] by (simp add: t(1))
    moreover have "first_cue g ?t = line_cue g (l @ [newline])" by (simp add: first_cue_def t split_lines_cons)
    moreover have "ps_recognized ?s1 = (line_cue g (l @ [newline]) \<noteq> None) \<and> ps_cue ?s1 = (case line_cue g (l @ [newline]) of Some c \<Rightarrow> c | None \<Rightarrow> default_cue)"
      by (simp add: settled_cue_def resolve_default_def filter_start_def split: option.split)
    moreover have "fst (seq (push g ?s1 u) (finish g)) = concat (map (kept_line g) (split_lines u))
        \<and> ps_cue (snd (seq (push g ?s1 u) (finish g))) = ps_cue ?s1
        \<and> ps_recognized (snd (seq (push g ?s1 u) (finish g))) = ps_recognized ?s1"
      by (rule later_lines [OF p settled_start [OF start(1)] settled_flags(1)]) (simp add: settled_flags(2) start(2))
    ultimately show ?thesis
      using run by (auto simp: t split_lines_cons seq_def case_prod_unfold)
  next
    case False
    have "first_cue g ?t = None" by (simp add: first_cue_def split_lines_last [OF False] line_cue_def exact_line_ends [OF False])
    then show ?thesis
      using last_read [OF start(1) False, of g] start(2) run
      by (simp add: split_lines_last [OF False] kept_line_def resolve_default_def filter_start_def)
  qed
qed

lemma presentation_filter_exact_witness:
  "let g = \<lparr>pf_namespace = ''ui'', pf_max = 256\<rparr>; chunks = [''<!-- ui.pre'', ''sentation'', [newline] @ ''Hel'', ''lo''] in
     config_ok g \<and> concat (map (kept_line g) (split_lines (concat chunks))) = ''Hello''
     \<and> fst (seq (push_chunks g filter_start chunks) (finish g)) = ''Hello''"
proof -
  let ?g = "\<lparr>pf_namespace = ''ui'', pf_max = 256\<rparr>" and ?chunks = "[''<!-- ui.pre'', ''sentation'', [newline] @ ''Hel'', ''lo'']"
  have ok: "config_ok ?g" by (simp add: config_ok_def namespace_ok_def)
  obtain out s where r: "seq (push_chunks ?g filter_start ?chunks) (finish ?g) = (out, s)" by fastforce
  have cat: "concat ?chunks = ''<!-- ui.presentation'' @ newline # ''Hello''" by simp
  have n: "newline \<notin> set ''<!-- ui.presentation''" "newline \<notin> set ''Hello''" by (simp_all add: newline_def)
  have lines: "split_lines (concat ?chunks) = [''<!-- ui.presentation'' @ [newline], ''Hello'']"
    unfolding cat split_lines_cons [OF n(1)] split_lines_last [OF n(2)] by simp
  have "concat (map (kept_line ?g) (split_lines (concat ?chunks))) = ''Hello''"
    unfolding lines by (simp add: kept_line_def scrubbed_def reserved_prefix_def blank_def newline_def)
  then show ?thesis using presentation_filter_exact [OF ok r] ok r by (simp add: Let_def)
qed

end
