(* ===== verification/OutputQueue.thy ===== *)
theory OutputQueue
  imports Framing Requests
begin

text \<open>
  The output side of a supervisor connection (src/supervisor.mjs: \<open>#encode\<close>, \<open>#write\<close>,
  \<open>#flushWrites\<close>). Frames wait in a queue with a head index until the socket takes them; a
  connection whose unsent bytes would pass the limit is destroyed. The socket is the part of
  node's \<open>net.Socket\<close> that the code uses: it counts what it holds, answers a write with whether
  that is below its high-water mark, and emits \<open>drain\<close> once it holds nothing.
\<close>

section \<open>The socket\<close>

record socket =
  sk_destroyed :: bool
  sk_ended :: bool
  sk_length :: nat          \<comment> \<open>\<open>writableLength\<close>\<close>
  sk_taken :: "bytes list"  \<comment> \<open>every chunk written so far, in order\<close>

definition sock_write :: "nat \<Rightarrow> bytes \<Rightarrow> socket \<Rightarrow> socket \<times> bool" where
  "sock_write hwm b s = (let n = sk_length s + length b in (s\<lparr>sk_length := n, sk_taken := sk_taken s @ [b]\<rparr>, n < hwm))"

section \<open>The queue\<close>

record outbox =
  ou_socket :: socket
  ou_queue :: "bytes option list"  \<comment> \<open>a slot before the head is \<open>undefined\<close>\<close>
  ou_head :: nat
  ou_bytes :: int
  ou_blocked :: bool

definition fresh_output :: outbox where
  "fresh_output = \<lparr>ou_socket = \<lparr>sk_destroyed = False, sk_ended = False, sk_length = 0, sk_taken = []\<rparr>,
     ou_queue = [], ou_head = 0, ou_bytes = 0, ou_blocked = False\<rparr>"

definition output_headroom :: nat where
  "output_headroom = 256 * 1024"

definition output_limit :: "nat \<Rightarrow> nat" where
  "output_limit max_frame = max_frame + 1 + output_headroom"

definition writable :: "outbox \<Rightarrow> bool" where
  "writable u \<longleftrightarrow> \<not> sk_destroyed (ou_socket u) \<and> \<not> sk_ended (ou_socket u)"

definition destroy :: "outbox \<Rightarrow> outbox" where
  "destroy u = u\<lparr>ou_socket := (ou_socket u)\<lparr>sk_destroyed := True\<rparr>\<rparr>"

text \<open>One round of the loop: the head is cleared, counted out and handed to the socket.\<close>

definition flush_one :: "nat \<Rightarrow> bytes \<Rightarrow> outbox \<Rightarrow> outbox" where
  "flush_one hwm b u = (let (s, below) = sock_write hwm b (ou_socket u) in
     u\<lparr>ou_queue := (ou_queue u)[ou_head u := None], ou_head := ou_head u + 1, ou_bytes := ou_bytes u - int (length b),
       ou_socket := s, ou_blocked := \<not> below\<rparr>)"

function (sequential) flush_loop :: "nat \<Rightarrow> outbox \<Rightarrow> outbox" where
  "flush_loop hwm u =
     (if \<not> ou_blocked u \<and> ou_head u < length (ou_queue u)
      then (case ou_queue u ! ou_head u of Some b \<Rightarrow> flush_loop hwm (flush_one hwm b u) | None \<Rightarrow> u)
      else u)"
  by pat_completeness auto
termination
  by (relation "measure (\<lambda>(hwm, u). length (ou_queue u) - ou_head u)") (auto simp: flush_one_def sock_write_def Let_def)

declare flush_loop.simps [simp del]

definition compact_queue :: "outbox \<Rightarrow> outbox" where
  "compact_queue u =
     (if ou_head u = length (ou_queue u) then u\<lparr>ou_queue := [], ou_head := 0\<rparr>
      else if 1024 \<le> ou_head u \<and> length (ou_queue u) \<le> ou_head u * 2 then u\<lparr>ou_queue := drop (ou_head u) (ou_queue u), ou_head := 0\<rparr>
      else u)"

definition flush_writes :: "nat \<Rightarrow> outbox \<Rightarrow> outbox" where
  "flush_writes hwm u = (if writable u then compact_queue (flush_loop hwm u) else u)"

text \<open>A frame that is too large is replaced by a small one that names it.\<close>

definition encode_or_replace :: "(js \<Rightarrow> bytes) \<Rightarrow> nat \<Rightarrow> js \<Rightarrow> bytes result" where
  "encode_or_replace enc mx frame = (case encode_frame enc mx frame of
      Inr b \<Rightarrow> Inr b
    | Inl _ \<Rightarrow> encode_frame enc mx
        (if jget ''type'' frame = JStr ''response''
         then error_response (jget ''id'' frame) (jget ''requestType'' frame) ''response exceeds protocol frame limit'' (Some ''response_too_large'')
         else event_frame ''frame_truncated'' (Some (JObj [(''originalType'', jget ''type'' frame), (''originalEvent'', jget ''event'' frame)]))))"

definition enqueue_bytes :: "nat \<Rightarrow> nat \<Rightarrow> bytes \<Rightarrow> outbox \<Rightarrow> outbox \<times> bool" where
  "enqueue_bytes hwm mx b u =
     (if int (output_limit mx) < ou_bytes u + int (sk_length (ou_socket u)) + int (length b) then (destroy u, False)
      else (let u' = flush_writes hwm (u\<lparr>ou_queue := ou_queue u @ [Some b], ou_bytes := ou_bytes u + int (length b)\<rparr>)
            in (u', \<not> sk_destroyed (ou_socket u'))))"

definition write_frame :: "(js \<Rightarrow> bytes) \<Rightarrow> nat \<Rightarrow> nat \<Rightarrow> js \<Rightarrow> outbox \<Rightarrow> outbox \<times> bool" where
  "write_frame enc hwm mx frame u =
     (if \<not> writable u then (u, False)
      else (case encode_or_replace enc mx frame of Inl _ \<Rightarrow> (destroy u, False) | Inr b \<Rightarrow> enqueue_bytes hwm mx b u))"

definition drained :: "nat \<Rightarrow> outbox \<Rightarrow> outbox" where
  "drained hwm u = flush_writes hwm (u\<lparr>ou_blocked := False\<rparr>)"

definition drop_output :: "outbox \<Rightarrow> outbox" where
  "drop_output u = u\<lparr>ou_queue := [], ou_head := 0, ou_bytes := 0, ou_blocked := False\<rparr>"

section \<open>What the queue holds\<close>

definition waiting_frames :: "outbox \<Rightarrow> bytes list" where
  "waiting_frames u = map the (drop (ou_head u) (ou_queue u))"

definition out_stream :: "outbox \<Rightarrow> bytes list" where
  "out_stream u = sk_taken (ou_socket u) @ waiting_frames u"

text \<open>The slots from the head on are filled, their bytes are counted, and a live connection holds at most the limit.\<close>

definition output_inv :: "nat \<Rightarrow> outbox \<Rightarrow> bool" where
  "output_inv mx u \<longleftrightarrow> ou_head u \<le> length (ou_queue u) \<and> None \<notin> set (drop (ou_head u) (ou_queue u))
     \<and> ou_bytes u = int (sum_list (map length (waiting_frames u)))
     \<and> (\<not> sk_destroyed (ou_socket u) \<longrightarrow> ou_bytes u + int (sk_length (ou_socket u)) \<le> int (output_limit mx))"

lemma output_invI:
  assumes "ou_head u \<le> length (ou_queue u)" "None \<notin> set (drop (ou_head u) (ou_queue u))"
    "ou_bytes u = int (sum_list (map length (waiting_frames u)))"
    "\<not> sk_destroyed (ou_socket u) \<Longrightarrow> ou_bytes u + int (sk_length (ou_socket u)) \<le> int (output_limit mx)"
  shows "output_inv mx u"
  using assms by (simp add: output_inv_def)

lemma fresh_output_inv: "output_inv mx fresh_output"
  by (simp add: output_inv_def fresh_output_def waiting_frames_def)

lemma fresh_stream: "out_stream fresh_output = []"
  by (simp add: out_stream_def fresh_output_def waiting_frames_def)

lemma destroy_inv: "output_inv mx u \<Longrightarrow> output_inv mx (destroy u)"
  by (simp add: output_inv_def destroy_def waiting_frames_def)

lemma destroy_stream [simp]: "out_stream (destroy u) = out_stream u"
  by (simp add: out_stream_def destroy_def waiting_frames_def)

text \<open>One round of the loop moves the head from the queue to the socket.\<close>

lemma waiting_head:
  assumes "output_inv mx u" "ou_head u < length (ou_queue u)"
  obtains b where "ou_queue u ! ou_head u = Some b" "waiting_frames u = b # map the (drop (Suc (ou_head u)) (ou_queue u))"
proof -
  have d: "drop (ou_head u) (ou_queue u) = ou_queue u ! ou_head u # drop (Suc (ou_head u)) (ou_queue u)"
    using assms(2) by (simp add: Cons_nth_drop_Suc)
  then have "ou_queue u ! ou_head u \<noteq> None" using assms(1) unfolding output_inv_def by (metis list.set_intros(1))
  then show ?thesis using that d by (auto simp: waiting_frames_def)
qed

lemma flush_one_step:
  assumes i: "output_inv mx u" and h: "ou_head u < length (ou_queue u)" and b: "ou_queue u ! ou_head u = Some b"
  shows "output_inv mx (flush_one hwm b u)" "out_stream (flush_one hwm b u) = out_stream u"
proof -
  have w: "waiting_frames u = b # map the (drop (Suc (ou_head u)) (ou_queue u))"
    by (rule waiting_head [OF i h]) (simp add: b)
  have n: "None \<notin> set (drop (Suc (ou_head u)) (ou_queue u))"
    using i h unfolding output_inv_def by (metis Cons_nth_drop_Suc list.set_intros(2))
  have w': "waiting_frames (flush_one hwm b u) = map the (drop (Suc (ou_head u)) (ou_queue u))"
    by (simp add: waiting_frames_def flush_one_def sock_write_def Let_def)
  show "out_stream (flush_one hwm b u) = out_stream u"
    unfolding out_stream_def w' w by (simp add: flush_one_def sock_write_def Let_def)
  show "output_inv mx (flush_one hwm b u)"
  proof (rule output_invI)
    show "ou_bytes (flush_one hwm b u) = int (sum_list (map length (waiting_frames (flush_one hwm b u))))"
      unfolding w' using i w by (simp add: output_inv_def flush_one_def sock_write_def Let_def)
  qed (use i h n in \<open>simp_all add: output_inv_def flush_one_def sock_write_def Let_def\<close>)
qed

lemma flush_loop_step:
  "output_inv mx u \<Longrightarrow> output_inv mx (flush_loop hwm u) \<and> out_stream (flush_loop hwm u) = out_stream u
    \<and> (ou_blocked (flush_loop hwm u) \<or> ou_head (flush_loop hwm u) = length (ou_queue (flush_loop hwm u)))"
proof (induction hwm u rule: flush_loop.induct)
  case (1 hwm u)
  show ?case
  proof (cases "\<not> ou_blocked u \<and> ou_head u < length (ou_queue u)")
    case True
    then obtain b where b: "ou_queue u ! ou_head u = Some b" using waiting_head [OF 1(2)] by blast
    have "output_inv mx (flush_one hwm b u)" by (rule flush_one_step(1) [OF 1(2) conjunct2 [OF True] b])
    note IH = 1(1) [OF True b this]
    have "flush_loop hwm u = flush_loop hwm (flush_one hwm b u)" using True b by (subst flush_loop.simps) simp
    then show ?thesis using IH flush_one_step(2) [OF 1(2) conjunct2 [OF True] b] by simp
  next
    case False
    then have "flush_loop hwm u = u" by (subst flush_loop.simps) auto
    then show ?thesis using False 1(2) by (auto simp: output_inv_def)
  qed
qed

lemma compact_inv: "output_inv mx u \<Longrightarrow> output_inv mx (compact_queue u) \<and> out_stream (compact_queue u) = out_stream u
    \<and> ou_blocked (compact_queue u) = ou_blocked u \<and> ou_socket (compact_queue u) = ou_socket u"
  by (auto simp: compact_queue_def output_inv_def out_stream_def waiting_frames_def)

lemma flush_step:
  assumes "output_inv mx u"
  shows "output_inv mx (flush_writes hwm u)" "out_stream (flush_writes hwm u) = out_stream u"
  using flush_loop_step [OF assms, of hwm] compact_inv [of mx "flush_loop hwm u"] assms
  by (auto simp: flush_writes_def)


lemma flush_rest:
  assumes "output_inv mx u" "writable u"
  shows "ou_blocked (flush_writes hwm u) \<or> waiting_frames (flush_writes hwm u) = []"
proof -
  let ?u = "flush_loop hwm u"
  have "ou_blocked ?u \<or> ou_head ?u = length (ou_queue ?u)" using flush_loop_step [OF assms(1)] by blast
  then show ?thesis using assms(2) by (auto simp: flush_writes_def compact_queue_def waiting_frames_def)
qed

section \<open>The life of the queue\<close>

datatype out_event = WriteFrame js | Drained | SocketSent nat | EndSocket | DestroySocket

definition out_step :: "(js \<Rightarrow> bytes) \<Rightarrow> nat \<Rightarrow> nat \<Rightarrow> out_event \<Rightarrow> outbox \<Rightarrow> outbox" where
  "out_step enc hwm mx e u = (case e of
      WriteFrame frame \<Rightarrow> fst (write_frame enc hwm mx frame u)
    | Drained \<Rightarrow> if sk_length (ou_socket u) = 0 then drained hwm u else u
    | SocketSent n \<Rightarrow> u\<lparr>ou_socket := (ou_socket u)\<lparr>sk_length := sk_length (ou_socket u) - n\<rparr>\<rparr>
    | EndSocket \<Rightarrow> u\<lparr>ou_socket := (ou_socket u)\<lparr>sk_ended := True\<rparr>\<rparr>
    | DestroySocket \<Rightarrow> destroy u)"

text \<open>The bytes of an accepted frame, and of the frames that a history accepted.\<close>

definition accepted_frame :: "(js \<Rightarrow> bytes) \<Rightarrow> nat \<Rightarrow> js \<Rightarrow> outbox \<Rightarrow> bytes list" where
  "accepted_frame enc mx frame u =
     (if \<not> writable u then []
      else (case encode_or_replace enc mx frame of
          Inl _ \<Rightarrow> []
        | Inr b \<Rightarrow> if int (output_limit mx) < ou_bytes u + int (sk_length (ou_socket u)) + int (length b) then [] else [b]))"

fun out_run :: "(js \<Rightarrow> bytes) \<Rightarrow> nat \<Rightarrow> nat \<Rightarrow> out_event list \<Rightarrow> outbox \<Rightarrow> outbox \<times> bytes list" where
  "out_run enc hwm mx [] u = (u, [])"
| "out_run enc hwm mx (e # es) u =
     (let (u', bs) = out_run enc hwm mx es (out_step enc hwm mx e u)
      in (u', (case e of WriteFrame frame \<Rightarrow> accepted_frame enc mx frame u | _ \<Rightarrow> []) @ bs))"

lemma enqueue_step:
  assumes i: "output_inv mx u" and w: "writable u" and fits: "ou_bytes u + int (sk_length (ou_socket u)) + int (length b) \<le> int (output_limit mx)"
  shows "output_inv mx (fst (enqueue_bytes hwm mx b u))" "out_stream (fst (enqueue_bytes hwm mx b u)) = out_stream u @ [b]"
proof -
  let ?u = "u\<lparr>ou_queue := ou_queue u @ [Some b], ou_bytes := ou_bytes u + int (length b)\<rparr>"
  have wf: "waiting_frames ?u = waiting_frames u @ [b]" using i by (simp add: waiting_frames_def output_inv_def)
  have inv: "output_inv mx ?u"
  proof (rule output_invI)
    show "ou_bytes ?u = int (sum_list (map length (waiting_frames ?u)))" unfolding wf using i by (simp add: output_inv_def)
  qed (use i fits in \<open>auto simp: output_inv_def\<close>)
  have "out_stream ?u = out_stream u @ [b]" by (simp add: out_stream_def wf)
  then show "output_inv mx (fst (enqueue_bytes hwm mx b u))" "out_stream (fst (enqueue_bytes hwm mx b u)) = out_stream u @ [b]"
    using flush_step [OF inv, of hwm] fits by (simp_all add: enqueue_bytes_def Let_def)
qed

lemma write_step:
  assumes "output_inv mx u"
  shows "output_inv mx (fst (write_frame enc hwm mx frame u))"
    "out_stream (fst (write_frame enc hwm mx frame u)) = out_stream u @ accepted_frame enc mx frame u"
  using assms enqueue_step [OF assms] destroy_inv [OF assms]
  by (auto simp: write_frame_def accepted_frame_def enqueue_bytes_def not_less split: sum.split)

lemma output_bound: "output_inv mx u \<Longrightarrow> \<not> sk_destroyed (ou_socket u) \<Longrightarrow> ou_bytes u + int (sk_length (ou_socket u)) \<le> int (output_limit mx)"
  by (simp add: output_inv_def)

lemma sent_inv:
  assumes "output_inv mx u"
  shows "output_inv mx (u\<lparr>ou_socket := (ou_socket u)\<lparr>sk_length := sk_length (ou_socket u) - n\<rparr>\<rparr>)" (is "output_inv mx ?u")
proof (rule output_invI)
  assume "\<not> sk_destroyed (ou_socket ?u)"
  then have "ou_bytes u + int (sk_length (ou_socket u)) \<le> int (output_limit mx)" using output_bound [OF assms] by simp
  moreover have "int (sk_length (ou_socket u) - n) \<le> int (sk_length (ou_socket u))" by simp
  ultimately have "ou_bytes u + int (sk_length (ou_socket u) - n) \<le> int (output_limit mx)" by linarith
  then show "ou_bytes ?u + int (sk_length (ou_socket ?u)) \<le> int (output_limit mx)" by simp
qed (use assms in \<open>simp_all add: output_inv_def waiting_frames_def\<close>)

lemma output_inv_ended: "output_inv mx u \<Longrightarrow> output_inv mx (u\<lparr>ou_socket := (ou_socket u)\<lparr>sk_ended := True\<rparr>\<rparr>)"
  by (rule output_invI) (auto simp: output_inv_def waiting_frames_def)

lemma unblocked_inv: "output_inv mx u \<Longrightarrow> output_inv mx (u\<lparr>ou_blocked := False\<rparr>)"
  by (rule output_invI) (auto simp: output_inv_def waiting_frames_def)

lemma out_step_stream:
  assumes "output_inv mx u"
  shows "output_inv mx (out_step enc hwm mx e u)"
    "out_stream (out_step enc hwm mx e u) = out_stream u @ (case e of WriteFrame frame \<Rightarrow> accepted_frame enc mx frame u | _ \<Rightarrow> [])"
proof -
  have unblocked: "output_inv mx (u\<lparr>ou_blocked := False\<rparr>)" "out_stream (u\<lparr>ou_blocked := False\<rparr>) = out_stream u"
    by (rule unblocked_inv [OF assms]) (simp add: waiting_frames_def out_stream_def)
  show "output_inv mx (out_step enc hwm mx e u)"
    using assms write_step(1) [OF assms, of enc hwm] destroy_inv [OF assms] flush_step(1) [OF unblocked(1), of hwm]
    by (cases e) (auto simp: out_step_def drained_def sent_inv output_inv_ended)
  show "out_stream (out_step enc hwm mx e u) = out_stream u @ (case e of WriteFrame frame \<Rightarrow> accepted_frame enc mx frame u | _ \<Rightarrow> [])"
    using write_step(2) [OF assms, of enc hwm] flush_step(2) [OF unblocked(1), of hwm] unblocked(2)
    by (cases e) (simp_all add: out_step_def drained_def out_stream_def waiting_frames_def destroy_def)
qed

text \<open>A frame waits only for a blocked socket, or one that takes no more.\<close>

definition nothing_held :: "outbox \<Rightarrow> bool" where
  "nothing_held u \<longleftrightarrow> (if writable u \<and> \<not> ou_blocked u then waiting_frames u = [] else True)"

lemma fresh_held: "nothing_held fresh_output"
  by (simp add: nothing_held_def fresh_output_def waiting_frames_def)

lemma nothing_held_gone: "\<not> writable u \<Longrightarrow> nothing_held u"
  by (simp add: nothing_held_def)

lemma flush_nothing_held: "output_inv mx u \<Longrightarrow> nothing_held (flush_writes hwm u)"
  using flush_rest [of mx u hwm] by (cases "writable u") (auto simp: nothing_held_def flush_writes_def)

lemma out_step_held:
  assumes "output_inv mx u" "nothing_held u"
  shows "nothing_held (out_step enc hwm mx e u)"
proof (cases e)
  case (WriteFrame frame)
  have d: "nothing_held (destroy u)" by (rule nothing_held_gone) (simp add: writable_def destroy_def)
  show ?thesis
  proof (cases "encode_or_replace enc mx frame")
    case (Inr b)
    let ?u = "u\<lparr>ou_queue := ou_queue u @ [Some b], ou_bytes := ou_bytes u + int (length b)\<rparr>"
    have "nothing_held (flush_writes hwm ?u)" if "ou_bytes u + int (sk_length (ou_socket u)) + int (length b) \<le> int (output_limit mx)"
    proof (rule flush_nothing_held [where mx = mx])
      show "output_inv mx ?u" using assms(1) that by (auto simp: output_inv_def waiting_frames_def)
    qed
    then show ?thesis using d assms Inr by (simp add: WriteFrame out_step_def write_frame_def enqueue_bytes_def Let_def)
  qed (use d assms in \<open>simp add: WriteFrame out_step_def write_frame_def\<close>)
next
  case Drained
  show ?thesis using unblocked_inv [OF assms(1)] assms(2) flush_nothing_held by (simp add: Drained out_step_def drained_def)
qed (use assms in \<open>auto simp: out_step_def nothing_held_def writable_def waiting_frames_def destroy_def\<close>)

lemma out_run_held: "output_inv mx u \<Longrightarrow> nothing_held u \<Longrightarrow> nothing_held (fst (out_run enc hwm mx es u))"
proof (induction es arbitrary: u)
  case (Cons e es)
  then show ?case using out_step_stream(1) [OF Cons.prems(1), of enc hwm e] out_step_held [OF Cons.prems] by (simp add: case_prod_unfold Let_def)
qed simp

lemma out_run_stream:
  "output_inv mx u \<Longrightarrow> output_inv mx (fst (out_run enc hwm mx es u))
    \<and> out_stream (fst (out_run enc hwm mx es u)) = out_stream u @ snd (out_run enc hwm mx es u)"
proof (induction es arbitrary: u)
  case (Cons e es)
  then show ?case using out_step_stream [OF Cons.prems, of enc hwm e] by (simp add: case_prod_unfold Let_def)
qed simp

text \<open>
  C39: The frames that a connection accepted are the chunks that its socket was given followed by those
  that still wait, in order and without loss; a live connection never holds more than the limit of
  unsent bytes, and an idle writable one that is not blocked holds no frame back.
\<close>

theorem output_in_order:
  assumes "out_run enc hwm mx es fresh_output = (u, frames)"
  shows "frames = sk_taken (ou_socket u) @ waiting_frames u
    \<and> (\<not> sk_destroyed (ou_socket u) \<longrightarrow> sum_list (map length (waiting_frames u)) + sk_length (ou_socket u) \<le> output_limit mx)
    \<and> nothing_held u"
proof -
  have h: "nothing_held u"
    using out_run_held [OF fresh_output_inv fresh_held, where enc = enc and hwm = hwm and mx = mx and es = es] assms by simp
  have i: "output_inv mx u" and s: "out_stream u = frames"
    using out_run_stream [OF fresh_output_inv, where enc = enc and hwm = hwm and mx = mx and es = es] assms by (simp_all add: fresh_stream)
  have "\<not> sk_destroyed (ou_socket u) \<longrightarrow> sum_list (map length (waiting_frames u)) + sk_length (ou_socket u) \<le> output_limit mx"
  proof
    assume "\<not> sk_destroyed (ou_socket u)"
    then have "int (sum_list (map length (waiting_frames u))) + int (sk_length (ou_socket u)) \<le> int (output_limit mx)"
      using i by (simp add: output_inv_def)
    then show "sum_list (map length (waiting_frames u)) + sk_length (ou_socket u) \<le> output_limit mx" by linarith
  qed
  then show ?thesis using s h by (simp add: out_stream_def)
qed

lemma output_in_order_witness:
  "let (u, frames) = out_run (\<lambda>v. [1, 2]) 3 100 [WriteFrame Null, WriteFrame Null, SocketSent 2, WriteFrame Null] fresh_output in
     frames = [[1, 2, 10], [1, 2, 10], [1, 2, 10]] \<and> sk_taken (ou_socket u) = [[1, 2, 10]]
     \<and> frames = sk_taken (ou_socket u) @ waiting_frames u"
proof -
  let ?es = "[WriteFrame Null, WriteFrame Null, SocketSent 2, WriteFrame Null]"
  obtain u frames where r: "out_run (\<lambda>v. [1, 2]) 3 100 ?es fresh_output = (u, frames)" by fastforce
  have e: "frames = [[1, 2, 10], [1, 2, 10], [1, 2, 10]] \<and> sk_taken (ou_socket u) = [[1, 2, 10]]"
    using r by (auto simp: out_step_def write_frame_def accepted_frame_def encode_or_replace_def encode_frame_def
        newline_def enqueue_bytes_def flush_writes_def flush_loop.simps flush_one_def sock_write_def compact_queue_def
        fresh_output_def writable_def output_limit_def output_headroom_def Let_def)
  show ?thesis using output_in_order [OF r] r e by simp
qed

end
