(* ===== verification/Connections.thy ===== *)
theory Connections
  imports OutputQueue Lifecycle
begin

text \<open>
  A connection of the supervisor (src/supervisor.mjs: \<open>#handleFrame\<close>, \<open>#requestOperation\<close>, the guards of
  \<open>#dispatch\<close>, \<open>#dispatchActor\<close> and \<open>#dispatchClient\<close>, \<open>#closeForProtocolError\<close>, \<open>#cleanupConnection\<close>). A request is
  admitted once per id, against a bound on unfinished work or as the one continuation of a pending owner, and its
  answer may come later. What an admitted operation answers is part of the event that starts or settles it; the store,
  the actors, the open dialogs and Home are the state of the supervisor at that moment.
\<close>

section \<open>State\<close>

record actor =
  ac_generation :: int
  ac_running :: bool

record dialog =
  dg_session :: string
  dg_request :: string
  dg_serial :: nat      \<comment> \<open>the identity of the pending object\<close>
  dg_generation :: int
  dg_expires :: int

record world =
  w_store :: store
  w_actors :: "string \<Rightarrow> actor option"
  w_dialogs :: "dialog list"
  w_now :: int
  w_home :: "string option"
  w_notifies :: "string \<Rightarrow> bool"

datatype role = ActorRole string int | ClientRole string

datatype continuation = DialogOwner nat | QueueOwner string int | InputOwner string int string string | MessageOwner string

text \<open>The locals of a request whose operation has not settled.\<close>

record unfinished =
  un_id :: string
  un_type :: string
  un_work :: bool
  un_bytes :: int
  un_owner :: "continuation option"
  un_outcome :: "js result option"  \<comment> \<open>of a promise that has settled and is not yet awaited\<close>

record conn =
  cn_out :: outbox
  cn_in_flight :: "string list"
  cn_recent :: "string list"
  cn_work :: int
  cn_bytes :: int
  cn_owners :: "continuation list"
  cn_role :: "role option"
  cn_subscriptions :: "string list"
  cn_closing :: bool
  cn_cleaned :: bool
  cn_unfinished :: "unfinished list"

definition fresh_conn :: conn where
  "fresh_conn = \<lparr>cn_out = fresh_output, cn_in_flight = [], cn_recent = [], cn_work = 0, cn_bytes = 0, cn_owners = [],
     cn_role = None, cn_subscriptions = [], cn_closing = False, cn_cleaned = False, cn_unfinished = []\<rparr>"

record conn_config =
  cc_text :: "js \<Rightarrow> bytes"
  cc_time :: "string \<Rightarrow> int option"
  cc_shown :: "js \<Rightarrow> string"
  cc_hwm :: nat
  cc_max_frame :: nat

definition max_in_flight :: int where
  "max_in_flight = 8192"

definition recent_cache :: nat where
  "recent_cache = 4096"

section \<open>Writing\<close>

definition conn_write :: "conn_config \<Rightarrow> js \<Rightarrow> conn \<Rightarrow> conn \<times> bool" where
  "conn_write g frame c =
     (if cn_closing c \<or> cn_cleaned c then (c, False)
      else (let (u, sent) = write_frame (cc_text g) (cc_hwm g) (cc_max_frame g) frame (cn_out c) in (c\<lparr>cn_out := u\<rparr>, sent)))"

fun error_parts :: "error \<Rightarrow> string option \<times> string" where
  "error_parts (Thrown m) = (None, m)"
| "error_parts (TypeErr m) = (None, m)"
| "error_parts (Coded k m) = (Some k, m)"
| "error_parts (UniqueViolation t) = (Some ''ERR_SQLITE_ERROR'', ''UNIQUE constraint failed: '' @ t)"
| "error_parts (ForeignKeyViolation t) = (Some ''ERR_SQLITE_ERROR'', ''FOREIGN KEY constraint failed'')"
| "error_parts (CheckViolation t) = (Some ''ERR_SQLITE_ERROR'', ''CHECK constraint failed: '' @ t)"

definition close_for_error :: "conn_config \<Rightarrow> error \<Rightarrow> conn \<Rightarrow> conn" where
  "close_for_error g e c =
     (if cn_closing c \<or> cn_cleaned c then c
      else (let (c', sent) = conn_write g (protocol_error_frame (fst (error_parts e)) (snd (error_parts e))) c
            in (if sent then c' else c'\<lparr>cn_out := destroy (cn_out c')\<rparr>)\<lparr>cn_closing := True\<rparr>))"

definition answer :: "conn_config \<Rightarrow> string \<Rightarrow> string \<Rightarrow> js result \<Rightarrow> conn \<Rightarrow> conn" where
  "answer g rid ty r c =
     (if cn_closing c then c
      else fst (conn_write g (case r of
          Inr v \<Rightarrow> response (JStr rid) (JStr ty) v
        | Inl e \<Rightarrow> error_response (JStr rid) (JStr ty) (snd (error_parts e)) (fst (error_parts e))) c))"

section \<open>What a request may do\<close>

definition require_actor :: "string \<Rightarrow> int \<Rightarrow> error option" where
  "require_actor sid gen = (if sid = [] \<or> gen = 0 then Some (Thrown ''actor connection is not registered'') else None)"

definition current_actor :: "world \<Rightarrow> string \<Rightarrow> int \<Rightarrow> bool" where
  "current_actor w sid gen \<longleftrightarrow> (case w_actors w sid of Some a \<Rightarrow> ac_generation a = gen | None \<Rightarrow> False)"

definition running_actor :: "world \<Rightarrow> string \<Rightarrow> int \<Rightarrow> bool" where
  "running_actor w sid gen \<longleftrightarrow> (case w_actors w sid of Some a \<Rightarrow> ac_generation a = gen \<and> ac_running a | None \<Rightarrow> False)"

definition guarded :: "error option \<Rightarrow> 'a result \<Rightarrow> 'a result" where
  "guarded e r = (case e of Some x \<Rightarrow> Inl x | None \<Rightarrow> r)"

definition dialog_operation :: "world \<Rightarrow> conn \<Rightarrow> js \<Rightarrow> continuation option result" where
  "dialog_operation w c params = (let sid = text_of (jget ''sessionId'' params); rid = text_of (jget ''uiRequestId'' params) in
     if sid \<notin> set (cn_subscriptions c) then Inl (Coded ''stale_ui_request'' ''client is not subscribed to the pending action request'')
     else (case find (\<lambda>d. dg_session d = sid \<and> dg_request d = rid) (w_dialogs w) of
         Some d \<Rightarrow>
           if dg_expires d \<le> w_now w \<or> \<not> running_actor w sid (dg_generation d)
           then Inl (Coded ''stale_ui_request'' ''the action request is no longer pending on this actor generation'')
           else Inr (Some (DialogOwner (dg_serial d)))
       | None \<Rightarrow> Inl (Coded ''stale_ui_request'' ''the action request is no longer pending on this actor generation'')))"

definition input_operation :: "world \<Rightarrow> string \<Rightarrow> int \<Rightarrow> string \<Rightarrow> js \<Rightarrow> continuation option result" where
  "input_operation w sid gen ty params =
     guarded (require_actor sid gen)
      (guarded (if ty \<noteq> ''record_input_delivery'' then assert_session_available (w_store w) sid else None)
       (if \<not> current_actor w sid gen then Inl (Thrown ''actor generation is stale'')
        else (let iid = text_of (jget ''inputId'' params) in
          case get_actor_input (w_store w) iid sid of
            None \<Rightarrow> if ty \<noteq> ''get_actor_input'' then Inl (Thrown ''input is not reserved for this actor'') else Inr None
          | Some (r, pending) \<Rightarrow>
              if ty = ''accept_actor_input'' \<and> r_source r \<notin> {Some SrcCron, Some SrcBackground}
              then Inl (Thrown ''custom input requires a verified internal source'')
              else Inr (if pending = None then None else Some (InputOwner sid gen (r_id r) ty)))))"

definition request_operation :: "world \<Rightarrow> conn \<Rightarrow> string \<Rightarrow> js \<Rightarrow> continuation option result" where
  "request_operation w c ty params = (case cn_role c of
      Some (ClientRole _) \<Rightarrow> if ty = ''respond_extension_ui'' then dialog_operation w c params else Inr None
    | Some (ActorRole sid gen) \<Rightarrow>
        if ty = ''flush_actor_inputs'' then
          guarded (require_actor sid gen)
            (if \<not> current_actor w sid gen then Inl (Thrown ''actor generation is stale'') else Inr (Some (QueueOwner sid gen)))
        else if ty \<in> {''get_actor_input'', ''accept_actor_input'', ''record_input_delivery''} then input_operation w sid gen ty params
        else if ty = ''ack_message'' then
          guarded (require_actor sid gen)
            (case message (w_store w) (text_of (jget ''messageId'' params)) of
               Some m \<Rightarrow> Inr (if m_target m = sid \<and> m_state m = MDelivered then Some (MessageOwner (m_id m)) else None)
             | None \<Rightarrow> Inr None)
        else Inr None
    | None \<Rightarrow> Inr None)"

text \<open>The requests whose operation \<open>#requestOperation\<close> runs itself, past the dispatch.\<close>

definition continuation_request :: "conn \<Rightarrow> string \<Rightarrow> bool" where
  "continuation_request c ty \<longleftrightarrow> (case cn_role c of
      Some (ClientRole _) \<Rightarrow> ty = ''respond_extension_ui''
    | Some (ActorRole _ _) \<Rightarrow> ty \<in> {''flush_actor_inputs'', ''get_actor_input'', ''accept_actor_input'', ''record_input_delivery'', ''ack_message''}
    | None \<Rightarrow> False)"

definition open_requests :: "string list" where
  "open_requests = [''get_liveness'', ''get_status'', ''get_usage'', ''shutdown_daemon'']"

definition actor_requests :: "string list" where
  "actor_requests = [''create_root'', ''set_default_inference'', ''set_session_name'', ''record_actor_turn_failure'', ''update_activity'',
     ''update_progress_heading'', ''record_progress_entry'', ''record_agent_message_entry'', ''record_child_creation_entry'', ''set_skill_manifest'',
     ''record_usage'', ''record_context_usage'', ''request_attention'', ''resolve_attention'', ''get_roster'', ''run_reminders'', ''session_history'',
     ''cron_job'', ''send_message'', ''spawn_child'', ''list_children'', ''stop_child'', ''revive_child'', ''delete_child'']"

definition client_requests :: "string list" where
  "client_requests = [''list_notifications'', ''get_notification'', ''read_notification'', ''dismiss_notification'', ''claim_notification_delivery'',
     ''record_notification_delivery'', ''create_root'', ''list_sessions'', ''get_skill_runtime_plan'', ''provision_skill_runtime'', ''subscribe_root_output'',
     ''unsubscribe_root_output'', ''rename_session'', ''subscribe_session'', ''unsubscribe_session'', ''get_session_inference'', ''set_session_inference'',
     ''set_session_fast_mode'', ''submit_input'', ''get_memory_diagnostics'', ''get_actor_state'', ''get_actor_entries'', ''get_visible_messages'',
     ''get_visible_image'', ''compact_session'', ''restart_kernel'', ''abort_session'', ''stop_session'', ''revive_session'', ''delete_session'']"

definition attention_error :: "world \<Rightarrow> string \<Rightarrow> int \<Rightarrow> string \<Rightarrow> error option" where
  "attention_error w sid gen ty = (case assert_session_available (w_store w) sid of
      Some e \<Rightarrow> Some e
    | None \<Rightarrow> (case session (w_store w) sid of
        None \<Rightarrow> Some (TypeErr ''Cannot read properties of undefined (reading 'kind')'')
      | Some r \<Rightarrow>
          if s_kind r \<noteq> Root \<or> s_depth r \<noteq> 0 \<or> \<not> running_actor w sid gen
          then Some (Coded ''attention_forbidden'' ''human attention requests require the current root actor; children must route through their parent'')
          else if ty = ''request_attention'' \<and> \<not> w_notifies w sid
          then Some (Coded ''attention_forbidden'' ''only Home notifies the user; message Home if the user is needed'')
          else None))"

definition actor_error :: "world \<Rightarrow> string \<Rightarrow> int \<Rightarrow> string \<Rightarrow> js \<Rightarrow> error option" where
  "actor_error w sid gen ty params = (case require_actor sid gen of
      Some e \<Rightarrow> Some e
    | None \<Rightarrow>
        if ty = ''create_root'' \<and> w_home w \<noteq> Some sid then Some (Coded ''create_root_forbidden'' ''only Home can start a new root session'')
        else if ty = ''set_default_inference'' \<and> w_home w \<noteq> Some sid
        then Some (Coded ''default_inference_forbidden'' ''only Home can change the default model'')
        else if ty \<in> {''spawn_child'', ''send_message'', ''revive_child''} then assert_session_available (w_store w) sid
        else if ty \<in> {''request_attention'', ''resolve_attention''} then attention_error w sid gen ty
        else if ty = ''cron_job'' \<and> jget ''action'' params = JStr ''report'' \<and> \<not> running_actor w sid gen
        then Some (Coded ''cron_forbidden'' ''cron disposition requires the current actor'')
        else if ty \<in> set actor_requests then None
        else Some (Thrown (''request '' @ ty @ '' is not available to actors'')))"

definition client_error :: "string \<Rightarrow> error option" where
  "client_error ty = (if ty \<in> set client_requests then None else Some (Thrown (''request '' @ ty @ '' is not available to clients'')))"

text \<open>A registration is checked against the token and the generation that the store holds for the session.\<close>

definition registration :: "js \<Rightarrow> actor_params" where
  "registration params = \<lparr>ap_id = text_of (jget ''sessionId'' params), ap_generation = (case js_int (jget ''actorGeneration'' params) of Some n \<Rightarrow> n | None \<Rightarrow> 0),
     ap_token = text_of (jget ''actorToken'' params),
     ap_file = Some (text_of (jget ''sessionFile'' params)), ap_cwd = Some (text_of (jget ''cwd'' params)),
     ap_repository = (case jget ''repositoryRoot'' params of JStr r \<Rightarrow> Some r | _ \<Rightarrow> None)\<rparr>"

definition registration_error :: "world \<Rightarrow> conn \<Rightarrow> string \<Rightarrow> js \<Rightarrow> error option" where
  "registration_error w c ty params =
     (if cn_role c \<noteq> None then Some (Thrown ''connection is already registered'')
      else if ty = ''register_actor''
      then (case register_actor (registration params) (w_now w) (w_store w) of Inl e \<Rightarrow> Some e | Inr _ \<Rightarrow> None)
      else None)"

definition dispatch_error :: "world \<Rightarrow> conn \<Rightarrow> string \<Rightarrow> js \<Rightarrow> error option" where
  "dispatch_error w c ty params =
     (if ty \<in> set open_requests then None
      else if ty \<in> {''register_actor'', ''register_client''} then registration_error w c ty params
      else if ty = ''heartbeat'' then (if cn_role c = None then Some (Thrown ''connection is not registered'') else None)
      else (case cn_role c of
          Some (ActorRole sid gen) \<Rightarrow> actor_error w sid gen ty params
        | Some (ClientRole _) \<Rightarrow> client_error ty
        | None \<Rightarrow> Some (Thrown ''connection must register as actor or client first'')))"

text \<open>A registration that passes gives the connection its role.\<close>

definition with_role :: "string \<Rightarrow> js \<Rightarrow> conn \<Rightarrow> conn" where
  "with_role ty params c =
     (if ty = ''register_actor'' then c\<lparr>cn_role := Some (ActorRole (ap_id (registration params)) (ap_generation (registration params)))\<rparr>
      else if ty = ''register_client'' then c\<lparr>cn_role := Some (ClientRole (text_of (jget ''clientInstanceId'' params)))\<rparr>
      else c)"

section \<open>Admission and completion\<close>

text \<open>The \<open>finally\<close> block: the request leaves the connection's books once, and its id is remembered for a while.\<close>

definition remember :: "string \<Rightarrow> string list \<Rightarrow> string list" where
  "remember rid ids = (let l = (if rid \<in> set ids then ids else ids @ [rid]) in drop (length l - recent_cache) l)"

definition finish_request :: "unfinished \<Rightarrow> conn \<Rightarrow> conn" where
  "finish_request n c = (let
      c1 = (if un_id n \<in> set (cn_in_flight c)
            then c\<lparr>cn_in_flight := filter (\<lambda>i. i \<noteq> un_id n) (cn_in_flight c),
                   cn_work := cn_work c - (if un_work n then 1 else 0), cn_bytes := cn_bytes c - (if un_work n then un_bytes n else 0),
                   cn_owners := (case un_owner n of Some k \<Rightarrow> filter (\<lambda>x. x \<noteq> k) (cn_owners c) | None \<Rightarrow> cn_owners c)\<rparr>
            else c)
    in if \<not> cn_closing c1 \<and> \<not> cn_cleaned c1 then c1\<lparr>cn_recent := remember (un_id n) (cn_recent c1)\<rparr> else c1)"

definition settle_request :: "conn_config \<Rightarrow> unfinished \<Rightarrow> js result \<Rightarrow> conn \<Rightarrow> conn" where
  "settle_request g n r c = finish_request n (answer g (un_id n) (un_type n) r c)"

text \<open>
  What becomes of a frame: it is dropped, it breaks the protocol, it is refused, or it takes a slot: the one of its
  pending owner, or one of the bounded ones.
\<close>

datatype verdict = Dropped | Fault error | Refused string string error | Admitted unfinished js

definition slot_for :: "conn_config \<Rightarrow> js \<Rightarrow> string \<Rightarrow> string \<Rightarrow> continuation option \<Rightarrow> conn \<Rightarrow> unfinished result" where
  "slot_for g raw rid ty owner c = (case owner of
      Some k \<Rightarrow>
        if k \<in> set (cn_owners c) then Inl (Coded ''continuation_in_progress'' ''this pending work already has an unfinished continuation'')
        else Inr \<lparr>un_id = rid, un_type = ty, un_work = False, un_bytes = 0, un_owner = Some k, un_outcome = None\<rparr>
    | None \<Rightarrow> (let n = int (length (cc_text g raw)) in
        if max_in_flight \<le> cn_work c \<or> 2 * int (cc_max_frame g) < cn_bytes c + n
        then Inl (Coded ''request_backpressure'' ''connection has too much unfinished request work'')
        else Inr \<lparr>un_id = rid, un_type = ty, un_work = True, un_bytes = n, un_owner = None, un_outcome = None\<rparr>))"

definition decide_frame :: "conn_config \<Rightarrow> world \<Rightarrow> js \<Rightarrow> conn \<Rightarrow> verdict" where
  "decide_frame g w raw c =
     (if cn_closing c \<or> cn_cleaned c \<or> sk_destroyed (ou_socket (cn_out c)) then Dropped
      else (case validate_request (cc_time g) (cc_shown g) raw of
          Inl e \<Rightarrow> Fault e
        | Inr req \<Rightarrow> (let rid = text_of (jget ''id'' req); ty = text_of (jget ''type'' req); params = jget ''params'' req in
            if rid \<in> set (cn_in_flight c) \<or> rid \<in> set (cn_recent c)
            then Fault (Coded ''duplicate_request_id'' (''request id '' @ rid @ '' was already used recently on this connection''))
            else (case request_operation w c ty params of
                Inl e \<Rightarrow> Refused rid ty e
              | Inr owner \<Rightarrow> (case slot_for g raw rid ty owner c of Inl e \<Rightarrow> Refused rid ty e | Inr n \<Rightarrow> Admitted n params)))))"

definition take_slot :: "unfinished \<Rightarrow> conn \<Rightarrow> conn" where
  "take_slot n c = c\<lparr>cn_in_flight := cn_in_flight c @ [un_id n],
     cn_work := cn_work c + (if un_work n then 1 else 0), cn_bytes := cn_bytes c + (if un_work n then un_bytes n else 0),
     cn_owners := (case un_owner n of Some k \<Rightarrow> cn_owners c @ [k] | None \<Rightarrow> cn_owners c)\<rparr>"

definition refused :: "string \<Rightarrow> string \<Rightarrow> unfinished" where
  "refused rid ty = \<lparr>un_id = rid, un_type = ty, un_work = False, un_bytes = 0, un_owner = None, un_outcome = None\<rparr>"

text \<open>
  Three continuations answer at once; the other operations are async functions, whose promise is awaited even when
  it has settled. The guards of the dispatch run in the synchronous part.
\<close>

definition synchronous :: "conn \<Rightarrow> string \<Rightarrow> bool" where
  "synchronous c ty \<longleftrightarrow> continuation_request c ty \<and> ty \<in> {''respond_extension_ui'', ''get_actor_input'', ''accept_actor_input''}"

definition wait_for :: "unfinished \<Rightarrow> js result option \<Rightarrow> conn \<Rightarrow> conn" where
  "wait_for n outcome c = c\<lparr>cn_unfinished := cn_unfinished c @ [n\<lparr>un_outcome := outcome\<rparr>]\<rparr>"

definition run_operation :: "conn_config \<Rightarrow> world \<Rightarrow> unfinished \<Rightarrow> js \<Rightarrow> js result option \<Rightarrow> conn \<Rightarrow> conn" where
  "run_operation g w n params result c =
     (if synchronous c (un_type n) then settle_request g n (case result of Some r \<Rightarrow> r | None \<Rightarrow> Inr Undef) c
      else if continuation_request c (un_type n) then wait_for n result c
      else (case dispatch_error w c (un_type n) params of
          Some e \<Rightarrow> wait_for n (Some (Inl e)) c
        | None \<Rightarrow> wait_for n result (with_role (un_type n) params c)))"

definition handle_frame :: "conn_config \<Rightarrow> world \<Rightarrow> js \<Rightarrow> js result option \<Rightarrow> conn \<Rightarrow> conn" where
  "handle_frame g w raw result c = (case decide_frame g w raw c of
      Dropped \<Rightarrow> c
    | Fault e \<Rightarrow> close_for_error g e c
    | Refused rid ty e \<Rightarrow> settle_request g (refused rid ty) (Inl e) (take_slot (refused rid ty) c)
    | Admitted n params \<Rightarrow> run_operation g w n params result (take_slot n c))"

definition settle_promise :: "conn_config \<Rightarrow> string \<Rightarrow> js result \<Rightarrow> conn \<Rightarrow> conn" where
  "settle_promise g rid r c = (case find (\<lambda>n. un_id n = rid) (cn_unfinished c) of
      Some n \<Rightarrow> settle_request g n (case un_outcome n of Some x \<Rightarrow> x | None \<Rightarrow> r)
        (c\<lparr>cn_unfinished := filter (\<lambda>x. un_id x \<noteq> rid) (cn_unfinished c)\<rparr>)
    | None \<Rightarrow> c)"

definition cleanup_connection :: "conn \<Rightarrow> conn" where
  "cleanup_connection c = (if cn_cleaned c then c
     else c\<lparr>cn_cleaned := True, cn_closing := True, cn_in_flight := [], cn_recent := [], cn_work := 0, cn_bytes := 0, cn_owners := [],
       cn_out := drop_output (cn_out c)\<rparr>)"

datatype conn_event = Frame world js "js result option" | Settled string "js result" | Emit js | Subscriptions "string list"
  | SocketEvent out_event | SocketClosed

definition conn_step :: "conn_config \<Rightarrow> conn_event \<Rightarrow> conn \<Rightarrow> conn" where
  "conn_step g e c = (case e of
      Frame w raw result \<Rightarrow> handle_frame g w raw result c
    | Settled rid r \<Rightarrow> settle_promise g rid r c
    | Emit frame \<Rightarrow> fst (conn_write g frame c)
    | Subscriptions sids \<Rightarrow> c\<lparr>cn_subscriptions := sids\<rparr>
    | SocketEvent (WriteFrame _) \<Rightarrow> c
    | SocketEvent Drained \<Rightarrow> if cn_cleaned c then c
        else c\<lparr>cn_out := out_step (cc_text g) (cc_hwm g) (cc_max_frame g) Drained (cn_out c)\<rparr>
    | SocketEvent x \<Rightarrow> c\<lparr>cn_out := out_step (cc_text g) (cc_hwm g) (cc_max_frame g) x (cn_out c)\<rparr>
    | SocketClosed \<Rightarrow> cleanup_connection c)"

definition conn_run :: "conn_config \<Rightarrow> conn_event list \<Rightarrow> conn" where
  "conn_run g es = fold (conn_step g) es fresh_conn"

section \<open>The books of a connection\<close>

definition work_of :: "unfinished list \<Rightarrow> unfinished list" where
  "work_of ns = filter un_work ns"

definition owners_of :: "unfinished list \<Rightarrow> continuation list" where
  "owners_of ns = List.map_filter un_owner ns"

definition books_of :: "conn_config \<Rightarrow> unfinished list \<Rightarrow> conn \<Rightarrow> bool" where
  "books_of g ns c \<longleftrightarrow> distinct (map un_id ns) \<and> cn_in_flight c = map un_id ns
     \<and> cn_work c = int (length (work_of ns)) \<and> cn_bytes c = sum_list (map un_bytes (work_of ns)) \<and> cn_owners c = owners_of ns
     \<and> cn_work c \<le> max_in_flight \<and> cn_bytes c \<le> 2 * int (cc_max_frame g) \<and> distinct (cn_owners c)
     \<and> (\<forall>n \<in> set ns. 0 \<le> un_bytes n)
     \<and> distinct (cn_recent c) \<and> length (cn_recent c) \<le> recent_cache \<and> set (cn_recent c) \<inter> set (cn_in_flight c) = {}"

definition books_kept :: "conn_config \<Rightarrow> conn \<Rightarrow> bool" where
  "books_kept g c \<longleftrightarrow> distinct (map un_id (cn_unfinished c)) \<and> books_of g (if cn_cleaned c then [] else cn_unfinished c) c"

lemma books_of_update [simp]:
  "books_of g ns (c\<lparr>cn_out := u\<rparr>) = books_of g ns c"
  "books_of g ns (c\<lparr>cn_closing := b\<rparr>) = books_of g ns c"
  "books_of g ns (c\<lparr>cn_role := r\<rparr>) = books_of g ns c"
  "books_of g ns (c\<lparr>cn_subscriptions := l\<rparr>) = books_of g ns c"
  "books_of g ns (c\<lparr>cn_unfinished := us\<rparr>) = books_of g ns c"
  by (simp_all add: books_of_def)

lemma conn_write_out: "fst (conn_write g frame c) = c\<lparr>cn_out := cn_out (fst (conn_write g frame c))\<rparr>"
  by (cases c) (auto simp: conn_write_def split: prod.split)

lemma answer_out: "answer g rid ty r c = c\<lparr>cn_out := cn_out (answer g rid ty r c)\<rparr>"
proof (cases "cn_closing c")
  case False
  show ?thesis unfolding answer_def if_not_P [OF False] by (rule conn_write_out)
qed (cases c, simp add: answer_def)

lemma close_out: "\<exists>u. close_for_error g e c = (if cn_closing c \<or> cn_cleaned c then c else c\<lparr>cn_out := u, cn_closing := True\<rparr>)"
proof -
  obtain c' sent where w: "conn_write g (protocol_error_frame (fst (error_parts e)) (snd (error_parts e))) c = (c', sent)" by fastforce
  then obtain u where c': "c' = c\<lparr>cn_out := u\<rparr>"
    using conn_write_out [of g "protocol_error_frame (fst (error_parts e)) (snd (error_parts e))" c] by simp
  have "close_for_error g e c = (if cn_closing c \<or> cn_cleaned c then c else c\<lparr>cn_out := (if sent then u else destroy u), cn_closing := True\<rparr>)"
    by (simp add: close_for_error_def w c')
  then show ?thesis by blast
qed

lemma remove_split:
  assumes "distinct (map un_id ns)" "n \<in> set ns"
  obtains as bs where "ns = as @ n # bs" "filter (\<lambda>x. un_id x \<noteq> un_id n) ns = as @ bs"
    "filter (\<lambda>i. i \<noteq> un_id n) (map un_id ns) = map un_id (as @ bs)"
proof -
  obtain as bs where ns: "ns = as @ n # bs" using assms(2) by (meson split_list)
  then have out: "un_id n \<notin> set (map un_id as)" "un_id n \<notin> set (map un_id bs)" using assms(1) by auto
  have keep: "filter (\<lambda>x. un_id x \<noteq> un_id n) l = l" "filter (\<lambda>i. i \<noteq> un_id n) (map un_id l) = map un_id l"
    if "un_id n \<notin> set (map un_id l)" for l
    using that by (force simp: filter_id_conv)+
  show ?thesis by (rule that [of as bs]) (use ns keep [OF out(1)] keep [OF out(2)] in simp_all)
qed

lemma work_of_append [simp]: "work_of (as @ bs) = work_of as @ work_of bs" "work_of [] = []"
    "work_of (n # bs) = (if un_work n then n # work_of bs else work_of bs)"
  by (simp_all add: work_of_def)

lemma owners_of_append [simp]: "owners_of (as @ bs) = owners_of as @ owners_of bs" "owners_of [] = []"
    "owners_of (n # bs) = (case un_owner n of Some k \<Rightarrow> k # owners_of bs | None \<Rightarrow> owners_of bs)"
  by (simp_all add: owners_of_def map_filter_def split: option.split)

lemma remember_facts:
  assumes "distinct ids" "length ids \<le> recent_cache"
  shows "distinct (remember rid ids)" "length (remember rid ids) \<le> recent_cache" "set (remember rid ids) \<subseteq> insert rid (set ids)"
  using assms set_drop_subset [of "length (ids @ [rid]) - recent_cache" "ids @ [rid]"]
  by (auto simp: remember_def Let_def dest: in_set_dropD)

lemma remove_key: "distinct (xs @ k # ys) \<Longrightarrow> filter (\<lambda>x. x \<noteq> k) (xs @ k # ys) = xs @ ys"
proof -
  assume d: "distinct (xs @ k # ys)"
  have "filter (\<lambda>x. x \<noteq> k) xs = xs" "filter (\<lambda>x. x \<noteq> k) ys = ys" using d by (auto intro!: filter_True)
  then show ?thesis by simp
qed

lemma books_recent: "books_of g ns c \<Longrightarrow> distinct l \<Longrightarrow> length l \<le> recent_cache \<Longrightarrow> set l \<inter> set (cn_in_flight c) = {} \<Longrightarrow> books_of g ns (c\<lparr>cn_recent := l\<rparr>)"
  by (auto simp: books_of_def)

lemma finish_books:
  assumes b: "books_of g ns c" and n: "n \<in> set ns"
  shows "books_of g (filter (\<lambda>x. un_id x \<noteq> un_id n) ns) (finish_request n c)"
proof -
  obtain as bs where ns: "ns = as @ n # bs" and f: "filter (\<lambda>x. un_id x \<noteq> un_id n) ns = as @ bs"
      and ids: "filter (\<lambda>i. i \<noteq> un_id n) (map un_id ns) = map un_id (as @ bs)"
    by (rule remove_split [of ns n]) (use b n in \<open>auto simp: books_of_def\<close>)
  have fl: "cn_in_flight c = map un_id ns" "un_id n \<in> set (cn_in_flight c)" using b n by (auto simp: books_of_def)
  let ?c = "c\<lparr>cn_in_flight := filter (\<lambda>i. i \<noteq> un_id n) (cn_in_flight c),
      cn_work := cn_work c - (if un_work n then 1 else 0), cn_bytes := cn_bytes c - (if un_work n then un_bytes n else 0),
      cn_owners := (case un_owner n of Some k \<Rightarrow> filter (\<lambda>x. x \<noteq> k) (cn_owners c) | None \<Rightarrow> cn_owners c)\<rparr>"
  have owners: "(case un_owner n of Some k \<Rightarrow> filter (\<lambda>x. x \<noteq> k) (cn_owners c) | None \<Rightarrow> cn_owners c) = owners_of (as @ bs)"
  proof (cases "un_owner n")
    case (Some k)
    then have k: "cn_owners c = owners_of as @ k # owners_of bs" using b by (simp add: books_of_def ns)
    moreover have "distinct (cn_owners c)" using b unfolding books_of_def by blast
    ultimately have "cn_owners c = owners_of as @ k # owners_of bs" "distinct (owners_of as @ k # owners_of bs)" by simp_all
    then show ?thesis using remove_key [of "owners_of as" k "owners_of bs"] Some by simp
  qed (use b in \<open>simp add: books_of_def ns\<close>)
  have nonneg: "0 \<le> un_bytes n" using b n by (auto simp: books_of_def)
  have one: "books_of g (as @ bs) ?c"
    unfolding books_of_def using b nonneg
    by (simp add: owners fl(1) ids, simp add: books_of_def ns) (auto split: option.splits if_splits)
  have fresh: "un_id n \<notin> set (map un_id (as @ bs))" using b by (auto simp: books_of_def ns)
  have two: "books_of g (as @ bs) (?c\<lparr>cn_recent := remember (un_id n) (cn_recent ?c)\<rparr>)"
  proof -
    have r: "distinct (cn_recent c)" "length (cn_recent c) \<le> recent_cache" using b unfolding books_of_def by blast+
    have "set (cn_recent ?c) \<inter> set (cn_in_flight ?c) = {}" "cn_in_flight ?c = map un_id (as @ bs)" using one unfolding books_of_def by blast+
    then have "set (cn_recent c) \<inter> set (map un_id (as @ bs)) = {}" by (simp only: conn.simps simp_thms) simp
    then have "set (remember (un_id n) (cn_recent c)) \<inter> set (map un_id (as @ bs)) = {}"
      using remember_facts(3) [OF r, of "un_id n"] fresh by blast
    then have "set (remember (un_id n) (cn_recent c)) \<inter> set (cn_in_flight ?c) = {}" using \<open>cn_in_flight ?c = map un_id (as @ bs)\<close> by simp
    then show ?thesis using books_recent [OF one] remember_facts(1,2) [OF r, of "un_id n"] by simp
  qed
  show ?thesis unfolding f finish_request_def Let_def using one two fl(2) by simp
qed

lemma take_books:
  assumes b: "books_of g ns c" and new: "un_id n \<notin> set (cn_in_flight c)" "un_id n \<notin> set (cn_recent c)"
    and room: "case un_owner n of Some k \<Rightarrow> k \<notin> set (cn_owners c) | None \<Rightarrow> True"
      "un_work n \<Longrightarrow> cn_work c < max_in_flight \<and> cn_bytes c + un_bytes n \<le> 2 * int (cc_max_frame g)" "0 \<le> un_bytes n"
  shows "books_of g (ns @ [n]) (take_slot n c)"
  using assms unfolding books_of_def take_slot_def by (auto split: option.splits)

lemma request_bytes: "cc_max_frame g = mx \<Longrightarrow> slot_for g raw rid ty owner c = Inr n \<Longrightarrow>
    un_id n = rid \<and> un_type n = ty \<and> un_outcome n = None \<and> 0 \<le> un_bytes n
    \<and> (case un_owner n of Some k \<Rightarrow> k \<notin> set (cn_owners c) | None \<Rightarrow> True)
    \<and> (un_work n \<longrightarrow> cn_work c < max_in_flight \<and> cn_bytes c + un_bytes n \<le> 2 * int mx)"
  by (auto simp: slot_for_def Let_def not_le not_less split: option.splits if_splits)

lemma decided:
  assumes "decide_frame g w raw c = Admitted n params"
  shows "\<not> cn_closing c \<and> \<not> cn_cleaned c \<and> un_id n \<notin> set (cn_in_flight c) \<and> un_id n \<notin> set (cn_recent c)
    \<and> (\<exists>owner. request_operation w c (un_type n) params = Inr owner \<and> slot_for g raw (un_id n) (un_type n) owner c = Inr n)"
proof -
  have type_kept: "slot_for g raw rid ty owner c = Inr n \<Longrightarrow> un_id n = rid \<and> un_type n = ty" for rid ty owner
    using request_bytes by blast
  show ?thesis using assms type_kept
    by (auto simp: decide_frame_def Let_def split: if_splits sum.splits)
qed

lemma decided_refused:
  "decide_frame g w raw c = Refused rid ty e \<Longrightarrow> \<not> cn_closing c \<and> \<not> cn_cleaned c \<and> rid \<notin> set (cn_in_flight c) \<and> rid \<notin> set (cn_recent c)"
  by (auto simp: decide_frame_def Let_def split: if_splits sum.splits)

lemma books_same_outcome: "books_of g (ns @ [n\<lparr>un_outcome := r\<rparr>]) c = books_of g (ns @ [n]) c"
  by (simp add: books_of_def)

lemma finish_unfinished [simp]: "cn_unfinished (finish_request n c) = cn_unfinished c" "cn_cleaned (finish_request n c) = cn_cleaned c"
  by (simp_all add: finish_request_def Let_def)

lemma answer_fields [simp]: "cn_unfinished (answer g rid ty r c) = cn_unfinished c" "cn_cleaned (answer g rid ty r c) = cn_cleaned c"
    "books_of g' ns (answer g rid ty r c) = books_of g' ns c"
  by (subst answer_out, simp)+

lemma take_slot_fields [simp]: "cn_unfinished (take_slot n c) = cn_unfinished c" "cn_cleaned (take_slot n c) = cn_cleaned c"
    "cn_role (take_slot n c) = cn_role c"
  by (simp_all add: take_slot_def)

lemma with_role_fields [simp]: "cn_unfinished (with_role ty params c) = cn_unfinished c" "cn_cleaned (with_role ty params c) = cn_cleaned c"
    "books_of g ns (with_role ty params c) = books_of g ns c"
  by (simp_all add: with_role_def)

text \<open>A request that was just taken up settles at once, or waits.\<close>

lemma settle_new:
  assumes "books_of g (ns @ [n]) c" "distinct (map un_id (ns @ [n]))" "cn_unfinished c = ns" "\<not> cn_cleaned c"
  shows "books_kept g (settle_request g n r c)"
proof -
  have "filter (\<lambda>x. un_id x \<noteq> un_id n) ns = ns" using assms(2) by (auto simp: filter_id_conv image_iff)
  then have "filter (\<lambda>x. un_id x \<noteq> un_id n) (ns @ [n]) = ns" by simp
  then have "books_of g ns (settle_request g n r c)"
    using finish_books [of g "ns @ [n]" "answer g (un_id n) (un_type n) r c" n] assms(1) by (simp add: settle_request_def)
  then show ?thesis using assms by (simp add: books_kept_def settle_request_def)
qed

lemma wait_new:
  assumes "books_of g (ns @ [n]) c" "distinct (map un_id (ns @ [n]))" "cn_unfinished c = ns" "\<not> cn_cleaned c"
  shows "books_kept g (wait_for n r c)"
  using assms books_same_outcome [where g = g and ns = ns and n = n] by (simp add: books_kept_def wait_for_def)

lemma frame_books:
  assumes b: "books_kept g c"
  shows "books_kept g (handle_frame g w raw result c)"
proof (cases "decide_frame g w raw c")
  case (Fault e)
  then show ?thesis using b close_out [of g e c] by (auto simp: handle_frame_def books_kept_def)
next
  case (Refused rid ty e)
  note d = decided_refused [OF this]
  let ?n = "refused rid ty"
  have o: "books_of g (cn_unfinished c) c" using b d by (simp add: books_kept_def)
  then have t: "books_of g (cn_unfinished c @ [?n]) (take_slot ?n c)"
    by (rule take_books) (use d in \<open>simp_all add: refused_def\<close>)
  then have "distinct (map un_id (cn_unfinished c @ [?n]))" unfolding books_of_def by blast
  with settle_new [OF t this] d show ?thesis by (simp add: Refused handle_frame_def)
next
  case (Admitted n params)
  note d = decided [OF this]
  obtain owner where slot: "slot_for g raw (un_id n) (un_type n) owner c = Inr n" using d by blast
  have o: "books_of g (cn_unfinished c) c" using b d by (simp add: books_kept_def)
  then have t: "books_of g (cn_unfinished c @ [n]) (take_slot n c)"
    by (rule take_books) (use d request_bytes [OF refl slot] in simp_all)
  then have di: "distinct (map un_id (cn_unfinished c @ [n]))" unfolding books_of_def by blast
  show ?thesis
    using settle_new [OF t di] wait_new [OF t di] wait_new [of g "cn_unfinished c" n "with_role (un_type n) params (take_slot n c)"] t di d
    by (simp add: Admitted handle_frame_def run_operation_def split: option.split)
qed (use b in \<open>simp add: handle_frame_def\<close>)

lemma cleaned_finish: "cn_cleaned c \<Longrightarrow> cn_in_flight c = [] \<Longrightarrow> finish_request n c = c"
  by (simp add: finish_request_def Let_def)

lemma settle_books:
  assumes b: "books_kept g c"
  shows "books_kept g (settle_promise g rid r c)"
proof (cases "find (\<lambda>n. un_id n = rid) (cn_unfinished c)")
  case (Some n)
  then have n: "n \<in> set (cn_unfinished c)" "un_id n = rid" by (auto simp: find_Some_iff)
  let ?c = "c\<lparr>cn_unfinished := filter (\<lambda>x. un_id x \<noteq> rid) (cn_unfinished c)\<rparr>"
  have d: "distinct (map un_id (filter (\<lambda>x. un_id x \<noteq> rid) (cn_unfinished c)))"
    using b by (simp add: books_kept_def distinct_map_filter)
  have o: "books_of g (if cn_cleaned c then [] else cn_unfinished c) ?c" using b by (simp add: books_kept_def)
  show ?thesis
  proof (cases "cn_cleaned c")
    case True
    then have "books_of g [] (answer g (un_id n) (un_type n) x ?c)" for x using o by simp
    then have "cn_in_flight (answer g (un_id n) (un_type n) x ?c) = []" for x by (simp add: books_of_def)
    then show ?thesis using True o d by (simp add: Some settle_promise_def settle_request_def cleaned_finish books_kept_def)
  next
    case False
    then have "books_of g (filter (\<lambda>x. un_id x \<noteq> rid) (cn_unfinished c)) (settle_request g n x ?c)" for x
      using finish_books [of g "cn_unfinished c" "answer g (un_id n) (un_type n) x ?c" n] o n by (simp add: settle_request_def)
    then show ?thesis using False d by (simp add: Some settle_promise_def books_kept_def settle_request_def)
  qed
qed (use b in \<open>simp add: settle_promise_def\<close>)

lemma cleanup_books: "books_kept g c \<Longrightarrow> books_kept g (cleanup_connection c)"
  by (auto simp: cleanup_connection_def books_kept_def books_of_def max_in_flight_def)

lemma out_books [simp]: "books_kept g (c\<lparr>cn_out := u\<rparr>) = books_kept g c"
  by (cases "cn_cleaned c") (simp_all add: books_kept_def)

lemma subscriptions_books [simp]: "books_kept g (c\<lparr>cn_subscriptions := l\<rparr>) = books_kept g c"
  by (cases "cn_cleaned c") (simp_all add: books_kept_def)

lemma step_books: "books_kept g c \<Longrightarrow> books_kept g (conn_step g e c)"
proof (cases e)
  case (Emit frame)
  assume "books_kept g c"
  then show ?thesis unfolding Emit conn_step_def conn_event.case by (subst conn_write_out) simp
qed (auto simp: conn_step_def frame_books settle_books cleanup_books split: out_event.split)

lemma fresh_books: "books_kept g fresh_conn"
  by (simp add: books_kept_def books_of_def fresh_conn_def max_in_flight_def)

lemma run_books: "books_kept g (conn_run g es)"
proof -
  have "books_kept g c \<Longrightarrow> books_kept g (fold (conn_step g) es c)" for c by (induction es arbitrary: c) (simp_all add: step_books)
  then show ?thesis using fresh_books by (simp add: conn_run_def)
qed


end
