(* ===== verification/Authority.thy ===== *)
theory Authority
  imports Connections
begin

text \<open>
  What a connection may ask for. A connection has a role from a successful registration on, and keeps it; an actor's
  role is the session and generation whose secret token it presented. Every operation that runs for a frame is one of
  the role, and the operations that are reserved for Home, for the root's current actor, for a verified internal input
  or for an open dialog run only there.
\<close>

section \<open>Operations that run\<close>

definition served :: "conn_config \<Rightarrow> world \<Rightarrow> js \<Rightarrow> conn \<Rightarrow> (string \<times> js) option" where
  "served g w raw c = (case decide_frame g w raw c of
      Admitted n params \<Rightarrow>
        if continuation_request c (un_type n) \<or> dispatch_error w c (un_type n) params = None then Some (un_type n, params) else None
    | _ \<Rightarrow> None)"

text \<open>The frame that registers an actor with the token that the store holds for its session and generation.\<close>

definition presents_token :: "conn_config \<Rightarrow> string \<Rightarrow> int \<Rightarrow> conn_event \<Rightarrow> bool" where
  "presents_token g sid gen e = (case e of
      Frame w raw _ \<Rightarrow> (case validate_request (cc_time g) (cc_shown g) raw of
          Inr req \<Rightarrow> jget ''type'' req = JStr ''register_actor'' \<and> (let p = registration (jget ''params'' req) in
            ap_id p = sid \<and> ap_generation p = gen \<and> assert_session_available (w_store w) sid = None
            \<and> (case session (w_store w) sid of Some r \<Rightarrow> s_actor_token r = ap_token p \<and> s_generation r = gen | None \<Rightarrow> False))
        | Inl _ \<Rightarrow> False)
    | _ \<Rightarrow> False)"

definition role_kept :: "conn \<Rightarrow> conn \<Rightarrow> bool" where
  "role_kept c c' \<longleftrightarrow> cn_role c = None \<or> cn_role c' = cn_role c"

lemma role_kept_refl [simp]: "role_kept c c"
  by (simp add: role_kept_def)

lemma role_kept_trans: "role_kept a b \<Longrightarrow> role_kept b c \<Longrightarrow> role_kept a c"
  by (auto simp: role_kept_def)

lemma write_role [simp]: "cn_role (fst (conn_write g frame c)) = cn_role c"
  by (subst conn_write_out) simp

lemma answer_role [simp]: "cn_role (answer g rid ty r c) = cn_role c"
  by (subst answer_out) simp

lemma close_role [simp]: "cn_role (close_for_error g e c) = cn_role c"
  using close_out [of g e c] by (auto split: if_splits)

lemma settle_role [simp]: "cn_role (settle_request g n r c) = cn_role c"
  by (simp add: settle_request_def finish_request_def Let_def)

lemma promise_role [simp]: "cn_role (settle_promise g rid r c) = cn_role c"
  by (simp add: settle_promise_def split: option.split)

lemma wait_role [simp]: "cn_role (wait_for n r c) = cn_role c"
  by (simp add: wait_for_def)

lemma cleanup_role [simp]: "cn_role (cleanup_connection c) = cn_role c"
  by (simp add: cleanup_connection_def)

lemma with_role_cases: "ty \<notin> {''register_actor'', ''register_client''} \<Longrightarrow> with_role ty params c = c"
  by (simp add: with_role_def)

lemma registration_once: "ty \<in> {''register_actor'', ''register_client''} \<Longrightarrow> dispatch_error w c ty params = None \<Longrightarrow> cn_role c = None"
  by (auto simp: dispatch_error_def registration_error_def open_requests_def split: if_splits)

lemma first_role: "dispatch_error w c ty params = None \<Longrightarrow> cn_role c = None \<or> with_role ty params c = c"
proof (cases "ty \<in> {''register_actor'', ''register_client''}")
  case True
  then show "dispatch_error w c ty params = None \<Longrightarrow> ?thesis" using registration_once by blast
next
  case False
  then show ?thesis using with_role_cases by blast
qed

lemma with_role_slot: "cn_role (with_role ty params (take_slot n c)) = cn_role (with_role ty params c)"
  unfolding with_role_def by simp

text \<open>One frame changes the role only by a registration that is not refused.\<close>

lemma frame_role:
  "cn_role (handle_frame g w raw result c) = (case decide_frame g w raw c of
      Admitted n params \<Rightarrow> if continuation_request c (un_type n) \<or> dispatch_error w c (un_type n) params \<noteq> None then cn_role c
        else cn_role (with_role (un_type n) params c)
    | _ \<Rightarrow> cn_role c)"
proof (cases "decide_frame g w raw c")
  case (Admitted n params)
  have "continuation_request (take_slot n c) ty = continuation_request c ty" "dispatch_error w (take_slot n c) ty params = dispatch_error w c ty params" for ty
    by (simp_all add: continuation_request_def dispatch_error_def registration_error_def)
  moreover have "synchronous c ty \<Longrightarrow> continuation_request c ty" "synchronous (take_slot n c) ty = synchronous c ty" for ty
    by (simp_all add: synchronous_def continuation_request_def)
  ultimately show ?thesis
    by (cases "continuation_request c (un_type n)"; cases "dispatch_error w c (un_type n) params")
      (auto simp: Admitted handle_frame_def run_operation_def with_role_slot)
qed (simp_all add: handle_frame_def)

lemma step_role_kept: "role_kept c (conn_step g e c)"
proof (cases e)
  case (Frame w raw result)
  show ?thesis unfolding Frame conn_step_def conn_event.case role_kept_def frame_role
    by (auto dest: first_role split: verdict.split)
next
  case (SocketEvent x)
  then show ?thesis by (auto simp: conn_step_def role_kept_def split: out_event.split)
qed (auto simp: conn_step_def role_kept_def)

lemma fold_role_kept: "role_kept c (fold (conn_step g) es c)"
  by (induction es arbitrary: c) (auto intro: role_kept_trans step_role_kept)

text \<open>The role of an actor was registered with its token.\<close>

lemma registered_with_token:
  assumes "decide_frame g w raw c = Admitted n params" "un_type n = ''register_actor''" "dispatch_error w c (un_type n) params = None"
  shows "presents_token g (ap_id (registration params)) (ap_generation (registration params)) (Frame w raw result)"
proof -
  obtain req where req: "validate_request (cc_time g) (cc_shown g) raw = Inr req" "params = jget ''params'' req"
      and ty: "text_of (jget ''type'' req) = un_type n"
    using assms(1) request_bytes [OF refl]
    by (force simp: decide_frame_def Let_def split: if_splits sum.splits)
  have str: "jget ''type'' req = JStr ''register_actor''"
    using ty assms(2) by (cases "jget ''type'' req") (auto simp: text_of_def)
  have "registration_error w c (un_type n) params = None" using assms(2,3) by (simp add: dispatch_error_def open_requests_def)
  then obtain x where "register_actor (registration params) (w_now w) (w_store w) = Inr x"
    using assms(2) by (auto simp: registration_error_def split: if_splits sum.splits)
  then show ?thesis
    by (auto simp: presents_token_def req str register_actor_def Let_def split: option.splits if_splits)
qed

lemma step_role_token:
  assumes "cn_role (conn_step g e c) = Some (ActorRole sid gen)" "cn_role c \<noteq> Some (ActorRole sid gen)"
  shows "presents_token g sid gen e"
proof (cases e)
  case (Frame w raw result)
  then have r: "cn_role (handle_frame g w raw result c) = Some (ActorRole sid gen)" using assms(1) by (simp add: conn_step_def)
  then obtain n params where d: "decide_frame g w raw c = Admitted n params" and ok: "dispatch_error w c (un_type n) params = None"
      and role: "cn_role (with_role (un_type n) params c) = Some (ActorRole sid gen)"
    using assms(2) unfolding frame_role by (auto split: verdict.splits if_splits)
  then have "un_type n = ''register_actor'' \<and> sid = ap_id (registration params) \<and> gen = ap_generation (registration params)"
    using assms(2) by (auto simp: with_role_def split: if_splits)
  then show ?thesis using registered_with_token [OF d _ ok] Frame by simp
next
  case (SocketEvent x)
  then show ?thesis using assms by (auto simp: conn_step_def split: out_event.splits if_splits)
qed (use assms in \<open>auto simp: conn_step_def\<close>)

lemma run_role_token: "cn_role (conn_run g es) = Some (ActorRole sid gen) \<Longrightarrow> list_ex (presents_token g sid gen) es"
proof (induction es rule: rev_induct)
  case (snoc e es)
  then show ?case
    using step_role_token [of g e "conn_run g es" sid gen] by (cases "cn_role (conn_run g es) = Some (ActorRole sid gen)") (auto simp: conn_run_def)
qed (simp add: conn_run_def fresh_conn_def)

section \<open>Authority\<close>

text \<open>What each role may run, and where.\<close>

definition dialog_open :: "world \<Rightarrow> conn \<Rightarrow> js \<Rightarrow> bool" where
  "dialog_open w c params \<longleftrightarrow> text_of (jget ''sessionId'' params) \<in> set (cn_subscriptions c)
     \<and> list_ex (\<lambda>d. dg_session d = text_of (jget ''sessionId'' params) \<and> dg_request d = text_of (jget ''uiRequestId'' params)
          \<and> w_now w < dg_expires d \<and> running_actor w (dg_session d) (dg_generation d)) (w_dialogs w)"

definition internal_input :: "world \<Rightarrow> string \<Rightarrow> js \<Rightarrow> bool" where
  "internal_input w sid params \<longleftrightarrow> (case get_actor_input (w_store w) (text_of (jget ''inputId'' params)) sid of
      Some (r, _) \<Rightarrow> r_source r \<in> {Some SrcCron, Some SrcBackground} | None \<Rightarrow> False)"

definition root_actor :: "world \<Rightarrow> string \<Rightarrow> int \<Rightarrow> bool" where
  "root_actor w sid gen \<longleftrightarrow> running_actor w sid gen \<and> (case session (w_store w) sid of Some r \<Rightarrow> s_kind r = Root \<and> s_depth r = 0 | None \<Rightarrow> False)"

definition actor_may :: "world \<Rightarrow> string \<Rightarrow> int \<Rightarrow> string \<Rightarrow> js \<Rightarrow> bool" where
  "actor_may w sid gen ty params \<longleftrightarrow>
     (if ty \<in> {''create_root'', ''set_default_inference''} then w_home w = Some sid
      else if ty \<in> {''flush_actor_inputs'', ''get_actor_input'', ''record_input_delivery''} then current_actor w sid gen
      else if ty = ''accept_actor_input'' then current_actor w sid gen \<and> internal_input w sid params
      else if ty = ''request_attention'' then root_actor w sid gen \<and> w_notifies w sid
      else if ty = ''resolve_attention'' then root_actor w sid gen
      else if ty \<in> {''spawn_child'', ''send_message'', ''revive_child''} then assert_session_available (w_store w) sid = None
      else if ty = ''cron_job'' then jget ''action'' params \<noteq> JStr ''report'' \<or> running_actor w sid gen
      else ty \<in> set (actor_requests @ open_requests @ [''heartbeat'', ''ack_message'']))"

definition client_may :: "world \<Rightarrow> conn \<Rightarrow> string \<Rightarrow> js \<Rightarrow> bool" where
  "client_may w c ty params \<longleftrightarrow>
     (if ty = ''respond_extension_ui'' then dialog_open w c params else ty \<in> set (client_requests @ open_requests @ [''heartbeat'']))"

lemma guarded_Inr [simp]: "guarded e r = Inr x \<longleftrightarrow> e = None \<and> r = Inr x"
  by (simp add: guarded_def split: option.split)

lemma dialog_allowed: "dialog_operation w c params = Inr k \<Longrightarrow> dialog_open w c params"
  by (auto simp: dialog_operation_def dialog_open_def Let_def list_ex_iff find_Some_iff not_le split: if_splits option.splits)

lemma input_allowed:
  assumes "input_operation w sid gen ty params = Inr k"
  shows "current_actor w sid gen \<and> (ty = ''accept_actor_input'' \<longrightarrow> internal_input w sid params)"
  using assms by (auto simp: input_operation_def internal_input_def Let_def split: if_splits option.splits prod.splits)

lemma attention_allowed: "attention_error w sid gen ty = None \<Longrightarrow> root_actor w sid gen \<and> (ty = ''request_attention'' \<longrightarrow> w_notifies w sid)"
  by (auto simp: attention_error_def root_actor_def split: option.splits if_splits)

lemma open_to_actors: "list_all (\<lambda>ty. actor_may w sid gen ty params) (open_requests @ [''heartbeat''])"
  by (simp add: open_requests_def actor_may_def)

lemma actor_allowed:
  assumes "dispatch_error w c ty params = None" "cn_role c = Some (ActorRole sid gen)" "\<not> continuation_request c ty"
  shows "actor_may w sid gen ty params"
proof (cases "ty \<in> set open_requests \<or> ty = ''heartbeat''")
  case True
  then show ?thesis using open_to_actors [of w sid gen params] by (auto simp: list_all_iff)
next
  case False
  then have e: "actor_error w sid gen ty params = None"
    using assms by (auto simp: dispatch_error_def registration_error_def split: if_splits)
  have req: "require_actor sid gen = None" using e by (auto simp: actor_error_def split: option.splits)
  have c: "ty \<notin> {''flush_actor_inputs'', ''get_actor_input'', ''accept_actor_input'', ''record_input_delivery'', ''ack_message''}"
    using assms(2,3) by (simp add: continuation_request_def)
  consider (home) "ty \<in> {''create_root'', ''set_default_inference''}" | (live) "ty \<in> {''spawn_child'', ''send_message'', ''revive_child''}"
    | (attention) "ty \<in> {''request_attention'', ''resolve_attention''}" | (job) "ty = ''cron_job''"
    | (other) "ty \<notin> {''create_root'', ''set_default_inference''}" "ty \<notin> {''spawn_child'', ''send_message'', ''revive_child''}"
        "ty \<notin> {''request_attention'', ''resolve_attention''}" "ty \<noteq> ''cron_job''"
    by argo
  then show ?thesis
  proof cases
    case home
    then show ?thesis using e req by (auto simp: actor_error_def actor_may_def split: if_splits)
  next
    case live
    then show ?thesis using e req by (elim insertE emptyE; simp add: actor_error_def actor_may_def)
  next
    case attention
    then have "attention_error w sid gen ty = None" using e req by (auto simp: actor_error_def)
    then show ?thesis using attention attention_allowed [of w sid gen ty] by (auto simp: actor_may_def)
  next
    case job
    then show ?thesis using e req by (simp add: actor_error_def actor_may_def split: if_splits)
  next
    case other
    then have "ty \<in> set actor_requests" using e req by (simp add: actor_error_def split: if_splits)
    then show ?thesis using other c by (simp add: actor_may_def)
  qed
qed

lemma client_allowed:
  assumes "dispatch_error w c ty params = None" "cn_role c = Some (ClientRole k)" "\<not> continuation_request c ty"
  shows "client_may w c ty params"
  using assms by (auto simp: dispatch_error_def registration_error_def client_error_def client_may_def continuation_request_def split: if_splits)

lemma stranger_allowed:
  assumes "dispatch_error w c ty params = None" "cn_role c = None"
  shows "ty \<in> set open_requests \<union> {''register_actor'', ''register_client''}"
  using assms by (auto simp: dispatch_error_def split: if_splits)

lemma continuation_allowed:
  assumes "request_operation w c ty params = Inr k" "continuation_request c ty"
  shows "case cn_role c of None \<Rightarrow> False | Some (ClientRole _) \<Rightarrow> client_may w c ty params
    | Some (ActorRole sid gen) \<Rightarrow> actor_may w sid gen ty params"
proof (cases "cn_role c")
  case None
  then show ?thesis using assms(2) by (simp add: continuation_request_def)
next
  case (Some r)
  show ?thesis
  proof (cases r)
    case (ActorRole sid gen)
    then have "ty \<in> {''flush_actor_inputs'', ''get_actor_input'', ''accept_actor_input'', ''record_input_delivery'', ''ack_message''}"
      using assms(2) Some unfolding continuation_request_def by (simp only: option.case role.case)
    then have "ty = ''flush_actor_inputs'' \<or> ty \<in> {''get_actor_input'', ''accept_actor_input'', ''record_input_delivery''} \<or> ty = ''ack_message''"
      by (simp only: insert_iff empty_iff) argo
    then consider (flush) "ty = ''flush_actor_inputs''" | (input) "ty \<in> {''get_actor_input'', ''accept_actor_input'', ''record_input_delivery''}"
      | (ack) "ty = ''ack_message''" by argo
    then have "actor_may w sid gen ty params"
    proof cases
      case flush
      then show ?thesis using assms(1) Some ActorRole by (simp add: request_operation_def actor_may_def split: if_splits)
    next
      case input
      then have "input_operation w sid gen ty params = Inr k" using assms(1) Some ActorRole by (auto simp: request_operation_def)
      from input_allowed [OF this] show ?thesis using input by (auto simp: actor_may_def)
    qed (simp add: actor_may_def)
    then show ?thesis by (simp add: Some ActorRole)
  next
    case (ClientRole k)
    then show ?thesis using assms Some dialog_allowed by (auto simp: continuation_request_def request_operation_def client_may_def)
  qed
qed

text \<open>
  C37: An operation runs for a frame only if the role of its connection may run it in the state of that moment; an actor's
  role stems from a registration with the secret token and the generation that the store held for that session, and
  no later event changes the role of a connection.
\<close>

theorem request_authority:
  assumes "served g w raw (conn_run g es) = Some (ty, params)"
  shows "(case cn_role (conn_run g es) of
      None \<Rightarrow> ty \<in> set open_requests \<union> {''register_actor'', ''register_client''}
    | Some (ClientRole _) \<Rightarrow> client_may w (conn_run g es) ty params
    | Some (ActorRole sid gen) \<Rightarrow> actor_may w sid gen ty params \<and> list_ex (presents_token g sid gen) es)
    \<and> (cn_role (conn_run g es) \<noteq> None \<longrightarrow> cn_role (conn_run g (es @ later)) = cn_role (conn_run g es))"
proof -
  let ?c = "conn_run g es"
  obtain n where d: "decide_frame g w raw ?c = Admitted n params" and ty: "un_type n = ty"
      and ok: "continuation_request ?c ty \<or> dispatch_error w ?c ty params = None"
    using assms by (auto simp: served_def split: verdict.splits if_splits)
  obtain k where k: "request_operation w ?c ty params = Inr k" using decided [OF d] ty by blast
  have kept: "cn_role ?c \<noteq> None \<longrightarrow> cn_role (conn_run g (es @ later)) = cn_role ?c"
    using fold_role_kept [of ?c g later] by (auto simp: role_kept_def conn_run_def)
  have may: "case cn_role ?c of None \<Rightarrow> ty \<in> set open_requests \<union> {''register_actor'', ''register_client''}
      | Some (ClientRole _) \<Rightarrow> client_may w ?c ty params | Some (ActorRole sid gen) \<Rightarrow> actor_may w sid gen ty params"
  proof (cases "continuation_request ?c ty")
    case True
    show ?thesis using continuation_allowed [OF k True] by (auto split: option.splits role.splits)
  next
    case False
    then have e: "dispatch_error w ?c ty params = None" using ok by blast
    show ?thesis
      using stranger_allowed [OF e] actor_allowed [OF e _ False] client_allowed [OF e _ False] by (auto split: option.split role.split)
  qed
  then show ?thesis using kept run_role_token by (auto split: option.splits role.splits)
qed

section \<open>An example\<close>

text \<open>Home registers with its token and asks for its children.\<close>

definition home_row :: session_row where
  "home_row = \<lparr>s_id = ''h'', s_short_id = ''h'', s_session_file = None, s_cwd = ''/'', s_repository_root = None, s_display_name = ''Home'',
     s_kind = Root, s_family_id = ''h'', s_parent = None, s_depth = 0, s_activity = Idle, s_streaming = False, s_lifecycle = Starting,
     s_actor_token = ''secret'', s_generation = 1, s_pid = None, s_identity = None, s_launch = None, s_scratch = None, s_quiet_since = None,
     s_last_error = None, s_created_at = 0, s_updated_at = 0, s_last_activity_at = None, s_started_at = None, s_stopped_at = None, s_deleted_at = None\<rparr>"

definition home_world :: world where
  "home_world = \<lparr>w_store = empty_store\<lparr>sessions := [home_row]\<rparr>, w_actors = (\<lambda>_. None), w_dialogs = [], w_now = 0, w_home = Some ''h'', w_notifies = (\<lambda>_. False)\<rparr>"

definition plain_config :: conn_config where
  "plain_config = \<lparr>cc_text = (\<lambda>_. []), cc_time = (\<lambda>_. None), cc_shown = (\<lambda>_. []), cc_hwm = 100, cc_max_frame = 1000\<rparr>"

definition request_frame :: "string \<Rightarrow> string \<Rightarrow> (string \<times> js) list \<Rightarrow> js" where
  "request_frame rid ty ps = JObj [(''version'', jint protocol_version), (''id'', JStr rid), (''type'', JStr ty), (''params'', JObj ps)]"

definition home_registration :: js where
  "home_registration = request_frame ''a'' ''register_actor'' [(''sessionId'', JStr ''h''), (''sessionFile'', JStr ''f''), (''cwd'', JStr ''/''),
   (''repositoryRoot'', Null), (''actorToken'', JStr ''secret''), (''actorGeneration'', jint 1)]"

lemma request_authority_witness:
  "served plain_config home_world (request_frame ''b'' ''list_children'' []) (conn_run plain_config [Frame home_world home_registration None])
     = Some (''list_children'', JObj [])
   \<and> cn_role (conn_run plain_config [Frame home_world home_registration None]) = Some (ActorRole ''h'' 1)
   \<and> list_ex (presents_token plain_config ''h'' 1) [Frame home_world home_registration None]"
proof -
  have s: "served plain_config home_world (request_frame ''b'' ''list_children'' []) (conn_run plain_config [Frame home_world home_registration None])
      = Some (''list_children'', JObj [])" by code_simp
  have r: "cn_role (conn_run plain_config [Frame home_world home_registration None]) = Some (ActorRole ''h'' 1)" by code_simp
  show ?thesis using request_authority [OF s] s r by simp
qed

end
