(* ===== verification/LiveConversation.thy ===== *)
theory LiveConversation
  imports ConversationBirth
begin

text \<open>
  The live rows of an actor's conversation (src/live-conversation.mjs): streamed text is collected per message id within a
  budget of bytes that all rows share, under the identity that \<open>ConversationOrder\<close> published first. The bytes that
  the object counts are exactly those of its rows, and never more than the budget.
\<close>

section \<open>State\<close>

record live_row =
  lr_created :: string
  lr_sequence :: "int option"
  lr_status :: string
  lr_chunks :: "string list"
  lr_bytes :: int
  lr_truncated :: bool
  lr_fields :: "js option"

text \<open>The rows are a map in insertion order.\<close>

record live_conversation =
  lc_rows :: "(string \<times> live_row) list"
  lc_order :: order
  lc_bytes :: int
  lc_truncated :: bool

definition fresh_live :: live_conversation where
  "fresh_live = \<lparr>lc_rows = [], lc_order = [], lc_bytes = 0, lc_truncated = False\<rparr>"

definition max_snapshot_bytes :: int where
  "max_snapshot_bytes = 256 * 1024"

definition max_live_rows :: nat where
  "max_live_rows = 512"

definition live_row_of :: "live_conversation \<Rightarrow> string \<Rightarrow> live_row option" where
  "live_row_of s k = map_of (lc_rows s) k"

definition live_put :: "string \<Rightarrow> live_row \<Rightarrow> live_conversation \<Rightarrow> live_conversation" where
  "live_put k r s = s\<lparr>lc_rows := map (\<lambda>p. if fst p = k then (k, r) else p) (lc_rows s)\<rparr>"

definition live_delete :: "string \<Rightarrow> live_row \<Rightarrow> live_conversation \<Rightarrow> live_conversation" where
  "live_delete k r s = s\<lparr>lc_rows := filter (\<lambda>p. fst p \<noteq> k) (lc_rows s), lc_bytes := lc_bytes s - lr_bytes r\<rparr>"

section \<open>Text within the budget\<close>

text \<open>The text that the first \<open>n\<close> bytes decode to: none when they end inside a character.\<close>

definition decode_prefix :: "string \<Rightarrow> nat \<Rightarrow> string option" where
  "decode_prefix s n = map_option (\<lambda>k. take k s) (find (\<lambda>k. utf8_len (take k s) = n) [0..<Suc (length s)])"

fun cut_text :: "string \<Rightarrow> nat \<Rightarrow> string \<times> nat" where
  "cut_text s 0 = ([], 0)"
| "cut_text s (Suc n) = (case decode_prefix s (Suc n) of Some t \<Rightarrow> (t, Suc n) | None \<Rightarrow> cut_text s n)"

definition live_append :: "string \<Rightarrow> string option \<Rightarrow> live_conversation \<Rightarrow> live_conversation" where
  "live_append k text s = (case (text, live_row_of s k) of
      (Some t, Some r) \<Rightarrow>
        if t = [] \<or> lr_truncated r then s
        else (let available = max_snapshot_bytes - lc_bytes s in
          if int (utf8_len t) \<le> available
          then (live_put k (r\<lparr>lr_chunks := lr_chunks r @ [t], lr_bytes := lr_bytes r + int (utf8_len t)\<rparr>) s)\<lparr>lc_bytes := lc_bytes s + int (utf8_len t)\<rparr>
          else (let (p, n) = cut_text t (nat (max 0 available)) in
            (live_put k (r\<lparr>lr_chunks := lr_chunks r @ [p], lr_bytes := lr_bytes r + int n, lr_truncated := True\<rparr>) s)\<lparr>lc_bytes := lc_bytes s + int n\<rparr>))
    | _ \<Rightarrow> s)"

definition live_replace :: "string \<Rightarrow> string option \<Rightarrow> live_conversation \<Rightarrow> live_conversation" where
  "live_replace k text s = (case live_row_of s k of
      Some r \<Rightarrow> live_append k text ((live_put k (r\<lparr>lr_chunks := [], lr_bytes := 0, lr_truncated := False\<rparr>) s)\<lparr>lc_bytes := lc_bytes s - lr_bytes r\<rparr>)
    | None \<Rightarrow> s)"

text \<open>The row of an id, created when it is new, under its current identity.\<close>

definition live_touch :: "string \<Rightarrow> string \<Rightarrow> int option \<Rightarrow> live_conversation \<Rightarrow> live_conversation" where
  "live_touch k created sequence s = (case live_row_of s k of
      Some r \<Rightarrow> live_put k (r\<lparr>lr_created := created, lr_sequence := sequence\<rparr>) s
    | None \<Rightarrow> s\<lparr>lc_rows := lc_rows s @ [(k, \<lparr>lr_created = created, lr_sequence = sequence, lr_status = ''streaming'', lr_chunks = [],
        lr_bytes = 0, lr_truncated = False, lr_fields = None\<rparr>)]\<rparr>)"

definition live_status :: "string \<Rightarrow> string \<Rightarrow> live_conversation \<Rightarrow> live_conversation" where
  "live_status k status s = (case live_row_of s k of Some r \<Rightarrow> live_put k (r\<lparr>lr_status := status\<rparr>) s | None \<Rightarrow> s)"

text \<open>The rows from the oldest on: complete ones give way first, streaming ones only to the limit on rows.\<close>

fun trim_rows :: "(string \<times> live_row) list \<Rightarrow> live_conversation \<Rightarrow> live_conversation" where
  "trim_rows [] s = s"
| "trim_rows ((k, r) # rest) s =
     (if lc_bytes s \<le> max_snapshot_bytes \<and> length (lc_rows s) \<le> max_live_rows then s
      else if lr_status r \<noteq> ''complete'' \<and> length (lc_rows s) \<le> max_live_rows then trim_rows rest s
      else trim_rows rest (live_delete k r (if lr_status r \<noteq> ''complete'' then s\<lparr>lc_truncated := True\<rparr> else s)))"

definition live_trim :: "live_conversation \<Rightarrow> live_conversation" where
  "live_trim s = trim_rows (lc_rows s) s"

section \<open>Operations\<close>

datatype text_kind = TextStart | TextDelta | TextEnd

datatype text_part = TextPart "unit incoming" "string option" | OtherPart

datatype live_event =
    ProgressEvent "unit incoming"
  | AgentStarted
  | AgentSettled
  | TextUpdate text_kind "unit incoming" "string option" "string option" bool  \<comment> \<open>delta, text, truncated\<close>
  | AssistantEnd "text_part list" bool
  | OtherEvent

type_synonym identity = "string \<times> string \<times> int option"

definition not_blank :: "string option \<Rightarrow> bool" where
  "not_blank t \<longleftrightarrow> (case t of Some x \<Rightarrow> js_trim x \<noteq> [] | None \<Rightarrow> False)"

definition keep_identity :: "unit incoming \<Rightarrow> bool \<Rightarrow> live_conversation \<Rightarrow> live_conversation \<times> identity" where
  "keep_identity x visible s = (let (rows, created, sequence, u) = order_keep x visible (lc_order s)
     in (s\<lparr>lc_order := rows\<rparr>, in_id x, created, sequence))"

definition touch_identity :: "identity \<Rightarrow> live_conversation \<Rightarrow> live_conversation" where
  "touch_identity i s = (case i of (k, created, sequence) \<Rightarrow> live_touch k created sequence s)"

fun accept_parts :: "(string \<Rightarrow> int option) \<Rightarrow> bool \<Rightarrow> text_part list \<Rightarrow> live_conversation \<Rightarrow> live_conversation \<times> identity option list" where
  "accept_parts parse truncated [] s = (s, [])"
| "accept_parts parse truncated (OtherPart # ps) s = (let (s', is) = accept_parts parse truncated ps s in (s', None # is))"
| "accept_parts parse truncated (TextPart x text # ps) s =
     (if parse (in_created x) = None then (let (s', is) = accept_parts parse truncated ps s in (s', None # is))
      else (let (s1, i) = keep_identity x (not_blank text) s;
                s2 = touch_identity i s1;
                s3 = (if truncated then s2 else live_replace (in_id x) text s2);
                (s', is) = accept_parts parse truncated ps (live_status (in_id x) ''complete'' s3)
            in (s', Some i # is)))"

definition accept_event :: "(string \<Rightarrow> int option) \<Rightarrow> live_event \<Rightarrow> live_conversation \<Rightarrow> live_conversation \<times> identity option list" where
  "accept_event parse e s = (case e of
      ProgressEvent x \<Rightarrow> (let (s', i) = keep_identity x True s in (s', [Some i]))
    | AgentStarted \<Rightarrow> (s\<lparr>lc_truncated := False\<rparr>, [])
    | TextUpdate kind x delta text truncated \<Rightarrow>
        if parse (in_created x) = None then (s, [None])
        else (let (s1, i) = keep_identity x (kind \<noteq> TextStart \<and> not_blank (if delta \<noteq> None then delta else text)) s;
                  s2 = touch_identity i s1;
                  s3 = (case kind of
                      TextStart \<Rightarrow> s2
                    | TextDelta \<Rightarrow> live_append (in_id x) delta s2
                    | TextEnd \<Rightarrow> live_status (in_id x) ''complete''
                        (if text \<noteq> None \<and> \<not> truncated then live_replace (in_id x) text s2 else s2))
              in (live_trim s3, [Some i]))
    | AssistantEnd parts truncated \<Rightarrow> (let (s', is) = accept_parts parse truncated parts s in (live_trim s', is))
    | AgentSettled \<Rightarrow> (s\<lparr>lc_rows := map (\<lambda>(k, r). (k, r\<lparr>lr_status := ''complete''\<rparr>)) (lc_rows s)\<rparr>, [])
    | OtherEvent \<Rightarrow> (s, []))"

definition live_remove :: "string \<Rightarrow> live_conversation \<Rightarrow> live_conversation" where
  "live_remove k s = (case live_row_of s k of Some r \<Rightarrow> live_delete k r s | None \<Rightarrow> s)"

text \<open>A message with its role, status and other fields; only assistant and progress rows have a kept order.\<close>

definition live_upsert :: "unit incoming \<Rightarrow> string \<Rightarrow> string \<Rightarrow> js \<Rightarrow> string option \<Rightarrow> live_conversation \<Rightarrow> live_conversation" where
  "live_upsert x role status others text s = (let
      (s1, i) = (if role \<in> {''assistant'', ''progress''} then keep_identity x (not_blank text) s
        else (s, in_id x, in_created x, (case js_safe_int (in_timeline x) of Some n \<Rightarrow> Some n | None \<Rightarrow> None)));
      s2 = touch_identity i s1;
      s3 = (case live_row_of s2 (in_id x) of Some r \<Rightarrow> live_put (in_id x) (r\<lparr>lr_fields := Some others, lr_status := status\<rparr>) s2 | None \<Rightarrow> s2)
    in live_trim (live_replace (in_id x) text s3))"

definition live_reconcile :: "string list \<Rightarrow> live_conversation \<Rightarrow> live_conversation" where
  "live_reconcile ids s = fold (\<lambda>(k, r) s. if lr_status r = ''complete'' \<and> k \<in> set ids then live_delete k r s else s) (lc_rows s) s"

text \<open>What a client sees: rows with text, or that lost some; a truncated text is shown with an ellipsis.\<close>

definition snapshot :: "live_conversation \<Rightarrow> (string \<times> string \<times> string \<times> bool) list" where
  "snapshot s = map (\<lambda>(k, r). (k, concat (lr_chunks r), lr_status r, lr_truncated r))
     (filter (\<lambda>(k, r). lr_bytes r \<noteq> 0 \<or> lr_truncated r) (lc_rows s))"

definition shows_truncated :: "live_conversation \<Rightarrow> bool" where
  "shows_truncated s \<longleftrightarrow> lc_truncated s \<or> list_ex (\<lambda>(k, r). lr_truncated r) (lc_rows s)"

section \<open>The account of bytes\<close>

definition row_bytes :: "(string \<times> live_row) list \<Rightarrow> int" where
  "row_bytes rows = sum_list (map (\<lambda>p. lr_bytes (snd p)) rows)"

definition row_ok :: "live_row \<Rightarrow> bool" where
  "row_ok r \<longleftrightarrow> lr_bytes r = int (utf8_len (concat (lr_chunks r)))"

definition account :: "live_conversation \<Rightarrow> bool" where
  "account s \<longleftrightarrow> distinct (map fst (lc_rows s)) \<and> list_all (\<lambda>p. row_ok (snd p)) (lc_rows s)
     \<and> lc_bytes s = row_bytes (lc_rows s) \<and> lc_bytes s \<le> max_snapshot_bytes"

lemma utf8_append: "utf8_len (a @ b) = utf8_len a + utf8_len b"
  by (simp add: utf8_len_def)

lemma cut_text_exact: "utf8_len (fst (cut_text s n)) = snd (cut_text s n) \<and> snd (cut_text s n) \<le> n"
proof (induction n)
  case (Suc n)
  show ?case
  proof (cases "decode_prefix s (Suc n)")
    case (Some t)
    then have "utf8_len t = Suc n" by (auto simp: decode_prefix_def find_Some_iff)
    then show ?thesis by (simp add: Some)
  qed (use Suc in auto)
qed (simp add: utf8_len_def)

lemma row_bytes_nonneg: "list_all (\<lambda>p. row_ok (snd p)) rows \<Longrightarrow> 0 \<le> row_bytes rows"
  by (auto simp: row_bytes_def list_all_iff row_ok_def intro!: sum_list_nonneg)

text \<open>One row is replaced.\<close>

lemma put_row:
  assumes "distinct (map fst rows)" "map_of rows k = Some r"
  shows "row_bytes (map (\<lambda>p. if fst p = k then (k, r') else p) rows) = row_bytes rows - lr_bytes r + lr_bytes r'"
proof -
  obtain as bs where rows: "rows = as @ (k, r) # bs" using map_of_SomeD [OF assms(2)] by (meson split_list)
  then have "k \<notin> fst ` set as" "k \<notin> fst ` set bs" using assms(1) by auto
  then have "map (\<lambda>p. if fst p = k then (k, r') else p) as = as" "map (\<lambda>p. if fst p = k then (k, r') else p) bs = bs"
    by (force intro!: map_idI)+
  then show ?thesis by (simp add: rows row_bytes_def)
qed

lemma delete_row:
  assumes "distinct (map fst rows)" "map_of rows k = Some r"
  shows "row_bytes (filter (\<lambda>p. fst p \<noteq> k) rows) = row_bytes rows - lr_bytes r"
proof -
  obtain as bs where rows: "rows = as @ (k, r) # bs" using map_of_SomeD [OF assms(2)] by (meson split_list)
  then have "k \<notin> fst ` set as" "k \<notin> fst ` set bs" using assms(1) by auto
  then have "filter (\<lambda>p. fst p \<noteq> k) as = as" "filter (\<lambda>p. fst p \<noteq> k) bs = bs" by (auto intro!: filter_True)
  then show ?thesis by (simp add: rows row_bytes_def)
qed

lemma put_keys: "map fst (map (\<lambda>p. if fst p = k then (k, r) else p) rows) = map fst rows"
  by (induction rows) auto

lemma account_put:
  assumes a: "account s" and r: "live_row_of s k = Some r" and ok: "row_ok r'"
    and n: "n = lc_bytes s - lr_bytes r + lr_bytes r'" "n \<le> max_snapshot_bytes"
  shows "account ((live_put k r' s)\<lparr>lc_bytes := n\<rparr>)"
proof -
  have "row_bytes (map (\<lambda>p. if fst p = k then (k, r') else p) (lc_rows s)) = n"
    using put_row [of "lc_rows s" k r r'] a r n by (simp add: account_def live_row_of_def)
  moreover have "list_all (\<lambda>p. row_ok (snd p)) (map (\<lambda>p. if fst p = k then (k, r') else p) (lc_rows s))"
    using a ok by (auto simp: account_def list_all_iff)
  ultimately show ?thesis using a n(2) unfolding account_def live_put_def by (simp del: map_map add: put_keys)
qed

lemma account_same_bytes:
  assumes "account s" "live_row_of s k = Some r" "lr_bytes r' = lr_bytes r" "lr_chunks r' = lr_chunks r"
  shows "account (live_put k r' s)"
proof -
  have "row_ok r" using assms(1,2) map_of_SomeD by (fastforce simp: account_def list_all_iff live_row_of_def)
  then have "account ((live_put k r' s)\<lparr>lc_bytes := lc_bytes s\<rparr>)"
    by (intro account_put [OF assms(1,2)]) (use assms in \<open>auto simp: row_ok_def account_def\<close>)
  moreover have "(live_put k r' s)\<lparr>lc_bytes := lc_bytes s\<rparr> = live_put k r' s" by (simp add: live_put_def)
  ultimately show ?thesis by simp
qed

lemma account_delete:
  assumes a: "account s" and rows: "lc_rows s = as @ (k, r) # bs"
  shows "account (live_delete k r s)" "lc_rows (live_delete k r s) = as @ bs"
proof -
  have d: "distinct (map fst (lc_rows s))" using a by (simp add: account_def)
  then have m: "map_of (lc_rows s) k = Some r" by (intro map_of_is_SomeI) (simp_all add: rows)
  have out: "k \<notin> fst ` set as" "k \<notin> fst ` set bs" using d by (auto simp: rows)
  then have "filter (\<lambda>p. fst p \<noteq> k) as = as" "filter (\<lambda>p. fst p \<noteq> k) bs = bs" by (auto intro!: filter_True)
  then show l: "lc_rows (live_delete k r s) = as @ bs" by (simp add: live_delete_def rows)
  have f: "filter (\<lambda>p. fst p \<noteq> k) (lc_rows s) = as @ bs" using l by (simp add: live_delete_def)
  have "row_ok r" using a by (simp add: account_def rows)
  then have "0 \<le> lr_bytes r" by (simp add: row_ok_def)
  then show "account (live_delete k r s)"
    using a delete_row [OF d m] unfolding account_def live_delete_def by (simp add: f) (auto simp: rows)
qed

lemma account_cong: "lc_rows s' = lc_rows s \<Longrightarrow> lc_bytes s' = lc_bytes s \<Longrightarrow> account s' = account s"
  by (simp add: account_def)

lemma account_touch: "account s \<Longrightarrow> account (live_touch k created sequence s)"
proof (cases "live_row_of s k")
  case None
  assume "account s"
  moreover have "k \<notin> fst ` set (lc_rows s)" using None by (simp add: live_row_of_def map_of_eq_None_iff)
  ultimately show ?thesis by (simp add: live_touch_def None) (auto simp: account_def row_bytes_def row_ok_def utf8_len_def)
next
  case (Some r)
  assume "account s"
  then show ?thesis using account_same_bytes [of s k r "r\<lparr>lr_created := created, lr_sequence := sequence\<rparr>"] Some by (simp add: live_touch_def)
qed

lemma account_status: "account s \<Longrightarrow> account (live_status k status s)"
  using account_same_bytes [of s k] by (simp add: live_status_def split: option.split)

lemma account_row: "account s \<Longrightarrow> live_row_of s k = Some r \<Longrightarrow> row_ok r"
  using map_of_SomeD by (fastforce simp: account_def list_all_iff live_row_of_def)

lemma account_append: "account s \<Longrightarrow> account (live_append k text s)"
proof (cases "text = None \<or> live_row_of s k = None")
  case False
  then obtain t r where t: "text = Some t" and r: "live_row_of s k = Some r" by auto
  assume a: "account s"
  note ok = account_row [OF a r]
  let ?av = "max_snapshot_bytes - lc_bytes s"
  have "lc_bytes s \<le> max_snapshot_bytes" using a by (simp add: account_def)
  then have av: "0 \<le> ?av" by simp
  show ?thesis
  proof (cases "t = [] \<or> lr_truncated r")
    case True
    then show ?thesis using a by (auto simp: live_append_def t r)
  next
    case ne: False
    show ?thesis
    proof (cases "int (utf8_len t) \<le> ?av")
      case True
      have "account ((live_put k (r\<lparr>lr_chunks := lr_chunks r @ [t], lr_bytes := lr_bytes r + int (utf8_len t)\<rparr>) s)\<lparr>lc_bytes := lc_bytes s + int (utf8_len t)\<rparr>)"
        by (rule account_put [OF a r]) (use ok True in \<open>simp_all add: row_ok_def utf8_append\<close>)
      then show ?thesis using ne True by (simp add: live_append_def t r Let_def)
    next
      case False
      obtain p n where c: "cut_text t (nat (max 0 ?av)) = (p, n)" by fastforce
      then have n: "utf8_len p = n" "int n \<le> ?av" using cut_text_exact [of t "nat (max 0 ?av)"] av by auto
      have "account ((live_put k (r\<lparr>lr_chunks := lr_chunks r @ [p], lr_bytes := lr_bytes r + int n, lr_truncated := True\<rparr>) s)\<lparr>lc_bytes := lc_bytes s + int n\<rparr>)"
        by (rule account_put [OF a r]) (use ok n in \<open>simp_all add: row_ok_def utf8_append\<close>)
      then show ?thesis using ne False c by (simp add: live_append_def t r Let_def)
    qed
  qed
qed (auto simp: live_append_def split: option.split)

lemma account_replace: "account s \<Longrightarrow> account (live_replace k text s)"
proof (cases "live_row_of s k")
  case (Some r)
  assume a: "account s"
  have ok: "0 \<le> lr_bytes r" using account_row [OF a Some] by (simp add: row_ok_def)
  have "account ((live_put k (r\<lparr>lr_chunks := [], lr_bytes := 0, lr_truncated := False\<rparr>) s)\<lparr>lc_bytes := lc_bytes s - lr_bytes r\<rparr>)"
    by (rule account_put [OF a Some]) (use ok a in \<open>simp_all add: row_ok_def utf8_len_def account_def\<close>)
  then show ?thesis using account_append by (simp add: live_replace_def Some)
qed (simp add: live_replace_def)

text \<open>Trimming keeps the account, and leaves at most the limit of rows; within that limit it does nothing.\<close>

lemma trim_account:
  "account s \<Longrightarrow> lc_rows s = kept @ rest \<Longrightarrow> length kept \<le> max_live_rows
    \<Longrightarrow> account (trim_rows rest s) \<and> length (lc_rows (trim_rows rest s)) \<le> max_live_rows"
proof (induction rest arbitrary: s kept)
  case (Cons p rest)
  obtain k r where p: "p = (k, r)" by (cases p)
  note a = Cons.prems(1) and rows = Cons.prems(2) [unfolded p]
  have within: "lc_bytes s \<le> max_snapshot_bytes" using a by (simp add: account_def)
  show ?case
  proof (cases "length (lc_rows s) \<le> max_live_rows")
    case True
    then show ?thesis using a within by (simp add: p)
  next
    case False
    let ?s = "if lr_status r \<noteq> ''complete'' then s\<lparr>lc_truncated := True\<rparr> else s"
    have "account ?s" "lc_rows ?s = kept @ (k, r) # rest" using a rows account_cong [of "s\<lparr>lc_truncated := True\<rparr>" s] by simp_all
    note d = account_delete [OF this]
    have "trim_rows (p # rest) s = trim_rows rest (live_delete k r ?s)" using False by (simp add: p)
    then show ?thesis using Cons.IH [OF d Cons.prems(3)] by simp
  qed
qed simp

lemma trim_ok: "account s \<Longrightarrow> account (live_trim s) \<and> length (lc_rows (live_trim s)) \<le> max_live_rows"
  using trim_account [of s "[]" "lc_rows s"] by (simp add: live_trim_def max_live_rows_def)

lemma trim_idle:
  assumes "account s" "length (lc_rows s) \<le> max_live_rows"
  shows "live_trim s = s"
proof -
  have "lc_bytes s \<le> max_snapshot_bytes" using assms(1) by (simp add: account_def)
  then have "trim_rows rows s = s" for rows using assms(2) by (cases rows) auto
  then show ?thesis by (simp add: live_trim_def)
qed

lemma remove_ok: "account s \<Longrightarrow> account (live_remove k s) \<and> length (lc_rows (live_remove k s)) \<le> length (lc_rows s)"
proof (cases "live_row_of s k")
  case (Some r)
  assume a: "account s"
  obtain as bs where "lc_rows s = as @ (k, r) # bs" using map_of_SomeD [OF Some [unfolded live_row_of_def]] by (meson split_list)
  then show ?thesis using account_delete [OF a] Some by (simp add: live_remove_def)
qed (simp add: live_remove_def)

lemma reconcile_fold:
  "account s \<Longrightarrow> lc_rows s = kept @ rest \<Longrightarrow>
    account (fold (\<lambda>(k, r) s. if lr_status r = ''complete'' \<and> k \<in> set ids then live_delete k r s else s) rest s)
    \<and> lc_rows (fold (\<lambda>(k, r) s. if lr_status r = ''complete'' \<and> k \<in> set ids then live_delete k r s else s) rest s)
      = kept @ filter (\<lambda>(k, r). \<not> (lr_status r = ''complete'' \<and> k \<in> set ids)) rest"
proof (induction rest arbitrary: s kept)
  case (Cons p rest)
  obtain k r where p: "p = (k, r)" by (cases p)
  show ?case
  proof (cases "lr_status r = ''complete'' \<and> k \<in> set ids")
    case True
    note d = account_delete [OF Cons.prems(1) Cons.prems(2) [unfolded p]]
    show ?thesis using Cons.IH [OF d] True by (simp add: p)
  next
    case False
    show ?thesis using Cons.IH [OF Cons.prems(1), of "kept @ [p]"] Cons.prems(2) False by (auto simp: p)
  qed
qed simp

lemma reconcile_ok: "account s \<Longrightarrow> account (live_reconcile ids s)
    \<and> lc_rows (live_reconcile ids s) = filter (\<lambda>(k, r). \<not> (lr_status r = ''complete'' \<and> k \<in> set ids)) (lc_rows s)"
  using reconcile_fold [of s "[]" "lc_rows s"] by (simp add: live_reconcile_def)

lemma keep_identity_rows: "lc_rows (fst (keep_identity x v s)) = lc_rows s" "lc_bytes (fst (keep_identity x v s)) = lc_bytes s"
  by (simp_all add: keep_identity_def case_prod_unfold Let_def)

lemma account_keep: "account (fst (keep_identity x v s)) = account s"
  by (rule account_cong) (simp_all add: keep_identity_rows)

lemma account_identity: "account s \<Longrightarrow> account (touch_identity i s)"
  by (cases i) (simp add: touch_identity_def account_touch)

lemma parts_account: "account s \<Longrightarrow> account (fst (accept_parts parse truncated ps s))"
proof (induction ps arbitrary: s)
  case (Cons p ps)
  show ?case
  proof (cases p)
    case (TextPart x tx)
    obtain s1 i where k: "keep_identity x (not_blank tx) s = (s1, i)" by (meson surj_pair)
    have a: "account s1" using account_keep [of x "not_blank tx" s] Cons.prems k by simp
    let ?s3 = "if truncated then touch_identity i s1 else live_replace (in_id x) tx (touch_identity i s1)"
    have "account (live_status (in_id x) ''complete'' ?s3)" using a by (simp add: account_status account_identity account_replace)
    from Cons.IH [OF this] Cons.IH [OF Cons.prems] show ?thesis by (cases truncated) (auto simp: TextPart k case_prod_unfold Let_def)
  qed (use Cons in \<open>simp add: case_prod_unfold Let_def\<close>)
qed simp

lemma accept_account: "account s \<Longrightarrow> account (fst (accept_event parse e s))"
proof (cases e)
  case (TextUpdate kind x delta tx truncated)
  assume "account s"
  then show ?thesis
    using account_keep [of x "kind \<noteq> TextStart \<and> not_blank (if delta \<noteq> None then delta else tx)" s]
    by (auto simp: TextUpdate accept_event_def case_prod_unfold Let_def trim_ok account_identity account_append account_status account_replace
      split: text_kind.split)
next
  case AgentSettled
  assume "account s"
  moreover have "map fst (map (\<lambda>(k, r). (k, r\<lparr>lr_status := ''complete''\<rparr>)) rows) = map fst rows"
    "row_bytes (map (\<lambda>(k, r). (k, r\<lparr>lr_status := ''complete''\<rparr>)) rows) = row_bytes rows" for rows :: "(string \<times> live_row) list"
    by (induction rows) (auto simp: row_bytes_def)
  moreover have "list_all (\<lambda>p. row_ok (snd p)) (map (\<lambda>(k, r). (k, r\<lparr>lr_status := ''complete''\<rparr>)) (lc_rows s))"
    using \<open>account s\<close> by (auto simp: account_def list_all_iff row_ok_def)
  ultimately show ?thesis unfolding AgentSettled accept_event_def live_event.case account_def fst_conv by (simp del: map_map)
qed (auto simp: accept_event_def case_prod_unfold Let_def account_keep parts_account trim_ok intro: account_cong [THEN iffD1, rotated 2])

section \<open>Histories\<close>

datatype live_op = Accept live_event | Remove string | Upsert "unit incoming" string string js "string option" | Reconcile "string list"

definition live_step :: "(string \<Rightarrow> int option) \<Rightarrow> live_op \<Rightarrow> live_conversation \<Rightarrow> live_conversation" where
  "live_step parse op s = (case op of
      Accept e \<Rightarrow> fst (accept_event parse e s)
    | Remove k \<Rightarrow> live_remove k s
    | Upsert x role status others t \<Rightarrow> live_upsert x role status others t s
    | Reconcile ids \<Rightarrow> live_reconcile ids s)"

definition live_run :: "(string \<Rightarrow> int option) \<Rightarrow> live_op list \<Rightarrow> live_conversation" where
  "live_run parse ops = fold (live_step parse) ops fresh_live"

lemma account_fields:
  assumes "account s"
  shows "account (case live_row_of s k of Some r \<Rightarrow> live_put k (r\<lparr>lr_fields := f, lr_status := st\<rparr>) s | None \<Rightarrow> s)"
proof (cases "live_row_of s k")
  case (Some r)
  show ?thesis using account_same_bytes [OF assms Some, of "r\<lparr>lr_fields := f, lr_status := st\<rparr>"] Some by simp
qed (use assms in simp)

lemma upsert_ok:
  assumes a: "account s"
  shows "account (live_upsert x role status others t s) \<and> length (lc_rows (live_upsert x role status others t s)) \<le> max_live_rows"
proof -
  obtain s1 i where k: "(if role \<in> {''assistant'', ''progress''} then keep_identity x (not_blank t) s
      else (s, in_id x, in_created x, (case js_safe_int (in_timeline x) of Some n \<Rightarrow> Some n | None \<Rightarrow> None))) = (s1, i)" by (meson surj_pair)
  then have "account s1" using a account_keep [of x "not_blank t" s] by (auto split: if_splits)
  then have "account (touch_identity i s1)" by (rule account_identity)
  then show ?thesis unfolding live_upsert_def k Let_def prod.case
    by (intro trim_ok account_replace account_fields)
qed

lemma accept_rows: "account s \<Longrightarrow> length (lc_rows s) \<le> max_live_rows \<Longrightarrow> length (lc_rows (fst (accept_event parse e s))) \<le> max_live_rows"
proof (cases e)
  case (TextUpdate kind x delta tx truncated)
  assume "account s" "length (lc_rows s) \<le> max_live_rows"
  then show ?thesis
    using account_keep [of x "kind \<noteq> TextStart \<and> not_blank (if delta \<noteq> None then delta else tx)" s]
    by (auto simp: TextUpdate accept_event_def case_prod_unfold Let_def trim_ok account_identity account_append account_status account_replace
      split: text_kind.split)
qed (auto simp: accept_event_def case_prod_unfold Let_def parts_account trim_ok keep_identity_rows)

lemma step_ok:
  assumes "account s" "length (lc_rows s) \<le> max_live_rows"
  shows "account (live_step parse op s) \<and> length (lc_rows (live_step parse op s)) \<le> max_live_rows"
proof (cases op)
  case (Remove k)
  then show ?thesis using remove_ok [OF assms(1), of k] assms(2) by (simp add: live_step_def)
next
  case (Reconcile ids)
  have "length (lc_rows (live_reconcile ids s)) \<le> length (lc_rows s)" using reconcile_ok [OF assms(1), of ids] by simp
  then have "length (lc_rows (live_reconcile ids s)) \<le> max_live_rows" using assms(2) by linarith
  then show ?thesis using reconcile_ok [OF assms(1), of ids] unfolding Reconcile live_step_def live_op.case by blast
qed (use assms in \<open>simp_all add: live_step_def accept_account accept_rows upsert_ok\<close>)

lemma run_ok: "account (live_run parse ops) \<and> length (lc_rows (live_run parse ops)) \<le> max_live_rows"
proof -
  have "account s \<Longrightarrow> length (lc_rows s) \<le> max_live_rows \<Longrightarrow>
      account (fold (live_step parse) ops s) \<and> length (lc_rows (fold (live_step parse) ops s)) \<le> max_live_rows" for s
    by (induction ops arbitrary: s) (use step_ok in auto)
  moreover have "account fresh_live" "length (lc_rows fresh_live) \<le> max_live_rows"
    by (simp_all add: fresh_live_def account_def row_bytes_def max_snapshot_bytes_def)
  ultimately show ?thesis unfolding live_run_def by blast
qed


text \<open>
  Trimming never frees bytes: as long as there are at most 512 rows, text that does not fit is cut, and no row, complete or
  not, gives way to it.
\<close>

theorem trim_never_frees_bytes:
  "let s = live_append k t (live_touch k created sequence (live_run parse ops)) in
     if length (lc_rows s) \<le> 512 then live_trim s = s else True"
  using trim_idle [OF account_append [OF account_touch [OF conjunct1 [OF run_ok]]]] by (simp add: Let_def max_live_rows_def)

end
