(* ===== verification/CanonicalData.thy ===== *)
theory CanonicalData
  imports Protocol Requests
begin

text \<open>
  Bounded copies of the records of a canonical transcript (src/canonical-context.mjs). Every value that enters or leaves the
  projection is copied under a budget of nodes, depth and code units; a copy that exceeds it, or meets a value
  that is not plain data, is rejected with a code. A value of the model is a finite tree of plain data, so cycles, getters,
  symbol keys and foreign prototypes cannot occur in it.
\<close>

section \<open>Limits and rejections\<close>

definition ctx_entries :: nat where
  "ctx_entries = 100000"

definition ctx_nodes :: nat where
  "ctx_nodes = 2000000"

definition ctx_depth :: nat where
  "ctx_depth = 64"

definition ctx_units :: nat where
  "ctx_units = 64 * 1024 * 1024"

definition ctx_signature :: nat where
  "ctx_signature = 4 * 1024 * 1024"

definition ctx_blocks :: nat where
  "ctx_blocks = 10000"

definition ctx_id :: nat where
  "ctx_id = 4096"

definition ctx_error :: "string \<Rightarrow> 'a result" where
  "ctx_error code = Inl (Coded code (''Canonical context rejected: '' @ code))"

definition require_that :: "bool \<Rightarrow> string \<Rightarrow> 'a result \<Rightarrow> 'a result" where
  "require_that c code r = (if c then r else ctx_error code)"

definition is_identifier :: "js \<Rightarrow> bool" where
  "is_identifier v \<longleftrightarrow> (case v of JStr s \<Rightarrow> s \<noteq> [] \<and> length s \<le> ctx_id | _ \<Rightarrow> False)"

text \<open>The budget of a returned view, from the environment: one to nine digits without a leading zero.\<close>

definition decimal :: "string \<Rightarrow> nat" where
  "decimal s = fold (\<lambda>c n. 10 * n + (of_char c - 48)) s 0"

definition context_units :: "string option \<Rightarrow> nat result" where
  "context_units env = (case env of None \<Rightarrow> Inr ctx_units
    | Some s \<Rightarrow> require_that (s \<noteq> [] \<and> length s \<le> 9 \<and> list_all (\<lambda>c. c \<in> set ''0123456789'') s \<and> hd s \<noteq> CHR ''0'') ''ERR_CONTEXT_BUDGET_CONFIG''
        (require_that (ctx_units \<le> decimal s \<and> decimal s \<le> 256 * 1024 * 1024) ''ERR_CONTEXT_BUDGET_CONFIG'' (Inr (decimal s))))"

section \<open>Bounded copy\<close>

record cbudget =
  cb_nodes :: nat
  cb_units :: nat

definition spend :: "nat \<Rightarrow> nat \<Rightarrow> cbudget \<Rightarrow> (cbudget \<Rightarrow> 'a result) \<Rightarrow> 'a result" where
  "spend limit n b f = require_that (cb_units b + n \<le> limit) ''ERR_CONTEXT_DATA_LIMIT'' (f (b\<lparr>cb_units := cb_units b + n\<rparr>))"

definition visit :: "nat \<Rightarrow> cbudget \<Rightarrow> (cbudget \<Rightarrow> 'a result) \<Rightarrow> 'a result" where
  "visit depth b f = require_that (cb_nodes b + 1 \<le> ctx_nodes \<and> depth \<le> ctx_depth) ''ERR_CONTEXT_DATA_LIMIT'' (f (b\<lparr>cb_nodes := cb_nodes b + 1\<rparr>))"

definition keys_fit :: "nat \<Rightarrow> cbudget \<Rightarrow> 'a result \<Rightarrow> 'a result" where
  "keys_fit n b r = require_that (n \<le> ctx_nodes - cb_nodes b) ''ERR_CONTEXT_DATA_LIMIT'' r"

fun copy_value :: "nat \<Rightarrow> js \<Rightarrow> nat \<Rightarrow> cbudget \<Rightarrow> (js \<times> cbudget) result"
  and copy_slots :: "nat \<Rightarrow> nat \<Rightarrow> js list \<Rightarrow> nat \<Rightarrow> cbudget \<Rightarrow> (js list \<times> cbudget) result"
  and copy_fields :: "nat \<Rightarrow> (string \<times> js) list \<Rightarrow> nat \<Rightarrow> cbudget \<Rightarrow> ((string \<times> js) list \<times> cbudget) result"
where
  "copy_value limit (JStr s) d b = visit d b (\<lambda>b. spend limit (length s) b (\<lambda>b. Inr (JStr s, b)))"
| "copy_value limit Undef d b = visit d b (\<lambda>b. Inr (Undef, b))"
| "copy_value limit Null d b = visit d b (\<lambda>b. Inr (Null, b))"
| "copy_value limit (JBool x) d b = visit d b (\<lambda>b. Inr (JBool x, b))"
| "copy_value limit (JNum n) d b = visit d b (\<lambda>b. require_that (case n of Fin _ \<Rightarrow> True | _ \<Rightarrow> False) ''ERR_CONTEXT_DATA_TYPE'' (Inr (JNum n, b)))"
| "copy_value limit JFun d b = visit d b (\<lambda>b. ctx_error ''ERR_CONTEXT_DATA_TYPE'')"
| "copy_value limit (JArr vs) d b = visit d b (\<lambda>b. keys_fit (length vs + 1) b
     (and_then (copy_slots limit 0 vs (d + 1) b) (\<lambda>(ws, b). Inr (JArr ws, b))))"
| "copy_value limit (JObj ps) d b = visit d b (\<lambda>b. keys_fit (length ps) b
     (and_then (copy_fields limit ps (d + 1) b) (\<lambda>(qs, b). Inr (JObj qs, b))))"
| "copy_slots limit i [] d b = Inr ([], b)"
| "copy_slots limit i (v # vs) d b = spend limit (length (show_nat i)) b (\<lambda>b.
     and_then (copy_value limit v d b) (\<lambda>(w, b). and_then (copy_slots limit (i + 1) vs d b) (\<lambda>(ws, b). Inr (w # ws, b))))"
| "copy_fields limit [] d b = Inr ([], b)"
| "copy_fields limit ((k, v) # ps) d b = spend limit (length k) b (\<lambda>b.
     and_then (copy_value limit v d b) (\<lambda>(w, b). and_then (copy_fields limit ps d b) (\<lambda>(qs, b). Inr ((k, w) # qs, b))))"

definition copy_data :: "nat \<Rightarrow> js \<Rightarrow> js result" where
  "copy_data limit v = and_then (copy_value limit v 0 \<lparr>cb_nodes = 0, cb_units = 0\<rparr>) (\<lambda>(w, b). Inr w)"

section \<open>Archives\<close>

text \<open>Each record of an archive has a budget of code units of its own, and shares the budget of nodes; its units are kept with it.\<close>

fun copy_records :: "nat \<Rightarrow> js list \<Rightarrow> nat \<Rightarrow> (js \<times> nat) list result" where
  "copy_records i [] n = Inr []"
| "copy_records i (e # es) n = spend ctx_units (length (show_nat i)) \<lparr>cb_nodes = n, cb_units = 0\<rparr> (\<lambda>b.
     and_then (copy_value ctx_units e 1 b) (\<lambda>(w, b). and_then (copy_records (i + 1) es (cb_nodes b)) (\<lambda>rs. Inr ((w, cb_units b) # rs))))"

definition copy_archive :: "js \<Rightarrow> (js \<times> nat) list result" where
  "copy_archive es = (case es of
      JArr vs \<Rightarrow> require_that (length vs \<le> ctx_entries) ''ERR_CONTEXT_ENTRIES''
        (visit 0 \<lparr>cb_nodes = 0, cb_units = 0\<rparr> (\<lambda>b. keys_fit (length vs + 1) b (copy_records 0 vs (cb_nodes b))))
    | _ \<Rightarrow> ctx_error ''ERR_CONTEXT_ENTRIES'')"

definition snapshot_canonical_archive :: "js \<Rightarrow> js list result" where
  "snapshot_canonical_archive es = and_then (copy_archive es) (\<lambda>rs. Inr (map fst rs))"

section \<open>What a copy is\<close>

lemmas copy_gates = require_that_def ctx_error_def spend_def visit_def keys_fit_def and_then_def

lemma and_then_Inr: "and_then r f = Inr y \<longleftrightarrow> (\<exists>x. r = Inr x \<and> f x = Inr y)"
  by (cases r) (simp_all add: and_then_def)

lemma and_then_simps [simp]: "and_then (Inr x) f = f x" "and_then (Inl e) f = Inl e"
  by (simp_all add: and_then_def)

lemma require_that_Inr: "require_that c code r = Inr y \<longleftrightarrow> c \<and> r = Inr y"
  by (simp add: require_that_def ctx_error_def)

lemma ctx_error_Inr [simp]: "ctx_error code \<noteq> Inr y" "Inr y \<noteq> ctx_error code"
  by (simp_all add: ctx_error_def)

lemma spend_Inr: "spend limit n b f = Inr y \<longleftrightarrow> cb_units b + n \<le> limit \<and> f (b\<lparr>cb_units := cb_units b + n\<rparr>) = Inr y"
  by (simp add: spend_def require_that_Inr)

lemma visit_Inr: "visit d b f = Inr y \<longleftrightarrow> cb_nodes b + 1 \<le> ctx_nodes \<and> d \<le> ctx_depth \<and> f (b\<lparr>cb_nodes := cb_nodes b + 1\<rparr>) = Inr y"
  by (simp add: visit_def require_that_Inr conj_assoc)

lemma keys_fit_Inr: "keys_fit n b r = Inr y \<longleftrightarrow> n \<le> ctx_nodes - cb_nodes b \<and> r = Inr y"
  by (simp add: keys_fit_def require_that_Inr)

lemmas copy_success = and_then_Inr require_that_Inr spend_Inr visit_Inr keys_fit_Inr

text \<open>The size of a value: its nodes, its depth, and its code units with the keys and the slot numbers.\<close>

fun js_nodes :: "js \<Rightarrow> nat" and slots_nodes :: "js list \<Rightarrow> nat" and fields_nodes :: "(string \<times> js) list \<Rightarrow> nat" where
  "js_nodes (JArr vs) = 1 + slots_nodes vs"
| "js_nodes (JObj ps) = 1 + fields_nodes ps"
| "js_nodes v = 1"
| "slots_nodes [] = 0"
| "slots_nodes (v # vs) = js_nodes v + slots_nodes vs"
| "fields_nodes [] = 0"
| "fields_nodes ((k, v) # ps) = js_nodes v + fields_nodes ps"

fun js_units :: "js \<Rightarrow> nat" and slots_units :: "nat \<Rightarrow> js list \<Rightarrow> nat" and fields_units :: "(string \<times> js) list \<Rightarrow> nat" where
  "js_units (JStr s) = length s"
| "js_units (JArr vs) = slots_units 0 vs"
| "js_units (JObj ps) = fields_units ps"
| "js_units v = 0"
| "slots_units i [] = 0"
| "slots_units i (v # vs) = length (show_nat i) + js_units v + slots_units (i + 1) vs"
| "fields_units [] = 0"
| "fields_units ((k, v) # ps) = length k + js_units v + fields_units ps"

lemma copy_counts:
  "copy_value limit v d b = Inr (w, b') \<Longrightarrow> w = v \<and> cb_nodes b' = cb_nodes b + js_nodes v \<and> cb_units b' = cb_units b + js_units v"
  "copy_slots limit i vs d b = Inr (ws, b') \<Longrightarrow> ws = vs \<and> cb_nodes b' = cb_nodes b + slots_nodes vs \<and> cb_units b' = cb_units b + slots_units i vs"
  "copy_fields limit ps d b = Inr (qs, b') \<Longrightarrow> qs = ps \<and> cb_nodes b' = cb_nodes b + fields_nodes ps \<and> cb_units b' = cb_units b + fields_units ps"
proof (induction limit v d b and limit i vs d b and limit ps d b arbitrary: w b' and ws b' and qs b'
      rule: copy_value_copy_slots_copy_fields.induct)
  case (7 limit vs d b)
  from 7(2) obtain ws c where c: "copy_slots limit 0 vs (d + 1) (b\<lparr>cb_nodes := cb_nodes b + 1\<rparr>) = Inr (ws, c)" "w = JArr ws" "b' = c"
    by (auto simp: copy_success)
  show ?case using 7(1) [OF c(1)] c by simp
next
  case (8 limit ps d b)
  from 8(2) obtain qs c where c: "copy_fields limit ps (d + 1) (b\<lparr>cb_nodes := cb_nodes b + 1\<rparr>) = Inr (qs, c)" "w = JObj qs" "b' = c"
    by (auto simp: copy_success)
  show ?case using 8(1) [OF c(1)] c by simp
next
  case (10 limit i v vs d b)
  from 10(3) obtain w1 c ws1 e where c: "copy_value limit v d (b\<lparr>cb_units := cb_units b + length (show_nat i)\<rparr>) = Inr (w1, c)"
      "copy_slots limit (i + 1) vs d c = Inr (ws1, e)" "ws = w1 # ws1" "b' = e"
    by (auto simp: copy_success)
  show ?case using 10(1) [OF c(1)] 10(2) [OF c(2)] c by simp
next
  case (12 limit k v ps d b)
  from 12(3) obtain w1 c qs1 e where c: "copy_value limit v d (b\<lparr>cb_units := cb_units b + length k\<rparr>) = Inr (w1, c)"
      "copy_fields limit ps d c = Inr (qs1, e)" "qs = (k, w1) # qs1" "b' = e"
    by (auto simp: copy_success)
  show ?case using 12(1) [OF c(1)] 12(2) [OF c(2)] c by simp
qed (auto simp: copy_success)

lemma copy_data_same: "copy_data limit v = Inr w \<Longrightarrow> w = v"
  by (auto simp: copy_data_def copy_success dest: copy_counts)

fun js_depth :: "js \<Rightarrow> nat" and slots_depth :: "js list \<Rightarrow> nat" and fields_depth :: "(string \<times> js) list \<Rightarrow> nat" where
  "js_depth (JArr vs) = slots_depth vs"
| "js_depth (JObj ps) = fields_depth ps"
| "js_depth v = 0"
| "slots_depth [] = 0"
| "slots_depth (v # vs) = max (1 + js_depth v) (slots_depth vs)"
| "fields_depth [] = 0"
| "fields_depth ((k, v) # ps) = max (1 + js_depth v) (fields_depth ps)"

definition within_budget :: "nat \<Rightarrow> cbudget \<Rightarrow> bool" where
  "within_budget limit b \<longleftrightarrow> cb_nodes b \<le> ctx_nodes \<and> cb_units b \<le> limit"

lemma within_step [simp]:
  "within_budget limit (b\<lparr>cb_nodes := n\<rparr>) \<longleftrightarrow> n \<le> ctx_nodes \<and> cb_units b \<le> limit"
  "within_budget limit (b\<lparr>cb_units := u\<rparr>) \<longleftrightarrow> cb_nodes b \<le> ctx_nodes \<and> u \<le> limit"
  by (simp_all add: within_budget_def)

lemma copy_within:
  "copy_value limit v d b = Inr (w, b') \<Longrightarrow> within_budget limit b \<Longrightarrow> within_budget limit b' \<and> d + js_depth v \<le> ctx_depth"
  "copy_slots limit i vs (Suc d) b = Inr (ws, b') \<Longrightarrow> d \<le> ctx_depth \<Longrightarrow> within_budget limit b \<Longrightarrow> within_budget limit b' \<and> d + slots_depth vs \<le> ctx_depth"
  "copy_fields limit ps (Suc d) b = Inr (qs, b') \<Longrightarrow> d \<le> ctx_depth \<Longrightarrow> within_budget limit b \<Longrightarrow> within_budget limit b' \<and> d + fields_depth ps \<le> ctx_depth"
proof (induction v and vs and ps arbitrary: d b w b' and i d b ws b' and d b qs b' rule: js_depth_slots_depth_fields_depth.induct)
  case (1 vs)
  from 1(2) obtain ws c where c: "copy_slots limit 0 vs (Suc d) (b\<lparr>cb_nodes := cb_nodes b + 1\<rparr>) = Inr (ws, c)" "b' = c"
      "cb_nodes b + 1 \<le> ctx_nodes" "d \<le> ctx_depth"
    by (auto simp: copy_success)
  show ?case using 1(1) [OF c(1) c(4)] 1(3) c by (simp add: within_budget_def)
next
  case (2 ps)
  from 2(2) obtain qs c where c: "copy_fields limit ps (Suc d) (b\<lparr>cb_nodes := cb_nodes b + 1\<rparr>) = Inr (qs, c)" "b' = c"
      "cb_nodes b + 1 \<le> ctx_nodes" "d \<le> ctx_depth"
    by (auto simp: copy_success)
  show ?case using 2(1) [OF c(1) c(4)] 2(3) c by (simp add: within_budget_def)
next
  case (5 v vs)
  from 5(3) obtain w1 c ws1 e where c: "copy_value limit v (Suc d) (b\<lparr>cb_units := cb_units b + length (show_nat i)\<rparr>) = Inr (w1, c)"
      "copy_slots limit (i + 1) vs (Suc d) c = Inr (ws1, e)" "b' = e" "cb_units b + length (show_nat i) \<le> limit"
    by (auto simp: copy_success)
  show ?case using 5(1) [OF c(1)] 5(2) [OF c(2) 5(4)] 5(5) c by (simp add: within_budget_def max_def)
next
  case (7 k v ps)
  from 7(3) obtain w1 c qs1 e where c: "copy_value limit v (Suc d) (b\<lparr>cb_units := cb_units b + length k\<rparr>) = Inr (w1, c)"
      "copy_fields limit ps (Suc d) c = Inr (qs1, e)" "b' = e" "cb_units b + length k \<le> limit"
    by (auto simp: copy_success)
  show ?case using 7(1) [OF c(1)] 7(2) [OF c(2) 7(4)] 7(5) c by (simp add: within_budget_def max_def)
qed (auto simp: copy_success within_budget_def)

lemma copy_data_within:
  assumes "copy_data limit v = Inr w"
  shows "w = v \<and> js_nodes v \<le> ctx_nodes \<and> js_depth v \<le> ctx_depth \<and> js_units v \<le> limit"
proof -
  from assms obtain b where b: "copy_value limit v 0 \<lparr>cb_nodes = 0, cb_units = 0\<rparr> = Inr (w, b)"
    by (auto simp: copy_data_def copy_success)
  show ?thesis using copy_counts(1) [OF b] copy_within(1) [OF b] by (simp add: within_budget_def)
qed

lemma copy_records_same: "copy_records i es n = Inr rs \<Longrightarrow> map fst rs = es"
proof (induction i es n arbitrary: rs rule: copy_records.induct)
  case (2 i e es n)
  from 2(2) obtain w b qs where q: "copy_value ctx_units e 1 \<lparr>cb_nodes = n, cb_units = length (show_nat i)\<rparr> = Inr (w, b)"
      "copy_records (i + 1) es (cb_nodes b) = Inr qs" "rs = (w, cb_units b) # qs"
    by (auto simp: copy_success)
  then show ?case using 2(1) [OF q(2)] copy_counts(1) [OF q(1)] by simp
qed (simp add: copy_success)

lemma copy_archive_same: "copy_archive es = Inr rs \<Longrightarrow> es = JArr (map fst rs)"
  by (auto simp: copy_archive_def copy_success copy_records_same split: js.splits)

end
