(* ===== verification/CanonicalBranch.thy ===== *)
theory CanonicalBranch
  imports CanonicalData
begin

text \<open>
  The selected branch of a canonical transcript (src/canonical-context.mjs): the path from the root entry to the leaf, the check of its
  last compaction, the signatures that later entries lay over the thinking blocks of earlier messages, and the index of its
  tool calls and results. \<open>JSON.parse\<close> and \<open>JSON.stringify\<close> are the parameters \<open>parse\<close> and \<open>stringify\<close>.
\<close>

section \<open>Branch selection\<close>

type_synonym archive_entry = "js \<times> nat"   \<comment> \<open>an entry and the code units of its record\<close>

definition entry_id :: "js \<Rightarrow> string" where
  "entry_id e = text_of (jget ''id'' e)"

definition entry_shape :: "js \<Rightarrow> bool" where
  "entry_shape e \<longleftrightarrow> is_plain_object e \<and> is_identifier (jget ''id'' e) \<and> is_identifier (jget ''type'' e)
     \<and> (jget ''parentId'' e = Null \<or> is_identifier (jget ''parentId'' e))"

fun index_branch :: "archive_entry list \<Rightarrow> (string \<times> archive_entry) list \<Rightarrow> (string \<times> archive_entry) list result" where
  "index_branch [] m = Inr m"
| "index_branch (e # es) m = require_that (entry_shape (fst e)) ''ERR_CONTEXT_ENTRY''
     (require_that (map_of m (entry_id (fst e)) = None) ''ERR_CONTEXT_DUPLICATE_ENTRY_ID''
       (index_branch es (m @ [(entry_id (fst e), e)])))"

text \<open>The walk from the leaf to a root, with the entries already passed in front of \<open>acc\<close>.\<close>

function walk_branch :: "(string \<times> archive_entry) list \<Rightarrow> js \<Rightarrow> string list \<Rightarrow> archive_entry list \<Rightarrow> archive_entry list result" where
  "walk_branch m at_id seen acc = (case at_id of
      JStr i \<Rightarrow> if i \<in> set seen then ctx_error ''ERR_CONTEXT_BRANCH_CYCLE''
        else (case map_of m i of
           None \<Rightarrow> ctx_error ''ERR_CONTEXT_BRANCH_MISSING''
         | Some e \<Rightarrow> walk_branch m (jget ''parentId'' (fst e)) (i # seen) (e # acc))
    | _ \<Rightarrow> Inr acc)"
  by pat_completeness auto
termination
proof (relation "measure (\<lambda>(m, at_id, seen, acc). card (fst ` set m - set seen))", goal_cases)
  case (2 m at_id seen acc i e)
  then have "i \<in> fst ` set m - set seen" by (auto dest: map_of_SomeD intro: rev_image_eqI)
  then have "fst ` set m - set (i # seen) \<subset> fst ` set m - set seen" by auto
  then show ?case by (simp add: psubset_card_mono)
qed simp

declare walk_branch.simps [simp del]

definition select_indexed_branch :: "(string \<times> archive_entry) list \<Rightarrow> js \<Rightarrow> archive_entry list result" where
  "select_indexed_branch m leaf = require_that (leaf = Null \<or> is_identifier leaf) ''ERR_CONTEXT_LEAF'' (walk_branch m leaf [] [])"

definition select_branch :: "archive_entry list \<Rightarrow> js \<Rightarrow> archive_entry list result" where
  "select_branch es leaf = require_that (length es \<le> ctx_entries) ''ERR_CONTEXT_ENTRIES''
     (require_that (leaf = Null \<or> is_identifier leaf) ''ERR_CONTEXT_LEAF''
       (and_then (index_branch es []) (\<lambda>m. select_indexed_branch m leaf)))"

section \<open>The last compaction\<close>

definition find_index :: "('a \<Rightarrow> bool) \<Rightarrow> 'a list \<Rightarrow> nat option" where
  "find_index P xs = find (\<lambda>i. P (xs ! i)) [0..<length xs]"

definition find_last_index :: "('a \<Rightarrow> bool) \<Rightarrow> 'a list \<Rightarrow> nat option" where
  "find_last_index P xs = find (\<lambda>i. P (xs ! i)) (rev [0..<length xs])"

definition nonneg_number :: "js \<Rightarrow> bool" where
  "nonneg_number v \<longleftrightarrow> (case v of JNum (Fin q) \<Rightarrow> 0 \<le> q | _ \<Rightarrow> False)"

definition validate_compactions :: "js list \<Rightarrow> unit result" where
  "validate_compactions es = (case find_last_index (\<lambda>e. jget ''type'' e = JStr ''compaction'') es of
      None \<Rightarrow> Inr ()
    | Some latest \<Rightarrow> (let e = es ! latest in
        require_that (is_identifier (jget ''firstKeptEntryId'' e)
            \<and> (case find_index (\<lambda>x. jget ''id'' x = jget ''firstKeptEntryId'' e) es of Some kept \<Rightarrow> kept \<le> latest | None \<Rightarrow> False))
          ''ERR_CONTEXT_COMPACTION''
        (require_that (is_text (jget ''summary'' e) \<and> nonneg_number (jget ''tokensBefore'' e)) ''ERR_CONTEXT_COMPACTION'' (Inr ()))))"

section \<open>Thinking signatures\<close>

text \<open>The tokens of a JSON text that matter here: whole strings, and the six punctuation characters.\<close>

fun string_token :: "string \<Rightarrow> (string \<times> string) option" where
  "string_token [] = None"
| "string_token (c # cs) = (if c = CHR 0x22 then Some ([c], cs)
     else if c = CHR 0x5C then (case cs of [] \<Rightarrow> None
        | d # ds \<Rightarrow> if d \<in> {CHR 0x0A, CHR 0x0D} then None
            else (case string_token ds of Some (t, r) \<Rightarrow> Some (c # d # t, r) | None \<Rightarrow> None))
     else (case string_token cs of Some (t, r) \<Rightarrow> Some (c # t, r) | None \<Rightarrow> None))"

lemma string_token_shorter: "string_token s = Some (t, r) \<Longrightarrow> length r < length s"
  by (induction s arbitrary: t r rule: string_token.induct) (fastforce split: if_splits option.splits list.splits)+

function tokens :: "string \<Rightarrow> string list" where
  "tokens [] = []"
| "tokens (c # cs) = (if c = CHR 0x22 then (case string_token cs of Some (t, r) \<Rightarrow> (c # t) # tokens r | None \<Rightarrow> tokens cs)
     else if c \<in> set ''{}[],:'' then [c] # tokens cs else tokens cs)"
  by pat_completeness auto
termination
  by (relation "measure length") (auto dest: string_token_shorter)

text \<open>
  The stack of open containers: an object with its keys and whether the next string is one, or an array. The
  text has been parsed already, so each key token parses too.
\<close>

fun distinct_keys :: "(string \<Rightarrow> js option) \<Rightarrow> string list \<Rightarrow> (js list \<times> bool) option list \<Rightarrow> bool" where
  "distinct_keys parse [] stack = True"
| "distinct_keys parse (t # ts) stack =
     (if t = ''{'' then distinct_keys parse ts (Some ([], True) # stack)
      else if t = ''['' then distinct_keys parse ts (None # stack)
      else if t = ''}'' \<or> t = '']'' then distinct_keys parse ts (tl stack)
      else (case stack of
          Some (ks, key) # rest \<Rightarrow>
            if t = '','' then distinct_keys parse ts (Some (ks, True) # rest)
            else if prefix [CHR 0x22] t \<and> key then
              (let k = (case parse t of Some v \<Rightarrow> v | None \<Rightarrow> Undef) in k \<notin> set ks \<and> distinct_keys parse ts (Some (k # ks, False) # rest))
            else distinct_keys parse ts stack
        | _ \<Rightarrow> distinct_keys parse ts stack))"

definition parse_signature :: "(string \<Rightarrow> js option) \<Rightarrow> js \<Rightarrow> js result" where
  "parse_signature parse s = (case s of
      JStr t \<Rightarrow> require_that (t \<noteq> [] \<and> length t \<le> ctx_signature) ''ERR_SIGNATURE_DATA''
        (case parse t of None \<Rightarrow> ctx_error ''ERR_SIGNATURE_JSON''
         | Some v \<Rightarrow> and_then (copy_data ctx_units v) (\<lambda>v.
             require_that (distinct_keys parse (tokens t) []) ''ERR_SIGNATURE_DUPLICATE_KEY''
               (require_that (is_plain_object v) ''ERR_SIGNATURE_DATA'' (Inr v))))
    | _ \<Rightarrow> ctx_error ''ERR_SIGNATURE_DATA'')"

definition signature_type :: string where
  "signature_type = ''persistent-harness:assistant-thinking-signature:v1''"

text \<open>The signature data of an entry: of the raw type, or of a custom entry of the known version.\<close>

definition signature_data :: "js \<Rightarrow> js option result" where
  "signature_data e = (if jget ''type'' e = JStr ''custom'' \<and> jget ''customType'' e = JStr signature_type
     then require_that (is_plain_object (jget ''data'' e) \<and> jget ''version'' (jget ''data'' e) = jint 1) ''ERR_SIGNATURE_VERSION'' (Inr (Some (jget ''data'' e)))
     else if jget ''type'' e = JStr ''assistant_thinking_signature'' then Inr (Some e) else Inr None)"

definition content_index :: "js \<Rightarrow> nat option" where
  "content_index v = (case js_safe_int v of Some i \<Rightarrow> if 0 \<le> i \<and> i < int ctx_blocks then Some (nat i) else None | None \<Rightarrow> None)"

definition signature_shape :: "js \<Rightarrow> bool" where
  "signature_shape d \<longleftrightarrow> is_identifier (jget ''messageEntryId'' d) \<and> is_identifier (jget ''messageId'' d) \<and> is_identifier (jget ''itemId'' d)
     \<and> content_index (jget ''contentIndex'' d) \<noteq> None
     \<and> (case jget ''encryptedContent'' d of JStr s \<Rightarrow> s \<noteq> [] \<and> length s \<le> ctx_signature | _ \<Rightarrow> False)"

definition nth_block :: "js \<Rightarrow> nat \<Rightarrow> js" where
  "nth_block content i = (case content of JArr bs \<Rightarrow> if i < length bs then bs ! i else Undef | _ \<Rightarrow> Undef)"

text \<open>\<open>target.message.content[i].thinkingSignature = s\<close>\<close>

definition set_signature :: "nat \<Rightarrow> string \<Rightarrow> js \<Rightarrow> js" where
  "set_signature i s e = (let m = jget ''message'' e in case jget ''content'' m of
      JArr bs \<Rightarrow> jset ''message'' (jset ''content'' (JArr (bs[i := jset ''thinkingSignature'' (JStr s) (bs ! i)])) m) e
    | _ \<Rightarrow> e)"

definition overlay_info :: "js \<Rightarrow> js \<Rightarrow> js" where
  "overlay_info e d = JObj [(''code'', JStr ''SIGNATURE_OVERLAY''), (''severity'', JStr ''info''), (''entryId'', jget ''id'' e),
     (''messageEntryId'', jget ''messageEntryId'' d), (''contentIndex'', jget ''contentIndex'' d)]"

text \<open>The entries passed so far, the target updated, and the diagnostics.\<close>

definition overlay_target :: "(string \<Rightarrow> js option) \<Rightarrow> (js \<Rightarrow> string) \<Rightarrow> js \<Rightarrow> archive_entry list \<Rightarrow> archive_entry list result" where
  "overlay_target parse stringify d prior = (case find_index (\<lambda>(x, u). jget ''id'' x = jget ''messageEntryId'' d) prior of
      None \<Rightarrow> ctx_error ''ERR_SIGNATURE_TARGET''
    | Some p \<Rightarrow> (let (target, units) = prior ! p; m = jget ''message'' target; i = the (content_index (jget ''contentIndex'' d)); block = nth_block (jget ''content'' m) i in
        require_that (jget ''type'' target = JStr ''message'' \<and> jget ''role'' m = JStr ''assistant'' \<and> jget ''id'' m = jget ''messageId'' d) ''ERR_SIGNATURE_TARGET''
        (require_that (jget ''type'' block = JStr ''thinking'') ''ERR_SIGNATURE_CONTENT_INDEX''
        (and_then (parse_signature parse (jget ''thinkingSignature'' block)) (\<lambda>item.
           let old = jget ''encrypted_content'' item; new = jget ''encryptedContent'' d in
           require_that (jget ''type'' item = JStr ''reasoning'' \<and> jget ''id'' item = jget ''itemId'' d) ''ERR_SIGNATURE_ITEM''
           (require_that (nullish old \<or> old = JStr [] \<or> old = new) ''ERR_SIGNATURE_ENCRYPTION_CONFLICT''
             (if old = new then Inr prior
              else (let s = stringify (jset ''encrypted_content'' new item); n = units + length s - length (text_of (jget ''thinkingSignature'' block)) in
                require_that (n \<le> ctx_units) ''ERR_CONTEXT_DATA_LIMIT'' (Inr (prior[p := (set_signature i s target, n)]))))))))))"

fun overlay_signatures :: "(string \<Rightarrow> js option) \<Rightarrow> (js \<Rightarrow> string) \<Rightarrow> archive_entry list \<Rightarrow> archive_entry list \<Rightarrow> js list \<Rightarrow> (archive_entry list \<times> js list) result" where
  "overlay_signatures parse stringify [] prior ds = Inr (prior, ds)"
| "overlay_signatures parse stringify (e # es) prior ds = and_then (signature_data (fst e)) (\<lambda>s. case s of
      None \<Rightarrow> overlay_signatures parse stringify es (prior @ [e]) ds
    | Some d \<Rightarrow> require_that (signature_shape d) ''ERR_SIGNATURE_DATA''
        (and_then (overlay_target parse stringify d prior) (\<lambda>prior.
           overlay_signatures parse stringify es (prior @ [e]) (ds @ [overlay_info (fst e) d]))))"

section \<open>Calls and results\<close>

definition block_list :: "js \<Rightarrow> js list" where
  "block_list v = (case v of JArr bs \<Rightarrow> bs | _ \<Rightarrow> [])"

definition is_array :: "js \<Rightarrow> bool" where
  "is_array v \<longleftrightarrow> (case v of JArr _ \<Rightarrow> True | _ \<Rightarrow> False)"

definition is_flag :: "js \<Rightarrow> bool" where
  "is_flag v \<longleftrightarrow> (case v of JBool _ \<Rightarrow> True | _ \<Rightarrow> False)"

definition validate_message :: "js \<Rightarrow> 'a result \<Rightarrow> 'a result" where
  "validate_message m r = require_that (is_plain_object m \<and> is_identifier (jget ''role'' m)) ''ERR_CONTEXT_MESSAGE''
     (let result = (jget ''role'' m = JStr ''toolResult'') in
      require_that (if jget ''role'' m = JStr ''assistant'' \<or> result
         then is_array (jget ''content'' m) \<and> length (block_list (jget ''content'' m)) \<le> ctx_blocks
            \<and> list_all (\<lambda>b. is_plain_object b \<and> is_identifier (jget ''type'' b)) (block_list (jget ''content'' m)) else True) ''ERR_CONTEXT_CONTENT''
      (require_that (if result then is_identifier (jget ''toolCallId'' m) \<and> is_identifier (jget ''toolName'' m) \<and> is_flag (jget ''isError'' m) else True)
         ''ERR_CONTEXT_RESULT'' r))"

record call_record =
  cl_call :: js
  cl_message :: js
  cl_entry :: js
  cl_index :: nat
  cl_order :: nat

record result_record =
  rs_message :: js
  rs_entry :: js
  rs_order :: nat

record context_index =
  ix_calls :: "(string \<times> call_record) list"
  ix_results :: "(string \<times> result_record) list"

definition is_tool_call :: "js \<Rightarrow> bool" where
  "is_tool_call b \<longleftrightarrow> jget ''type'' b = JStr ''toolCall''"

definition call_shape :: "js \<Rightarrow> bool" where
  "call_shape c \<longleftrightarrow> is_identifier (jget ''id'' c) \<and> is_identifier (jget ''name'' c) \<and> is_plain_object (jget ''arguments'' c)
     \<and> (jget ''async'' c = Undef \<or> is_flag (jget ''async'' c))"

fun index_calls :: "js \<Rightarrow> js \<Rightarrow> nat \<Rightarrow> nat \<Rightarrow> js list \<Rightarrow> (string \<times> call_record) list \<Rightarrow> (string \<times> call_record) list result" where
  "index_calls m eid order i [] cs = Inr cs"
| "index_calls m eid order i (b # bs) cs =
     (if \<not> is_tool_call b then index_calls m eid order (i + 1) bs cs
      else require_that (call_shape b) ''ERR_CONTEXT_CALL''
        (require_that (map_of cs (entry_id b) = None) ''ERR_CONTEXT_DUPLICATE_CALL_ID''
          (index_calls m eid order (i + 1) bs (cs @ [(entry_id b, \<lparr>cl_call = b, cl_message = m, cl_entry = eid, cl_index = i, cl_order = order\<rparr>)]))))"

definition index_message :: "nat \<Rightarrow> js \<times> js \<Rightarrow> context_index \<Rightarrow> context_index result" where
  "index_message order me ix = (case me of (m, eid) \<Rightarrow> validate_message m
     (and_then (if jget ''role'' m = JStr ''assistant'' then index_calls m eid order 0 (block_list (jget ''content'' m)) (ix_calls ix) else Inr (ix_calls ix)) (\<lambda>cs.
        if jget ''role'' m = JStr ''toolResult''
        then require_that (map_of (ix_results ix) (text_of (jget ''toolCallId'' m)) = None) ''ERR_CONTEXT_DUPLICATE_RESULT_ID''
          (Inr \<lparr>ix_calls = cs, ix_results = ix_results ix @ [(text_of (jget ''toolCallId'' m), \<lparr>rs_message = m, rs_entry = eid, rs_order = order\<rparr>)]\<rparr>)
        else Inr \<lparr>ix_calls = cs, ix_results = ix_results ix\<rparr>)))"

fun index_records :: "nat \<Rightarrow> (js \<times> js) list \<Rightarrow> context_index \<Rightarrow> context_index result" where
  "index_records order [] ix = Inr ix"
| "index_records order (m # ms) ix = and_then (index_message order m ix) (index_records (order + 1) ms)"

definition match_result :: "context_index \<Rightarrow> string \<times> result_record \<Rightarrow> error option" where
  "match_result ix ir = (case ir of (i, r) \<Rightarrow> (case map_of (ix_calls ix) i of
      None \<Rightarrow> None
    | Some c \<Rightarrow> if jget ''name'' (cl_call c) \<noteq> jget ''toolName'' (rs_message r)
          then Some (Coded ''ERR_CONTEXT_RESULT_NAME'' ''Canonical context rejected: ERR_CONTEXT_RESULT_NAME'')
        else if \<not> cl_order c < rs_order r
          then Some (Coded ''ERR_CONTEXT_RESULT_BEFORE_CALL'' ''Canonical context rejected: ERR_CONTEXT_RESULT_BEFORE_CALL'')
        else None))"

definition no_index :: context_index where
  "no_index = \<lparr>ix_calls = [], ix_results = []\<rparr>"

definition index_messages :: "(js \<times> js) list \<Rightarrow> context_index result" where
  "index_messages ms = and_then (index_records 0 ms no_index) (\<lambda>ix.
     case List.map_filter (match_result ix) (ix_results ix) of [] \<Rightarrow> Inr ix | e # _ \<Rightarrow> Inl e)"

definition branch_messages :: "js list \<Rightarrow> (js \<times> js) list" where
  "branch_messages es = map (\<lambda>e. (jget ''message'' e, jget ''id'' e)) (filter (\<lambda>e. jget ''type'' e = JStr ''message'') es)"

definition project_canonical_branch :: "(string \<Rightarrow> js option) \<Rightarrow> (js \<Rightarrow> string) \<Rightarrow> js \<Rightarrow> js \<Rightarrow> (js list \<times> js list) result" where
  "project_canonical_branch parse stringify entries leaf =
     and_then (copy_archive entries) (\<lambda>archive.
     and_then (select_branch archive leaf) (\<lambda>selected.
     and_then (validate_compactions (map fst selected)) (\<lambda>_.
     and_then (overlay_signatures parse stringify selected [] []) (\<lambda>(es, ds).
     and_then (index_messages (branch_messages (map fst es))) (\<lambda>_. Inr (map fst es, ds))))))"

section \<open>The selected path\<close>

text \<open>The entries lead from \<open>parent\<close> to \<open>leaf\<close>, each the parent of the next.\<close>

fun links :: "js \<Rightarrow> archive_entry list \<Rightarrow> js \<Rightarrow> bool" where
  "links parent [] leaf \<longleftrightarrow> leaf = parent"
| "links parent (e # es) leaf \<longleftrightarrow> jget ''parentId'' (fst e) = parent \<and> links (jget ''id'' (fst e)) es leaf"

lemma links_snoc: "links p (es @ [e]) leaf \<longleftrightarrow> links p es (jget ''parentId'' (fst e)) \<and> leaf = jget ''id'' (fst e)"
  by (induction es arbitrary: p) auto

lemma links_split: "links p (es @ e # fs) leaf \<longleftrightarrow> links p es (jget ''parentId'' (fst e)) \<and> links (jget ''id'' (fst e)) fs leaf"
  by (induction es arbitrary: p) auto

lemma identifier_text: "is_identifier v \<Longrightarrow> v = JStr (text_of v)"
  by (cases v) (simp_all add: is_identifier_def text_of_def)

lemma shape_id: "entry_shape e \<Longrightarrow> jget ''id'' e = JStr (entry_id e)"
  unfolding entry_shape_def entry_id_def using identifier_text by blast

lemma shape_parent: "entry_shape e \<Longrightarrow> jget ''parentId'' e = Null \<or> (\<exists>j. jget ''parentId'' e = JStr j)"
  unfolding entry_shape_def using identifier_text by blast

lemma index_branch_ok:
  "index_branch es m = Inr m' \<Longrightarrow> distinct (map fst m) \<Longrightarrow> m' = m @ map (\<lambda>e. (entry_id (fst e), e)) es
   \<and> list_all (entry_shape \<circ> fst) es \<and> distinct (map fst m @ map (\<lambda>e. entry_id (fst e)) es)"
proof (induction es m rule: index_branch.induct)
  case (2 e es m)
  from 2(2) have e: "entry_shape (fst e)" "map_of m (entry_id (fst e)) = None" "index_branch es (m @ [(entry_id (fst e), e)]) = Inr m'"
    by (auto simp: require_that_Inr)
  have "distinct (map fst (m @ [(entry_id (fst e), e)]))" using e(2) 2(3) by (simp add: map_of_eq_None_iff)
  from 2(1) [OF e(3) this] e(1) show ?case by simp
qed simp

text \<open>An archive whose entries are well formed, with an id of their own each.\<close>

definition archive_ok :: "archive_entry list \<Rightarrow> bool" where
  "archive_ok es \<longleftrightarrow> list_all (entry_shape \<circ> fst) es \<and> distinct (map (\<lambda>e. entry_id (fst e)) es)"

lemma index_branch_iff: "(\<exists>m. index_branch es [] = Inr m) \<longleftrightarrow> archive_ok es"
proof
  assume "\<exists>m. index_branch es [] = Inr m"
  then obtain m where "index_branch es [] = Inr m" ..
  from index_branch_ok [OF this] show "archive_ok es" by (simp add: archive_ok_def)
next
  have "\<exists>m'. index_branch es m = Inr m'" if "list_all (entry_shape \<circ> fst) es" "distinct (map fst m @ map (\<lambda>e. entry_id (fst e)) es)" for m
    using that
  proof (induction es m rule: index_branch.induct)
    case (2 e es m)
    then have "map_of m (entry_id (fst e)) = None" by (simp add: map_of_eq_None_iff)
    moreover have "\<exists>m'. index_branch es (m @ [(entry_id (fst e), e)]) = Inr m'" using 2 by simp
    ultimately show ?case using 2(2) by (simp add: require_that_def)
  qed simp
  then show "archive_ok es \<Longrightarrow> \<exists>m. index_branch es [] = Inr m" by (simp add: archive_ok_def)
qed

lemma index_branch_value: "archive_ok es \<Longrightarrow> index_branch es [] = Inr (map (\<lambda>e. (entry_id (fst e), e)) es)"
proof -
  assume "archive_ok es"
  then obtain m where m: "index_branch es [] = Inr m" using index_branch_iff by blast
  from index_branch_ok [OF m] m show ?thesis by simp
qed

lemma archive_map_of:
  assumes "archive_ok es"
  shows "map_of (map (\<lambda>e. (entry_id (fst e), e)) es) i = Some e \<longleftrightarrow> e \<in> set es \<and> entry_id (fst e) = i"
proof -
  have "distinct (map fst (map (\<lambda>e. (entry_id (fst e), e)) es))" using assms by (simp add: archive_ok_def comp_def)
  from map_of_eq_Some_iff [OF this] show ?thesis by auto
qed

lemma archive_same: "archive_ok es \<Longrightarrow> e \<in> set es \<Longrightarrow> f \<in> set es \<Longrightarrow> jget ''id'' (fst e) = jget ''id'' (fst f) \<Longrightarrow> e = f"
  using archive_map_of [of es "entry_id (fst f)" e] archive_map_of [of es "entry_id (fst f)" f] by (simp add: entry_id_def)

lemma archive_id: "archive_ok es \<Longrightarrow> e \<in> set es \<Longrightarrow> jget ''id'' (fst e) = JStr (entry_id (fst e))"
  by (simp add: archive_ok_def list_all_iff shape_id)

lemma path_unique:
  assumes "archive_ok es"
  shows "set p \<subseteq> set es \<Longrightarrow> set q \<subseteq> set es \<Longrightarrow> links Null p x \<Longrightarrow> links Null q x \<Longrightarrow> p = q"
proof (induction p arbitrary: q x rule: rev_induct)
  case Nil
  then show ?case using archive_id [OF assms] by (cases q rule: rev_cases) (auto simp: links_snoc)
next
  case (snoc e p)
  then have x: "x = jget ''id'' (fst e)" "links Null p (jget ''parentId'' (fst e))" "e \<in> set es" by (auto simp: links_snoc)
  show ?case
  proof (cases q rule: rev_cases)
    case Nil
    then show ?thesis using snoc.prems(4) x archive_id [OF assms] by auto
  next
    case (snoc q' f)
    then have f: "x = jget ''id'' (fst f)" "links Null q' (jget ''parentId'' (fst f))" "f \<in> set es" "set q' \<subseteq> set es"
      using snoc.prems by (auto simp: links_snoc)
    then have "e = f" using archive_same [OF assms] x by metis
    then show ?thesis using snoc.IH [of q' "jget ''parentId'' (fst e)"] snoc.prems x f snoc by simp
  qed
qed

lemma path_distinct:
  assumes "archive_ok es" "set p \<subseteq> set es" "links Null p x"
  shows "distinct p"
proof (rule ccontr)
  assume "\<not> distinct p"
  then obtain a b c e where p: "p = a @ [e] @ b @ [e] @ c" using not_distinct_decomp by blast
  then have "p = a @ e # (b @ e # c)" "p = (a @ e # b) @ e # c" by simp_all
  then have "links Null a (jget ''parentId'' (fst e))" "links Null (a @ e # b) (jget ''parentId'' (fst e))"
    using assms(3) links_split by metis+
  moreover have "set a \<subseteq> set es" "set (a @ e # b) \<subseteq> set es" using assms(2) p by auto
  ultimately have "a = a @ e # b" using path_unique [OF assms(1)] by blast
  then show False by simp
qed

lemma walk_down:
  assumes "archive_ok es"
  shows "set p \<subseteq> set es \<Longrightarrow> links Null p x \<Longrightarrow> list_all (\<lambda>e. entry_id (fst e) \<notin> set seen) p
    \<Longrightarrow> walk_branch (map (\<lambda>e. (entry_id (fst e), e)) es) x seen acc = Inr (p @ acc)"
proof (induction p arbitrary: x seen acc rule: rev_induct)
  case Nil
  then show ?case by (simp add: walk_branch.simps)
next
  case (snoc e p)
  then have x: "x = JStr (entry_id (fst e))" "links Null p (jget ''parentId'' (fst e))" "e \<in> set es" "set p \<subseteq> set es"
    using archive_id [OF assms] by (auto simp: links_snoc)
  have "e \<notin> set p" using path_distinct [OF assms snoc.prems(1, 2)] by simp
  then have new: "entry_id (fst f) \<noteq> entry_id (fst e)" if "f \<in> set p" for f
    using that archive_same [OF assms] archive_id [OF assms] x by (metis subsetD)
  have "list_all (\<lambda>f. entry_id (fst f) \<notin> set (entry_id (fst e) # seen)) p" using new snoc.prems(3) by (auto simp: list_all_iff)
  moreover have "map_of (map (\<lambda>e. (entry_id (fst e), e)) es) (entry_id (fst e)) = Some e" using x(3) archive_map_of [OF assms] by blast
  ultimately show ?case using snoc.IH [OF x(4) x(2)] x(1) snoc.prems(3) by (subst walk_branch.simps) simp
qed

lemma walk_up:
  assumes "archive_ok es"
  shows "walk_branch (map (\<lambda>e. (entry_id (fst e), e)) es) x seen acc = Inr r \<Longrightarrow> x = Null \<or> (\<exists>i. x = JStr i)
    \<Longrightarrow> \<exists>p. r = p @ acc \<and> set p \<subseteq> set es \<and> links Null p x"
proof (induction "map (\<lambda>e. (entry_id (fst e), e)) es" x seen acc rule: walk_branch.induct)
  case (1 x seen acc)
  show ?case
  proof (cases "x = Null")
    case True
    then show ?thesis using 1(2) by (auto simp: walk_branch.simps)
  next
    case False
    then obtain i where i: "x = JStr i" using 1(3) by blast
    have "i \<notin> set seen" using 1(2) i by (subst (asm) walk_branch.simps) (auto split: if_splits)
    moreover then obtain e where m: "map_of (map (\<lambda>e. (entry_id (fst e), e)) es) i = Some e"
      using 1(2) i by (subst (asm) walk_branch.simps) (auto split: option.splits)
    moreover have e: "e \<in> set es" "entry_id (fst e) = i" using m archive_map_of [OF assms] by auto
    moreover have "jget ''parentId'' (fst e) = Null \<or> (\<exists>j. jget ''parentId'' (fst e) = JStr j)"
      using e(1) assms shape_parent by (simp add: archive_ok_def list_all_iff)
    moreover have "walk_branch (map (\<lambda>e. (entry_id (fst e), e)) es) (jget ''parentId'' (fst e)) (i # seen) (e # acc) = Inr r"
      using 1(2) i calculation(1, 2) by (subst (asm) walk_branch.simps) simp
    ultimately obtain p where "r = p @ e # acc" "set p \<subseteq> set es" "links Null p (jget ''parentId'' (fst e))"
      using 1(1) [OF i] by blast
    then show ?thesis using e i archive_id [OF assms e(1)]
      by (intro exI [of _ "p @ [e]"]) (simp add: links_snoc)
  qed
qed

text \<open>
  C14: Selection succeeds exactly on a well-formed archive with a parent path to the leaf, and returns that path, from the
  root entry to the leaf; a cycle, a missing parent, a repeated id or a malformed entry is rejected.
\<close>

theorem selected_branch_is_path:
  "select_branch es leaf = Inr p \<longleftrightarrow> length es \<le> ctx_entries \<and> (leaf = Null \<or> is_identifier leaf) \<and> archive_ok es
     \<and> set p \<subseteq> set es \<and> links Null p leaf"
proof -
  have leaf: "leaf = Null \<or> is_identifier leaf \<Longrightarrow> leaf = Null \<or> (\<exists>i. leaf = JStr i)"
    using identifier_text by blast
  have "archive_ok es \<Longrightarrow> leaf = Null \<or> is_identifier leaf \<Longrightarrow>
      walk_branch (map (\<lambda>e. (entry_id (fst e), e)) es) leaf [] [] = Inr p \<longleftrightarrow> set p \<subseteq> set es \<and> links Null p leaf"
    using walk_down [of es p leaf "[]" "[]"] walk_up [of es leaf "[]" "[]" p] leaf by (auto simp: list_all_iff)
  then show ?thesis
    unfolding select_branch_def select_indexed_branch_def copy_success
    using index_branch_iff [of es] index_branch_value [of es] by auto
qed

end
