(* ===== verification/Association.thy ===== *)
theory Association
  imports Requests Inputs "HOL-Library.Char_ord" "HOL-Library.List_Lexorder" "HOL-Library.Multiset"
begin

text \<open>
  Which transcript entry incorporated an input (src/conversation-projection.mjs). An input counts as delivered only
  when exactly one entry of the canonical transcript matches its durable receipt; conflicting or incomplete evidence leaves it
  unresolved, and only the absence of any evidence allows another submission. \<open>Date\<close> is the parameter \<open>date\<close>.
\<close>

section \<open>Text of entries\<close>

definition js_list :: "js \<Rightarrow> js list option" where
  "js_list v = (case v of JArr vs \<Rightarrow> Some vs | _ \<Rightarrow> None)"

definition part_text :: "js \<Rightarrow> string" where
  "part_text part = (case jget ''text'' part of JStr t \<Rightarrow> if jget ''type'' part = JStr ''text'' then t else [] | _ \<Rightarrow> [])"

definition content_text :: "js \<Rightarrow> string" where
  "content_text c = (case c of JStr t \<Rightarrow> t | JArr parts \<Rightarrow> concat (map part_text parts) | _ \<Rightarrow> [])"

text \<open>The marker at the very end of a text: a line that names the input by an id without \<open>>\<close> and space.\<close>

definition marker_head :: string where
  "marker_head = [CHR 0x0A, CHR 0x0A] @ ''<!-- persistent-harness-input:''"

definition marker_tail :: string where
  "marker_tail = '' -->''"

definition marker_id :: "string \<Rightarrow> bool" where
  "marker_id i \<longleftrightarrow> matches (\<lambda>c. c \<noteq> CHR ''>'' \<and> \<not> js_space c) 1 128 i"

definition parse_harness_input :: "string \<Rightarrow> (string \<times> string) option" where
  "parse_harness_input t = (case find (\<lambda>n. let r = drop n t in prefix marker_head r \<and> suffix marker_tail r
        \<and> length marker_head + length marker_tail \<le> length r
        \<and> marker_id (take (length r - length marker_head - length marker_tail) (drop (length marker_head) r))) [0..<length t] of
      Some n \<Rightarrow> (let r = drop n t in Some (take (length r - length marker_head - length marker_tail) (drop (length marker_head) r), take n t))
    | None \<Rightarrow> None)"

definition clean_harness_input :: "string \<Rightarrow> string" where
  "clean_harness_input t = (case parse_harness_input t of Some (i, s) \<Rightarrow> s | None \<Rightarrow> t)"

definition iso :: "(js \<Rightarrow> int option) \<Rightarrow> js \<Rightarrow> string option" where
  "iso date v = (if nullish v then None else (case date v of
      Some t \<Rightarrow> (case iso_string t of Inr s \<Rightarrow> Some s | Inl _ \<Rightarrow> None) | None \<Rightarrow> None))"

definition actor_input_type :: string where
  "actor_input_type = ''persistent-harness-input''"

definition user_entry :: "js \<Rightarrow> bool" where
  "user_entry e \<longleftrightarrow> jget ''type'' e = JStr ''message'' \<and> jget ''role'' (jget ''message'' e) = JStr ''user''"

definition custom_entry :: "js \<Rightarrow> bool" where
  "custom_entry e \<longleftrightarrow> jget ''type'' e = JStr ''custom_message'' \<and> jget ''customType'' e = JStr actor_input_type"

definition canonical_user_input_id :: "js \<Rightarrow> string option" where
  "canonical_user_input_id e = (case jget ''id'' (jget ''message'' e) of
      JStr i \<Rightarrow> if user_entry e \<and> i \<noteq> [] then Some i else None | _ \<Rightarrow> None)"

definition message_content :: "js \<Rightarrow> js" where
  "message_content e = (let m = jget ''message'' e in coalesce (jget ''content'' m) (jget ''text'' m))"

definition input_id_for_entry :: "js \<Rightarrow> js" where
  "input_id_for_entry e =
     (if custom_entry e then jget ''inputId'' (jget ''details'' e)
      else if \<not> user_entry e then Undef
      else (case canonical_user_input_id e of
          Some i \<Rightarrow> JStr i
        | None \<Rightarrow> (case parse_harness_input (content_text (message_content e)) of Some (i, _) \<Rightarrow> JStr i | None \<Rightarrow> Undef)))"

section \<open>Equality of values\<close>

text \<open>\<open>isDeepStrictEqual\<close>: equal up to the order of the keys.\<close>

fun canon :: "js \<Rightarrow> js" and canon_items :: "js list \<Rightarrow> js list" and canon_fields :: "(string \<times> js) list \<Rightarrow> (string \<times> js) list" where
  "canon (JArr vs) = JArr (canon_items vs)"
| "canon (JObj ps) = JObj (sort_key fst (canon_fields ps))"
| "canon v = v"
| "canon_items [] = []"
| "canon_items (v # vs) = canon v # canon_items vs"
| "canon_fields [] = []"
| "canon_fields ((k, v) # ps) = (k, canon v) # canon_fields ps"

definition deep_equal :: "js \<Rightarrow> js \<Rightarrow> bool" where
  "deep_equal a b \<longleftrightarrow> canon a = canon b"

section \<open>Canonical content\<close>

definition image_only :: "js \<Rightarrow> js" where
  "image_only part = JObj [(''type'', JStr ''image''), (''data'', jget ''data'' part), (''mimeType'', jget ''mimeType'' part)]"

definition canonical_input_content :: "js \<Rightarrow> (string \<times> input_image list) result" where
  "canonical_input_content c = (case c of
      JStr t \<Rightarrow> Inr (t, [])
    | JArr parts \<Rightarrow>
        if list_ex (\<lambda>p. jget ''type'' p \<noteq> JStr ''text'' \<and> jget ''type'' p \<noteq> JStr ''image''
             \<or> jget ''type'' p = JStr ''text'' \<and> \<not> is_text (jget ''text'' p)) parts
        then Inl (Thrown ''canonical retry input has unsupported content'')
        else (case normalize_input_images False (JArr (map image_only (filter (\<lambda>p. jget ''type'' p = JStr ''image'') parts))) of
            Inl e \<Rightarrow> Inl e | Inr images \<Rightarrow> Inr (content_text c, images))
    | _ \<Rightarrow> Inl (Thrown ''canonical retry input has unsupported content''))"

text \<open>The label in the first line of an internal input: \<open>not a new <label> submission.\<close> at its end.\<close>

definition first_line :: "string \<Rightarrow> string" where
  "first_line t = takeWhile (\<lambda>c. c \<noteq> CHR 0x0A) t"

definition letter :: "char \<Rightarrow> bool" where
  "letter c \<longleftrightarrow> alnum c \<and> c \<notin> set ''0123456789''"

definition word_char :: "char \<Rightarrow> bool" where
  "word_char c \<longleftrightarrow> alnum c \<or> c = CHR ''_''"

definition user_label :: "string \<Rightarrow> string" where
  "user_label t = (let line = rev (first_line t); tail = rev '' submission.'' in
     if \<not> prefix tail line then ''user''
     else (let r = drop (length tail) line; label = takeWhile letter r; before = drop (length label) r; head = rev ''not a new '' in
       if label \<noteq> [] \<and> length label \<le> 32 \<and> prefix head before
          \<and> (case drop (length head) before of [] \<Rightarrow> True | c # _ \<Rightarrow> \<not> word_char c)
       then rev label else ''user''))"

definition put_fields :: "(string \<times> js) list \<Rightarrow> js \<Rightarrow> js" where
  "put_fields fs v = fold (\<lambda>(k, x) v. jset k x v) fs v"

definition canonical_actor_input_content :: "(js \<Rightarrow> int option) \<Rightarrow> js \<Rightarrow> js \<Rightarrow> (string \<times> input_image list \<times> js option) result" where
  "canonical_actor_input_content date e rc =
     (if user_entry e then
        (case canonical_input_content (message_content e) of Inl x \<Rightarrow> Inl x
         | Inr (t, images) \<Rightarrow>
            (case normalize_input_location (jget ''location'' (jget ''message'' e)) of Inl x \<Rightarrow> Inl x
             | Inr location \<Rightarrow> Inr (if canonical_user_input_id e = None then clean_harness_input t else t, images, location)))
      else (let d = jget ''details'' e in
        if \<not> custom_entry e \<or> jget ''source'' rc \<notin> {JStr ''cron'', JStr ''background''} \<or> jget ''source'' d \<noteq> jget ''source'' rc
           \<or> \<not> deep_equal (jget ''origin'' d) (jget ''origin'' rc)
           \<or> jget ''acceptedAt'' d \<noteq> (case iso date (jget ''acceptedAt'' rc) of Some s \<Rightarrow> JStr s | None \<Rightarrow> Null)
           \<or> (\<not> nullish (jget ''clientMessageId'' d) \<and> jget ''clientMessageId'' d \<noteq> jget ''clientMessageId'' rc)
        then Inl (Thrown ''canonical input has no verified internal provenance'')
        else (case canonical_input_content (jget ''content'' e) of Inl x \<Rightarrow> Inl x
          | Inr (t, images) \<Rightarrow> (let
              envelope = put_fields [(''clientMessageId'', coalesce (jget ''clientMessageId'' d) Null), (''images'', JArr [])] rc;
              label = user_label t
            in (case actor_input_custom_payload (put_fields [(''message'', JStr [])] envelope) label of Inl x \<Rightarrow> Inl x
              | Inr p0 \<Rightarrow> (let start = text_of (jget ''content'' p0) in
                  if \<not> prefix start t then Inl (Thrown ''canonical input does not match its formatter'')
                  else (let m = drop (length start) t in
                    (case actor_input_custom_payload (put_fields [(''message'', JStr m), (''images'', JArr (map image_js images))] envelope) label of Inl x \<Rightarrow> Inl x
                     | Inr expected \<Rightarrow>
                        if \<not> deep_equal (jget ''content'' expected) (jget ''content'' e) \<or> \<not> deep_equal (jget ''details'' expected) d
                        then Inl (Thrown ''canonical input does not match its formatter'')
                        else Inr (m, images, None)))))))))"

section \<open>A match of an entry and a receipt\<close>

datatype match_kind = UserId | LegacyMarker | CustomInput

text \<open>The body of a receipt that still has one, or its digest under some behaviour.\<close>

definition legacy_body_matches :: "(string \<Rightarrow> string) \<Rightarrow> (js \<Rightarrow> string) \<Rightarrow> js \<Rightarrow> string \<Rightarrow> input_image list \<Rightarrow> bool result" where
  "legacy_body_matches sha stringify rc t images = (case jget ''message'' rc of
      JStr m \<Rightarrow> if m \<noteq> t then Inr False
        else (case normalize_input_images False (jget ''images'' rc) of Inl x \<Rightarrow> Inl x | Inr ims \<Rightarrow> Inr (map image_js ims = map image_js images))
    | _ \<Rightarrow> (case jget ''digest'' rc of
        JStr d \<Rightarrow> Inr (list_ex (\<lambda>b. actor_input_digest sha t (stringify (JArr (map image_js images))) b None = d) [Auto, Steer, FollowUp])
      | _ \<Rightarrow> Inr False))"

definition entry_match :: "(js \<Rightarrow> int option) \<Rightarrow> (string \<Rightarrow> string) \<Rightarrow> (js \<Rightarrow> string) \<Rightarrow> js \<Rightarrow> js \<Rightarrow> match_kind option" where
  "entry_match date sha stringify e rc =
     (if input_id_for_entry e \<noteq> jget ''inputId'' rc
        \<or> (\<not> nullish (jget ''entryId'' rc) \<and> jget ''entryId'' rc \<noteq> jget ''id'' e)
        \<or> iso date (jget ''timestamp'' e) = None then None
      else if user_entry e then
        (let internal_ok = (if jget ''source'' rc \<in> {JStr ''cron'', JStr ''background''}
             then ok (actor_input_custom_payload (put_fields [(''message'', JStr []), (''images'', JArr [])] rc) ''user'') else True) in
         if canonical_user_input_id e \<noteq> None then (if internal_ok then Some UserId else None)
         else (case canonical_actor_input_content date e rc of
             Inr (t, images, _) \<Rightarrow> (case legacy_body_matches sha stringify rc t images of
                 Inr True \<Rightarrow> if internal_ok then Some LegacyMarker else None | _ \<Rightarrow> None)
           | Inl _ \<Rightarrow> None))
      else if custom_entry e then (if ok (canonical_actor_input_content date e rc) then Some CustomInput else None)
      else None)"

section \<open>The evidence for a receipt\<close>

record association =
  as_strong :: "(string \<times> js \<times> match_kind) option"   \<comment> \<open>entry id, its timestamp and the kind of the match\<close>
  as_legacy :: "(string \<times> js \<times> match_kind) option"
  as_strong_count :: nat
  as_legacy_count :: nat
  as_unknown_strong :: bool
  as_unknown_legacy :: bool

definition no_evidence :: association where
  "no_evidence = \<lparr>as_strong = None, as_legacy = None, as_strong_count = 0, as_legacy_count = 0, as_unknown_strong = False, as_unknown_legacy = False\<rparr>"

definition eligible :: "(js \<Rightarrow> int option) \<Rightarrow> js \<Rightarrow> string \<Rightarrow> bool" where
  "eligible date rc sid \<longleftrightarrow> is_plain_object rc \<and> sid \<noteq> [] \<and> jget ''sessionId'' rc = JStr sid
     \<and> (case jget ''inputId'' rc of JStr i \<Rightarrow> i \<noteq> [] \<and> length i \<le> 128 | _ \<Rightarrow> False) \<and> jget ''outcome'' rc \<noteq> JStr ''handled''
     \<and> js_safe_int (jget ''acceptedAt'' rc) \<noteq> None \<and> iso date (jget ''acceptedAt'' rc) \<noteq> None
     \<and> jget ''source'' rc \<in> {Null, JStr ''user'', JStr ''cron'', JStr ''background''}"

definition entry_known :: "js \<Rightarrow> bool" where
  "entry_known rc \<longleftrightarrow> \<not> nullish (jget ''entryId'' rc)"

definition add_match :: "js \<Rightarrow> js \<Rightarrow> match_kind \<Rightarrow> association \<Rightarrow> association" where
  "add_match rc e k a = (let m = (text_of (jget ''id'' e), jget ''timestamp'' e, k) in
     if entry_known rc \<or> k \<noteq> LegacyMarker
     then a\<lparr>as_strong_count := min 2 (as_strong_count a + 1), as_strong := Some m\<rparr>
     else a\<lparr>as_legacy_count := min 2 (as_legacy_count a + 1), as_legacy := Some m\<rparr>)"

definition add_entry :: "(js \<Rightarrow> int option) \<Rightarrow> (string \<Rightarrow> string) \<Rightarrow> (js \<Rightarrow> string) \<Rightarrow> js \<Rightarrow> string \<Rightarrow> js \<Rightarrow> association \<Rightarrow> association" where
  "add_entry date sha stringify rc sid e a = (if \<not> eligible date rc sid then a
     else (case entry_match date sha stringify e rc of Some k \<Rightarrow> add_match rc e k a | None \<Rightarrow> a))"

text \<open>An entry that could not be read in full: its id and the kind of match it may be.\<close>

definition add_incomplete :: "(js \<Rightarrow> int option) \<Rightarrow> js \<Rightarrow> string \<Rightarrow> js \<Rightarrow> match_kind \<Rightarrow> association \<Rightarrow> association" where
  "add_incomplete date rc sid eid k a =
     (if \<not> eligible date rc sid \<or> entry_known rc \<and> jget ''entryId'' rc \<noteq> eid then a
      else if k = CustomInput \<and> jget ''source'' rc \<notin> {JStr ''cron'', JStr ''background''} then a
      else if jget ''entryId'' rc = eid \<or> k \<noteq> LegacyMarker then a\<lparr>as_unknown_strong := True\<rparr>
      else a\<lparr>as_unknown_legacy := True\<rparr>)"

datatype association_state = Absent | Unresolved | Proven string js match_kind

definition proven :: "(string \<times> js \<times> match_kind) option \<Rightarrow> association_state" where
  "proven m = (case m of Some (i, t, k) \<Rightarrow> Proven i t k | None \<Rightarrow> Absent)"

definition association_result :: "bool \<Rightarrow> association \<Rightarrow> association_state" where
  "association_result whole a =
     (if 1 < as_strong_count a \<or> as_unknown_strong a then Unresolved
      else if as_strong_count a = 1 then proven (as_strong a)
      else if as_unknown_legacy a \<or> 1 < as_legacy_count a \<or> (as_legacy_count a \<noteq> 0 \<and> \<not> whole) then Unresolved
      else if as_legacy_count a = 1 then proven (as_legacy a) else Absent)"

datatype evidence = Entry js | Incomplete js match_kind

definition add_evidence :: "(js \<Rightarrow> int option) \<Rightarrow> (string \<Rightarrow> string) \<Rightarrow> (js \<Rightarrow> string) \<Rightarrow> js \<Rightarrow> string \<Rightarrow> evidence \<Rightarrow> association \<Rightarrow> association" where
  "add_evidence date sha stringify rc sid x a = (case x of
      Entry e \<Rightarrow> add_entry date sha stringify rc sid e a
    | Incomplete eid k \<Rightarrow> add_incomplete date rc sid eid k a)"

definition resolve_association :: "(js \<Rightarrow> int option) \<Rightarrow> (string \<Rightarrow> string) \<Rightarrow> (js \<Rightarrow> string) \<Rightarrow> js \<Rightarrow> string \<Rightarrow> bool \<Rightarrow> evidence list \<Rightarrow> association_state" where
  "resolve_association date sha stringify rc sid whole xs =
     association_result whole (fold (add_evidence date sha stringify rc sid) xs no_evidence)"

section \<open>The verdict\<close>

text \<open>What one piece of evidence says: a strong or legacy match, an unknown of either strength, or nothing.\<close>

datatype finding = StrongMatch string js match_kind | LegacyMatch string js match_kind | UnknownStrong | UnknownLegacy | Nothing

definition finding_of :: "(js \<Rightarrow> int option) \<Rightarrow> (string \<Rightarrow> string) \<Rightarrow> (js \<Rightarrow> string) \<Rightarrow> js \<Rightarrow> string \<Rightarrow> evidence \<Rightarrow> finding" where
  "finding_of date sha stringify rc sid x = (if \<not> eligible date rc sid then Nothing else (case x of
      Entry e \<Rightarrow> (case entry_match date sha stringify e rc of
          None \<Rightarrow> Nothing
        | Some k \<Rightarrow> (if entry_known rc \<or> k \<noteq> LegacyMarker then StrongMatch else LegacyMatch) (text_of (jget ''id'' e)) (jget ''timestamp'' e) k)
    | Incomplete eid k \<Rightarrow>
        if entry_known rc \<and> jget ''entryId'' rc \<noteq> eid \<or> k = CustomInput \<and> jget ''source'' rc \<notin> {JStr ''cron'', JStr ''background''} then Nothing
        else if jget ''entryId'' rc = eid \<or> k \<noteq> LegacyMarker then UnknownStrong else UnknownLegacy))"

fun is_strong :: "finding \<Rightarrow> bool" where "is_strong (StrongMatch _ _ _) = True" | "is_strong _ = False"

fun is_legacy :: "finding \<Rightarrow> bool" where "is_legacy (LegacyMatch _ _ _) = True" | "is_legacy _ = False"

fun as_proven :: "finding \<Rightarrow> association_state" where
  "as_proven (StrongMatch i t k) = Proven i t k"
| "as_proven (LegacyMatch i t k) = Proven i t k"
| "as_proven _ = Absent"

text \<open>The verdict on a list of findings, read off the whole list.\<close>

definition verdict_of :: "bool \<Rightarrow> finding list \<Rightarrow> association_state" where
  "verdict_of whole fs =
     (if UnknownStrong \<in> set fs then Unresolved
      else (case filter is_strong fs of
          [f] \<Rightarrow> as_proven f
        | _ # _ \<Rightarrow> Unresolved
        | [] \<Rightarrow> if UnknownLegacy \<in> set fs then Unresolved
            else (case filter is_legacy fs of
                [] \<Rightarrow> Absent
              | [f] \<Rightarrow> if whole then as_proven f else Unresolved
              | _ \<Rightarrow> Unresolved)))"

definition evidence_state :: "finding list \<Rightarrow> association" where
  "evidence_state fs = \<lparr>as_strong = (case rev (filter is_strong fs) of StrongMatch i t k # _ \<Rightarrow> Some (i, t, k) | _ \<Rightarrow> None),
     as_legacy = (case rev (filter is_legacy fs) of LegacyMatch i t k # _ \<Rightarrow> Some (i, t, k) | _ \<Rightarrow> None),
     as_strong_count = min 2 (length (filter is_strong fs)), as_legacy_count = min 2 (length (filter is_legacy fs)),
     as_unknown_strong = (UnknownStrong \<in> set fs), as_unknown_legacy = (UnknownLegacy \<in> set fs)\<rparr>"

lemma min_step: "min (Suc 0) (min 2 n) = min (Suc 0) (n :: nat)"
  by (simp add: min_def)

lemma evidence_simps:
  "evidence_state (fs @ [Nothing]) = evidence_state fs"
  "evidence_state (fs @ [UnknownStrong]) = (evidence_state fs)\<lparr>as_unknown_strong := True\<rparr>"
  "evidence_state (fs @ [UnknownLegacy]) = (evidence_state fs)\<lparr>as_unknown_legacy := True\<rparr>"
  by (simp_all add: evidence_state_def)

lemma evidence_step: "add_evidence date sha stringify rc sid x (evidence_state fs) = evidence_state (fs @ [finding_of date sha stringify rc sid x])"
proof (cases x)
  case (Entry e)
  then show ?thesis
    by (cases "eligible date rc sid"; cases "entry_match date sha stringify e rc")
      (simp_all add: add_evidence_def add_entry_def add_match_def finding_of_def evidence_state_def Let_def min_step)
next
  case (Incomplete eid k)
  then show ?thesis
    by (cases "eligible date rc sid";
        cases "entry_known rc \<and> jget ''entryId'' rc \<noteq> eid";
        cases "k = CustomInput \<and> jget ''source'' rc \<notin> {JStr ''cron'', JStr ''background''}";
        cases "jget ''entryId'' rc = eid \<or> k \<noteq> LegacyMarker")
      (simp_all only: add_evidence_def add_incomplete_def finding_of_def evidence_simps evidence.case simp_thms if_True if_False)
qed

lemma evidence_run: "fold (add_evidence date sha stringify rc sid) xs no_evidence = evidence_state (map (finding_of date sha stringify rc sid) xs)"
proof (induction xs rule: rev_induct)
  case (snoc x xs)
  then show ?case using evidence_step by simp
qed (simp add: evidence_state_def no_evidence_def)

lemma strong_cases:
  obtains (none) "filter is_strong fs = []" | (one) i t k where "filter is_strong fs = [StrongMatch i t k]"
  | (more) f g r where "filter is_strong fs = f # g # r"
proof (cases "filter is_strong fs" rule: remdups_adj.cases)
  case (2 f)
  have "is_strong f" using 2 by (metis filter_eq_ConsD)
  then show ?thesis using 2 one by (cases f) auto
qed (use none more in auto)

lemma legacy_cases:
  obtains (none) "filter is_legacy fs = []" | (one) i t k where "filter is_legacy fs = [LegacyMatch i t k]"
  | (more) f g r where "filter is_legacy fs = f # g # r"
proof (cases "filter is_legacy fs" rule: remdups_adj.cases)
  case (2 f)
  have "is_legacy f" using 2 by (metis filter_eq_ConsD)
  then show ?thesis using 2 one by (cases f) auto
qed (use none more in auto)

lemmas verdict_defs = association_result_def evidence_state_def verdict_of_def proven_def

lemma legacy_verdict: "UnknownStrong \<notin> set fs \<Longrightarrow> filter is_strong fs = []
  \<Longrightarrow> association_result whole (evidence_state fs) = verdict_of whole fs"
  by (cases fs rule: legacy_cases) (simp_all add: verdict_defs)

lemma result_verdict: "association_result whole (evidence_state fs) = verdict_of whole fs"
proof (cases "UnknownStrong \<in> set fs")
  case False
  then show ?thesis
    by (cases fs rule: strong_cases) (simp_all add: legacy_verdict, simp_all add: verdict_defs)
qed (simp add: verdict_defs)

lemma single_mset: "mset fs = mset gs \<Longrightarrow> fs = [f] \<longleftrightarrow> gs = [f]"
  by (metis mset_single_iff mset_single_iff_right)

lemma filter_mset_eq: "mset fs = mset gs \<Longrightarrow> mset (filter P fs) = mset (filter P gs)"
  by simp

lemma verdict_mset: "mset fs = mset gs \<Longrightarrow> verdict_of whole fs = verdict_of whole gs"
proof -
  assume m: "mset fs = mset gs"
  have s: "set fs = set gs" using m mset_eq_setD by blast
  have strong: "mset (filter is_strong fs) = mset (filter is_strong gs)" using m by simp
  have legacy: "mset (filter is_legacy fs) = mset (filter is_legacy gs)" using m by simp
  have list: "(case xs of [] \<Rightarrow> a | [f] \<Rightarrow> g f | _ \<Rightarrow> c) = (case ys of [] \<Rightarrow> a | [f] \<Rightarrow> g f | _ \<Rightarrow> c)"
    if "mset xs = mset ys" for xs ys :: "finding list" and a c :: association_state and g
    using that by (cases xs rule: remdups_adj.cases; cases ys rule: remdups_adj.cases) (auto dest: mset_eq_length)
  show ?thesis unfolding verdict_of_def s list [OF strong] list [OF legacy] ..
qed

lemma legacy_absent: "UnknownStrong \<notin> set fs \<Longrightarrow> filter is_strong fs = []
  \<Longrightarrow> verdict_of whole fs = Absent \<longleftrightarrow> UnknownLegacy \<notin> set fs \<and> filter is_legacy fs = []"
  by (cases fs rule: legacy_cases) (simp_all add: verdict_of_def)

lemma absent_parts: "verdict_of whole fs = Absent
  \<longleftrightarrow> UnknownStrong \<notin> set fs \<and> filter is_strong fs = [] \<and> UnknownLegacy \<notin> set fs \<and> filter is_legacy fs = []"
proof (cases "UnknownStrong \<in> set fs")
  case False
  then show ?thesis
    by (cases fs rule: strong_cases) (simp_all add: legacy_absent, simp_all add: verdict_of_def)
qed (simp add: verdict_of_def)

lemma nothing_iff: "f = Nothing \<longleftrightarrow> f \<noteq> UnknownStrong \<and> \<not> is_strong f \<and> f \<noteq> UnknownLegacy \<and> \<not> is_legacy f"
  by (cases f) simp_all

lemma verdict_absent: "verdict_of whole fs = Absent \<longleftrightarrow> list_all (\<lambda>f. f = Nothing) fs"
  unfolding absent_parts list_all_iff filter_empty_conv nothing_iff by blast

text \<open>
  C15: The verdict on an input is that of its whole evidence, in whatever order it was read: it is proven delivered only by
  the one strong match, or by the one legacy match of a complete reading, and it is absent only if no entry
  matches and none that could have matched was left unread.
\<close>

theorem association_verdict:
  "resolve_association date sha stringify rc sid whole xs = verdict_of whole (map (finding_of date sha stringify rc sid) xs)
   \<and> (if mset xs = mset ys then resolve_association date sha stringify rc sid whole ys = resolve_association date sha stringify rc sid whole xs else True)
   \<and> (resolve_association date sha stringify rc sid whole xs = Absent \<longleftrightarrow> list_all (\<lambda>x. finding_of date sha stringify rc sid x = Nothing) xs)"
proof -
  have r: "resolve_association date sha stringify rc sid whole zs = verdict_of whole (map (finding_of date sha stringify rc sid) zs)" for zs
    unfolding resolve_association_def evidence_run by (rule result_verdict)
  have ord: "verdict_of whole (map h ys) = verdict_of whole (map h xs)" if "mset xs = mset ys" for h
    using that by (intro verdict_mset) simp
  show ?thesis using ord by (simp add: r verdict_absent list.pred_map comp_def)
qed

end
