(* ===== verification/CanonicalContext.thy ===== *)
theory CanonicalContext
  imports CanonicalBranch Association
begin

text \<open>
  The projection of a selected branch to the messages of a model request (src/canonical-context.mjs): the check of the SDK's
  projection against the branch, the omission of tool calls that were never admitted, the calls still without a result,
  the order of an ordinary request, and the results planned for interrupted calls. The SDK's \<open>buildSessionProjection\<close> is the
  parameter \<open>build\<close>, SHA-256 the parameter \<open>sha\<close>.
\<close>

section \<open>Digests of values\<close>

definition type_name :: "js \<Rightarrow> string" where
  "type_name v = (case v of Undef \<Rightarrow> ''undefined'' | JBool _ \<Rightarrow> ''boolean'' | JNum _ \<Rightarrow> ''number'' | JStr _ \<Rightarrow> ''string'' | JFun \<Rightarrow> ''function'' | _ \<Rightarrow> ''object'')"

definition keyed_text :: "(js \<Rightarrow> string) \<Rightarrow> (string \<times> string) list \<Rightarrow> string" where
  "keyed_text stringify ps = concat (map (\<lambda>(k, t). stringify (JStr k) @ '':'' @ t) (sort_key fst ps))"

fun digest_text :: "(js \<Rightarrow> string) \<Rightarrow> js \<Rightarrow> string"
  and digest_slots :: "(js \<Rightarrow> string) \<Rightarrow> nat \<Rightarrow> js list \<Rightarrow> (string \<times> string) list"
  and digest_fields :: "(js \<Rightarrow> string) \<Rightarrow> (string \<times> js) list \<Rightarrow> (string \<times> string) list"
where
  "digest_text stringify Null = ''null;''"
| "digest_text stringify (JArr vs) = ''object:array:'' @ show_nat (length vs) @ '':'' @ keyed_text stringify (digest_slots stringify 0 vs) @ '';''"
| "digest_text stringify (JObj ps) = ''object:object:'' @ keyed_text stringify (digest_fields stringify ps) @ '';''"
| "digest_text stringify v = type_name v @ '':'' @ stringify v @ '';''"
| "digest_slots stringify i [] = []"
| "digest_slots stringify i (v # vs) = (show_nat i, digest_text stringify v) # digest_slots stringify (i + 1) vs"
| "digest_fields stringify [] = []"
| "digest_fields stringify ((k, v) # ps) = (k, digest_text stringify v) # digest_fields stringify ps"

definition value_digest :: "(string \<Rightarrow> string) \<Rightarrow> (js \<Rightarrow> string) \<Rightarrow> js \<Rightarrow> string" where
  "value_digest sha stringify v = sha (digest_text stringify v)"

section \<open>The SDK's projection\<close>

record projected =
  pm_message :: js
  pm_source :: js
  pm_edited :: bool

definition summary_fields :: "string list" where
  "summary_fields = [''type'', ''id'', ''parentId'', ''timestamp'', ''summary'', ''fromId'', ''tokensBefore'', ''firstKeptEntryId'', ''retainedTail'', ''systemMessage'']"

definition is_object :: "js \<Rightarrow> bool" where
  "is_object v \<longleftrightarrow> (case v of JObj _ \<Rightarrow> True | JArr _ \<Rightarrow> True | _ \<Rightarrow> False)"

text \<open>A generated summary carries the further fields of its entry.\<close>

fun carry_fields :: "(string \<times> js) list \<Rightarrow> js \<Rightarrow> js result" where
  "carry_fields [] m = Inr m"
| "carry_fields ((k, v) # ps) m = (if k \<in> set summary_fields then carry_fields ps m
     else require_that (\<not> jhas k m \<or> deep_equal (jget k m) v) ''ERR_CONTEXT_SUMMARY_CONFLICT'' (carry_fields ps (jset k v m)))"

definition object_fields :: "js \<Rightarrow> (string \<times> js) list" where
  "object_fields v = (case v of JObj ps \<Rightarrow> ps | _ \<Rightarrow> [])"

definition summary_of :: "js \<Rightarrow> js \<Rightarrow> bool" where
  "summary_of source m \<longleftrightarrow> jget ''type'' source = JStr ''compaction'' \<and> jget ''role'' m = JStr ''compactionSummary''
     \<or> jget ''type'' source = JStr ''branch_summary'' \<and> jget ''role'' m = JStr ''branchSummary''"

definition project_message :: "js list \<Rightarrow> js \<Rightarrow> js \<Rightarrow> projected result" where
  "project_message edits source m = (if \<not> is_object m then Inl (TypeErr ''Invalid value used as weak map key'')
     else and_then (if summary_of source m then carry_fields (object_fields source) m else Inr m)
       (\<lambda>m. Inr \<lparr>pm_message = m, pm_source = source, pm_edited = (jget ''id'' source \<in> set edits)\<rparr>))"

fun map_result :: "('a \<Rightarrow> 'b result) \<Rightarrow> 'a list \<Rightarrow> 'b list result" where
  "map_result f [] = Inr []"
| "map_result f (x # xs) = and_then (f x) (\<lambda>y. and_then (map_result f xs) (\<lambda>ys. Inr (y # ys)))"

text \<open>Every source is an entry of the branch, unchanged, and occurs once.\<close>

fun check_sources :: "js list \<Rightarrow> js list \<Rightarrow> js list \<Rightarrow> 'a result \<Rightarrow> 'a result" where
  "check_sources selected [] seen r = r"
| "check_sources selected (s # ss) seen r = (if nullish s then Inl (TypeErr ''Cannot read properties of undefined'')
     else require_that (jget ''id'' s \<notin> set seen
        \<and> (case find (\<lambda>e. jget ''id'' e = jget ''id'' s) selected of Some e \<Rightarrow> deep_equal s e | None \<Rightarrow> False)) ''ERR_CONTEXT_SOURCE_PROJECTION''
       (check_sources selected ss (jget ''id'' s # seen) r))"

definition project_stock_context :: "js \<Rightarrow> js list \<Rightarrow> nat \<Rightarrow> js list option \<Rightarrow> projected list result" where
  "project_stock_context ctx selected limit edited_targets =
     require_that (is_plain_object ctx \<and> is_array (jget ''entries'' ctx) \<and> is_array (jget ''messages'' ctx)) ''ERR_CONTEXT_HELPER_RESULT''
     (let es = block_list (jget ''entries'' ctx) in
      if list_ex nullish es then Inl (TypeErr ''Cannot read properties of undefined'')
      else and_then (snapshot_canonical_archive (JArr (map (jget ''sourceEntry'') es))) (\<lambda>sources.
        and_then (copy_data limit (JArr (map (jget ''messages'') es))) (\<lambda>groups.
        require_that (list_all is_array (block_list groups)) ''ERR_CONTEXT_HELPER_RESULT''
        (let gs = map block_list (block_list groups) in
         require_that (deep_equal (JArr (concat gs)) (jget ''messages'' ctx)) ''ERR_CONTEXT_HELPER_RESULT''
         (check_sources selected sources []
           (let edits = (case edited_targets of Some ts \<Rightarrow> ts
                  | None \<Rightarrow> map (jget ''targetId'') (filter (\<lambda>s. jget ''type'' s = JStr ''context_edit'') sources)) in
            map_result (\<lambda>(s, m). project_message edits s m) (concat (map (\<lambda>(s, g). map (Pair s) g) (zip sources gs)))))))))"

text \<open>A call or result of the projection is that of the branch, from the same entry; an edit may change only content.\<close>

definition same_message :: "projected \<Rightarrow> js option \<Rightarrow> js \<Rightarrow> js \<Rightarrow> js option \<Rightarrow> bool" where
  "same_message pm call canonical_entry canonical_message canonical_call \<longleftrightarrow> jget ''id'' (pm_source pm) = canonical_entry
     \<and> (if \<not> pm_edited pm then deep_equal (pm_message pm) canonical_message
        else deep_equal (jdelete ''content'' (pm_message pm)) (jdelete ''content'' canonical_message)
          \<and> (case (call, canonical_call) of (Some c, Some d) \<Rightarrow> deep_equal c d | (Some _, None) \<Rightarrow> False | (None, _) \<Rightarrow> True))"

definition same_calls :: "projected list \<Rightarrow> context_index \<Rightarrow> context_index \<Rightarrow> bool" where
  "same_calls ms kept canonical \<longleftrightarrow> list_all (\<lambda>(i, c). case map_of (ix_calls canonical) i of
      Some d \<Rightarrow> same_message (ms ! cl_order c) (Some (cl_call c)) (cl_entry d) (cl_message d) (Some (cl_call d)) | None \<Rightarrow> False) (ix_calls kept)"

definition same_results :: "projected list \<Rightarrow> context_index \<Rightarrow> context_index \<Rightarrow> bool" where
  "same_results ms kept canonical \<longleftrightarrow> list_all (\<lambda>(i, r). case map_of (ix_results canonical) i of
      Some d \<Rightarrow> same_message (ms ! rs_order r) None (rs_entry d) (rs_message d) None | None \<Rightarrow> False) (ix_results kept)"

section \<open>Evidence that a call was not admitted\<close>

fun split_bar :: "string \<Rightarrow> string list" where
  "split_bar [] = [[]]"
| "split_bar (c # cs) = (if c = CHR ''|'' then [] # split_bar cs
     else (case split_bar cs of p # ps \<Rightarrow> (c # p) # ps | [] \<Rightarrow> [[c]]))"

definition provider_part :: "js \<Rightarrow> bool" where
  "provider_part v \<longleftrightarrow> is_identifier v \<and> CHR ''|'' \<notin> set (text_of v)"

definition provider_tuple :: "js \<Rightarrow> string list option" where
  "provider_tuple call = (case split_bar (entry_id call) of
      [a, b] \<Rightarrow> if provider_part (JStr a) \<and> provider_part (JStr b)
          \<and> (if jhas ''providerCallId'' call \<or> jhas ''providerItemId'' call
             then jget ''providerCallId'' call = JStr a \<and> jget ''providerItemId'' call = JStr b else True)
        then Some [a, b] else None
    | _ \<Rightarrow> None)"

definition row_tuple :: "js \<Rightarrow> string" where
  "row_tuple row = text_of (jget ''callId'' row) @ ''|'' @ text_of (jget ''itemId'' row)"

definition yes :: "string \<Rightarrow> js \<Rightarrow> bool" where
  "yes k v \<longleftrightarrow> jget k v = JBool True"

definition attempt_shape :: "nat \<Rightarrow> js list \<Rightarrow> js \<Rightarrow> bool" where
  "attempt_shape n seen a \<longleftrightarrow> is_plain_object a \<and> is_identifier (jget ''attemptId'' a) \<and> jget ''attemptId'' a \<notin> set seen
     \<and> jget ''attemptNumber'' a = jint (int n + 1) \<and> jget ''transport'' a \<in> {JStr ''websocket'', JStr ''sse''}
     \<and> list_all (\<lambda>k. is_flag (jget k a)) [''sent'', ''created'', ''providerTools'', ''retired'', ''fenced'', ''possibleUsage'']
     \<and> yes ''retired'' a \<and> yes ''fenced'' a
     \<and> jget ''outcome'' a \<in> {JStr ''not_sent'', JStr ''unknown'', JStr ''rejected'', JStr ''failed'', JStr ''completed''}
     \<and> (jget ''responseId'' a = Undef \<or> is_identifier (jget ''responseId'' a))
     \<and> is_array (jget ''observedCalls'' a) \<and> length (block_list (jget ''observedCalls'' a)) \<le> ctx_blocks"

definition attempt_consistent :: "js \<Rightarrow> bool" where
  "attempt_consistent a \<longleftrightarrow> (let used = yes ''created'' a \<or> yes ''possibleUsage'' a \<or> block_list (jget ''observedCalls'' a) \<noteq> [] in
     \<not> (\<not> yes ''sent'' a \<and> (jget ''outcome'' a \<noteq> JStr ''not_sent'' \<or> jget ''responseId'' a \<noteq> Undef \<or> used)
        \<or> jget ''outcome'' a = JStr ''not_sent'' \<and> yes ''sent'' a
        \<or> jget ''outcome'' a = JStr ''rejected'' \<and> used))"

fun observed_rows_ok :: "js \<Rightarrow> js list \<Rightarrow> js list \<Rightarrow> bool" where
  "observed_rows_ok a [] used = True"
| "observed_rows_ok a (r # rs) used \<longleftrightarrow> is_plain_object r \<and> provider_part (jget ''callId'' r) \<and> provider_part (jget ''itemId'' r)
     \<and> is_flag (jget ''complete'' r) \<and> is_flag (jget ''native'' r) \<and> \<not> (yes ''native'' r \<and> \<not> yes ''complete'' r) \<and> yes ''sent'' a
     \<and> jget ''callId'' r \<notin> set used \<and> jget ''itemId'' r \<notin> set used
     \<and> observed_rows_ok a rs (jget ''callId'' r # jget ''itemId'' r # used)"

text \<open>The rows of all attempts, unless one of them makes the report worthless.\<close>

fun attempt_rows :: "nat \<Rightarrow> js list \<Rightarrow> js list \<Rightarrow> js list option" where
  "attempt_rows n seen [] = Some []"
| "attempt_rows n seen (a # as) = (if attempt_shape n seen a \<and> attempt_consistent a \<and> observed_rows_ok a (block_list (jget ''observedCalls'' a)) []
     then (case attempt_rows (n + 1) (jget ''attemptId'' a # seen) as of
        Some rs \<Rightarrow> Some (block_list (jget ''observedCalls'' a) @ rs) | None \<Rightarrow> None)
     else None)"

definition never_complete :: "js list \<Rightarrow> string \<Rightarrow> bool" where
  "never_complete rows t \<longleftrightarrow> list_all (\<lambda>r. \<not> yes ''complete'' r \<and> \<not> yes ''native'' r) (filter (\<lambda>r. row_tuple r = t) rows)"

definition alias_tuples :: "js list \<Rightarrow> js \<Rightarrow> string list" where
  "alias_tuples rows x = remdups (map row_tuple (filter (\<lambda>r. jget ''callId'' r = x \<or> jget ''itemId'' r = x) rows))"

definition incomplete_observations :: "js \<Rightarrow> string list" where
  "incomplete_observations report =
     (let as = block_list (jget ''attempts'' report); latest = jdelete ''attempts'' (jdelete ''requestId'' (jdelete ''version'' report)) in
      if \<not> is_plain_object report \<or> jget ''version'' report \<noteq> jint 1 \<or> \<not> is_identifier (jget ''requestId'' report)
        \<or> \<not> is_array (jget ''attempts'' report) \<or> as = [] \<or> ctx_blocks < length as \<or> \<not> deep_equal latest (last as) then []
      else (case attempt_rows 0 [] as of
          None \<Rightarrow> []
        | Some rows \<Rightarrow>
            if \<not> yes ''sent'' latest \<or> \<not> yes ''created'' latest \<or> jget ''outcome'' latest \<notin> {JStr ''unknown'', JStr ''failed''} then []
            else map row_tuple (filter (\<lambda>r. never_complete rows (row_tuple r)
               \<and> length (alias_tuples rows (jget ''callId'' r)) = 1 \<and> length (alias_tuples rows (jget ''itemId'' r)) = 1)
               (block_list (jget ''observedCalls'' latest)))))"

definition plain_call :: "js \<Rightarrow> bool" where
  "plain_call b \<longleftrightarrow> \<not> is_tool_call b
     \<or> jget ''async'' b \<noteq> JBool True \<and> \<not> jhas ''nativeProvenance'' b \<and> \<not> jhas ''providerCallId'' b \<and> \<not> jhas ''providerItemId'' b"

definition transport_failure :: "js \<Rightarrow> js \<Rightarrow> bool" where
  "transport_failure m x \<longleftrightarrow> (let d = jget ''details'' x in
     is_plain_object x \<and> jget ''type'' x = JStr ''provider_transport_failure'' \<and> is_plain_object d
     \<and> yes ''eventsEmitted'' d \<and> jget ''phase'' d = JStr ''after_message_stream_start''
     \<and> (if jhas ''producer'' d \<or> jhas ''transport'' d
        then jget ''producer'' d = JStr ''persistent-harness-sse-body-read-v1'' \<and> jget ''transport'' d = JStr ''sse''
          \<and> jget ''configuredTransport'' d \<in> {JStr ''auto'', JStr ''sse'', JStr ''websocket''} \<and> jget ''stopReason'' m = JStr ''error''
        else jget ''configuredTransport'' d \<in> {JStr ''auto'', JStr ''websocket''}))"

definition ordinary_failed_terminal :: "js \<Rightarrow> bool" where
  "ordinary_failed_terminal m \<longleftrightarrow> jget ''api'' m = JStr ''openai-codex-responses'' \<and> jget ''provider'' m = JStr ''openai-codex''
     \<and> \<not> jhas ''nativeTransport'' m \<and> \<not> jhas ''nativeProviderError'' m
     \<and> list_all plain_call (block_list (jget ''content'' m))
     \<and> is_array (jget ''diagnostics'' m) \<and> list_ex (transport_failure m) (block_list (jget ''diagnostics'' m))"

end
