(* ===== verification/CanonicalProjection.thy ===== *)
theory CanonicalProjection
  imports CanonicalContext
begin

text \<open>
  The projection itself (src/canonical-context.mjs): witnesses of calls that an ordinary attempt never admitted, the calls omitted
  from a request, the calls outstanding, the order and the diagnostics of an ordinary request, and recovery.
\<close>

section \<open>Witnesses of non-admission\<close>

definition ordinary_non_native_failure :: "js \<Rightarrow> bool" where
  "ordinary_non_native_failure m \<longleftrightarrow> jget ''role'' m = JStr ''assistant'' \<and> is_identifier (jget ''id'' m)
     \<and> is_identifier (jget ''api'' m) \<and> is_identifier (jget ''provider'' m) \<and> is_identifier (jget ''model'' m)
     \<and> jget ''stopReason'' m \<in> {JStr ''error'', JStr ''aborted''}
     \<and> \<not> jhas ''nativeTransport'' m \<and> \<not> jhas ''nativeProviderError'' m
     \<and> is_array (jget ''content'' m) \<and> list_all plain_call (block_list (jget ''content'' m))"

definition content_blocks :: "js \<Rightarrow> js" where
  "content_blocks c = (case c of JStr t \<Rightarrow> JArr [JObj [(''type'', JStr ''text''), (''text'', JStr t)]] | _ \<Rightarrow> c)"

definition content_valid :: "js \<Rightarrow> bool" where
  "content_valid c \<longleftrightarrow> is_array (content_blocks c) \<and> length (block_list (content_blocks c)) \<le> ctx_blocks
     \<and> list_all (\<lambda>b. is_plain_object b \<and> is_identifier (jget ''type'' b)) (block_list (content_blocks c))"

definition tool_calls :: "js list \<Rightarrow> (nat \<times> js) list" where
  "tool_calls bs = filter (\<lambda>(i, b). is_tool_call b) (zip [0..<length bs] bs)"

text \<open>The calls of a failed ordinary message, when all of them are valid and named once.\<close>

definition non_admission_calls :: "(string \<Rightarrow> string) \<Rightarrow> (js \<Rightarrow> string) \<Rightarrow> js \<Rightarrow> js list option" where
  "non_admission_calls sha stringify m = (let cs = tool_calls (block_list (content_blocks (jget ''content'' m))) in
     if ordinary_non_native_failure m \<and> content_valid (jget ''content'' m) \<and> cs \<noteq> [] \<and> list_all (call_shape \<circ> snd) cs
        \<and> distinct (map (\<lambda>(i, c). jget ''id'' c) cs)
     then Some (map (\<lambda>(i, c). JObj [(''contentIndex'', jint (int i)), (''toolCallId'', jget ''id'' c), (''toolName'', jget ''name'' c),
            (''callDigest'', JStr (value_digest sha stringify c))]) cs)
     else None)"

definition ordinary_non_admission_witness :: "(string \<Rightarrow> string) \<Rightarrow> (js \<Rightarrow> string) \<Rightarrow> js \<Rightarrow> js \<Rightarrow> js \<Rightarrow> js option" where
  "ordinary_non_admission_witness sha stringify e request attempt = (let m = jget ''message'' e in
     if jget ''type'' e \<noteq> JStr ''message'' \<or> \<not> is_plain_object m \<or> \<not> is_identifier (jget ''id'' e) \<or> \<not> is_identifier request \<or> \<not> is_identifier attempt then None
     else (case non_admission_calls sha stringify m of None \<Rightarrow> None
       | Some calls \<Rightarrow> Some (JObj [(''version'', jint 1), (''messageEntryId'', jget ''id'' e), (''messageId'', jget ''id'' m),
            (''requestId'', request), (''attemptId'', attempt), (''calls'', JArr calls)])))"

definition non_admission_type :: string where
  "non_admission_type = ''persistent-harness:ordinary-non-admission:v1''"

definition witness_fields :: "string list" where
  "witness_fields = [''version'', ''messageEntryId'', ''messageId'', ''requestId'', ''attemptId'', ''calls'']"

text \<open>The calls a custom entry proves not admitted: those of its parent, if it is that message.\<close>

definition witnessed_non_admission :: "(string \<Rightarrow> string) \<Rightarrow> (js \<Rightarrow> string) \<Rightarrow> js \<Rightarrow> js option \<Rightarrow> string list" where
  "witnessed_non_admission sha stringify e target = (case target of
      None \<Rightarrow> []
    | Some t \<Rightarrow> (let d = jget ''data'' e; m = jget ''message'' t in
        if jget ''type'' e \<noteq> JStr ''custom'' \<or> jget ''customType'' e \<noteq> JStr non_admission_type
          \<or> \<not> is_plain_object d \<or> jget ''version'' d \<noteq> jint 1 \<or> \<not> is_identifier (jget ''requestId'' d) \<or> \<not> is_identifier (jget ''attemptId'' d)
          \<or> jget ''parentId'' e \<noteq> jget ''id'' t \<or> jget ''messageEntryId'' d \<noteq> jget ''id'' t
          \<or> jget ''messageId'' d \<noteq> (if is_identifier (jget ''id'' m) then jget ''id'' m else Undef)
          \<or> sort (keys d) \<noteq> sort witness_fields then []
        else (case non_admission_calls sha stringify m of None \<Rightarrow> []
          | Some calls \<Rightarrow> if deep_equal (jget ''calls'' d) (JArr calls) then map (\<lambda>c. text_of (jget ''toolCallId'' c)) calls else [])))"

fun owned_from :: "(string \<Rightarrow> string) \<Rightarrow> (js \<Rightarrow> string) \<Rightarrow> js list \<Rightarrow> js list \<Rightarrow> string list" where
  "owned_from sha stringify prior [] = []"
| "owned_from sha stringify prior (e # es) =
     (if jget ''type'' e = JStr ''custom'' \<and> jget ''customType'' e = JStr non_admission_type
      then witnessed_non_admission sha stringify e (case find (\<lambda>x. jget ''id'' x = jget ''parentId'' e) prior of
          Some t \<Rightarrow> if jget ''type'' t = JStr ''message'' then Some t else None | None \<Rightarrow> None) else [])
     @ owned_from sha stringify (prior @ [e]) es"

definition owned_non_admissions :: "(string \<Rightarrow> string) \<Rightarrow> (js \<Rightarrow> string) \<Rightarrow> js list \<Rightarrow> string list" where
  "owned_non_admissions sha stringify selected = owned_from sha stringify [] selected"

section \<open>Aliases\<close>

datatype alias_owner = OwnerCall string | OwnerResult string

definition alias_names :: "string \<Rightarrow> js \<Rightarrow> string list" where
  "alias_names i call = map text_of (filter is_identifier
     ([JStr i] @ map JStr (split_bar i) @ [jget ''providerCallId'' call, jget ''providerItemId'' call]))"

definition record_aliases :: "context_index \<Rightarrow> (string \<times> alias_owner) list" where
  "record_aliases ix = concat (map (\<lambda>(i, c). map (\<lambda>a. (a, OwnerCall i)) (alias_names i (cl_call c))) (ix_calls ix))
     @ concat (map (\<lambda>(i, r). map (\<lambda>a. (a, OwnerResult i)) (alias_names i Undef)) (ix_results ix))"

definition row_alias :: "js \<Rightarrow> string option" where
  "row_alias r = (if provider_part (jget ''callId'' r) \<and> provider_part (jget ''itemId'' r)
       \<and> jget ''complete'' r = JBool False \<and> jget ''native'' r = JBool False then Some (row_tuple r) else None)"

definition report_rows :: "js \<Rightarrow> js list" where
  "report_rows report = (if \<not> is_plain_object report then []
     else concat (map (\<lambda>s. if is_plain_object s \<and> is_array (jget ''observedCalls'' s) then filter is_plain_object (block_list (jget ''observedCalls'' s)) else [])
       (report # block_list (jget ''attempts'' report))))"

definition observed_aliases :: "js list \<Rightarrow> (string \<times> string option) list" where
  "observed_aliases selected = concat (map (\<lambda>e. if jget ''type'' e = JStr ''message'' \<and> jget ''role'' (jget ''message'' e) = JStr ''assistant''
     then concat (map (\<lambda>r. map (\<lambda>a. (text_of a, row_alias r)) (filter is_identifier [jget ''callId'' r, jget ''itemId'' r]))
       (report_rows (jget ''nativeTransport'' (jget ''message'' e)))) else []) selected)"

definition owners :: "('a \<times> 'b) list \<Rightarrow> 'a \<Rightarrow> 'b list" where
  "owners as a = remdups (map snd (filter (\<lambda>(x, v). x = a) as))"

definition omission_call_aliases :: "string \<Rightarrow> string list option \<Rightarrow> bool \<Rightarrow> string list option" where
  "omission_call_aliases i tuple owned =
     (if owned then Some (remdups (filter (\<lambda>a. is_identifier (JStr a)) (i # split_bar i))) else tuple)"

section \<open>Omission of calls that were not admitted\<close>

definition failed_message :: "js \<Rightarrow> bool" where
  "failed_message m \<longleftrightarrow> jget ''role'' m = JStr ''assistant'' \<and> jget ''stopReason'' m \<in> {JStr ''error'', JStr ''aborted''}"

text \<open>Every call of the projection is one of the branch, so the index has it.\<close>

definition omitted_call :: "context_index \<Rightarrow> (string \<times> alias_owner) list \<Rightarrow> (string \<times> string option) list \<Rightarrow> string list \<Rightarrow> js \<Rightarrow> bool" where
  "omitted_call ix named seen owned_ids c =
     (if \<not> is_tool_call c \<or> jget ''async'' c = JBool True \<or> jhas ''nativeProvenance'' c then False
      else (let i = entry_id c; owned = i \<in> set owned_ids in
        case (omission_call_aliases i (provider_tuple c) owned, map_of (ix_calls ix) i) of
          (Some as, Some r) \<Rightarrow>
            if list_ex (\<lambda>a. length (owners named a) \<noteq> 1 \<or> (owners seen a \<noteq> [] \<and> owners seen a \<noteq> [Some i])) as
               \<or> map_of (ix_results ix) i \<noteq> None then False
            else (owned \<or> ordinary_failed_terminal (cl_message r)) \<and> list_all (\<lambda>a. owners seen a = []) as
               \<or> i \<in> set (incomplete_observations (jget ''nativeTransport'' (cl_message r)))
        | _ \<Rightarrow> False))"

definition identity_fields :: "call_record \<Rightarrow> bool \<Rightarrow> (string \<times> js) list" where
  "identity_fields r retained = [(''toolCallId'', jget ''id'' (cl_call r)), (''toolName'', jget ''name'' (cl_call r)),
     (''messageEntryId'', cl_entry r), (''contentIndex'', jint (int (cl_index r))), (''retainedInContext'', JBool retained)]"

definition diagnostic :: "string \<Rightarrow> string \<Rightarrow> (string \<times> js) list \<Rightarrow> js" where
  "diagnostic code severity fs = JObj ([(''code'', JStr code), (''severity'', JStr severity)] @ fs)"

definition omit_from :: "(js \<Rightarrow> bool) \<Rightarrow> js \<Rightarrow> js" where
  "omit_from gone m = (if failed_message m then jset ''content'' (JArr (filter (\<lambda>b. \<not> gone b) (block_list (jget ''content'' m)))) m else m)"

definition omission_info :: "context_index \<Rightarrow> js \<Rightarrow> js" where
  "omission_info ix c = (case map_of (ix_calls ix) (entry_id c) of
      Some r \<Rightarrow> diagnostic ''UNADMITTED_CALL_OMITTED'' ''info'' (identity_fields r True) | None \<Rightarrow> Undef)"

definition omit_unadmitted_calls :: "(string \<Rightarrow> string) \<Rightarrow> (js \<Rightarrow> string) \<Rightarrow> context_index \<Rightarrow> js list \<Rightarrow> js list \<Rightarrow> js list \<Rightarrow> js list \<times> js list" where
  "omit_unadmitted_calls sha stringify ix selected ms ds =
     (let gone = omitted_call ix (record_aliases ix) (observed_aliases selected) (owned_non_admissions sha stringify selected) in
      (map (omit_from gone) ms,
       ds @ map (omission_info ix) (concat (map (\<lambda>m. if failed_message m then filter gone (block_list (jget ''content'' m)) else []) ms))))"

section \<open>Ordinary requests\<close>

definition model_roles :: "string list" where
  "model_roles = [''user'', ''assistant'', ''toolResult'', ''bashExecution'', ''custom'', ''branchSummary'', ''compactionSummary'']"

definition hidden_message :: "js \<Rightarrow> bool" where
  "hidden_message m \<longleftrightarrow> jget ''role'' m = JStr ''bashExecution'' \<and> truthy (jget ''excludeFromContext'' m)
     \<or> jget ''role'' m \<notin> set (map JStr model_roles)"

definition blocked :: "js \<Rightarrow> js" where
  "blocked c = diagnostic ''ORDINARY_REPLAY_BLOCKED'' ''blocking'' [(''toolCallId'', jget ''id'' c), (''toolName'', jget ''name'' c)]"

definition not_replayable :: "js \<Rightarrow> js \<Rightarrow> js" where
  "not_replayable m c = diagnostic ''ORDINARY_ASSISTANT_NOT_REPLAYABLE'' ''blocking''
     [(''toolCallId'', jget ''id'' c), (''toolName'', jget ''name'' c), (''stopReason'', jget ''stopReason'' m)]"

definition message_calls :: "js \<Rightarrow> js list" where
  "message_calls m = (if jget ''role'' m = JStr ''assistant'' then filter is_tool_call (block_list (jget ''content'' m)) else [])"

text \<open>The calls still waiting for their result, in the order they were made.\<close>

fun ordinary_diagnostics :: "js list \<Rightarrow> js list \<Rightarrow> js list" where
  "ordinary_diagnostics [] waiting = map blocked waiting"
| "ordinary_diagnostics (m # ms) waiting =
     (if hidden_message m then ordinary_diagnostics ms waiting
      else if jget ''role'' m = JStr ''toolResult'' then ordinary_diagnostics ms (filter (\<lambda>c. jget ''id'' c \<noteq> jget ''toolCallId'' m) waiting)
      else map blocked waiting
        @ (if failed_message m then map (not_replayable m) (message_calls m) @ ordinary_diagnostics ms []
           else ordinary_diagnostics ms (message_calls m)))"

definition movable_calls :: "context_index \<Rightarrow> string list" where
  "movable_calls kept = map fst (filter (\<lambda>(i, c). jget ''async'' (cl_call c) = JBool True \<and> map_of (ix_results kept) i \<noteq> None) (ix_calls kept))"

definition moved_results :: "context_index \<Rightarrow> js \<Rightarrow> js list" where
  "moved_results kept m = map (\<lambda>c. rs_message (the (map_of (ix_results kept) (entry_id c))))
     (filter (\<lambda>c. entry_id c \<in> set (movable_calls kept)) (message_calls m))"

definition ordinary_order :: "context_index \<Rightarrow> js list \<Rightarrow> js list" where
  "ordinary_order kept ms = concat (map (\<lambda>m.
     if jget ''role'' m = JStr ''toolResult'' \<and> text_of (jget ''toolCallId'' m) \<in> set (movable_calls kept) then [] else m # moved_results kept m) ms)"

section \<open>The finished context\<close>

record canonical_view =
  cv_messages :: "js list"
  cv_outstanding :: "js list"
  cv_diagnostics :: "js list"

definition native_call :: "call_record \<Rightarrow> bool" where
  "native_call r \<longleftrightarrow> jget ''async'' (cl_call r) = JBool True"

definition outstanding_calls :: "context_index \<Rightarrow> context_index \<Rightarrow> js list" where
  "outstanding_calls ix kept = map (\<lambda>(i, r). JObj (identity_fields r (map_of (ix_calls kept) i \<noteq> None)))
     (filter (\<lambda>(i, r). native_call r \<and> map_of (ix_results ix) i = None) (ix_calls ix))"

definition pruned_results :: "string \<Rightarrow> context_index \<Rightarrow> context_index \<Rightarrow> js list" where
  "pruned_results mode ix kept = map (\<lambda>(i, r). diagnostic ''RESULT_PRUNED'' (if mode = ''ordinary'' then ''blocking'' else ''info'') (identity_fields r True))
     (filter (\<lambda>(i, r). map_of (ix_calls kept) i \<noteq> None \<and> map_of (ix_results ix) i \<noteq> None \<and> map_of (ix_results kept) i = None) (ix_calls ix))"

definition result_diagnostics :: "context_index \<Rightarrow> context_index \<Rightarrow> js list" where
  "result_diagnostics ix kept = concat (map (\<lambda>(i, r).
     if map_of (ix_calls ix) i = None then [diagnostic ''ORPHAN_RESULT'' ''info'' [(''toolCallId'', JStr i), (''messageEntryId'', rs_entry r)]]
     else if map_of (ix_results kept) i \<noteq> None \<and> map_of (ix_calls kept) i = None
       then [diagnostic ''CALL_PRUNED'' ''info'' [(''toolCallId'', JStr i), (''messageEntryId'', rs_entry r)]]
     else []) (ix_results ix))"

definition finish_context :: "(string \<Rightarrow> string) \<Rightarrow> (js \<Rightarrow> string) \<Rightarrow> string \<Rightarrow> nat \<Rightarrow> context_index \<Rightarrow> js list \<Rightarrow> js list \<Rightarrow> js list \<Rightarrow> canonical_view result" where
  "finish_context sha stringify mode limit ix selected ms ds =
     (case omit_unadmitted_calls sha stringify ix selected ms ds of (ms, ds) \<Rightarrow>
      and_then (index_messages (map (\<lambda>m. (m, Undef)) ms)) (\<lambda>kept. let
        waiting = outstanding_calls ix kept;
        ds = ds @ pruned_results mode ix kept @ result_diagnostics ix kept;
        ms' = (if mode = ''ordinary'' then ordinary_order kept ms else ms);
        ds' = (if mode = ''ordinary'' then ds @ ordinary_diagnostics ms' [] else ds)
      in and_then (copy_data limit (JObj [(''messages'', JArr ms'), (''outstanding'', JArr waiting), (''diagnostics'', JArr ds')])) (\<lambda>_.
        Inr \<lparr>cv_messages = ms', cv_outstanding = waiting, cv_diagnostics = ds'\<rparr>)))"

definition project_canonical_context :: "(string \<Rightarrow> js option) \<Rightarrow> (js \<Rightarrow> string) \<Rightarrow> (string \<Rightarrow> string) \<Rightarrow> (js list \<Rightarrow> js \<Rightarrow> js option)
     \<Rightarrow> string option \<Rightarrow> string \<Rightarrow> js \<Rightarrow> js \<Rightarrow> canonical_view result" where
  "project_canonical_context parse stringify sha build env mode entries leaf =
     and_then (context_units env) (\<lambda>limit.
     require_that (mode = ''native'' \<or> mode = ''ordinary'') ''ERR_CONTEXT_MODE''
     (and_then (project_canonical_branch parse stringify entries leaf) (\<lambda>(selected, ds).
      and_then (index_messages (branch_messages selected)) (\<lambda>ix.
      case (case snapshot_canonical_archive (JArr selected) of Inr es \<Rightarrow> build es leaf | Inl _ \<Rightarrow> None) of
        None \<Rightarrow> ctx_error ''ERR_CONTEXT_HELPER_FAILED''
      | Some ctx \<Rightarrow> and_then (project_stock_context ctx selected limit None) (\<lambda>pms.
          let ms = map pm_message pms in
          and_then (index_messages (map (\<lambda>m. (m, Undef)) ms)) (\<lambda>kept.
          require_that (same_calls pms kept ix) ''ERR_CONTEXT_CALL_PROJECTION''
          (require_that (same_results pms kept ix) ''ERR_CONTEXT_RESULT_PROJECTION''
            (finish_context sha stringify mode limit ix selected ms ds))))))))"

section \<open>Recovery\<close>

definition recovery_result :: "int \<Rightarrow> js \<Rightarrow> js" where
  "recovery_result t c = JObj [(''role'', JStr ''toolResult''), (''toolCallId'', jget ''toolCallId'' c), (''toolName'', jget ''toolName'' c),
     (''content'', JArr [JObj [(''type'', JStr ''text''),
        (''text'', JStr ''Tool execution was interrupted; its outcome is unknown. The original call was not re-executed.'')]]),
     (''details'', JObj [(''nativeAsyncRecovery'', JStr ''interrupted-unknown'')]), (''isError'', JBool True), (''timestamp'', jint t)]"

definition plan_unknown_recovery :: "(string \<Rightarrow> js option) \<Rightarrow> (js \<Rightarrow> string) \<Rightarrow> (string \<Rightarrow> string) \<Rightarrow> (js list \<Rightarrow> js \<Rightarrow> js option)
     \<Rightarrow> string option \<Rightarrow> js \<Rightarrow> string \<Rightarrow> js \<Rightarrow> js \<Rightarrow> js list result" where
  "plan_unknown_recovery parse stringify sha build env time mode entries leaf = (case js_safe_int time of
      Some t \<Rightarrow> require_that (0 \<le> t \<and> t \<le> 8640000000000000) ''ERR_RECOVERY_TIMESTAMP''
        (and_then (project_canonical_context parse stringify sha build env mode entries leaf) (\<lambda>v.
           Inr (map (recovery_result t) (cv_outstanding v))))
    | None \<Rightarrow> ctx_error ''ERR_RECOVERY_TIMESTAMP'')"

end
