(* ===== verification/CanonicalView.thy ===== *)
theory CanonicalView
  imports CanonicalProjection
begin

text \<open>
  What the projection guarantees: the index of a list of messages is exactly their calls and results, an ordinary request
  reorders the messages without losing one, omission spares every answered or native call, and the planned recovery
  answers every interrupted call once.
\<close>

section \<open>The index\<close>

fun calls_of :: "nat \<Rightarrow> js \<Rightarrow> js \<Rightarrow> nat \<Rightarrow> js list \<Rightarrow> (string \<times> call_record) list" where
  "calls_of order m eid i [] = []"
| "calls_of order m eid i (b # bs) = (if is_tool_call b
     then [(entry_id b, \<lparr>cl_call = b, cl_message = m, cl_entry = eid, cl_index = i, cl_order = order\<rparr>)] else []) @ calls_of order m eid (i + 1) bs"

definition calls_in :: "nat \<Rightarrow> js \<times> js \<Rightarrow> (string \<times> call_record) list" where
  "calls_in order me = (if jget ''role'' (fst me) = JStr ''assistant''
     then calls_of order (fst me) (snd me) 0 (block_list (jget ''content'' (fst me))) else [])"

definition results_in :: "nat \<Rightarrow> js \<times> js \<Rightarrow> (string \<times> result_record) list" where
  "results_in order me = (if jget ''role'' (fst me) = JStr ''toolResult''
     then [(text_of (jget ''toolCallId'' (fst me)), \<lparr>rs_message = fst me, rs_entry = snd me, rs_order = order\<rparr>)] else [])"

fun all_calls :: "nat \<Rightarrow> (js \<times> js) list \<Rightarrow> (string \<times> call_record) list" where
  "all_calls order [] = []"
| "all_calls order (m # ms) = calls_in order m @ all_calls (order + 1) ms"

fun all_results :: "nat \<Rightarrow> (js \<times> js) list \<Rightarrow> (string \<times> result_record) list" where
  "all_results order [] = []"
| "all_results order (m # ms) = results_in order m @ all_results (order + 1) ms"

definition message_ok :: "js \<Rightarrow> bool" where
  "message_ok m \<longleftrightarrow> ok (validate_message m (Inr ())) \<and> list_all call_shape (message_calls m)"

lemma validate_message_Inr: "validate_message m r = Inr y \<longleftrightarrow> ok (validate_message m (Inr ())) \<and> r = Inr y"
  by (auto simp: validate_message_def require_that_def ctx_error_def Let_def)

lemma index_calls_iff:
  "distinct (map fst cs) \<Longrightarrow> index_calls m eid order i bs cs = Inr cs' \<longleftrightarrow> list_all call_shape (filter is_tool_call bs)
     \<and> distinct (map fst (cs @ calls_of order m eid i bs)) \<and> cs' = cs @ calls_of order m eid i bs"
proof (induction m eid order i bs cs rule: index_calls.induct)
  case (2 m eid order i b bs cs)
  show ?case
  proof (cases "is_tool_call b \<and> call_shape b \<and> map_of cs (entry_id b) = None")
    case True
    then have "distinct (map fst (cs @ [(entry_id b, \<lparr>cl_call = b, cl_message = m, cl_entry = eid, cl_index = i, cl_order = order\<rparr>)]))"
      using 2(3) by (simp add: map_of_eq_None_iff)
    from 2(2) [OF _ this] True show ?thesis by (simp add: require_that_def)
  next
    case False
    show ?thesis
    proof (cases "is_tool_call b")
      case True
      then show ?thesis using False by (auto simp: require_that_def ctx_error_def map_of_eq_None_iff)
    qed (use 2(1, 3) in simp)
  qed
qed auto

lemma index_message_iff:
  assumes "distinct (map fst (ix_calls ix))" "distinct (map fst (ix_results ix))"
  shows "index_message order me ix = Inr ix' \<longleftrightarrow> message_ok (fst me)
     \<and> distinct (map fst (ix_calls ix @ calls_in order me)) \<and> distinct (map fst (ix_results ix @ results_in order me))
     \<and> ix' = \<lparr>ix_calls = ix_calls ix @ calls_in order me, ix_results = ix_results ix @ results_in order me\<rparr>"
proof -
  obtain m eid where me: "me = (m, eid)" by fastforce
  have calls: "(if jget ''role'' m = JStr ''assistant'' then index_calls m eid order 0 (block_list (jget ''content'' m)) (ix_calls ix) else Inr (ix_calls ix)) = Inr cs
      \<longleftrightarrow> list_all call_shape (message_calls m) \<and> distinct (map fst (ix_calls ix @ calls_in order me)) \<and> cs = ix_calls ix @ calls_in order me" for cs
    using assms(1) by (auto simp: index_calls_iff me message_calls_def calls_in_def)
  show ?thesis
  proof (cases "jget ''role'' m = JStr ''toolResult''")
    case True
    then have "calls_in order me = []" "message_calls m = []" by (simp_all add: me calls_in_def message_calls_def)
    then show ?thesis using True assms
      by (auto simp: index_message_def me validate_message_Inr and_then_Inr require_that_Inr message_ok_def results_in_def map_of_eq_None_iff)
  next
    case False
    then show ?thesis using assms(2)
      by (auto simp: index_message_def me validate_message_Inr and_then_Inr calls [unfolded me] message_ok_def results_in_def)
  qed
qed

lemma index_records_iff:
  "distinct (map fst (ix_calls ix)) \<Longrightarrow> distinct (map fst (ix_results ix)) \<Longrightarrow>
   index_records order ms ix = Inr ix' \<longleftrightarrow> list_all (message_ok \<circ> fst) ms
     \<and> distinct (map fst (ix_calls ix @ all_calls order ms)) \<and> distinct (map fst (ix_results ix @ all_results order ms))
     \<and> ix' = \<lparr>ix_calls = ix_calls ix @ all_calls order ms, ix_results = ix_results ix @ all_results order ms\<rparr>"
proof (induction ms arbitrary: order ix)
  case (Cons m ms)
  note step = index_message_iff [OF Cons.prems, of order m]
  show ?case
  proof (cases "\<exists>ix1. index_message order m ix = Inr ix1")
    case True
    then obtain ix1 where ix1: "index_message order m ix = Inr ix1" ..
    then have d: "distinct (map fst (ix_calls ix1))" "distinct (map fst (ix_results ix1))" "message_ok (fst m)"
        "ix1 = \<lparr>ix_calls = ix_calls ix @ calls_in order m, ix_results = ix_results ix @ results_in order m\<rparr>"
      using step by auto
    show ?thesis using Cons.IH [OF d(1, 2)] ix1 d(3, 4) by simp
  next
    case False
    then have "\<not> (message_ok (fst m) \<and> distinct (map fst (ix_calls ix @ calls_in order m)) \<and> distinct (map fst (ix_results ix @ results_in order m)))"
      using step by blast
    moreover have "index_records order (m # ms) ix \<noteq> Inr ix'" using False by (auto simp: and_then_Inr)
    ultimately show ?thesis by auto
  qed
qed auto

lemma index_messages_ok:
  assumes "index_messages ms = Inr ix"
  shows "list_all (message_ok \<circ> fst) ms \<and> distinct (map fst (all_calls 0 ms)) \<and> distinct (map fst (all_results 0 ms))
    \<and> ix = \<lparr>ix_calls = all_calls 0 ms, ix_results = all_results 0 ms\<rparr> \<and> list_all (\<lambda>r. match_result ix r = None) (ix_results ix)"
proof -
  from assms obtain ix0 where ix0: "index_records 0 ms no_index = Inr ix0"
      "(case List.map_filter (match_result ix0) (ix_results ix0) of [] \<Rightarrow> Inr ix0 | e # _ \<Rightarrow> Inl e) = Inr ix"
    by (auto simp: index_messages_def and_then_Inr)
  then have "List.map_filter (match_result ix) (ix_results ix) = []" "ix0 = ix" by (auto split: list.splits)
  then show ?thesis using ix0(1) by (simp add: index_records_iff no_index_def map_filter_def filter_empty_conv list_all_iff)
qed

lemma index_messages_intro:
  assumes "list_all (message_ok \<circ> fst) ms" "distinct (map fst (all_calls 0 ms))" "distinct (map fst (all_results 0 ms))"
    "ix = \<lparr>ix_calls = all_calls 0 ms, ix_results = all_results 0 ms\<rparr>" "list_all (\<lambda>r. match_result ix r = None) (ix_results ix)"
  shows "index_messages ms = Inr ix"
proof -
  have "index_records 0 ms no_index = Inr ix" using assms(1-4) by (simp add: index_records_iff no_index_def)
  moreover have "List.map_filter (match_result ix) (ix_results ix) = []"
    using assms(5) by (simp add: map_filter_def filter_empty_conv list_all_iff)
  ultimately show ?thesis by (simp add: index_messages_def)
qed

lemma all_calls_append: "all_calls order (ms @ ns) = all_calls order ms @ all_calls (order + length ms) ns"
  by (induction ms arbitrary: order) simp_all

lemma all_results_append: "all_results order (ms @ ns) = all_results order ms @ all_results (order + length ms) ns"
  by (induction ms arbitrary: order) simp_all

lemma calls_of_ids: "map fst (calls_of order m eid i bs) = map entry_id (filter is_tool_call bs)"
  by (induction bs arbitrary: i) simp_all

lemma all_calls_ids: "map fst (all_calls order ms) = concat (map (\<lambda>m. map entry_id (message_calls (fst m))) ms)"
  by (induction ms arbitrary: order) (simp_all add: calls_in_def message_calls_def calls_of_ids)

lemma calls_of_key: "(i, c) \<in> set (calls_of order m eid k bs) \<Longrightarrow> i = entry_id (cl_call c) \<and> cl_message c = m \<and> cl_entry c = eid
    \<and> cl_order c = order \<and> cl_call c \<in> set bs \<and> is_tool_call (cl_call c)"
  by (induction bs arbitrary: k) (auto split: if_splits)

lemma all_calls_key: "(i, c) \<in> set (all_calls order ms) \<Longrightarrow> i = entry_id (cl_call c) \<and> cl_call c \<in> set (message_calls (cl_message c))
    \<and> order \<le> cl_order c \<and> cl_order c < order + length ms \<and> ms ! (cl_order c - order) = (cl_message c, cl_entry c)"
proof (induction ms arbitrary: order)
  case (Cons m ms)
  then consider "(i, c) \<in> set (calls_in order m)" | "(i, c) \<in> set (all_calls (order + 1) ms)" by auto
  then show ?case
  proof cases
    case 1
    then show ?thesis by (cases m) (auto simp: calls_in_def message_calls_def dest!: calls_of_key split: if_splits)
  next
    case 2
    from Cons.IH [OF this] show ?thesis by (auto simp: nth_Cons' Suc_diff_le)
  qed
qed simp

lemma all_results_key: "(i, r) \<in> set (all_results order ms) \<Longrightarrow> i = text_of (jget ''toolCallId'' (rs_message r)) \<and> jget ''role'' (rs_message r) = JStr ''toolResult''
    \<and> order \<le> rs_order r \<and> rs_order r < order + length ms \<and> ms ! (rs_order r - order) = (rs_message r, rs_entry r)"
proof (induction ms arbitrary: order)
  case (Cons m ms)
  then consider "(i, r) \<in> set (results_in order m)" | "(i, r) \<in> set (all_results (order + 1) ms)" by auto
  then show ?case
  proof cases
    case 1
    then show ?thesis by (cases m) (auto simp: results_in_def split: if_splits)
  next
    case 2
    from Cons.IH [OF this] show ?thesis by (auto simp: nth_Cons' Suc_diff_le)
  qed
qed simp

section \<open>The order of an ordinary request\<close>

definition bare :: "js list \<Rightarrow> (js \<times> js) list" where
  "bare ms = map (\<lambda>m. (m, Undef)) ms"

definition is_result :: "js \<Rightarrow> bool" where
  "is_result m \<longleftrightarrow> jget ''role'' m = JStr ''toolResult''"

definition answered_id :: "js \<Rightarrow> string" where
  "answered_id m = text_of (jget ''toolCallId'' m)"

lemma bare_simps [simp]: "bare [] = []" "bare (m # ms) = (m, Undef) # bare ms"
  by (simp_all add: bare_def)

lemma bare_results: "map (\<lambda>(i, r). (i, rs_message r)) (all_results order (bare ms)) = map (\<lambda>m. (answered_id m, m)) (filter is_result ms)"
  by (induction ms arbitrary: order) (simp_all add: results_in_def is_result_def answered_id_def)

lemma bare_calls: "map fst (all_calls order (bare ms)) = concat (map (\<lambda>m. map entry_id (message_calls m)) ms)"
  by (simp add: all_calls_ids bare_def comp_def)

lemma map_of_messages: "map_of (map (\<lambda>(i, r). (i, rs_message r)) rs) i = map_option rs_message (map_of rs i)"
  by (induction rs) auto

lemma moved_apart:
  assumes "\<And>m. P m \<Longrightarrow> f m = []"
  shows "mset (concat (map (\<lambda>m. if P m then [] else m # f m) ms)) = mset (filter (\<lambda>m. \<not> P m) ms) + mset (concat (map f ms))"
  using assms by (induction ms) auto

lemma concat_moved: "concat (map (moved_results kept) ms)
    = map (\<lambda>i. rs_message (the (map_of (ix_results kept) i))) (filter (\<lambda>i. i \<in> set (movable_calls kept)) (concat (map (\<lambda>m. map entry_id (message_calls m)) ms)))"
  by (induction ms) (simp_all add: moved_results_def filter_map comp_def)

lemma movable_known: "i \<in> set (movable_calls kept) \<Longrightarrow> i \<in> fst ` set (ix_calls kept) \<and> i \<in> fst ` set (ix_results kept)"
  by (force simp: movable_calls_def map_of_eq_None_iff)

lemma ordinary_order_mset:
  assumes "index_messages (bare ms) = Inr kept"
  shows "mset (ordinary_order kept ms) = mset ms"
proof -
  note k = index_messages_ok [OF assms]
  let ?R = "set (movable_calls kept)"
  let ?moved = "\<lambda>m. is_result m \<and> answered_id m \<in> ?R"
  let ?g = "\<lambda>i. rs_message (the (map_of (ix_results kept) i))"
  let ?calls = "filter (\<lambda>i. i \<in> ?R) (map fst (ix_calls kept))" and ?results = "filter (\<lambda>i. i \<in> ?R) (map fst (ix_results kept))"
  have ids: "mset ?calls = mset ?results"
    using k movable_known [of _ kept] by (intro set_eq_iff_mset_eq_distinct [THEN iffD1]) auto
  have pairs: "map (\<lambda>(i, r). (i, rs_message r)) (ix_results kept) = map (\<lambda>m. (answered_id m, m)) (filter is_result ms)"
    using k bare_results by simp
  have d: "distinct (map fst (map (\<lambda>m. (answered_id m, m)) (filter is_result ms)))"
    using k unfolding pairs [symmetric] by (simp add: comp_def case_prod_beta)
  have g: "?g (answered_id m) = m" if "m \<in> set (filter is_result ms)" for m
  proof -
    have "map_of (map (\<lambda>m. (answered_id m, m)) (filter is_result ms)) (answered_id m) = Some m"
      using that d by (intro map_of_is_SomeI) auto
    then show ?thesis unfolding pairs [symmetric] map_of_messages by auto
  qed
  have "map fst (ix_results kept) = map answered_id (filter is_result ms)"
    using arg_cong [OF pairs, of "map fst"] by (simp add: comp_def case_prod_beta)
  then have "map ?g ?results = map ?g (map answered_id (filter ?moved ms))"
    by (simp add: filter_map comp_def conj_commute)
  also have "\<dots> = filter ?moved ms" using g by (auto intro!: map_idI simp: comp_def)
  finally have results: "map ?g ?results = filter ?moved ms" .
  have "mset (concat (map (moved_results kept) ms)) = image_mset ?g (mset ?calls)"
    using k by (simp add: concat_moved bare_calls)
  also have "\<dots> = mset (filter ?moved ms)" unfolding ids mset_map [symmetric] results ..
  finally have moved: "mset (concat (map (moved_results kept) ms)) = mset (filter ?moved ms)" .
  have "mset (ordinary_order kept ms) = mset (filter (\<lambda>m. \<not> ?moved m) ms) + mset (concat (map (moved_results kept) ms))"
    unfolding ordinary_order_def is_result_def answered_id_def
    by (rule moved_apart) (simp add: moved_results_def message_calls_def)
  then show ?thesis unfolding moved using multiset_partition [of "mset ms" ?moved] by (simp add: union_commute)
qed

text \<open>The calls still waiting after some messages, and what has been reported before.\<close>

fun waiting_after :: "js list \<Rightarrow> js list \<Rightarrow> js list" where
  "waiting_after [] waiting = waiting"
| "waiting_after (m # ms) waiting = waiting_after ms
     (if hidden_message m then waiting
      else if is_result m then filter (\<lambda>c. jget ''id'' c \<noteq> jget ''toolCallId'' m) waiting
      else if failed_message m then [] else message_calls m)"

definition blocks_call :: "string \<Rightarrow> js \<Rightarrow> bool" where
  "blocks_call i d \<longleftrightarrow> jget ''code'' d = JStr ''ORDINARY_REPLAY_BLOCKED'' \<and> jget ''toolCallId'' d = JStr i"

lemma blocks_simps: "blocks_call i (blocked c) \<longleftrightarrow> jget ''id'' c = JStr i" "\<not> blocks_call i (not_replayable m c)"
  by (simp_all add: blocks_call_def blocked_def not_replayable_def diagnostic_def jget_def)

lemma results_clear: "list_all is_result rs \<Longrightarrow> ordinary_diagnostics (rs @ ns) waiting = ordinary_diagnostics ns (waiting_after rs waiting)"
  by (induction rs arbitrary: waiting) (auto simp: is_result_def hidden_message_def model_roles_def)

lemma waiting_results: "list_all is_result rs \<Longrightarrow> c \<in> set (waiting_after rs waiting)
    \<longleftrightarrow> c \<in> set waiting \<and> list_all (\<lambda>r. jget ''id'' c \<noteq> jget ''toolCallId'' r) rs"
  by (induction rs arbitrary: waiting) (auto simp: is_result_def hidden_message_def model_roles_def)

definition answer_of :: "context_index \<Rightarrow> string \<Rightarrow> js \<Rightarrow> bool" where
  "answer_of kept i m \<longleftrightarrow> map_option rs_message (map_of (ix_results kept) i) = Some m \<and> is_result m \<and> jget ''toolCallId'' m = JStr i"

lemma movable_answer:
  assumes "index_messages (bare ms) = Inr kept" "i \<in> set (movable_calls kept)"
  shows "\<exists>m. answer_of kept i m"
proof -
  note k = index_messages_ok [OF assms(1)]
  have "map_of (ix_results kept) i \<noteq> None" using movable_known [OF assms(2)] by (simp add: map_of_eq_None_iff)
  then obtain r where r: "map_of (ix_results kept) i = Some r" by blast
  then have "(i, r) \<in> set (all_results 0 (bare ms))" using k map_of_SomeD by fastforce
  from all_results_key [OF this] have m: "i = text_of (jget ''toolCallId'' (rs_message r))" "is_result (rs_message r)"
      "(rs_message r, rs_entry r) \<in> set (bare ms)"
    by (auto simp: is_result_def in_set_conv_nth)
  then have "message_ok (rs_message r)" using k by (auto simp: list_all_iff)
  then have "is_identifier (jget ''toolCallId'' (rs_message r))" using m(2)
    by (auto simp: message_ok_def validate_message_def require_that_def ctx_error_def is_result_def Let_def split: if_splits)
  then show ?thesis using r m identifier_text by (auto simp: answer_of_def)
qed

lemma moved_answers:
  assumes "\<And>i. i \<in> set (movable_calls kept) \<Longrightarrow> \<exists>m. answer_of kept i m"
  shows "list_all is_result (moved_results kept m)"
    "c \<in> set (message_calls m) \<Longrightarrow> jget ''id'' c = JStr i \<Longrightarrow> i \<in> set (movable_calls kept) \<Longrightarrow> \<exists>r \<in> set (moved_results kept m). jget ''toolCallId'' r = JStr i"
proof -
  have a: "answer_of kept i (rs_message (the (map_of (ix_results kept) i)))" if "i \<in> set (movable_calls kept)" for i
    using assms [OF that] by (auto simp: answer_of_def)
  then show "list_all is_result (moved_results kept m)" by (auto simp: moved_results_def list_all_iff answer_of_def)
  assume c: "c \<in> set (message_calls m)" "jget ''id'' c = JStr i" "i \<in> set (movable_calls kept)"
  then have "entry_id c = i" by (simp add: entry_id_def text_of_def)
  then show "\<exists>r \<in> set (moved_results kept m). jget ''toolCallId'' r = JStr i"
    using a [OF c(3)] c by (auto simp: moved_results_def answer_of_def intro!: bexI [of _ c])
qed

lemma plain_roles: "is_result m \<or> hidden_message m \<Longrightarrow> message_calls m = []"
  by (auto simp: is_result_def hidden_message_def model_roles_def message_calls_def)

lemma order_unblocked:
  assumes "\<And>i. i \<in> set (movable_calls kept) \<Longrightarrow> \<exists>m. answer_of kept i m" and i: "i \<in> set (movable_calls kept)"
  shows "list_all (\<lambda>c. jget ''id'' c \<noteq> JStr i) waiting \<Longrightarrow> list_all (\<lambda>d. \<not> blocks_call i d) (ordinary_diagnostics (ordinary_order kept ms) waiting)"
proof (induction ms arbitrary: waiting)
  case Nil
  then show ?case by (simp add: ordinary_order_def list_all_iff blocks_simps)
next
  case (Cons m ms)
  note blocks_simps [simp]
  have order: "ordinary_order kept (m # ms) = (if is_result m \<and> answered_id m \<in> set (movable_calls kept) then [] else m # moved_results kept m) @ ordinary_order kept ms"
    by (simp add: ordinary_order_def is_result_def answered_id_def)
  note results = moved_answers(1) [OF assms(1), of m]
  consider (quiet) "is_result m \<or> hidden_message m" | (calls) "\<not> is_result m" "\<not> hidden_message m" by blast
  then show ?case
  proof cases
    case quiet
    then have "moved_results kept m = []" by (simp add: moved_results_def plain_roles)
    moreover have "list_all (\<lambda>c. jget ''id'' c \<noteq> JStr i) (filter (\<lambda>c. jget ''id'' c \<noteq> jget ''toolCallId'' m) waiting)"
      using Cons.prems by (simp add: list_all_iff)
    ultimately show ?thesis using quiet Cons.IH [OF Cons.prems] Cons.IH unfolding order by (auto simp: is_result_def)
  next
    case calls
    let ?waiting = "waiting_after (moved_results kept m) (if failed_message m then [] else message_calls m)"
    have "list_all (\<lambda>c. jget ''id'' c \<noteq> JStr i) ?waiting"
      using moved_answers(2) [OF assms(1) _ _ i] waiting_results [OF results] by (fastforce simp: list_all_iff)
    from Cons.IH [OF this] show ?thesis
      using calls Cons.prems unfolding order by (auto simp: is_result_def results_clear [OF results] list_all_iff)
  qed
qed

section \<open>Recovery\<close>

text \<open>The open calls of an index: the native ones without a result.\<close>

definition open_calls :: "context_index \<Rightarrow> (string \<times> call_record) list" where
  "open_calls ix = filter (\<lambda>(i, r). native_call r \<and> map_of (ix_results ix) i = None) (ix_calls ix)"

definition recovery_of :: "int \<Rightarrow> call_record \<Rightarrow> js" where
  "recovery_of t r = recovery_result t (JObj (identity_fields r True))"

definition recovery_messages :: "int \<Rightarrow> context_index \<Rightarrow> js list" where
  "recovery_messages t ix = map (\<lambda>(i, r). recovery_of t r) (open_calls ix)"

lemma recovery_flag: "recovery_result t (JObj (identity_fields r b)) = recovery_of t r"
  by (simp add: recovery_of_def recovery_result_def identity_fields_def jget_def)

lemma recovery_of_outstanding: "map (recovery_result t) (outstanding_calls ix kept) = recovery_messages t ix"
  by (auto simp: outstanding_calls_def recovery_messages_def open_calls_def recovery_flag)

lemma recovery_result_fields:
  "jget ''role'' (recovery_result t c) = JStr ''toolResult''" "jget ''toolCallId'' (recovery_result t c) = jget ''toolCallId'' c"
  "jget ''toolName'' (recovery_result t c) = jget ''toolName'' c" "message_calls (recovery_result t c) = []"
  by (simp_all add: recovery_result_def jget_def message_calls_def)

lemma recovery_message_ok:
  assumes "is_identifier (jget ''toolCallId'' c)" "is_identifier (jget ''toolName'' c)"
  shows "message_ok (recovery_result t c)"
proof -
  let ?m = "recovery_result t c"
  have "is_plain_object ?m \<and> is_identifier (jget ''role'' ?m) \<and> is_array (jget ''content'' ?m) \<and> is_flag (jget ''isError'' ?m)
      \<and> length (block_list (jget ''content'' ?m)) \<le> ctx_blocks \<and> list_all (\<lambda>b. is_plain_object b \<and> is_identifier (jget ''type'' b)) (block_list (jget ''content'' ?m))"
    by (simp add: recovery_result_def is_plain_object_def jget_def is_identifier_def ctx_id_def is_array_def is_flag_def block_list_def ctx_blocks_def)
  then show ?thesis using assms
    by (simp add: message_ok_def validate_message_def require_that_def Let_def recovery_result_fields)
qed

lemma identity_get: "jget ''toolCallId'' (JObj (identity_fields r b)) = jget ''id'' (cl_call r)"
  "jget ''toolName'' (JObj (identity_fields r b)) = jget ''name'' (cl_call r)"
  by (simp_all add: identity_fields_def jget_def)

lemma indexed_call_shape:
  assumes "index_messages ms = Inr ix" "(i, c) \<in> set (ix_calls ix)"
  shows "call_shape (cl_call c) \<and> jget ''id'' (cl_call c) = JStr i \<and> cl_order c < length ms"
proof -
  note k = index_messages_ok [OF assms(1)]
  have "(i, c) \<in> set (all_calls 0 ms)" using assms(2) k by simp
  note key = all_calls_key [OF this]
  then have "(cl_message c, cl_entry c) \<in> set ms" by (metis add_0 diff_zero nth_mem)
  then have "message_ok (cl_message c)" using k by (auto simp: list_all_iff)
  then have "call_shape (cl_call c)" using key by (auto simp: message_ok_def list_all_iff)
  moreover then have "jget ''id'' (cl_call c) = JStr (entry_id (cl_call c))"
    unfolding call_shape_def entry_id_def using identifier_text by blast
  ultimately show ?thesis using key by simp
qed

lemma result_list:
  "list_all (is_result \<circ> fst) zs \<Longrightarrow> all_calls n zs = [] \<and> map (\<lambda>(i, r). (i, rs_message r)) (all_results n zs) = map (\<lambda>z. (answered_id (fst z), fst z)) zs"
  by (induction zs arbitrary: n) (auto simp: calls_in_def results_in_def is_result_def answered_id_def)

lemma recovery_index:
  assumes "index_messages ms = Inr ix" "length eids = length (recovery_messages t ix)"
  shows "\<exists>rs. index_messages (ms @ zip (recovery_messages t ix) eids) = Inr (ix\<lparr>ix_results := ix_results ix @ rs\<rparr>)
    \<and> map (\<lambda>(i, r). (i, rs_message r)) rs = map (\<lambda>(i, c). (i, recovery_of t c)) (open_calls ix)"
proof -
  note k = index_messages_ok [OF assms(1)]
  let ?zs = "zip (recovery_messages t ix) eids"
  let ?rs = "all_results (length ms) ?zs"
  have fst: "map fst ?zs = recovery_messages t ix" using assms(2) by (simp add: map_fst_zip)
  have opened: "(i, c) \<in> set (ix_calls ix)" "map_of (ix_results ix) i = None" if "(i, c) \<in> set (open_calls ix)" for i c
    using that by (auto simp: open_calls_def)
  have named: "jget ''id'' (cl_call c) = JStr i" if "(i, c) \<in> set (open_calls ix)" for i c
    using indexed_call_shape [OF assms(1) opened(1) [OF that]] by blast
  have res: "list_all (is_result \<circ> fst) ?zs"
    using fst by (auto simp: list_all_iff is_result_def recovery_messages_def recovery_of_def recovery_result_fields dest!: set_zip_leftD)
  note new = result_list [OF res]
  have "map (\<lambda>z. (answered_id (fst z), fst z)) ?zs = map (\<lambda>m. (answered_id m, m)) (recovery_messages t ix)"
    using arg_cong [OF fst, of "map (\<lambda>m. (answered_id m, m))"] by (simp add: comp_def)
  also have "\<dots> = map (\<lambda>(i, c). (i, recovery_of t c)) (open_calls ix)"
    using named by (auto simp: recovery_messages_def answered_id_def recovery_of_def recovery_result_fields identity_get text_of_def)
  finally have rs: "map (\<lambda>(i, r). (i, rs_message r)) ?rs = map (\<lambda>(i, c). (i, recovery_of t c)) (open_calls ix)"
    using new by simp
  from arg_cong [OF rs, of "map fst"] have ids: "map fst ?rs = map fst (open_calls ix)" by (simp add: comp_def case_prod_beta)
  let ?ix = "ix\<lparr>ix_results := ix_results ix @ ?rs\<rparr>"
  have "index_messages (ms @ ?zs) = Inr ?ix"
  proof (rule index_messages_intro)
    have "message_ok m" if "m \<in> set (recovery_messages t ix)" for m
    proof -
      from that obtain i c where c: "(i, c) \<in> set (open_calls ix)" "m = recovery_of t c" by (auto simp: recovery_messages_def)
      have "call_shape (cl_call c)" using indexed_call_shape [OF assms(1) opened(1) [OF c(1)]] by blast
      then show ?thesis unfolding c(2) recovery_of_def by (intro recovery_message_ok) (simp_all add: call_shape_def identity_get)
    qed
    then show "list_all (message_ok \<circ> fst) (ms @ ?zs)" using k by (auto simp: list_all_iff dest: set_zip_leftD)
    show "distinct (map fst (all_calls 0 (ms @ ?zs)))" using k new by (simp add: all_calls_append)
    have "distinct (map fst (open_calls ix))" using k by (simp add: open_calls_def distinct_map_filter)
    moreover have "set (map fst (ix_results ix)) \<inter> set (map fst (open_calls ix)) = {}"
      using opened(2) by (fastforce simp: map_of_eq_None_iff)
    ultimately show "distinct (map fst (all_results 0 (ms @ ?zs)))" using k ids by (simp add: all_results_append)
    show "?ix = \<lparr>ix_calls = all_calls 0 (ms @ ?zs), ix_results = all_results 0 (ms @ ?zs)\<rparr>"
      using k new by (simp add: all_calls_append all_results_append)
    have old: "match_result ?ix r = None" if "r \<in> set (ix_results ix)" for r
      using that k by (auto simp: list_all_iff match_result_def)
    have "match_result ?ix (i, r) = None" if r: "(i, r) \<in> set ?rs" for i r
    proof -
      have "(i, rs_message r) \<in> set (map (\<lambda>(i, r). (i, rs_message r)) ?rs)" using r by force
      then obtain c where c: "(i, c) \<in> set (open_calls ix)" "rs_message r = recovery_of t c"
        unfolding rs by auto
      have "map_of (ix_calls ix) i = Some c" using opened(1) [OF c(1)] k by simp
      moreover have "cl_order c < rs_order r"
        using indexed_call_shape [OF assms(1) opened(1) [OF c(1)]] all_results_key [OF r] by simp
      ultimately show ?thesis using c(2) by (simp add: match_result_def recovery_of_def recovery_result_fields identity_get)
    qed
    then show "list_all (\<lambda>r. match_result ?ix r = None) (ix_results ?ix)" using old by (auto simp: list_all_iff)
  qed
  then show ?thesis using rs by blast
qed

lemma recovered_closed:
  assumes "map (\<lambda>(i, r). (i, rs_message r)) rs = map (\<lambda>(i, c). (i, f c)) (open_calls ix)"
  shows "outstanding_calls (ix\<lparr>ix_results := ix_results ix @ rs\<rparr>) kept = []"
proof -
  from arg_cong [OF assms, of "map fst"] have ids: "map fst rs = map fst (open_calls ix)" by (simp add: comp_def case_prod_beta)
  have False if c: "(i, c) \<in> set (ix_calls ix)" "native_call c" "map_of (ix_results ix @ rs) i = None" for i c
  proof -
    have none: "map_of (ix_results ix) i = None" "map_of rs i = None" using c(3) by (simp_all add: map_add_None)
    then have "(i, c) \<in> set (open_calls ix)" using c by (simp add: open_calls_def)
    then have "i \<in> set (map fst rs)" unfolding ids by force
    then show False using none(2) by (simp add: map_of_eq_None_iff)
  qed
  then show ?thesis by (fastforce simp: outstanding_calls_def filter_empty_conv simp del: map_of_append)
qed

section \<open>Witnesses\<close>

text \<open>A witness written as the direct child of its message is read back: it proves exactly the calls of that message.\<close>

lemma witness_read:
  assumes "ordinary_non_admission_witness sha stringify e rq a = Some d"
    "jget ''type'' c = JStr ''custom''" "jget ''customType'' c = JStr non_admission_type" "jget ''data'' c = d" "jget ''parentId'' c = jget ''id'' e"
  shows "witnessed_non_admission sha stringify c (Some e) = map (entry_id \<circ> snd) (tool_calls (block_list (content_blocks (jget ''content'' (jget ''message'' e)))))"
proof -
  let ?m = "jget ''message'' e"
  obtain calls where n: "non_admission_calls sha stringify ?m = Some calls" "is_identifier rq" "is_identifier a"
      "d = JObj [(''version'', jint 1), (''messageEntryId'', jget ''id'' e), (''messageId'', jget ''id'' ?m),
            (''requestId'', rq), (''attemptId'', a), (''calls'', JArr calls)]"
    using assms(1) by (auto simp: ordinary_non_admission_witness_def Let_def split: if_splits option.splits)
  then have d: "jget ''version'' d = jint 1" "jget ''messageEntryId'' d = jget ''id'' e" "jget ''messageId'' d = jget ''id'' ?m" "is_plain_object d"
      "jget ''requestId'' d = rq" "jget ''attemptId'' d = a" "jget ''calls'' d = JArr calls" "keys d = witness_fields"
    by (simp_all add: jget_def is_plain_object_def keys_def witness_fields_def)
  have calls: "map (\<lambda>c. text_of (jget ''toolCallId'' c)) calls = map (entry_id \<circ> snd) (tool_calls (block_list (content_blocks (jget ''content'' ?m))))"
      "is_identifier (jget ''id'' ?m)"
    using n(1) by (auto simp: non_admission_calls_def ordinary_non_native_failure_def Let_def entry_id_def jget_def split: if_splits)
  show ?thesis
    using n d calls assms(2-5) by (simp add: witnessed_non_admission_def deep_equal_def)
qed

section \<open>What the projection promises\<close>

lemma view_parts:
  assumes "project_canonical_context parse stringify sha build env mode entries leaf = Inr v"
  shows "\<exists>limit selected ds ix ctx pms. context_units env = Inr limit
    \<and> project_canonical_branch parse stringify entries leaf = Inr (selected, ds) \<and> index_messages (branch_messages selected) = Inr ix
    \<and> build selected leaf = Some ctx \<and> project_stock_context ctx selected limit None = Inr pms
    \<and> finish_context sha stringify mode limit ix selected (map pm_message pms) ds = Inr v"
  using assms unfolding project_canonical_context_def and_then_Inr require_that_Inr snapshot_canonical_archive_def
  by (fastforce simp: and_then_Inr require_that_Inr Let_def dest: copy_archive_same split: option.splits sum.splits)

lemma finish_parts:
  assumes "finish_context sha stringify mode limit ix selected ms ds = Inr v"
  shows "\<exists>kept. index_messages (bare (fst (omit_unadmitted_calls sha stringify ix selected ms ds))) = Inr kept
    \<and> cv_messages v = (if mode = ''ordinary'' then ordinary_order kept (fst (omit_unadmitted_calls sha stringify ix selected ms ds))
        else fst (omit_unadmitted_calls sha stringify ix selected ms ds))
    \<and> cv_outstanding v = outstanding_calls ix kept
    \<and> js_nodes (JObj [(''messages'', JArr (cv_messages v)), (''outstanding'', JArr (cv_outstanding v)), (''diagnostics'', JArr (cv_diagnostics v))]) \<le> ctx_nodes
    \<and> js_units (JObj [(''messages'', JArr (cv_messages v)), (''outstanding'', JArr (cv_outstanding v)), (''diagnostics'', JArr (cv_diagnostics v))]) \<le> limit"
  using assms unfolding finish_context_def bare_def
  by (auto simp: and_then_Inr Let_def case_prod_beta simp del: js_nodes.simps js_units.simps dest!: copy_data_within)

end
