(* ===== verification/CanonicalPromises.thy ===== *)
theory CanonicalPromises
  imports CanonicalView "HOL-Library.Code_Target_Nat"
begin

text \<open>
  The promises of the canonical projection: what a request contains of the branch, how an ordinary request differs from a
  native one, and what recovery does for calls that were interrupted. The examples run the projection on a transcript with
  a native call that was answered out of order, an open native call, and a call that a failed attempt never admitted.
\<close>

section \<open>Example\<close>

definition ex_call :: "string \<Rightarrow> bool \<Rightarrow> js" where
  "ex_call i native = JObj [(''type'', JStr ''toolCall''), (''id'', JStr i), (''name'', JStr ''run''), (''arguments'', JObj []), (''async'', JBool native)]"

definition ex_message :: "string \<Rightarrow> js \<Rightarrow> js \<Rightarrow> js" where
  "ex_message i parent m = JObj [(''id'', JStr i), (''type'', JStr ''message''), (''parentId'', parent), (''message'', m)]"

definition ex_result :: "string \<Rightarrow> js" where
  "ex_result i = JObj [(''role'', JStr ''toolResult''), (''toolCallId'', JStr i), (''toolName'', JStr ''run''), (''content'', JArr []), (''isError'', JBool False)]"

definition ex_user :: js where
  "ex_user = JObj [(''role'', JStr ''user''), (''content'', JStr ''go'')]"

text \<open>A stream that broke after it had begun: its call was never admitted.\<close>

definition ex_failed :: js where
  "ex_failed = JObj [(''role'', JStr ''assistant''), (''api'', JStr ''openai-codex-responses''), (''provider'', JStr ''openai-codex''),
     (''stopReason'', JStr ''error''), (''content'', JArr [ex_call ''z|w'' False]),
     (''diagnostics'', JArr [JObj [(''type'', JStr ''provider_transport_failure''), (''details'', JObj [(''eventsEmitted'', JBool True),
        (''phase'', JStr ''after_message_stream_start''), (''configuredTransport'', JStr ''auto'')])]])]"

definition ex_entries :: "js list" where
  "ex_entries = [ex_message ''a'' Null (JObj [(''role'', JStr ''assistant''), (''content'', JArr [ex_call ''x'' True, ex_call ''y'' True])]),
     ex_message ''b'' (JStr ''a'') ex_user, ex_message ''c'' (JStr ''b'') (ex_result ''x''),
     ex_message ''d'' (JStr ''c'') ex_failed]"

definition ex_build :: "js list \<Rightarrow> js \<Rightarrow> js option" where
  "ex_build es leaf = Some (JObj [(''entries'', JArr (map (\<lambda>e. JObj [(''sourceEntry'', e), (''messages'', JArr [jget ''message'' e])]) es)),
     (''messages'', JArr (map (jget ''message'') es))])"

abbreviation ex_project :: "string \<Rightarrow> canonical_view result" where
  "ex_project mode \<equiv> project_canonical_context (\<lambda>_. None) (\<lambda>_. []) id ex_build None mode (JArr ex_entries) (JStr ''d'')"

definition ex_ids :: "js list" where
  "ex_ids = [JStr ''e'']"

lemma ex_native:
  "\<exists>v. ex_project ''native'' = Inr v \<and> length (cv_messages v) = 4 \<and> ex_call ''x'' True \<in> set (message_calls (cv_messages v ! 0))
     \<and> is_result (cv_messages v ! 2) \<and> answered_id (cv_messages v ! 2) = ''x'' \<and> jget ''content'' (cv_messages v ! 3) = JArr []"
proof -
  have "(case ex_project ''native'' of Inr v \<Rightarrow> length (cv_messages v) = 4 \<and> ex_call ''x'' True \<in> set (message_calls (cv_messages v ! 0))
      \<and> is_result (cv_messages v ! 2) \<and> answered_id (cv_messages v ! 2) = ''x'' \<and> jget ''content'' (cv_messages v ! 3) = JArr [] | Inl _ \<Rightarrow> False)"
    by code_simp
  then show ?thesis by (auto split: sum.splits)
qed

lemma ex_ordinary:
  "\<exists>w. ex_project ''ordinary'' = Inr w \<and> map (jget ''role'') (cv_messages w) = [JStr ''assistant'', JStr ''toolResult'', JStr ''user'', JStr ''assistant'']"
proof -
  have "(case ex_project ''ordinary'' of Inr w \<Rightarrow>
      map (jget ''role'') (cv_messages w) = [JStr ''assistant'', JStr ''toolResult'', JStr ''user'', JStr ''assistant''] | Inl _ \<Rightarrow> False)" by code_simp
  then show ?thesis by (auto split: sum.splits)
qed

lemma ex_recovery:
  "\<exists>rs. plan_unknown_recovery (\<lambda>_. None) (\<lambda>_. []) id ex_build None (jint 5) ''native'' (JArr ex_entries) (JStr ''d'') = Inr rs \<and> length rs = 1"
proof -
  have "(case plan_unknown_recovery (\<lambda>_. None) (\<lambda>_. []) id ex_build None (jint 5) ''native'' (JArr ex_entries) (JStr ''d'') of
      Inr rs \<Rightarrow> length rs = 1 | Inl _ \<Rightarrow> False)" by code_simp
  then show ?thesis by (auto split: sum.splits)
qed

lemma ex_branch:
  "\<exists>es. project_canonical_branch (\<lambda>_. None) (\<lambda>_. []) (JArr ex_entries) (JStr ''d'') = Inr (es, []) \<and> length es = 4"
proof -
  have "(case project_canonical_branch (\<lambda>_. None) (\<lambda>_. []) (JArr ex_entries) (JStr ''d'') of
      Inr (es, ds) \<Rightarrow> length es = 4 \<and> ds = [] | Inl _ \<Rightarrow> False)" by code_simp
  then show ?thesis by (auto split: sum.splits)
qed

section \<open>Native and ordinary requests\<close>

lemma calls_of_mem: "c \<in> set bs \<Longrightarrow> is_tool_call c \<Longrightarrow> \<exists>d. (entry_id c, d) \<in> set (calls_of order m eid i bs) \<and> cl_call d = c"
  by (induction bs arbitrary: i) fastforce+

lemma all_calls_mem: "(m, e) \<in> set ms \<Longrightarrow> c \<in> set (message_calls m) \<Longrightarrow> \<exists>d. (entry_id c, d) \<in> set (all_calls order ms) \<and> cl_call d = c"
proof (induction ms arbitrary: order)
  case (Cons x ms)
  then consider "x = (m, e)" | "(m, e) \<in> set ms" by auto
  then show ?case
  proof cases
    case 1
    then show ?thesis using Cons.prems(2) calls_of_mem by (force simp: calls_in_def message_calls_def split: if_splits)
  qed (use Cons in fastforce)
qed simp

lemma answered_movable:
  assumes "index_messages (bare ms) = Inr kept" "m \<in> set ms" "c \<in> set (message_calls m)" "jget ''async'' c = JBool True"
    "r \<in> set ms" "is_result r" "answered_id r = entry_id c"
  shows "entry_id c \<in> set (movable_calls kept)"
proof -
  note k = index_messages_ok [OF assms(1)]
  have "(m, Undef) \<in> set (bare ms)" using assms(2) by (auto simp: bare_def)
  from all_calls_mem [OF this assms(3)] obtain d where d: "(entry_id c, d) \<in> set (ix_calls kept)" "cl_call d = c" using k by fastforce
  have "answered_id r \<in> set (map answered_id (filter is_result ms))" using assms(5, 6) by auto
  also have "map answered_id (filter is_result ms) = map fst (ix_results kept)"
    using k arg_cong [OF bare_results [of 0 ms], of "map fst"] by (simp add: comp_def case_prod_beta)
  finally have "map_of (ix_results kept) (entry_id c) \<noteq> None" using assms(7) by (auto simp: map_of_eq_None_iff)
  then show ?thesis using d assms(4) by (force simp: movable_calls_def)
qed

lemma same_projection:
  assumes "project_canonical_context parse stringify sha build env mode entries leaf = Inr v"
    "project_canonical_context parse stringify sha build env mode' entries leaf = Inr w"
  shows "\<exists>ms kept. index_messages (bare ms) = Inr kept \<and> cv_messages v = (if mode = ''ordinary'' then ordinary_order kept ms else ms)
    \<and> cv_messages w = (if mode' = ''ordinary'' then ordinary_order kept ms else ms) \<and> cv_outstanding v = cv_outstanding w"
proof -
  obtain limit selected ds ix ctx pms where p: "context_units env = Inr limit" "project_canonical_branch parse stringify entries leaf = Inr (selected, ds)"
      "index_messages (branch_messages selected) = Inr ix" "build selected leaf = Some ctx" "project_stock_context ctx selected limit None = Inr pms"
      "finish_context sha stringify mode limit ix selected (map pm_message pms) ds = Inr v"
    using view_parts [OF assms(1)] by blast
  obtain limit' selected' ds' ix' ctx' pms' where q: "context_units env = Inr limit'" "project_canonical_branch parse stringify entries leaf = Inr (selected', ds')"
      "index_messages (branch_messages selected') = Inr ix'" "build selected' leaf = Some ctx'" "project_stock_context ctx' selected' limit' None = Inr pms'"
      "finish_context sha stringify mode' limit' ix' selected' (map pm_message pms') ds' = Inr w"
    using view_parts [OF assms(2)] by blast
  have eq: "limit' = limit" "selected' = selected" "ds' = ds" using p(1, 2) q(1, 2) by simp_all
  have eq': "ix' = ix" "ctx' = ctx" using p(3, 4) q(3, 4) unfolding eq by simp_all
  have "pms' = pms" using p(5) q(5) unfolding eq eq' by simp
  let ?ms = "fst (omit_unadmitted_calls sha stringify ix selected (map pm_message pms) ds)"
  obtain kept where v: "index_messages (bare ?ms) = Inr kept" "cv_messages v = (if mode = ''ordinary'' then ordinary_order kept ?ms else ?ms)"
      "cv_outstanding v = outstanding_calls ix kept"
    using finish_parts [OF p(6)] by blast
  obtain kept' where w: "index_messages (bare ?ms) = Inr kept'" "cv_messages w = (if mode' = ''ordinary'' then ordinary_order kept' ?ms else ?ms)"
      "cv_outstanding w = outstanding_calls ix kept'"
    using finish_parts [OF q(6)] unfolding eq eq' \<open>pms' = pms\<close> by blast
  have "kept' = kept" using v(1) w(1) by simp
  then show ?thesis using v w by (intro exI [of _ ?ms] exI [of _ kept]) simp
qed



section \<open>What a request contains\<close>

lemma omitted_unanswered:
  assumes "index_messages (branch_messages selected) = Inr ix" "omitted_call ix named seen owned c"
  shows "is_tool_call c \<and> jget ''async'' c \<noteq> JBool True \<and> \<not> list_ex (\<lambda>(m, e). is_result m \<and> answered_id m = entry_id c) (branch_messages selected)"
proof -
  note k = index_messages_ok [OF assms(1)]
  have c: "is_tool_call c" "jget ''async'' c \<noteq> JBool True" "map_of (ix_results ix) (entry_id c) = None"
    using assms(2) by (auto simp: omitted_call_def Let_def split: if_splits option.splits)
  have "answered_id m \<in> fst ` set (all_results n ms)" if "(m, e) \<in> set ms" "is_result m" for m e ms n
    using that by (induction ms arbitrary: n) (auto simp: results_in_def is_result_def answered_id_def)
  then show ?thesis using c k by (fastforce simp: list_ex_iff map_of_eq_None_iff)
qed

lemma context_units_bound: "context_units env = Inr limit \<Longrightarrow> limit \<le> 256 * 1024 * 1024"
  by (auto simp: context_units_def require_that_Inr ctx_units_def split: option.splits)



section \<open>Recovery\<close>

lemma plan_parts:
  assumes "plan_unknown_recovery parse stringify sha build env time mode entries leaf = Inr rs"
    "project_canonical_branch parse stringify entries leaf = Inr (selected, ds)" "index_messages (branch_messages selected) = Inr ix"
  shows "\<exists>t. js_safe_int time = Some t \<and> rs = recovery_messages t ix"
proof -
  from assms(1) obtain t v where t: "js_safe_int time = Some t" "project_canonical_context parse stringify sha build env mode entries leaf = Inr v"
      "rs = map (recovery_result t) (cv_outstanding v)"
    by (auto simp: plan_unknown_recovery_def require_that_Inr and_then_Inr split: option.splits)
  from view_parts [OF t(2)] assms(2, 3) obtain limit and pms :: "projected list" where
      "finish_context sha stringify mode limit ix selected (map pm_message pms) ds = Inr v" by auto
  from finish_parts [OF this] t show ?thesis by (auto simp: recovery_of_outstanding)
qed

text \<open>
  C13: Appending the planned results to the branch closes every interrupted call: the branch is still well formed, its calls
  are the same, the results it had are kept, each planned result answers one native call that had none, and no call
  is outstanding any more, so that a second plan is empty.
\<close>

theorem recovery_closes:
  assumes "plan_unknown_recovery parse stringify sha build env time mode entries leaf = Inr rs"
    "project_canonical_branch parse stringify entries leaf = Inr (selected, ds)" "index_messages (branch_messages selected) = Inr ix"
    "length eids = length rs"
  shows "\<exists>new. index_messages (branch_messages selected @ zip rs eids) = Inr (ix\<lparr>ix_results := ix_results ix @ new\<rparr>)
    \<and> map (rs_message \<circ> snd) new = rs \<and> map fst new = map fst (open_calls ix)
    \<and> open_calls (ix\<lparr>ix_results := ix_results ix @ new\<rparr>) = []"
proof -
  obtain t where t: "rs = recovery_messages t ix" using plan_parts [OF assms(1-3)] by blast
  obtain new where new: "index_messages (branch_messages selected @ zip rs eids) = Inr (ix\<lparr>ix_results := ix_results ix @ new\<rparr>)"
      "map (\<lambda>(i, r). (i, rs_message r)) new = map (\<lambda>(i, c). (i, recovery_of t c)) (open_calls ix)"
    using recovery_index [OF assms(3), of eids t] assms(4) t by auto
  have "outstanding_calls (ix\<lparr>ix_results := ix_results ix @ new\<rparr>) ix = []" by (rule recovered_closed [OF new(2)])
  then have "open_calls (ix\<lparr>ix_results := ix_results ix @ new\<rparr>) = []" by (simp add: outstanding_calls_def open_calls_def)
  moreover have "map (rs_message \<circ> snd) new = rs"
    using arg_cong [OF new(2), of "map snd"] by (simp add: t recovery_messages_def comp_def case_prod_beta)
  moreover have "map fst new = map fst (open_calls ix)"
    using arg_cong [OF new(2), of "map fst"] by (simp add: comp_def case_prod_beta)
  ultimately show ?thesis using new(1) by blast
qed

theorem recovery_closes_witness:
  "\<exists>rs es ix new. plan_unknown_recovery (\<lambda>_. None) (\<lambda>_. []) id ex_build None (jint 5) ''native'' (JArr ex_entries) (JStr ''d'') = Inr rs
     \<and> length rs = 1 \<and> index_messages (branch_messages es @ zip rs ex_ids) = Inr (ix\<lparr>ix_results := ix_results ix @ new\<rparr>)
     \<and> open_calls (ix\<lparr>ix_results := ix_results ix @ new\<rparr>) = []"
proof -
  obtain rs where rs: "plan_unknown_recovery (\<lambda>_. None) (\<lambda>_. []) id ex_build None (jint 5) ''native'' (JArr ex_entries) (JStr ''d'') = Inr rs" "length rs = 1"
    using ex_recovery by blast
  obtain es where es: "project_canonical_branch (\<lambda>_. None) (\<lambda>_. []) (JArr ex_entries) (JStr ''d'') = Inr (es, [])" using ex_branch by blast
  have "\<exists>ix. index_messages (branch_messages es) = Inr ix"
    using es by (auto simp: project_canonical_branch_def and_then_Inr)
  then obtain ix where ix: "index_messages (branch_messages es) = Inr ix" ..
  from recovery_closes [OF rs(1) es ix, of ex_ids] rs show ?thesis by (auto simp: ex_ids_def)
qed

end
